(* ===== verification/Prelude.thy ===== *)
theory Prelude
  imports Complex_Main
begin

text \<open>
  What every component shares: the two ways the model writes code that may raise (a result
  of sum type, and a state transformer with a result), the collections of rules for them,
  and the list operations of Python the sources use (slices from an index, \<open>dict\<close>s as
  association lists, loops that collect).
\<close>

named_theorems result_simps \<open>rewriting of results that may be errors\<close>
named_theorems io_simps \<open>unfolding of the state-and-exception combinators\<close>
named_theorems io_rel \<open>composition rules for relations kept by every step of a program\<close>

section \<open>Results that may be errors\<close>

text \<open>
  A pure function that may raise returns \<open>Inl e\<close> for the exception \<open>e\<close> and \<open>Inr x\<close> for the
  value \<open>x\<close>; \<open>bind_res\<close> runs the next statement unless an exception is on its way out.
\<close>

fun bind_res :: "'e + 'a \<Rightarrow> ('a \<Rightarrow> 'e + 'b) \<Rightarrow> 'e + 'b" where
  "bind_res (Inl e) f = Inl e"
| "bind_res (Inr x) f = f x"

lemma bind_res_eq_Inr [result_simps]:
  "bind_res r f = Inr y \<longleftrightarrow> (\<exists>x. r = Inr x \<and> f x = Inr y)"
  by (cases r) auto

lemma bind_res_eq_Inl [result_simps]:
  "bind_res r f = Inl e \<longleftrightarrow> r = Inl e \<or> (\<exists>x. r = Inr x \<and> f x = Inl e)"
  by (cases r) auto

definition of_option :: "'e \<Rightarrow> 'a option \<Rightarrow> 'e + 'a" where
  "of_option e x = (case x of None \<Rightarrow> Inl e | Some v \<Rightarrow> Inr v)"

lemma of_option_simps [simp]: "of_option e None = Inl e" "of_option e (Some v) = Inr v"
  by (simp_all add: of_option_def)

lemma of_option_eq_Inr [result_simps]: "of_option e x = Inr v \<longleftrightarrow> x = Some v"
  by (cases x) auto

text \<open>A list comprehension whose element expression may raise: the first exception wins.\<close>

fun traverse :: "('a \<Rightarrow> 'e + 'b) \<Rightarrow> 'a list \<Rightarrow> 'e + 'b list" where
  "traverse f [] = Inr []"
| "traverse f (x # xs) = bind_res (f x) (\<lambda>y. bind_res (traverse f xs) (\<lambda>ys. Inr (y # ys)))"

lemma traverse_Inr_iff:
  "traverse f xs = Inr ys \<longleftrightarrow> list_all2 (\<lambda>x y. f x = Inr y) xs ys"
proof (induction xs arbitrary: ys)
  case Nil
  then show ?case by auto
next
  case (Cons x xs)
  then show ?case by (cases ys) (auto simp: result_simps)
qed

lemma traverse_length: "traverse f xs = Inr ys \<Longrightarrow> length ys = length xs"
  by (auto simp: traverse_Inr_iff dest: list_all2_lengthD)

lemma traverse_Inr_map: "traverse (\<lambda>x. Inr (f x)) xs = Inr (map f xs)"
  by (induction xs) auto

lemma traverse_cong: "(\<And>x. x \<in> set xs \<Longrightarrow> f x = g x) \<Longrightarrow> traverse f xs = traverse g xs"
  by (induction xs) auto

section \<open>State and exceptions\<close>

text \<open>
  Code with effects maps a state to a result and the state it leaves behind. The state
  survives an exception: what was written before a \<^verbatim>\<open>raise\<close> stays written.
\<close>

type_synonym ('s, 'e, 'a) io = "'s \<Rightarrow> ('e + 'a) \<times> 's"

definition return_io :: "'a \<Rightarrow> ('s, 'e, 'a) io" where
  "return_io x = (\<lambda>s. (Inr x, s))"

definition raise_io :: "'e \<Rightarrow> ('s, 'e, 'a) io" where
  "raise_io e = (\<lambda>s. (Inl e, s))"

definition bind_io :: "('s, 'e, 'a) io \<Rightarrow> ('a \<Rightarrow> ('s, 'e, 'b) io) \<Rightarrow> ('s, 'e, 'b) io" where
  "bind_io m f = (\<lambda>s. case m s of (Inl e, s') \<Rightarrow> (Inl e, s') | (Inr x, s') \<Rightarrow> f x s')"

definition catch_io :: "('s, 'e, 'a) io \<Rightarrow> ('e \<Rightarrow> ('s, 'e, 'a) io) \<Rightarrow> ('s, 'e, 'a) io" where
  "catch_io m h = (\<lambda>s. case m s of (Inl e, s') \<Rightarrow> h e s' | (Inr x, s') \<Rightarrow> (Inr x, s'))"

text \<open>\<open>try_io m\<close> hands the outcome of \<open>m\<close> on as a value, as \<^verbatim>\<open>try/except/else\<close> does.\<close>

definition try_io :: "('s, 'e, 'a) io \<Rightarrow> ('s, 'e, 'e + 'a) io" where
  "try_io m = (\<lambda>s. case m s of (r, s') \<Rightarrow> (Inr r, s'))"

definition lift_io :: "'e + 'a \<Rightarrow> ('s, 'e, 'a) io" where
  "lift_io r = (\<lambda>s. (r, s))"

definition get_io :: "('s \<Rightarrow> 'a) \<Rightarrow> ('s, 'e, 'a) io" where
  "get_io f = (\<lambda>s. (Inr (f s), s))"

definition modify_io :: "('s \<Rightarrow> 's) \<Rightarrow> ('s, 'e, unit) io" where
  "modify_io f = (\<lambda>s. (Inr (), f s))"

fun for_io :: "('a \<Rightarrow> ('s, 'e, unit) io) \<Rightarrow> 'a list \<Rightarrow> ('s, 'e, unit) io" where
  "for_io f [] = return_io ()"
| "for_io f (x # xs) = bind_io (f x) (\<lambda>_. for_io f xs)"

declare return_io_def [io_simps] raise_io_def [io_simps] bind_io_def [io_simps]
  catch_io_def [io_simps] try_io_def [io_simps] lift_io_def [io_simps] get_io_def [io_simps]
  modify_io_def [io_simps]

lemma bind_io_return [simp]: "bind_io (return_io x) f = f x"
  by (simp add: io_simps)

lemma bind_io_raise [simp]: "bind_io (raise_io e) f = raise_io e"
  by (simp add: io_simps)

lemma bind_io_lift [simp]:
  "bind_io (lift_io (Inr x)) f = f x" "bind_io (lift_io (Inl e)) f = raise_io e"
  by (simp_all add: io_simps)

lemma bind_io_Inr:
  "bind_io m f s = (Inr y, t) \<longleftrightarrow> (\<exists>x s'. m s = (Inr x, s') \<and> f x s' = (Inr y, t))"
  by (auto simp: bind_io_def split: prod.splits sum.splits)

lemma bind_io_Inl:
  "bind_io m f s = (Inl e, t) \<longleftrightarrow>
     m s = (Inl e, t) \<or> (\<exists>x s'. m s = (Inr x, s') \<and> f x s' = (Inl e, t))"
  by (auto simp: bind_io_def split: prod.splits sum.splits)

lemma bind_ioE:
  assumes "bind_io m f s = (r, t)"
  obtains (stop) e where "m s = (Inl e, t)" "r = Inl e" | (go) x s' where "m s = (Inr x, s')" "f x s' = (r, t)"
  using assms by (auto simp: bind_io_def split: prod.splits sum.splits)

lemma bind_io_stop: "m s = (Inl e, s') \<Longrightarrow> bind_io m f s = (Inl e, s')"
  by (simp add: bind_io_def)

lemma bind_io_go: "m s = (Inr x, s') \<Longrightarrow> bind_io m f s = f x s'"
  by (simp add: bind_io_def)

text \<open>
  A program keeps a relation \<open>R\<close> when every run of it, returning or raising, ends in a state
  related to the one it started in. With \<open>R\<close> reflexive and transitive this is compositional,
  so frame properties ("this never touches the files", "the call log only grows") follow
  statement by statement.
\<close>

definition keeps :: "('s \<Rightarrow> 's \<Rightarrow> bool) \<Rightarrow> ('s, 'e, 'a) io \<Rightarrow> bool" where
  "keeps R m \<longleftrightarrow> (\<forall>s. R s (snd (m s)))"

lemma keepsD: "keeps R m \<Longrightarrow> m s = (r, t) \<Longrightarrow> R s t"
  unfolding keeps_def by (metis snd_conv)

locale effect =
  fixes R :: "'s \<Rightarrow> 's \<Rightarrow> bool"
  assumes refl: "R s s"
    and trans: "R s t \<Longrightarrow> R t u \<Longrightarrow> R s u"
begin

lemma keeps_pure: "keeps R (return_io x)" "keeps R (raise_io e)" "keeps R (lift_io r)" "keeps R (get_io f)"
  by (simp_all add: keeps_def io_simps refl)

lemma keeps_bind:
  assumes "keeps R m" "\<And>x. keeps R (f x)"
  shows "keeps R (bind_io m f)"
  unfolding keeps_def
proof
  fix s
  obtain r t where m: "m s = (r, t)" by (cases "m s")
  then have st: "R s t" by (rule keepsD [OF assms(1)])
  show "R s (snd (bind_io m f s))"
  proof (cases r)
    case (Inl e)
    then show ?thesis using m st by (simp add: bind_io_def)
  next
    case (Inr x)
    moreover have "R t (snd (f x t))" using assms(2) by (simp add: keeps_def)
    ultimately show ?thesis using m trans [OF st] by (simp add: bind_io_def)
  qed
qed

lemma keeps_catch:
  assumes "keeps R m" "\<And>e. keeps R (h e)"
  shows "keeps R (catch_io m h)"
  unfolding keeps_def
proof
  fix s
  obtain r t where m: "m s = (r, t)" by (cases "m s")
  then have st: "R s t" by (rule keepsD [OF assms(1)])
  show "R s (snd (catch_io m h s))"
  proof (cases r)
    case (Inl e)
    moreover have "R t (snd (h e t))" using assms(2) by (simp add: keeps_def)
    ultimately show ?thesis using m trans [OF st] by (simp add: catch_io_def)
  next
    case (Inr x)
    then show ?thesis using m st by (simp add: catch_io_def)
  qed
qed

lemma keeps_try: "keeps R m \<Longrightarrow> keeps R (try_io m)"
  by (simp add: keeps_def io_simps split_beta)

lemma keeps_if: "keeps R m \<Longrightarrow> keeps R n \<Longrightarrow> keeps R (if b then m else n)"
  by simp

lemma keeps_modify: "(\<And>s. R s (f s)) \<Longrightarrow> keeps R (modify_io f)"
  by (simp add: keeps_def io_simps)

lemma keeps_for: "(\<And>x. x \<in> set xs \<Longrightarrow> keeps R (f x)) \<Longrightarrow> keeps R (for_io f xs)"
  by (induction xs) (auto intro: keeps_pure keeps_bind)

lemma keeps_option:
  "keeps R m \<Longrightarrow> (\<And>x. keeps R (f x)) \<Longrightarrow> keeps R (case v of None \<Rightarrow> m | Some x \<Rightarrow> f x)"
  by (cases v) auto

lemma keeps_sum:
  "(\<And>e. keeps R (g e)) \<Longrightarrow> (\<And>x. keeps R (f x)) \<Longrightarrow> keeps R (case v of Inl e \<Rightarrow> g e | Inr x \<Rightarrow> f x)"
  by (cases v) auto

lemma keeps_pair: "(\<And>a b. keeps R (f a b)) \<Longrightarrow> keeps R (case p of (a, b) \<Rightarrow> f a b)"
  by (cases p) auto

lemmas keeps_rules = keeps_pure keeps_bind keeps_catch keeps_try keeps_if keeps_modify
  keeps_for keeps_option keeps_sum keeps_pair

end

section \<open>Lists and dicts\<close>

text \<open>\<^verbatim>\<open>xs[i:]\<close> for any integer \<open>i\<close>: a negative index counts from the end.\<close>

definition py_from :: "'a list \<Rightarrow> int \<Rightarrow> 'a list" where
  "py_from xs i = (if i < 0 then drop (nat (int (length xs) + i)) xs else drop (nat i) xs)"

lemma py_from_last:
  assumes "0 < n" "n \<le> int (length xs)"
  shows "length (py_from xs (- n)) = nat n" "set (py_from xs (- n)) \<subseteq> set xs"
  using assms by (auto simp: py_from_def nat_diff_distrib dest: in_set_dropD)

lemma py_from_append:
  "0 < n \<Longrightarrow> length ys = nat n \<Longrightarrow> py_from (xs @ ys) (- n) = ys"
  by (simp add: py_from_def)

text \<open>
  A \<^verbatim>\<open>dict\<close> keeps its keys in insertion order and a key at the position it was first
  stored: an association list with distinct keys. \<open>dict_put\<close> is \<^verbatim>\<open>d[k] = v\<close>,
  \<open>dict_pop\<close> removes a key.
\<close>

fun dict_put :: "'k \<Rightarrow> 'v \<Rightarrow> ('k \<times> 'v) list \<Rightarrow> ('k \<times> 'v) list" where
  "dict_put k v [] = [(k, v)]"
| "dict_put k v ((k', v') # d) = (if k' = k then (k, v) # d else (k', v') # dict_put k v d)"

definition dict_pop :: "'k \<Rightarrow> ('k \<times> 'v) list \<Rightarrow> ('k \<times> 'v) list" where
  "dict_pop k d = filter (\<lambda>(k', _). k' \<noteq> k) d"

lemma map_of_dict_put [simp]: "map_of (dict_put k v d) = (map_of d)(k \<mapsto> v)"
  by (induction d) auto

lemma keys_dict_put [simp]: "fst ` set (dict_put k v d) = insert k (fst ` set d)"
  by (induction d) (force split: if_splits)+

lemma distinct_dict_put: "distinct (map fst d) \<Longrightarrow> distinct (map fst (dict_put k v d))"
proof (induction d)
  case (Cons p d)
  then show ?case
    using keys_dict_put [of k v d] by (cases p) (auto simp flip: set_map)
qed simp

lemma set_dict_put: "set (dict_put k v d) \<subseteq> insert (k, v) (set d)"
  by (induction d) (auto split: if_splits)

lemma dict_put_new: "k \<notin> fst ` set d \<Longrightarrow> dict_put k v d = d @ [(k, v)]"
  by (induction d) force+

lemma map_of_dict_pop [simp]: "map_of (dict_pop k d) = (map_of d)(k := None)"
  by (induction d) (auto simp: dict_pop_def)

lemma keys_dict_pop [simp]: "fst ` set (dict_pop k d) = fst ` set d - {k}"
  by (auto simp: dict_pop_def)

lemma distinct_dict_pop: "distinct (map fst d) \<Longrightarrow> distinct (map fst (dict_pop k d))"
  by (induction d) (auto simp: dict_pop_def)

lemma set_dict_pop: "set (dict_pop k d) \<subseteq> set d"
  by (auto simp: dict_pop_def)

text \<open>\<^verbatim>\<open>next((x for x in xs if p(x)), None)\<close>.\<close>

lemma find_Some_iff': "find P xs = Some x \<Longrightarrow> x \<in> set xs \<and> P x"
  by (induction xs) (auto split: if_splits)

end
