(* ===== verification/Py_Float.thy ===== *)
theory Py_Float
  imports Complex_Main
begin

text \<open>
  Python's \<^verbatim>\<open>float\<close>: the values are the rational numbers with a 53-bit
  significand, and every operation is the exact operation followed by one rounding to the
  nearest such number, ties to even, which is what IEEE 754 binary64 arithmetic does.
  A numeric literal of the source is \<open>flt\<close> of the decimal as written.
  The exponent is unbounded, so overflow to infinity, subnormal numbers, NaN and the sign of
  zero are outside the model.
  The second half models the builtins the package applies to floats: \<^verbatim>\<open>round\<close>
  with and without digits, the division that raises, and \<^verbatim>\<open>sum\<close>, which
  since Python 3.12 (the version \<^verbatim>\<open>pyproject.toml\<close> pins) compensates
  rounding errors by Neumaier's algorithm.
\<close>

section \<open>Rounding to an integer, ties to even\<close>

definition round_half_even :: "rat \<Rightarrow> int" where
  "round_half_even x =
     (let f = \<lfloor>x\<rfloor>; d = x - of_int f
      in if d < 1 / 2 then f else if 1 / 2 < d then f + 1 else if even f then f else f + 1)"

lemma round_half_even_of_int [simp]: "round_half_even (of_int n) = n"
  by (simp add: round_half_even_def)

lemma round_half_even_numeral [simp]:
  "round_half_even (numeral k) = numeral k" "round_half_even (- numeral k) = - numeral k"
  "round_half_even 0 = 0" "round_half_even 1 = 1"
  using round_half_even_of_int [of "numeral k"] round_half_even_of_int [of "- numeral k"]
    round_half_even_of_int [of 0] round_half_even_of_int [of 1]
  by simp_all

lemma round_half_even_error: "\<bar>of_int (round_half_even x) - x\<bar> \<le> 1 / 2"
proof -
  have "of_int \<lfloor>x\<rfloor> \<le> x" "x < of_int \<lfloor>x\<rfloor> + 1"
    by linarith+
  then show ?thesis
    unfolding round_half_even_def Let_def abs_if by (simp split: if_splits) linarith+
qed

lemma round_half_even_mono: "x \<le> y \<Longrightarrow> round_half_even x \<le> round_half_even y"
proof -
  assume xy: "x \<le> y"
  consider "\<lfloor>x\<rfloor> = \<lfloor>y\<rfloor>" | "\<lfloor>x\<rfloor> + 1 \<le> \<lfloor>y\<rfloor>"
    using floor_mono [OF xy] by linarith
  then show ?thesis
  proof cases
    case 1
    then show ?thesis using xy by (auto simp: round_half_even_def Let_def)
  next
    case 2
    have "round_half_even x \<le> \<lfloor>x\<rfloor> + 1" and "\<lfloor>y\<rfloor> \<le> round_half_even y"
      by (auto simp: round_half_even_def Let_def)
    with 2 show ?thesis by linarith
  qed
qed

lemma round_half_even_unique:
  assumes "\<bar>x - of_int n\<bar> < 1 / 2"
  shows "round_half_even x = n"
proof -
  have "\<bar>of_int (round_half_even x) - (of_int n :: rat)\<bar> < 1"
    using round_half_even_error [of x] assms by linarith
  then have "\<bar>of_int (round_half_even x - n) :: rat\<bar> < 1"
    by simp
  then have "\<bar>round_half_even x - n\<bar> < 1"
    by (metis of_int_abs of_int_less_1_iff)
  then show ?thesis by linarith
qed

lemma round_half_even_minus: "round_half_even (- x) = - round_half_even x"
proof (cases "x = of_int \<lfloor>x\<rfloor>")
  case True
  then have "- x = of_int (- \<lfloor>x\<rfloor>)" by simp
  then show ?thesis
    using True round_half_even_of_int by metis
next
  case False
  then have "\<lfloor>- x\<rfloor> = - \<lfloor>x\<rfloor> - 1"
    by linarith
  then show ?thesis
    by (auto simp: round_half_even_def Let_def)
qed

section \<open>Rounding to 53 significant bits\<close>

fun bitlen :: "nat \<Rightarrow> nat" where
  "bitlen n = (if n = 0 then 0 else Suc (bitlen (n div 2)))"

declare bitlen.simps [simp del]

lemma bitlen_bounds: "0 < n \<Longrightarrow> 2 ^ (bitlen n - 1) \<le> n \<and> n < 2 ^ bitlen n"
proof (induction n rule: bitlen.induct)
  case (1 n)
  show ?case
  proof (cases "n div 2 = 0")
    case True
    with "1.prems" have "n = 1" by linarith
    then show ?thesis by (simp add: bitlen.simps)
  next
    case False
    with 1 have IH: "2 ^ (bitlen (n div 2) - 1) \<le> n div 2" "n div 2 < 2 ^ bitlen (n div 2)"
      by auto
    have pos: "0 < bitlen (n div 2)"
      using False by (subst bitlen.simps) simp
    have eq: "bitlen n = Suc (bitlen (n div 2))"
      using "1.prems" by (subst bitlen.simps) simp
    have "2 ^ bitlen (n div 2) = 2 * (2 ^ (bitlen (n div 2) - 1) :: nat)"
      using pos by (cases "bitlen (n div 2)") simp_all
    with IH show ?thesis unfolding eq by simp linarith
  qed
qed

text \<open>The binary exponent of a positive rational: \<open>2 powi expo x \<le> x < 2 powi (expo x + 1)\<close>.\<close>

definition expo :: "rat \<Rightarrow> int" where
  "expo x = (case quotient_of x of (p, q) \<Rightarrow>
     let e = int (bitlen (nat p)) - int (bitlen (nat q)) in if 2 powi e \<le> x then e else e - 1)"

lemma nat_pow_bounds:
  assumes "0 < p" "a = bitlen (nat p)"
  shows "2 powi (int a - 1) \<le> (of_int p :: rat)" "(of_int p :: rat) < 2 powi int a"
proof -
  have b: "2 ^ (a - 1) \<le> nat p" "nat p < 2 ^ a"
    using bitlen_bounds [of "nat p"] assms by auto
  have a: "0 < a"
    using b(2) assms(1) by (cases a) auto
  have "int (2 ^ (a - 1)) \<le> p" "p < int (2 ^ a)"
    using b assms(1) by linarith+
  then have "(2 ^ (a - 1) :: int) \<le> p" "p < (2 ^ a :: int)"
    by simp_all
  then have "of_int (2 ^ (a - 1)) \<le> (of_int p :: rat)" "(of_int p :: rat) < of_int (2 ^ a)"
    by (simp_all only: of_int_le_iff of_int_less_iff)
  moreover have "(2 :: rat) powi (int a - 1) = 2 ^ (a - 1)"
    using a by (simp add: power_int_def nat_diff_distrib)
  moreover have "(2 :: rat) powi int a = 2 ^ a"
    by (simp add: power_int_def)
  ultimately show "2 powi (int a - 1) \<le> (of_int p :: rat)" "(of_int p :: rat) < 2 powi int a"
    by simp_all
qed

lemma expo_bounds:
  assumes "0 < x"
  shows "2 powi expo x \<le> x" "x < 2 powi (expo x + 1)"
proof -
  obtain p q where pq: "quotient_of x = (p, q)" by (cases "quotient_of x")
  then have x: "x = of_int p / of_int q" and q: "0 < q"
    by (auto intro: quotient_of_div quotient_of_denom_pos)
  have p: "0 < p"
    using assms x q by (simp add: zero_less_divide_iff)
  define a b where "a = bitlen (nat p)" and "b = bitlen (nat q)"
  note pb = nat_pow_bounds [OF p a_def] and qb = nat_pow_bounds [OF q b_def]
  have "(2 :: rat) powi (int a - 1 - int b) = 2 powi (int a - 1) / 2 powi int b"
    by (simp add: power_int_diff)
  also have "\<dots> \<le> of_int p / of_int q"
    using pb(1) qb p q by (intro frac_le) auto
  finally have lo: "2 powi (int a - int b - 1) \<le> x"
    by (simp add: x algebra_simps)
  have "x < 2 powi int a / 2 powi (int b - 1)"
    unfolding x using pb(2) qb p q by (intro frac_less) auto
  also have "\<dots> = 2 powi (int a - (int b - 1))"
    by (rule power_int_diff [symmetric]) simp
  also have "\<dots> = 2 powi (int a - int b + 1)"
    by (rule arg_cong [where f = "power_int 2"]) simp
  finally have hi: "x < 2 powi (int a - int b + 1)" .
  show "2 powi expo x \<le> x" "x < 2 powi (expo x + 1)"
    using lo hi pq by (auto simp: expo_def a_def b_def Let_def)
qed

lemma powi_mono2: "a \<le> b \<Longrightarrow> (2 :: rat) powi a \<le> 2 powi b"
  by (rule power_int_increasing) auto

lemma powi_pos2 [simp]: "0 < (2 :: rat) powi a"
  by simp

lemma powi_less2_D: "(2 :: rat) powi a < 2 powi b \<Longrightarrow> a < b"
  using powi_mono2 [of b a] by (meson leI leD)

lemma powi_Suc2: "(2 :: rat) powi (a + 1) = 2 * 2 powi a"
  by (simp add: power_int_add)

lemma expo_unique:
  assumes "2 powi e \<le> x" "x < 2 powi (e + 1)"
  shows "expo x = e"
proof -
  have "0 < x" using assms(1) powi_pos2 [of e] by linarith
  note b = expo_bounds [OF this]
  have "e < expo x + 1" using powi_less2_D assms(1) b(2) by (meson le_less_trans)
  moreover have "expo x < e + 1" using powi_less2_D assms(2) b(1) by (meson le_less_trans)
  ultimately show ?thesis by linarith
qed

lemma expo_mono: "0 < x \<Longrightarrow> x \<le> y \<Longrightarrow> expo x \<le> expo y"
proof -
  assume "0 < x" "x \<le> y"
  then have "2 powi expo x < (2 :: rat) powi (expo y + 1)"
    using expo_bounds [of x] expo_bounds [of y] by linarith
  then show ?thesis using powi_less2_D by fastforce
qed

definition rnd :: "rat \<Rightarrow> rat" where
  "rnd x = (if x = 0 then 0
     else let u = 2 powi (expo \<bar>x\<bar> - 52) in of_int (round_half_even (x / u)) * u)"

text \<open>The numbers a significand of 53 bits can hold.\<close>

definition is_flt :: "rat \<Rightarrow> bool" where
  "is_flt x \<longleftrightarrow> (\<exists>m e. x = of_int m * 2 powi e \<and> \<bar>m\<bar> \<le> 2 ^ 53)"

lemma is_fltI: "x = of_int m * 2 powi e \<Longrightarrow> \<bar>m\<bar> \<le> 2 ^ 53 \<Longrightarrow> is_flt x"
  by (auto simp: is_flt_def)

lemma is_flt_0 [simp]: "is_flt 0"
  by (rule is_fltI [where m = 0 and e = 0]) auto

lemma is_flt_minus: "is_flt x \<Longrightarrow> is_flt (- x)"
  unfolding is_flt_def by (metis abs_minus_cancel mult_minus_left of_int_minus)

lemma is_flt_of_int: "\<bar>n\<bar> \<le> 2 ^ 53 \<Longrightarrow> is_flt (of_int n)"
  by (rule is_fltI [where m = n and e = 0]) auto

lemma rnd_0 [simp]: "rnd 0 = 0"
  by (simp add: rnd_def)

lemma rnd_minus: "rnd (- x) = - rnd x"
  by (simp add: rnd_def Let_def round_half_even_minus)

lemma powi_nat_int: "0 \<le> k \<Longrightarrow> (2 :: rat) powi k = of_int (2 ^ nat k)"
  by (simp add: power_int_def)

lemma rnd_pos_bounds:
  assumes "0 < x"
  shows "2 powi expo x \<le> rnd x" "rnd x \<le> 2 powi (expo x + 1)"
proof -
  define u where "u = (2 :: rat) powi (expo x - 52)"
  have u: "0 < u" by (simp add: u_def)
  have r: "rnd x = of_int (round_half_even (x / u)) * u"
    using assms by (simp add: rnd_def u_def Let_def)
  have e: "2 powi expo x = of_int (2 ^ 52) * u" "2 powi (expo x + 1) = of_int (2 ^ 53) * u"
    by (simp_all add: u_def power_int_diff power_int_add)
  have "of_int (2 ^ 52) \<le> x / u" "x / u \<le> of_int (2 ^ 53)"
    using expo_bounds [OF assms] u unfolding e by (simp_all add: field_simps)
  then have "2 ^ 52 \<le> round_half_even (x / u)" "round_half_even (x / u) \<le> 2 ^ 53"
    using round_half_even_mono round_half_even_of_int by metis+
  then have "of_int (2 ^ 52) \<le> (of_int (round_half_even (x / u)) :: rat)"
      "(of_int (round_half_even (x / u)) :: rat) \<le> of_int (2 ^ 53)"
    by (simp_all only: of_int_le_iff)
  then show "2 powi expo x \<le> rnd x" "rnd x \<le> 2 powi (expo x + 1)"
    unfolding r e using u by (simp_all only: mult_right_mono less_imp_le)
qed

lemma is_flt_rnd_pos: "0 < x \<Longrightarrow> is_flt (rnd x)"
proof -
  assume x: "0 < x"
  define u where "u = (2 :: rat) powi (expo x - 52)"
  have u: "0 < u" by (simp add: u_def)
  define m where "m = round_half_even (x / u)"
  have r: "rnd x = of_int m * u"
    using x by (simp add: rnd_def u_def Let_def m_def)
  have "2 powi expo x = of_int (2 ^ 52) * u" "2 powi (expo x + 1) = of_int (2 ^ 53) * u"
    by (simp_all add: u_def power_int_diff power_int_add)
  with rnd_pos_bounds [OF x] have "of_int (2 ^ 52) * u \<le> of_int m * u" "of_int m * u \<le> of_int (2 ^ 53) * u"
    unfolding r by (simp_all only:)
  then have "2 ^ 52 \<le> m" "m \<le> 2 ^ 53"
    using u by (simp_all only: mult_le_cancel_right_pos of_int_le_iff)
  then show ?thesis
    unfolding r u_def by (intro is_fltI [OF refl]) auto
qed

lemma is_flt_rnd [simp]: "is_flt (rnd x)"
proof -
  consider "x = 0" | "0 < x" | "0 < - x" by linarith
  then show ?thesis
  proof cases
    case 3
    from is_flt_minus [OF is_flt_rnd_pos [OF 3]] show ?thesis by (simp add: rnd_minus)
  qed (auto intro: is_flt_rnd_pos)
qed

text \<open>A normal form: a positive float is \<open>m\<close> units in the last place of its own binade.\<close>

lemma is_flt_ulp:
  assumes "is_flt x" "0 < x"
  shows "\<exists>k. x = of_int k * 2 powi (expo x - 52)"
proof -
  obtain m e where x: "x = of_int m * 2 powi e" and m: "\<bar>m\<bar> \<le> 2 ^ 53"
    using assms(1) by (auto simp: is_flt_def)
  have m0: "0 < m"
    using assms(2) powi_pos2 [of e] unfolding x by (metis of_int_0_less_iff zero_less_mult_pos2)
  show ?thesis
  proof (cases "expo x - 52 \<le> e")
    case True
    then have "2 powi e = (of_int (2 ^ nat (e - (expo x - 52))) :: rat) * 2 powi (expo x - 52)"
      using powi_nat_int [of "e - (expo x - 52)"]
        power_int_add [of "2 :: rat" "e - (expo x - 52)" "expo x - 52"] by simp
    then have "x = of_int (m * 2 ^ nat (e - (expo x - 52))) * 2 powi (expo x - 52)"
      using x by (simp only: of_int_mult mult.assoc)
    then show ?thesis ..
  next
    case False
    have "m = 2 ^ 53"
    proof (rule ccontr)
      assume "m \<noteq> 2 ^ 53"
      with m m0 have "m < 2 ^ 53" by linarith
      then have "(of_int m :: rat) < of_int (2 ^ 53)" by (simp only: of_int_less_iff)
      then have "x < 2 powi (e + 53)"
        unfolding x by (simp add: power_int_add)
      moreover have "2 powi expo x \<le> x" using expo_bounds assms(2) by blast
      ultimately have "expo x < e + 53" using powi_less2_D by (meson le_less_trans)
      with False show False by linarith
    qed
    then have "x = 2 powi (e + 53)" by (simp add: x power_int_add)
    then have "expo x = e + 53" by (intro expo_unique) (auto simp: power_int_add)
    then have "x = of_int (2 ^ 52) * 2 powi (expo x - 52)"
      by (simp add: x \<open>m = 2 ^ 53\<close> power_int_add)
    then show ?thesis ..
  qed
qed

lemma rnd_id_pos: "is_flt x \<Longrightarrow> 0 < x \<Longrightarrow> rnd x = x"
proof -
  assume a: "is_flt x" "0 < x"
  then obtain k where k: "x = of_int k * 2 powi (expo x - 52)" using is_flt_ulp by blast
  then have "x / 2 powi (expo x - 52) = of_int k"
    by (metis nonzero_mult_div_cancel_right powi_pos2 less_irrefl)
  then show ?thesis using a k by (simp add: rnd_def Let_def)
qed

lemma rnd_id: "is_flt x \<Longrightarrow> rnd x = x"
proof -
  assume a: "is_flt x"
  consider "x = 0" | "0 < x" | "0 < - x" by linarith
  then show ?thesis
  proof cases
    case 3
    have "rnd (- x) = - x" using a 3 is_flt_minus rnd_id_pos by blast
    then show ?thesis by (simp add: rnd_minus)
  qed (use a rnd_id_pos in auto)
qed

lemma rnd_mono_pos: "0 < x \<Longrightarrow> x \<le> y \<Longrightarrow> rnd x \<le> rnd y"
proof -
  assume a: "0 < x" "x \<le> y"
  have "expo x \<le> expo y" using a expo_mono by blast
  then consider "expo x = expo y" | "expo x + 1 \<le> expo y" by linarith
  then show ?thesis
  proof cases
    case 1
    have "x / 2 powi (expo y - 52) \<le> y / 2 powi (expo y - 52)"
      using a by (intro divide_right_mono) auto
    then have "(of_int (round_half_even (x / 2 powi (expo y - 52))) :: rat)
        \<le> of_int (round_half_even (y / 2 powi (expo y - 52)))"
      by (simp add: round_half_even_mono)
    then show ?thesis using a 1 by (simp add: rnd_def Let_def mult_right_mono)
  next
    case 2
    have "rnd x \<le> 2 powi (expo x + 1)" using rnd_pos_bounds a by blast
    also have "\<dots> \<le> 2 powi expo y" using 2 by (rule powi_mono2)
    also have "\<dots> \<le> rnd y" using rnd_pos_bounds a by force
    finally show ?thesis .
  qed
qed

lemma rnd_nonneg: "0 \<le> x \<Longrightarrow> 0 \<le> rnd x"
  using rnd_pos_bounds(1) [of x] powi_pos2 [of "expo x"] by (cases "x = 0") (simp, linarith)

lemma rnd_mono: "x \<le> y \<Longrightarrow> rnd x \<le> rnd y"
proof -
  assume xy: "x \<le> y"
  consider "0 < x" | "x \<le> 0" "0 \<le> y" | "y < 0" by linarith
  then show ?thesis
  proof cases
    case 1
    then show ?thesis using xy rnd_mono_pos by blast
  next
    case 2
    then have "0 \<le> - rnd x" "0 \<le> rnd y"
      using rnd_nonneg [of "- x"] rnd_nonneg [of y] by (simp_all add: rnd_minus)
    then show ?thesis by linarith
  next
    case 3
    then have "rnd (- y) \<le> rnd (- x)" using xy by (intro rnd_mono_pos) auto
    then show ?thesis by (simp add: rnd_minus)
  qed
qed

text \<open>
  What the rest of the development uses of the rounding: it lands on representable numbers,
  leaves them alone, and is monotone and odd. These four laws are the interface; the concrete
  \<open>rnd\<close> provides them.
\<close>

locale rounding =
  fixes F :: "rat \<Rightarrow> bool" and R :: "rat \<Rightarrow> rat"
  assumes lands: "F (R x)"
    and fixed: "F x \<Longrightarrow> R x = x"
    and mono: "x \<le> y \<Longrightarrow> R x \<le> R y"
    and odd: "R (- x) = - R x"
begin

lemma idem: "R (R x) = R x"
  by (rule fixed [OF lands])

lemma zero: "R 0 = 0"
  using odd [of 0] by simp

lemma ge_of: "F y \<Longrightarrow> y \<le> x \<Longrightarrow> y \<le> R x"
  using mono [of y x] by (simp add: fixed)

lemma le_of: "F y \<Longrightarrow> x \<le> y \<Longrightarrow> R x \<le> y"
  using mono [of x y] by (simp add: fixed)

lemma nonneg: "0 \<le> x \<Longrightarrow> 0 \<le> R x"
  using mono [of 0 x] by (simp add: zero)

lemma nonpos: "x \<le> 0 \<Longrightarrow> R x \<le> 0"
  using mono [of x 0] by (simp add: zero)

lemma less_reflect: "R x < R y \<Longrightarrow> x < y"
  using mono [of y x] by linarith

lemma abs_commute: "R \<bar>x\<bar> = \<bar>R x\<bar>"
  using nonneg [of x] nonpos [of x] by (auto simp: abs_if odd)

end

interpretation ieee: rounding is_flt rnd
  by unfold_locales (simp_all add: rnd_id rnd_mono rnd_minus)

lemma rnd_pos_iff [simp]: "0 < rnd x \<longleftrightarrow> 0 < x"
proof
  show "0 < rnd x \<Longrightarrow> 0 < x"
    using ieee.less_reflect [of 0 x] by simp
  show "0 < x \<Longrightarrow> 0 < rnd x"
    using rnd_pos_bounds(1) [of x] powi_pos2 [of "expo x"] by linarith
qed

lemma rnd_neg_iff [simp]: "rnd x < 0 \<longleftrightarrow> x < 0"
  using rnd_pos_iff [of "- x"] by (simp add: rnd_minus)

lemma rnd_eq_0_iff [simp]: "rnd x = 0 \<longleftrightarrow> x = 0"
  using rnd_pos_iff [of x] rnd_neg_iff [of x] by linarith

lemma rnd_le_0_iff [simp]: "rnd x \<le> 0 \<longleftrightarrow> x \<le> 0"
  using rnd_pos_iff [of x] by linarith

lemma rnd_ge_0_iff [simp]: "0 \<le> rnd x \<longleftrightarrow> 0 \<le> x"
  using rnd_neg_iff [of x] by linarith

lemma is_flt_double: "is_flt x \<Longrightarrow> is_flt (2 * x)"
proof -
  assume "is_flt x"
  then obtain m e where "x = of_int m * 2 powi e" "\<bar>m\<bar> \<le> 2 ^ 53"
    by (auto simp: is_flt_def)
  then show ?thesis
    by (intro is_fltI [where m = m and e = "e + 1"]) (auto simp: powi_Suc2)
qed

lemma rnd_double: "rnd (2 * x) = 2 * rnd x"
proof (cases "x = 0")
  case False
  then have "expo (2 * \<bar>x\<bar>) = expo \<bar>x\<bar> + 1"
    using expo_bounds [of "\<bar>x\<bar>"] by (intro expo_unique) (auto simp: power_int_add)
  then have e: "expo \<bar>2 * x\<bar> - 52 = (expo \<bar>x\<bar> - 52) + 1"
    by (simp add: abs_mult)
  show ?thesis
    using False unfolding rnd_def e powi_Suc2 by (simp add: Let_def)
qed simp

text \<open>Sterbenz: the difference of two floats within a factor of two is a float.\<close>

lemma is_flt_diff_wlog:
  assumes "is_flt x" "is_flt y" "0 \<le> x" "x \<le> y" "y \<le> 2 * x"
  shows "is_flt (y - x)"
proof -
  obtain m e n f where x: "x = of_int m * 2 powi e" "\<bar>m\<bar> \<le> 2 ^ 53"
      and y: "y = of_int n * 2 powi f" "\<bar>n\<bar> \<le> 2 ^ 53"
    using assms(1,2) by (auto simp: is_flt_def)
  define g where "g = min e f"
  have scale: "(2 :: rat) powi k = of_int (2 ^ nat (k - g)) * 2 powi g" if "g \<le> k" for k
    using that powi_nat_int [of "k - g"] power_int_add [of "2 :: rat" "k - g" g] by simp
  define k where "k = n * 2 ^ nat (f - g) - m * 2 ^ nat (e - g)"
  have d: "y - x = of_int k * 2 powi g"
    unfolding x y k_def using scale [of e] scale [of f] by (simp add: g_def algebra_simps)
  have k0: "0 \<le> k"
    using assms(4) d powi_pos2 [of g] by (metis diff_ge_0_iff_ge of_int_0_le_iff zero_le_mult_iff not_le less_le)
  have kx: "of_int k * 2 powi g \<le> x" and ky: "of_int k * 2 powi g \<le> y"
    using assms d by linarith+
  have "k \<le> m \<or> k \<le> n"
  proof (cases "e \<le> f")
    case True
    then have "of_int k * 2 powi g \<le> of_int m * (2 powi g :: rat)"
      using kx x(1) by (simp add: g_def min_def)
    then show ?thesis using powi_pos2 [of g] by (simp only: mult_le_cancel_right_pos of_int_le_iff simp_thms)
  next
    case False
    then have "of_int k * 2 powi g \<le> of_int n * (2 powi g :: rat)"
      using ky y(1) by (simp add: g_def min_def)
    then show ?thesis using powi_pos2 [of g] by (simp only: mult_le_cancel_right_pos of_int_le_iff simp_thms)
  qed
  then have "\<bar>k\<bar> \<le> 2 ^ 53" using k0 x(2) y(2) by linarith
  then show ?thesis by (rule is_fltI [OF d])
qed

section \<open>The type of floats\<close>

typedef pyfloat = "{x. is_flt x}" morphisms rat_of Abs_pyfloat
  by (rule exI [of _ 0]) simp

setup_lifting type_definition_pyfloat

text \<open>A literal of the source, or any exact value, rounded to the nearest float.\<close>

lift_definition flt :: "rat \<Rightarrow> pyfloat" is rnd
  by simp

instantiation pyfloat :: "{zero, one, plus, minus, uminus, times, inverse, abs, linorder, equal}"
begin

lift_definition zero_pyfloat :: pyfloat is 0 by simp
lift_definition one_pyfloat :: pyfloat is 1
  using is_flt_of_int [of 1] by simp
lift_definition plus_pyfloat :: "pyfloat \<Rightarrow> pyfloat \<Rightarrow> pyfloat" is "\<lambda>x y. rnd (x + y)" by simp
lift_definition minus_pyfloat :: "pyfloat \<Rightarrow> pyfloat \<Rightarrow> pyfloat" is "\<lambda>x y. rnd (x - y)" by simp
lift_definition uminus_pyfloat :: "pyfloat \<Rightarrow> pyfloat" is uminus by (rule is_flt_minus)
lift_definition times_pyfloat :: "pyfloat \<Rightarrow> pyfloat \<Rightarrow> pyfloat" is "\<lambda>x y. rnd (x * y)" by simp
lift_definition inverse_pyfloat :: "pyfloat \<Rightarrow> pyfloat" is "\<lambda>x. rnd (inverse x)" by simp
lift_definition divide_pyfloat :: "pyfloat \<Rightarrow> pyfloat \<Rightarrow> pyfloat" is "\<lambda>x y. rnd (x / y)" by simp
lift_definition abs_pyfloat :: "pyfloat \<Rightarrow> pyfloat" is abs
  by (auto simp: abs_if is_flt_minus)
lift_definition less_eq_pyfloat :: "pyfloat \<Rightarrow> pyfloat \<Rightarrow> bool" is "(\<le>)" .
lift_definition less_pyfloat :: "pyfloat \<Rightarrow> pyfloat \<Rightarrow> bool" is "(<)" .
lift_definition equal_pyfloat :: "pyfloat \<Rightarrow> pyfloat \<Rightarrow> bool" is "(=)" .

instance
  by intro_classes (transfer, auto)+

end

lemma is_flt_rat_of [simp]: "is_flt (rat_of a)"
  using rat_of [of a] by simp

lemma rnd_rat_of [simp]: "rnd (rat_of a) = rat_of a"
  by (simp add: rnd_id)

lemma rat_of_simps [simp]:
  "rat_of (flt q) = rnd q" "rat_of 0 = 0" "rat_of 1 = 1" "rat_of (- a) = - rat_of a"
  "rat_of \<bar>a\<bar> = \<bar>rat_of a\<bar>"
  by (transfer; simp)+

lemma rat_of_arith:
  "rat_of (a + b) = rnd (rat_of a + rat_of b)" "rat_of (a - b) = rnd (rat_of a - rat_of b)"
  "rat_of (a * b) = rnd (rat_of a * rat_of b)" "rat_of (a / b) = rnd (rat_of a / rat_of b)"
  by (transfer; simp)+

lemma pyfloat_eq_iff: "a = b \<longleftrightarrow> rat_of a = rat_of b"
  by transfer simp

lemma pyfloat_le_iff: "a \<le> b \<longleftrightarrow> rat_of a \<le> rat_of b"
  by transfer simp

lemma pyfloat_less_iff: "a < b \<longleftrightarrow> rat_of a < rat_of b"
  by transfer simp

lemmas pyfloat_iffs = pyfloat_eq_iff pyfloat_le_iff pyfloat_less_iff

lemma flt_rat_of [simp]: "flt (rat_of a) = a"
  by (simp add: pyfloat_eq_iff)

lemma flt_01 [simp]: "flt 0 = 0" "flt 1 = 1"
  using rnd_id [OF is_flt_of_int [of 1]] by (simp_all add: pyfloat_eq_iff)

lemma flt_minus: "flt (- q) = - flt q"
  by (simp add: pyfloat_eq_iff rnd_minus)

lemma flt_mono: "p \<le> q \<Longrightarrow> flt p \<le> flt q"
  by (simp add: pyfloat_le_iff rnd_mono)

lemma flt_sign_iffs [simp]:
  "0 < flt q \<longleftrightarrow> 0 < q" "flt q < 0 \<longleftrightarrow> q < 0" "0 \<le> flt q \<longleftrightarrow> 0 \<le> q" "flt q \<le> 0 \<longleftrightarrow> q \<le> 0"
  "flt q = 0 \<longleftrightarrow> q = 0"
  by (simp_all add: pyfloat_iffs)

text \<open>
  Exact cases, for evaluation: integers up to \<open>2 ^ 53\<close>, and quotients of them by powers
  of two.
\<close>

lemma rnd_numeral [simp]: "numeral k \<le> (2 ^ 53 :: int) \<Longrightarrow> rnd (numeral k) = numeral k"
  using rnd_id [OF is_flt_of_int [of "numeral k"]] by simp

lemma rnd_one [simp]: "rnd 1 = 1"
  using rnd_id [OF is_flt_of_int [of 1]] by simp

lemma rnd_dyadic: "\<bar>m\<bar> \<le> 2 ^ 53 \<Longrightarrow> rnd (of_int m / 2 ^ k) = of_int m / 2 ^ k"
  by (rule rnd_id, rule is_fltI [where m = m and e = "- int k"]) (simp_all add: power_int_def field_simps)

section \<open>Laws of rounded arithmetic\<close>

lemma pyfloat_add_commute: "(a :: pyfloat) + b = b + a"
  by (simp add: pyfloat_eq_iff rat_of_arith add.commute)

lemma pyfloat_mult_commute: "(a :: pyfloat) * b = b * a"
  by (simp add: pyfloat_eq_iff rat_of_arith mult.commute)

lemma pyfloat_neutral [simp]:
  fixes a :: pyfloat
  shows "a + 0 = a" "0 + a = a" "a - 0 = a" "0 - a = - a" "a - a = 0"
    "a * 1 = a" "1 * a = a" "a * 0 = 0" "0 * a = 0" "a / 1 = a" "0 / a = 0" "- (- a) = a" "- (0 :: pyfloat) = 0"
  by (simp_all add: pyfloat_eq_iff rat_of_arith rnd_minus)

lemma pyfloat_minus_diff: "- (a - b) = (b :: pyfloat) - a"
  by (simp add: pyfloat_eq_iff rat_of_arith rnd_minus [symmetric])

lemma pyfloat_abs_diff_commute: "\<bar>a - b\<bar> = \<bar>b - (a :: pyfloat)\<bar>"
  by (simp add: pyfloat_eq_iff rat_of_arith ieee.abs_commute [symmetric] abs_minus_commute)

lemma pyfloat_div_self: "a \<noteq> 0 \<Longrightarrow> a / a = (1 :: pyfloat)"
  by (simp add: pyfloat_eq_iff rat_of_arith)

lemma pyfloat_div_minus: "a \<noteq> 0 \<Longrightarrow> (- a) / a = (- 1 :: pyfloat)"
  by (simp add: pyfloat_eq_iff rat_of_arith rnd_minus)

lemma pyfloat_add_mono: "a \<le> b \<Longrightarrow> c \<le> d \<Longrightarrow> a + c \<le> b + (d :: pyfloat)"
  by (simp add: pyfloat_le_iff rat_of_arith rnd_mono add_mono)

lemma pyfloat_diff_mono: "a \<le> b \<Longrightarrow> d \<le> c \<Longrightarrow> a - c \<le> b - (d :: pyfloat)"
  by (simp add: pyfloat_le_iff rat_of_arith rnd_mono diff_mono)

lemma pyfloat_mult_right_mono: "a \<le> b \<Longrightarrow> 0 \<le> c \<Longrightarrow> a * c \<le> b * (c :: pyfloat)"
  by (simp add: pyfloat_le_iff rat_of_arith rnd_mono mult_right_mono)

lemma pyfloat_divide_right_mono: "a \<le> b \<Longrightarrow> 0 \<le> c \<Longrightarrow> a / c \<le> b / (c :: pyfloat)"
  by (simp add: pyfloat_le_iff rat_of_arith rnd_mono divide_right_mono)

lemma pyfloat_sum_sign:
  fixes a b :: pyfloat
  shows "0 \<le> a \<Longrightarrow> 0 \<le> b \<Longrightarrow> 0 \<le> a + b" "0 < a \<Longrightarrow> 0 \<le> b \<Longrightarrow> 0 < a + b" "0 \<le> a \<Longrightarrow> 0 < b \<Longrightarrow> 0 < a + b"
  by (simp_all add: pyfloat_iffs rat_of_arith)

lemma pyfloat_prod_sign:
  fixes a b :: pyfloat
  shows "0 \<le> a \<Longrightarrow> 0 \<le> b \<Longrightarrow> 0 \<le> a * b" "0 < a \<Longrightarrow> 0 < b \<Longrightarrow> 0 < a * b"
    "0 \<le> a \<Longrightarrow> 0 \<le> b \<Longrightarrow> 0 \<le> a / b" "0 < a \<Longrightarrow> 0 < b \<Longrightarrow> 0 < a / b"
  by (simp_all add: pyfloat_iffs rat_of_arith)

text \<open>A rounded difference has the sign of the exact one: it is 0 only for equal arguments.\<close>

lemma pyfloat_diff_sign:
  fixes a b :: pyfloat
  shows "0 < a - b \<longleftrightarrow> b < a" "0 \<le> a - b \<longleftrightarrow> b \<le> a" "a - b < 0 \<longleftrightarrow> a < b" "a - b \<le> 0 \<longleftrightarrow> a \<le> b"
    "a - b = 0 \<longleftrightarrow> a = b"
  by (simp_all add: pyfloat_iffs rat_of_arith)

lemma pyfloat_minus_iffs [simp]:
  fixes a :: pyfloat
  shows "- a \<le> 0 \<longleftrightarrow> 0 \<le> a" "0 \<le> - a \<longleftrightarrow> a \<le> 0" "- a < 0 \<longleftrightarrow> 0 < a" "0 < - a \<longleftrightarrow> a < 0"
    "- a = 0 \<longleftrightarrow> a = 0"
  by (simp_all add: pyfloat_iffs)

lemma pyfloat_abs_iffs [simp]:
  fixes a :: pyfloat
  shows "0 \<le> \<bar>a\<bar>" "\<bar>a\<bar> \<le> 0 \<longleftrightarrow> a = 0" "0 < \<bar>a\<bar> \<longleftrightarrow> a \<noteq> 0" "\<bar>a\<bar> = 0 \<longleftrightarrow> a = 0"
  by (simp_all add: pyfloat_iffs)

lemma pyfloat_abs_cases: "\<bar>a\<bar> = (if 0 \<le> a then a else - (a :: pyfloat))"
  by (auto simp: pyfloat_iffs)

lemma pyfloat_le_add: "0 \<le> b \<Longrightarrow> a \<le> a + (b :: pyfloat)"
  using pyfloat_add_mono [of a a 0 b] by simp

lemma pyfloat_diff_le: "0 \<le> b \<Longrightarrow> a - b \<le> (a :: pyfloat)"
  using pyfloat_diff_mono [of a a 0 b] by simp

lemma pyfloat_minus_mono: "a \<le> b \<Longrightarrow> - b \<le> - (a :: pyfloat)"
  by (simp add: pyfloat_le_iff)

lemma pyfloat_0_1 [simp]: "0 < (1 :: pyfloat)" "0 \<le> (1 :: pyfloat)" "(0 :: pyfloat) \<noteq> 1" "(1 :: pyfloat) \<noteq> 0" "\<bar>0 :: pyfloat\<bar> = 0"
  by (simp_all add: pyfloat_iffs)

lemma pyfloat_mult_minus: "(- a) * b = - (a * b :: pyfloat)"
  by (simp add: pyfloat_eq_iff rat_of_arith rnd_minus [symmetric])

lemma pyfloat_add_minus: "(- a) + (- b) = - (a + b :: pyfloat)"
  by (simp add: pyfloat_eq_iff rat_of_arith rnd_minus [symmetric])

lemma pyfloat_sub_minus: "(- a) - (- b) = - (a - b :: pyfloat)"
  by (simp add: pyfloat_eq_iff rat_of_arith rnd_minus [symmetric])

lemma pyfloat_sterbenz:
  assumes "0 \<le> a" "a \<le> b" "rat_of b \<le> 2 * rat_of a"
  shows "rat_of (b - a) = rat_of b - rat_of a" "rat_of (a - b) = rat_of a - rat_of b"
proof -
  have "is_flt (rat_of b - rat_of a)"
    using assms by (intro is_flt_diff_wlog) (auto simp: pyfloat_le_iff)
  then show 1: "rat_of (b - a) = rat_of b - rat_of a"
    by (simp add: rat_of_arith rnd_id)
  show "rat_of (a - b) = rat_of a - rat_of b"
    using 1 by (simp add: pyfloat_minus_diff [of b a, symmetric])
qed

end
