(* ===== verification/Py_Builtins.thy ===== *)
theory Py_Builtins
  imports Prelude Py_Float
begin

text \<open>
  The builtins the package applies to numbers: the conversion of an \<^verbatim>\<open>int\<close>,
  \<^verbatim>\<open>round\<close> with and without digits, and \<^verbatim>\<open>sum\<close>.
\<close>

section \<open>Conversion and rounding\<close>

text \<open>\<^verbatim>\<open>int\<close> operands of mixed arithmetic are converted to the nearest float first.\<close>

definition fint :: "int \<Rightarrow> pyfloat" where
  "fint n = flt (of_int n)"

lemma fint_simps [simp]: "fint 0 = 0" "fint 1 = 1"
  by (simp_all add: fint_def)

lemma fint_mono: "m \<le> n \<Longrightarrow> fint m \<le> fint n"
  by (simp add: fint_def flt_mono)

lemma fint_sign_iffs [simp]:
  "0 < fint n \<longleftrightarrow> 0 < n" "0 \<le> fint n \<longleftrightarrow> 0 \<le> n" "fint n < 0 \<longleftrightarrow> n < 0" "fint n = 0 \<longleftrightarrow> n = 0" "fint n \<le> 0 \<longleftrightarrow> n \<le> 0"
  by (simp_all add: fint_def)

text \<open>\<^verbatim>\<open>round(x)\<close>: the nearest integer, ties to even.\<close>

definition py_round :: "pyfloat \<Rightarrow> int" where
  "py_round x = round_half_even (rat_of x)"

lemma py_round_fint: "\<bar>n\<bar> \<le> 2 ^ 53 \<Longrightarrow> py_round (fint n) = n"
  by (simp add: py_round_def fint_def rnd_id is_flt_of_int)

lemma py_round_mono: "x \<le> y \<Longrightarrow> py_round x \<le> py_round y"
  by (simp add: py_round_def round_half_even_mono pyfloat_le_iff)

text \<open>\<^verbatim>\<open>int(x)\<close> cuts the fraction off.\<close>

definition py_trunc :: "pyfloat \<Rightarrow> int" where
  "py_trunc x = (if x < 0 then - \<lfloor>- rat_of x\<rfloor> else \<lfloor>rat_of x\<rfloor>)"

lemma py_trunc_fint: "\<bar>n\<bar> \<le> 2 ^ 53 \<Longrightarrow> py_trunc (fint n) = n"
  by (simp add: py_trunc_def fint_def rnd_id is_flt_of_int)

text \<open>
  \<^verbatim>\<open>round(x, n)\<close>: the decimal with \<open>n\<close> digits after the point nearest to the exact
  value of \<open>x\<close> (ties to even), converted back to the nearest float.
\<close>

definition py_round_digits :: "pyfloat \<Rightarrow> int \<Rightarrow> pyfloat" where
  "py_round_digits x n = flt (of_int (round_half_even (rat_of x * 10 powi n)) / 10 powi n)"

lemma py_round_digits_mono: "x \<le> y \<Longrightarrow> py_round_digits x n \<le> py_round_digits y n"
  unfolding py_round_digits_def
  by (intro flt_mono divide_right_mono) (auto intro!: round_half_even_mono mult_right_mono simp: pyfloat_le_iff)

lemma py_round_digits_decimal:
  "py_round_digits (flt (of_int k / 10 powi n)) n = flt (of_int k / 10 powi n)"
  if "is_flt (of_int k / 10 powi n)"
  using that by (simp add: py_round_digits_def rnd_id)

section \<open>Sums\<close>

text \<open>
  \<^verbatim>\<open>sum(xs)\<close> over floats in CPython 3.12: the running sum \<open>f\<close> carries a compensation
  \<open>c\<close> (Neumaier), added once at the end. Starting from the integer 0, the first float
  replaces it.
\<close>

fun neumaier :: "pyfloat \<Rightarrow> pyfloat \<Rightarrow> pyfloat list \<Rightarrow> pyfloat" where
  "neumaier f c [] = f + c"
| "neumaier f c (x # xs) =
     (let t = f + x
      in neumaier t (c + (if \<bar>x\<bar> \<le> \<bar>f\<bar> then (f - t) + x else (x - t) + f)) xs)"

definition py_sum :: "pyfloat list \<Rightarrow> pyfloat" where
  "py_sum xs = (case xs of [] \<Rightarrow> 0 | x # ys \<Rightarrow> neumaier x 0 ys)"

lemma py_sum_simps [simp]: "py_sum [] = 0" "py_sum [x] = x"
  by (simp_all add: py_sum_def)

text \<open>
  The compensation never outweighs the running sum of nonnegative terms: each correction is
  at least the exact rounding loss, because the subtraction inside it is exact (Sterbenz).
\<close>

lemma rat_of_mono_rnd: "q \<le> rat_of a \<Longrightarrow> rnd q \<le> rat_of a"
  by (rule ieee.le_of) auto

lemma neumaier_step_bound:
  fixes f x c :: pyfloat
  assumes "0 \<le> f" "0 \<le> x" "- f \<le> c"
  defines "t \<equiv> f + x"
  shows "- t \<le> c + (if \<bar>x\<bar> \<le> \<bar>f\<bar> then (f - t) + x else (x - t) + f)"
proof -
  have f0: "0 \<le> rat_of f" and x0: "0 \<le> rat_of x" and c0: "- rat_of f \<le> rat_of c"
    using assms(1-3) by (simp_all add: pyfloat_le_iff)
  have t: "f \<le> t" "x \<le> t"
    using pyfloat_le_add assms(1,2) unfolding t_def by (simp, metis pyfloat_add_commute pyfloat_le_add)
  have exact: "- rat_of t \<le> rat_of c + rat_of ((a - t) + b)"
    if ab: "b \<le> a" "0 \<le> rat_of b" "rat_of f \<le> rat_of a" "a \<le> t" "t = a + b" for a b
  proof -
    have a0: "0 \<le> a" using ab(3) f0 by (simp add: pyfloat_le_iff)
    have "rat_of t \<le> 2 * rat_of a"
      unfolding ab(5) rat_of_arith using ab(1)
      by (intro ieee.le_of is_flt_double) (auto simp: pyfloat_le_iff)
    then have "rat_of (a - t) = rat_of a - rat_of t"
      using pyfloat_sterbenz(2) a0 ab(4) by blast
    moreover have "rat_of (a - t) \<le> rat_of ((a - t) + b)"
      using pyfloat_le_add [of b "a - t"] ab(2) by (simp add: pyfloat_le_iff)
    ultimately show ?thesis using ab(3) c0 by linarith
  qed
  show ?thesis
  proof (cases "x \<le> f")
    case True
    then have "- rat_of t \<le> rat_of c + rat_of ((f - t) + x)"
      using t x0 by (intro exact) (auto simp: t_def)
    then have "- t \<le> c + ((f - t) + x)"
      unfolding pyfloat_le_iff rat_of_arith(1) [of c] using ieee.ge_of [of "- rat_of t"] is_flt_minus by simp
    then show ?thesis using True assms(1,2) by (simp add: pyfloat_abs_cases)
  next
    case False
    then have "- rat_of t \<le> rat_of c + rat_of ((x - t) + f)"
      using t f0 by (intro exact) (auto simp: t_def pyfloat_le_iff pyfloat_add_commute)
    then have "- t \<le> c + ((x - t) + f)"
      unfolding pyfloat_le_iff rat_of_arith(1) [of c] using ieee.ge_of [of "- rat_of t"] is_flt_minus by simp
    then show ?thesis using False assms(1,2) by (simp add: pyfloat_abs_cases)
  qed
qed

lemma neumaier_nonneg:
  "0 \<le> f \<Longrightarrow> - f \<le> c \<Longrightarrow> \<forall>x \<in> set xs. 0 \<le> x \<Longrightarrow> 0 \<le> neumaier f c xs"
proof (induction xs arbitrary: f c)
  case Nil
  then show ?case
    using pyfloat_add_mono [of f f "- f" c] by (simp add: pyfloat_le_iff rat_of_arith)
next
  case (Cons x xs)
  have "0 \<le> f + x" using Cons.prems by (simp add: pyfloat_sum_sign)
  then show ?case
    using Cons.prems neumaier_step_bound [of f x c] unfolding neumaier.simps Let_def
    by (intro Cons.IH) auto
qed

lemma py_sum_nonneg: "\<forall>x \<in> set xs. 0 \<le> x \<Longrightarrow> 0 \<le> py_sum xs"
  by (cases xs) (auto simp: py_sum_def intro!: neumaier_nonneg)

end
