(* ===== verification/Py_Time.thy ===== *)
theory Py_Time
  imports Prelude
begin

text \<open>
  \<^verbatim>\<open>datetime\<close> and \<^verbatim>\<open>timedelta\<close>. A \<^verbatim>\<open>timedelta\<close> is its number of
  microseconds. An aware \<^verbatim>\<open>datetime\<close> is the UTC instant it denotes, in microseconds
  since 1970-01-01, because Python compares, subtracts and hashes aware values by that
  instant alone; a naive one is its wall clock reading on the same scale. Mixing the two in
  an order comparison or a subtraction raises \<^verbatim>\<open>TypeError\<close> (\<open>None\<close> here); equality of the
  two is just false. The calendar is the proleptic Gregorian one of the library's own
  \<^verbatim>\<open>_ymd2ord\<close> and \<^verbatim>\<open>_ord2ymd\<close>, used by the ISO text form; years outside 1 to 9999
  (where Python raises \<^verbatim>\<open>OverflowError\<close>) are not treated apart.
\<close>

type_synonym timedelta = int

datatype datetime = Aware int | Naive int

abbreviation seconds :: "int \<Rightarrow> timedelta" where
  "seconds n \<equiv> n * 1000000"

abbreviation minutes :: "int \<Rightarrow> timedelta" where
  "minutes n \<equiv> seconds (n * 60)"

abbreviation hours :: "int \<Rightarrow> timedelta" where
  "hours n \<equiv> minutes (n * 60)"

abbreviation days :: "int \<Rightarrow> timedelta" where
  "days n \<equiv> hours (n * 24)"

definition is_aware :: "datetime \<Rightarrow> bool" where
  "is_aware d = (case d of Aware _ \<Rightarrow> True | Naive _ \<Rightarrow> False)"

lemma is_aware_simps [simp]: "is_aware (Aware t)" "\<not> is_aware (Naive t)"
  by (simp_all add: is_aware_def)

text \<open>The reading of a value on its own scale; only compared within one kind.\<close>

definition ticks :: "datetime \<Rightarrow> int" where
  "ticks d = (case d of Aware t \<Rightarrow> t | Naive t \<Rightarrow> t)"

lemma ticks_simps [simp]: "ticks (Aware t) = t" "ticks (Naive t) = t"
  by (simp_all add: ticks_def)

lemma datetime_eq_ticks: "is_aware a = is_aware b \<Longrightarrow> a = b \<longleftrightarrow> ticks a = ticks b"
  by (cases a; cases b) auto

fun dt_less :: "datetime \<Rightarrow> datetime \<Rightarrow> bool option" where
  "dt_less (Aware a) (Aware b) = Some (a < b)"
| "dt_less (Naive a) (Naive b) = Some (a < b)"
| "dt_less _ _ = None"

fun dt_diff :: "datetime \<Rightarrow> datetime \<Rightarrow> timedelta option" where
  "dt_diff (Aware a) (Aware b) = Some (a - b)"
| "dt_diff (Naive a) (Naive b) = Some (a - b)"
| "dt_diff _ _ = None"

fun dt_add :: "datetime \<Rightarrow> timedelta \<Rightarrow> datetime" where
  "dt_add (Aware a) d = Aware (a + d)"
| "dt_add (Naive a) d = Naive (a + d)"

lemma dt_add_simps [simp]:
  "ticks (dt_add t d) = ticks t + d" "is_aware (dt_add t d) = is_aware t"
  by (cases t; simp)+

text \<open>
  Sorting, \<^verbatim>\<open>min\<close> and \<^verbatim>\<open>max\<close> by time compare every element with another one, so
  they raise exactly when both kinds occur.
\<close>

definition one_kind :: "datetime list \<Rightarrow> bool" where
  "one_kind ts \<longleftrightarrow> list_all is_aware ts \<or> list_all (\<lambda>t. \<not> is_aware t) ts"

lemma one_kind_append: "one_kind (xs @ ys) \<Longrightarrow> one_kind xs" "one_kind (xs @ ys) \<Longrightarrow> one_kind ys"
  by (auto simp: one_kind_def)

section \<open>The calendar\<close>

definition is_leap :: "int \<Rightarrow> bool" where
  "is_leap y \<longleftrightarrow> y mod 4 = 0 \<and> (y mod 100 \<noteq> 0 \<or> y mod 400 = 0)"

definition days_before_year :: "int \<Rightarrow> int" where
  "days_before_year y = (let z = y - 1 in z * 365 + z div 4 - z div 100 + z div 400)"

definition month_start :: "int \<Rightarrow> int" where
  "month_start m =
     (if m \<le> 1 then 0 else if m = 2 then 31 else if m = 3 then 59 else if m = 4 then 90
      else if m = 5 then 120 else if m = 6 then 151 else if m = 7 then 181 else if m = 8 then 212
      else if m = 9 then 243 else if m = 10 then 273 else if m = 11 then 304 else 334)"

definition month_len :: "int \<Rightarrow> int" where
  "month_len m =
     (if m = 2 then 28 else if m = 4 \<or> m = 6 \<or> m = 9 \<or> m = 11 then 30 else 31)"

definition days_before_month :: "int \<Rightarrow> int \<Rightarrow> int" where
  "days_before_month y m = month_start m + (if 2 < m \<and> is_leap y then 1 else 0)"

definition days_in_month :: "int \<Rightarrow> int \<Rightarrow> int" where
  "days_in_month y m = (if m = 2 \<and> is_leap y then 29 else month_len m)"

definition ymd2ord :: "int \<Rightarrow> int \<Rightarrow> int \<Rightarrow> int" where
  "ymd2ord y m d = days_before_year y + days_before_month y m + d"

definition ord2ymd :: "int \<Rightarrow> int \<times> int \<times> int" where
  "ord2ymd ordinal =
     (let n = ordinal - 1;
          n400 = n div 146097; n = n mod 146097;
          n100 = n div 36524; n = n mod 36524;
          n4 = n div 1461; n = n mod 1461;
          n1 = n div 365; n = n mod 365;
          year = n400 * 400 + n100 * 100 + n4 * 4 + n1 + 1
      in if n1 = 4 \<or> n100 = 4 then (year - 1, 12, 31)
         else
           let leapyear = (n1 = 3 \<and> (n4 \<noteq> 24 \<or> n100 = 3));
               month = (n + 50) div 32;
               preceding = month_start month + (if 2 < month \<and> leapyear then 1 else 0);
               (month, preceding) =
                 (if n < preceding
                  then (month - 1, preceding - (month_len (month - 1) + (if month - 1 = 2 \<and> leapyear then 1 else 0)))
                  else (month, preceding))
           in (year, month, n - preceding + 1))"

lemma mod_eq_0_at_top: "0 < w \<Longrightarrow> w \<le> k \<Longrightarrow> w mod k = 0 \<longleftrightarrow> w = k" for w k :: int
  by (metis mod_pos_pos_trivial mod_self less_le)

lemma year_digits:
  fixes a b c e :: int
  assumes "0 \<le> b" "b \<le> 3" "0 \<le> c" "c \<le> 24" "0 \<le> e" "e \<le> 3"
  defines "y \<equiv> a * 400 + b * 100 + c * 4 + e + 1"
  shows "days_before_year y = 146097 * a + 36524 * b + 1461 * c + 365 * e"
    and "is_leap y \<longleftrightarrow> e = 3 \<and> (c \<noteq> 24 \<or> b = 3)"
proof -
  have q: "(y - 1) div 4 = 100 * a + 25 * b + c" "(y - 1) div 100 = 4 * a + b" "(y - 1) div 400 = a"
    using assms by (simp_all add: y_def)
  show "days_before_year y = 146097 * a + 36524 * b + 1461 * c + 365 * e"
    unfolding days_before_year_def Let_def q by (simp add: y_def)
  have "y mod 4 = (e + 1 + 4 * (100 * a + 25 * b + c)) mod 4"
    by (rule arg_cong [where f = "\<lambda>z. z mod 4"]) (simp add: y_def)
  then have "y mod 4 = (e + 1) mod 4"
    by (simp only: mod_mult_self2)
  then have "y mod 4 = 0 \<longleftrightarrow> e = 3"
    using mod_eq_0_at_top [of "e + 1" 4] assms(5,6) by auto
  moreover have "y mod 100 = (c * 4 + e + 1 + 100 * (4 * a + b)) mod 100"
    by (rule arg_cong [where f = "\<lambda>z. z mod 100"]) (simp add: y_def)
  then have "y mod 100 = (c * 4 + e + 1) mod 100"
    by (simp only: mod_mult_self2)
  then have "y mod 100 = 0 \<longleftrightarrow> e = 3 \<and> c = 24"
    using mod_eq_0_at_top [of "c * 4 + e + 1" 100] assms(3-6) by (auto; arith)
  moreover have "y mod 400 = (b * 100 + c * 4 + e + 1 + 400 * a) mod 400"
    by (rule arg_cong [where f = "\<lambda>z. z mod 400"]) (simp add: y_def)
  then have "y mod 400 = (b * 100 + c * 4 + e + 1) mod 400"
    by (simp only: mod_mult_self2)
  then have "y mod 400 = 0 \<longleftrightarrow> e = 3 \<and> c = 24 \<and> b = 3"
    using mod_eq_0_at_top [of "b * 100 + c * 4 + e + 1" 400] assms(1-6) by (auto; arith)
  ultimately show "is_leap y \<longleftrightarrow> e = 3 \<and> (c \<noteq> 24 \<or> b = 3)"
    unfolding is_leap_def by auto
qed

lemma month_search:
  fixes n :: int and leap :: bool
  assumes "0 \<le> n" "n \<le> 364"
  defines "m0 \<equiv> (n + 50) div 32"
  defines "p0 \<equiv> month_start m0 + (if 2 < m0 \<and> leap then 1 else 0)"
  defines "m \<equiv> (if n < p0 then m0 - 1 else m0)"
  defines "p \<equiv> (if n < p0 then p0 - (month_len (m0 - 1) + (if m0 - 1 = 2 \<and> leap then 1 else 0)) else p0)"
  shows "1 \<le> m \<and> m \<le> 12 \<and> p = month_start m + (if 2 < m \<and> leap then 1 else 0) \<and> p \<le> n \<and>
    n - p + 1 \<le> (if m = 2 \<and> leap then 29 else month_len m)"
proof -
  have lo: "32 * m0 \<le> n + 50" "n + 50 < 32 * m0 + 32"
    by (simp_all add: m0_def)
  have "1 \<le> m0" "m0 \<le> 12"
    using assms(1,2) lo by linarith+
  then consider "m0 = 1" | "m0 = 2" | "m0 = 3" | "m0 = 4" | "m0 = 5" | "m0 = 6" | "m0 = 7"
    | "m0 = 8" | "m0 = 9" | "m0 = 10" | "m0 = 11" | "m0 = 12"
    by atomize_elim arith
  then show ?thesis
    using lo assms(1,2)
    by cases (simp_all add: m_def p_def p0_def month_start_def month_len_def)
qed

definition valid_ymd :: "int \<times> int \<times> int \<Rightarrow> bool" where
  "valid_ymd = (\<lambda>(y, m, d). 1 \<le> m \<and> m \<le> 12 \<and> 1 \<le> d \<and> d \<le> days_in_month y m)"

lemma ord2ymd_correct:
  "case ord2ymd n of (y, m, d) \<Rightarrow> ymd2ord y m d = n \<and> valid_ymd (y, m, d)"
proof -
  define z where "z = n - 1"
  define a r0 where "a = z div 146097" and "r0 = z mod 146097"
  define b r1 where "b = r0 div 36524" and "r1 = r0 mod 36524"
  define c r2 where "c = r1 div 1461" and "r2 = r1 mod 1461"
  define e r3 where "e = r2 div 365" and "r3 = r2 mod 365"
  note ds = a_def r0_def b_def r1_def c_def r2_def e_def r3_def
  have z: "z = 146097 * a + 36524 * b + 1461 * c + 365 * e + r3"
    by (simp add: ds)
  have r: "0 \<le> r0" "r0 < 146097" "0 \<le> r1" "r1 < 36524" "0 \<le> r2" "r2 < 1461" "0 \<le> r3" "r3 < 365"
    by (simp_all add: ds)
  have b: "0 \<le> b" "b \<le> 4" and c: "0 \<le> c" "c \<le> 24" and e: "0 \<le> e" "e \<le> 4"
    using r by (simp_all add: b_def c_def e_def)
  have split: "r0 = 36524 * b + r1" "r1 = 1461 * c + r2" "r2 = 365 * e + r3"
    by (simp_all add: ds)
  show ?thesis
  proof (cases "e = 4 \<or> b = 4")
    case True
    have out: "ord2ymd n = (a * 400 + b * 100 + c * 4 + e, 12, 31)"
      using True unfolding ord2ymd_def Let_def z_def [symmetric] ds [symmetric] by simp
    show ?thesis
    proof (cases "b = 4")
      case b4: True
      then have "c = 0" "e = 0" "r3 = 0"
        using split r c e by linarith+
      then show ?thesis
        using year_digits [of 3 24 3 a] z b4 unfolding out
        by (simp add: ymd2ord_def days_before_month_def month_start_def valid_ymd_def
            days_in_month_def month_len_def z_def algebra_simps)
    next
      case False
      with True b have b3: "b \<le> 3" and e4: "e = 4" by auto
      then have "r3 = 0" and c23: "c \<le> 23"
        using split r b by linarith+
      moreover have "a * 400 + b * 100 + c * 4 + 3 + 1 = a * 400 + b * 100 + c * 4 + e"
        using e4 by simp
      ultimately show ?thesis
        using year_digits [of b c 3 a] z b b3 c e4 unfolding out
        by (simp add: ymd2ord_def days_before_month_def month_start_def valid_ymd_def
            days_in_month_def month_len_def z_def algebra_simps)
    qed
  next
    case False
    then have b3: "b \<le> 3" and e3: "e \<le> 3" using b e by linarith+
    define y where "y = a * 400 + b * 100 + c * 4 + e + 1"
    note yd = year_digits [OF b(1) b3 c e(1) e3, of a, folded y_def]
    define leap where "leap \<longleftrightarrow> is_leap y"
    define m0 where "m0 = (r3 + 50) div 32"
    define p0 where "p0 = month_start m0 + (if 2 < m0 \<and> leap then 1 else 0)"
    define m where "m = (if r3 < p0 then m0 - 1 else m0)"
    define p where "p = (if r3 < p0 then p0 - (month_len (m0 - 1) + (if m0 - 1 = 2 \<and> leap then 1 else 0)) else p0)"
    have ms: "1 \<le> m \<and> m \<le> 12 \<and> p = month_start m + (if 2 < m \<and> leap then 1 else 0) \<and> p \<le> r3 \<and>
        r3 - p + 1 \<le> (if m = 2 \<and> leap then 29 else month_len m)"
      using month_search [of r3 leap] r unfolding m_def p_def p0_def m0_def by linarith
    have "ord2ymd n = (y, m, r3 - p + 1)"
      using False yd(2) unfolding ord2ymd_def Let_def z_def [symmetric] ds [symmetric] y_def [symmetric]
        m_def p_def p0_def m0_def leap_def by (auto split: prod.splits)
    then show ?thesis
      using ms yd(1) z unfolding ymd2ord_def days_before_month_def valid_ymd_def days_in_month_def
      by (auto simp: leap_def z_def)
  qed
qed

section \<open>Decimal digits\<close>

definition digit_char :: "int \<Rightarrow> char" where
  "digit_char d = char_of (nat (48 + d))"

definition digit_val :: "char \<Rightarrow> int option" where
  "digit_val c = (let n = of_char c :: nat in if 48 \<le> n \<and> n \<le> 57 then Some (int n - 48) else None)"

lemma digit_val_char: "0 \<le> d \<Longrightarrow> d \<le> 9 \<Longrightarrow> digit_val (digit_char d) = Some d"
  by (simp add: digit_val_def digit_char_def of_char_of Let_def nat_add_distrib)

text \<open>Zero-padded decimal of a fixed width, and reading one back.\<close>

fun pad :: "nat \<Rightarrow> int \<Rightarrow> string" where
  "pad 0 n = []"
| "pad (Suc k) n = pad k (n div 10) @ [digit_char (n mod 10)]"

fun take_num :: "nat \<Rightarrow> int \<Rightarrow> string \<Rightarrow> (int \<times> string) option" where
  "take_num 0 acc s = Some (acc, s)"
| "take_num (Suc k) acc [] = None"
| "take_num (Suc k) acc (c # s) =
     (case digit_val c of None \<Rightarrow> None | Some d \<Rightarrow> take_num k (acc * 10 + d) s)"

lemma take_num_append:
  "take_num j acc s = Some (v, r) \<Longrightarrow> take_num (j + k) acc s = take_num k v r"
proof (induction j acc s arbitrary: v r rule: take_num.induct)
  case (3 k acc c s)
  then show ?case by (auto split: option.splits)
qed auto

lemma take_num_pad: "0 \<le> n \<Longrightarrow> n < 10 ^ k \<Longrightarrow> take_num k acc (pad k n @ s) = Some (acc * 10 ^ k + n, s)"
proof (induction k arbitrary: n s)
  case (Suc k)
  have "take_num k acc (pad k (n div 10) @ digit_char (n mod 10) # s)
      = Some (acc * 10 ^ k + n div 10, digit_char (n mod 10) # s)"
    using Suc.prems by (intro Suc.IH) auto
  from take_num_append [OF this, of 1] show ?case
    by (simp add: digit_val_char algebra_simps)
qed simp

section \<open>ISO 8601 text\<close>

text \<open>\<^verbatim>\<open>isoformat()\<close>; an aware value is written in UTC, as every one the package creates is.\<close>

definition day_us :: int where
  "day_us = 86400000000"

definition date_text :: "int \<Rightarrow> string" where
  "date_text t = (case ord2ymd (t div day_us + 719163) of (y, m, d) \<Rightarrow>
     pad 4 y @ ''-'' @ pad 2 m @ ''-'' @ pad 2 d)"

definition clock_text :: "int \<Rightarrow> string" where
  "clock_text t =
     (let s = t mod day_us div 1000000; us = t mod 1000000
      in pad 2 (s div 3600) @ '':'' @ pad 2 (s div 60 mod 60) @ '':'' @ pad 2 (s mod 60)
         @ (if us = 0 then [] else ''.'' @ pad 6 us))"

definition isoformat :: "datetime \<Rightarrow> string" where
  "isoformat d = date_text (ticks d) @ ''T'' @ clock_text (ticks d)
     @ (if is_aware d then ''+00:00'' else [])"

text \<open>\<^verbatim>\<open>strftime("%Y-%m-%d")\<close>.\<close>

definition strftime_date :: "datetime \<Rightarrow> string" where
  "strftime_date d = date_text (ticks d)"

text \<open>
  \<^verbatim>\<open>datetime.fromisoformat\<close> on the extended form: a date, then optionally any one
  separator and a time \<^verbatim>\<open>HH:MM[:SS[.f...]]\<close> (fraction digits beyond six are cut off)
  with \<^verbatim>\<open>Z\<close> or \<^verbatim>\<open>+HH:MM\<close>. The basic and week forms Python also reads are rejected.
\<close>

fun take_frac :: "nat \<Rightarrow> int \<Rightarrow> string \<Rightarrow> int \<times> string" where
  "take_frac k acc [] = (acc * 10 ^ k, [])"
| "take_frac k acc (c # s) =
     (case digit_val c of
        None \<Rightarrow> (acc * 10 ^ k, c # s)
      | Some d \<Rightarrow> (case k of 0 \<Rightarrow> take_frac 0 acc s | Suc j \<Rightarrow> take_frac j (acc * 10 + d) s))"

definition expect :: "char \<Rightarrow> string \<Rightarrow> string option" where
  "expect c s = (case s of [] \<Rightarrow> None | x # r \<Rightarrow> if x = c then Some r else None)"

definition parse_date :: "string \<Rightarrow> (int \<times> string) option" where
  "parse_date s =
     Option.bind (take_num 4 0 s) (\<lambda>(y, s).
     Option.bind (expect (CHR ''-'') s) (\<lambda>s.
     Option.bind (take_num 2 0 s) (\<lambda>(m, s).
     Option.bind (expect (CHR ''-'') s) (\<lambda>s.
     Option.bind (take_num 2 0 s) (\<lambda>(d, s).
       if 1 \<le> y \<and> valid_ymd (y, m, d) then Some ((ymd2ord y m d - 719163) * day_us, s) else None)))))"

definition parse_clock :: "string \<Rightarrow> (int \<times> string) option" where
  "parse_clock s =
     Option.bind (take_num 2 0 s) (\<lambda>(h, s).
     Option.bind (expect (CHR '':'') s) (\<lambda>s.
     Option.bind (take_num 2 0 s) (\<lambda>(mi, s).
       if 23 < h \<or> 59 < mi then None
       else case expect (CHR '':'') s of
         None \<Rightarrow> Some (minutes (h * 60 + mi), s)
       | Some s \<Rightarrow>
           Option.bind (take_num 2 0 s) (\<lambda>(sec, s).
             if 59 < sec then None
             else case expect (CHR ''.'') s of
               None \<Rightarrow> Some (seconds ((h * 60 + mi) * 60 + sec), s)
             | Some s \<Rightarrow>
                 (case s of [] \<Rightarrow> None | c # _ \<Rightarrow>
                  if digit_val c = None then None
                  else case take_frac 6 0 s of (us, s) \<Rightarrow> Some (seconds ((h * 60 + mi) * 60 + sec) + us, s))))))"

definition parse_zone :: "string \<Rightarrow> timedelta option option" where
  "parse_zone s =
     (if s = [] then Some None
      else if s = ''Z'' then Some (Some 0)
      else case s of [] \<Rightarrow> None | c # s \<Rightarrow>
        if c \<noteq> CHR ''+'' \<and> c \<noteq> CHR ''-'' then None
        else
          Option.bind (take_num 2 0 s) (\<lambda>(h, s).
          Option.bind (expect (CHR '':'') s) (\<lambda>s.
          Option.bind (take_num 2 0 s) (\<lambda>(mi, s).
            if s \<noteq> [] \<or> 23 < h \<or> 59 < mi then None
            else Some (Some ((if c = CHR ''-'' then -1 else 1) * minutes (h * 60 + mi)))))))"

definition fromisoformat :: "string \<Rightarrow> datetime option" where
  "fromisoformat s =
     Option.bind (parse_date s) (\<lambda>(day, s).
       case s of
         [] \<Rightarrow> Some (Naive day)
       | _ # s \<Rightarrow>
           Option.bind (parse_clock s) (\<lambda>(clock, s).
           Option.bind (parse_zone s) (\<lambda>zone.
             Some (case zone of None \<Rightarrow> Naive (day + clock) | Some off \<Rightarrow> Aware (day + clock - off)))))"

text \<open>Values whose year has four digits, as every \<^verbatim>\<open>datetime\<close> does.\<close>

definition iso_range :: "datetime \<Rightarrow> bool" where
  "iso_range d \<longleftrightarrow> (case ord2ymd (ticks d div day_us + 719163) of (y, _, _) \<Rightarrow> 1 \<le> y \<and> y \<le> 9999)"

lemma expect_same [simp]: "expect c (c # s) = Some s"
  by (simp add: expect_def)

lemma expect_other: "x \<noteq> c \<Longrightarrow> expect c (x # s) = None" and expect_Nil [simp]: "expect c [] = None"
  by (simp_all add: expect_def)

lemma month_len_bounds: "28 \<le> days_in_month y m \<and> days_in_month y m \<le> 31"
  by (simp add: days_in_month_def month_len_def)

lemma parse_date_text:
  assumes "iso_range d"
  shows "parse_date (date_text (ticks d) @ s) = Some (ticks d div day_us * day_us, s)"
proof -
  obtain y m k where o: "ord2ymd (ticks d div day_us + 719163) = (y, m, k)"
    by (metis prod_cases3)
  with assms ord2ymd_correct [of "ticks d div day_us + 719163"]
  have v: "ymd2ord y m k = ticks d div day_us + 719163" "valid_ymd (y, m, k)" "1 \<le> y" "y \<le> 9999"
    by (auto simp: iso_range_def)
  have b: "0 \<le> y" "y < 10 ^ 4" "0 \<le> m" "m < 10 ^ 2" "0 \<le> k" "k < 10 ^ 2"
    using v(2-4) month_len_bounds [of y m] by (auto simp: valid_ymd_def)
  show ?thesis
    using take_num_pad [OF b(1,2), of 0] take_num_pad [OF b(3,4), of 0] take_num_pad [OF b(5,6), of 0] v
    by (simp add: date_text_def o parse_date_def)
qed

lemma take_frac_full: "take_frac 0 acc (c # s) = (acc, c # s)" if "digit_val c = None"
  using that by simp

lemma take_frac_num:
  "take_num k acc (t @ s) = Some (v, s) \<Longrightarrow> length t = k \<Longrightarrow> s = [] \<or> digit_val (hd s) = None \<Longrightarrow>
   take_frac k acc (t @ s) = (v, s)"
proof (induction t arbitrary: k acc)
  case Nil
  then show ?case by (cases s) auto
next
  case (Cons c t)
  then show ?case by (cases k) (auto split: option.splits)
qed

lemma pad_length [simp]: "length (pad k n) = k"
  by (induction k arbitrary: n) auto

lemma pad_Suc_head: "\<exists>c r. pad (Suc k) n = c # r \<and> digit_val c \<noteq> None"
proof (induction k arbitrary: n)
  case 0
  then show ?case by (simp add: digit_val_char)
next
  case (Suc k)
  from Suc [of "n div 10"] obtain c r where "pad (Suc k) (n div 10) = c # r" "digit_val c \<noteq> None"
    by blast
  then show ?case by (simp only: pad.simps(2) [of "Suc k"]) simp
qed

lemma parse_clock_text:
  assumes "z = [] \<or> (\<exists>c r. z = c # r \<and> digit_val c = None \<and> c \<noteq> CHR ''.'')"
  shows "parse_clock (clock_text t @ z) = Some (t mod day_us, z)"
proof -
  define s us where "s = t mod day_us div 1000000" and "us = t mod 1000000"
  have s: "0 \<le> s" "s < 86400" and us: "0 \<le> us" "us < 10 ^ 6"
    by (simp_all add: s_def us_def day_us_def)
  have tot: "t mod day_us = s * 1000000 + us"
  proof -
    have "t mod day_us mod 1000000 = t mod 1000000"
      by (rule mod_mod_cancel) (simp add: day_us_def)
    then show ?thesis
      using div_mult_mod_eq [of "t mod day_us" 1000000] unfolding s_def us_def by linarith
  qed
  define h mi sec where "h = s div 3600" and "mi = s div 60 mod 60" and "sec = s mod 60"
  have b: "0 \<le> h" "h < 10 ^ 2" "0 \<le> mi" "mi < 10 ^ 2" "0 \<le> sec" "sec < 10 ^ 2"
      "h \<le> 23" "mi \<le> 59" "sec \<le> 59"
    using s unfolding h_def mi_def sec_def by (simp_all add: le_less_trans)
  have "s div 3600 = s div 60 div 60"
    using zdiv_zmult2_eq [of 60 s 60] by simp
  then have "h * 60 + mi = s div 60"
    unfolding h_def mi_def by (simp only: div_mult_mod_eq)
  then have recombine: "(h * 60 + mi) * 60 + sec = s"
    unfolding sec_def by (simp only: div_mult_mod_eq)
  have ctext: "clock_text t = pad 2 h @ '':'' @ pad 2 mi @ '':'' @ pad 2 sec
      @ (if us = 0 then [] else ''.'' @ pad 6 us)"
    unfolding clock_text_def Let_def s_def us_def h_def mi_def sec_def ..
  note num = take_num_pad [OF b(1,2), of 0] take_num_pad [OF b(3,4), of 0] take_num_pad [OF b(5,6), of 0]
  show ?thesis
  proof (cases "us = 0")
    case True
    then have "expect (CHR ''.'') z = None"
      using assms by (auto simp: expect_def)
    then show ?thesis
      using True num b(7-9) unfolding ctext tot recombine [symmetric] by (simp add: parse_clock_def)
  next
    case False
    have "take_frac 6 0 (pad 6 us @ z) = (us, z)"
      using take_num_pad [OF us, of 0 z] assms by (intro take_frac_num) auto
    moreover obtain c r where "pad 6 us = c # r" "digit_val c \<noteq> None"
      using pad_Suc_head [of 5 us] by (auto simp: numeral_eq_Suc)
    ultimately show ?thesis
      using False num b(7-9) unfolding ctext tot recombine [symmetric] by (simp add: parse_clock_def)
  qed
qed

lemma isoformat_roundtrip: "iso_range d \<Longrightarrow> fromisoformat (isoformat d) = Some d"
proof -
  assume r: "iso_range d"
  have zone: "parse_zone ''+00:00'' = Some (Some 0)" "parse_zone [] = Some None"
    by (simp_all add: parse_zone_def take_num.simps numeral_eq_Suc digit_val_def)
  have plus: "digit_val (CHR ''+'') = None"
    by (simp add: digit_val_def)
  show ?thesis
  proof (cases "is_aware d")
    case True
    then obtain t where "d = Aware t" by (cases d) auto
    then show ?thesis
      using r parse_date_text [OF r] parse_clock_text [of "''+00:00''" t] plus zone
      by (simp add: fromisoformat_def isoformat_def)
  next
    case False
    then obtain t where "d = Naive t" by (cases d) auto
    then show ?thesis
      using r parse_date_text [OF r] parse_clock_text [of "[]" t] zone
      by (simp add: fromisoformat_def isoformat_def)
  qed
qed

end
