(* ===== verification/Py_Text.thy ===== *)
theory Py_Text
  imports Py_Builtins Py_Time
begin

text \<open>
  Strings as the package uses them (\<^verbatim>\<open>strip\<close>, \<^verbatim>\<open>upper\<close>, \<^verbatim>\<open>lower\<close>), the text of
  numbers (\<^verbatim>\<open>int(s)\<close>, \<^verbatim>\<open>float(s)\<close>, \<^verbatim>\<open>str(n)\<close>) and the \<^verbatim>\<open>csv\<close> reader.
  Characters are bytes; case conversion and white space are those of ASCII.
  \<^verbatim>\<open>float(s)\<close> reads decimal notation; the words \<^verbatim>\<open>inf\<close> and \<^verbatim>\<open>nan\<close> and digit
  group underscores, which Python also takes, are rejected here.
\<close>

section \<open>Strings\<close>

definition is_space :: "char \<Rightarrow> bool" where
  "is_space c = (let n = of_char c :: nat in n = 32 \<or> (9 \<le> n \<and> n \<le> 13) \<or> (28 \<le> n \<and> n \<le> 31))"

definition strip :: "string \<Rightarrow> string" where
  "strip s = rev (dropWhile is_space (rev (dropWhile is_space s)))"

definition upper_char :: "char \<Rightarrow> char" where
  "upper_char c = (let n = of_char c :: nat in if 97 \<le> n \<and> n \<le> 122 then char_of (n - 32) else c)"

definition lower_char :: "char \<Rightarrow> char" where
  "lower_char c = (let n = of_char c :: nat in if 65 \<le> n \<and> n \<le> 90 then char_of (n + 32) else c)"

definition upper :: "string \<Rightarrow> string" where
  "upper s = map upper_char s"

definition lower :: "string \<Rightarrow> string" where
  "lower s = map lower_char s"

definition starts_with :: "string \<Rightarrow> string \<Rightarrow> bool" where
  "starts_with p s \<longleftrightarrow> take (length p) s = p"

definition ends_with :: "string \<Rightarrow> string \<Rightarrow> bool" where
  "ends_with p s \<longleftrightarrow> length p \<le> length s \<and> drop (length s - length p) s = p"

section \<open>The text of numbers\<close>

definition is_digit :: "char \<Rightarrow> bool" where
  "is_digit c \<longleftrightarrow> digit_val c \<noteq> None"

definition digits_value :: "string \<Rightarrow> int" where
  "digits_value s = foldl (\<lambda>a c. a * 10 + (case digit_val c of None \<Rightarrow> 0 | Some d \<Rightarrow> d)) 0 s"

text \<open>\<^verbatim>\<open>str(n)\<close> for a nonnegative integer, then for any.\<close>

fun dec_nat :: "nat \<Rightarrow> string" where
  "dec_nat n = (if n < 10 then [digit_char (int n)] else dec_nat (n div 10) @ [digit_char (int (n mod 10))])"

declare dec_nat.simps [simp del]

definition dec :: "int \<Rightarrow> string" where
  "dec n = (if n < 0 then CHR ''-'' # dec_nat (nat (- n)) else dec_nat (nat n))"

lemma dec_nat_nonempty [simp]: "dec_nat n \<noteq> []"
  by (subst dec_nat.simps) simp

lemma digit_char_digit: "0 \<le> d \<Longrightarrow> d \<le> 9 \<Longrightarrow> is_digit (digit_char d)"
  by (simp add: is_digit_def digit_val_char)

lemma dec_nat_digits: "c \<in> set (dec_nat n) \<Longrightarrow> is_digit c"
proof (induction n rule: dec_nat.induct)
  case (1 n)
  then show ?case
    by (subst (asm) (2) dec_nat.simps) (auto split: if_splits intro: digit_char_digit)
qed

lemma digits_value_append: "digits_value (s @ [c]) = digits_value s * 10 + (case digit_val c of None \<Rightarrow> 0 | Some d \<Rightarrow> d)"
  by (simp add: digits_value_def)

lemma digits_value_dec_nat: "digits_value (dec_nat n) = int n"
proof (induction n rule: dec_nat.induct)
  case (1 n)
  show ?case
  proof (cases "n < 10")
    case True
    then show ?thesis by (subst dec_nat.simps) (simp add: digits_value_def digit_val_char)
  next
    case False
    have "digits_value (dec_nat n) = digits_value (dec_nat (n div 10)) * 10 + int (n mod 10)"
      using False by (subst dec_nat.simps) (simp add: digits_value_append digit_val_char)
    also have "\<dots> = int (n div 10 * 10 + n mod 10)"
      unfolding 1 [OF False] of_nat_add of_nat_mult by simp
    finally show ?thesis by (simp only: div_mult_mod_eq)
  qed
qed

text \<open>\<^verbatim>\<open>int(s)\<close>.\<close>

definition int_of_string :: "string \<Rightarrow> int option" where
  "int_of_string s =
     (let s = strip s;
          (neg, r) = (case s of [] \<Rightarrow> (False, []) | c # r \<Rightarrow>
             if c = CHR ''-'' then (True, r) else if c = CHR ''+'' then (False, r) else (False, s))
      in if r \<noteq> [] \<and> list_all is_digit r then Some (if neg then - digits_value r else digits_value r)
         else None)"

lemma is_digit_code: "is_digit c \<Longrightarrow> 48 \<le> (of_char c :: nat)"
  by (simp add: is_digit_def digit_val_def Let_def split: if_splits)

lemma is_digit_facts:
  assumes "is_digit c"
  shows "\<not> is_space c \<and> c \<noteq> CHR ''-'' \<and> c \<noteq> CHR ''+''"
proof -
  have "\<not> is_space c" using is_digit_code [OF assms] by (simp add: is_space_def Let_def)
  moreover have "\<not> is_digit (CHR ''-'')" "\<not> is_digit (CHR ''+'')"
    by (auto dest!: is_digit_code)
  ultimately show ?thesis using assms by blast
qed

lemma strip_id:
  assumes "s = [] \<or> (\<not> is_space (hd s) \<and> \<not> is_space (last s))"
  shows "strip s = s"
proof (cases s)
  case (Cons c r)
  then have "dropWhile is_space s = s" using assms by simp
  moreover have "dropWhile is_space (rev s) = rev s"
    using assms Cons by (metis dropWhile_eq_self_iff hd_rev list.distinct(1) rev_is_Nil_conv)
  ultimately show ?thesis by (simp add: strip_def)
qed (simp add: strip_def)

lemma strip_digits: "list_all is_digit s \<Longrightarrow> strip s = s"
proof (rule strip_id)
  assume s: "list_all is_digit s"
  show "s = [] \<or> (\<not> is_space (hd s) \<and> \<not> is_space (last s))"
  proof (cases "s = []")
    case False
    then have "is_digit (hd s)" "is_digit (last s)" using s by (simp_all add: list_all_iff)
    then show ?thesis by (simp add: is_digit_facts)
  qed simp
qed

lemma strip_minus_digits:
  assumes "list_all is_digit s" "s \<noteq> []"
  shows "strip (CHR ''-'' # s) = CHR ''-'' # s"
proof -
  have "is_digit (last s)" using assms by (simp add: list_all_iff)
  moreover have "\<not> is_space (CHR ''-'')" by (simp add: is_space_def)
  ultimately show ?thesis using assms(2) by (intro strip_id) (simp add: is_digit_facts)
qed

lemma int_of_string_dec: "int_of_string (dec n) = Some n"
proof -
  have digits: "list_all is_digit (dec_nat m)" for m
    by (auto simp: list_all_iff dec_nat_digits)
  show ?thesis
  proof (cases "n < 0")
    case True
    then show ?thesis
      using digits strip_minus_digits [of "dec_nat (nat (- n))"] digits_value_dec_nat [of "nat (- n)"]
      by (simp add: int_of_string_def dec_def)
  next
    case False
    obtain c r where cr: "dec_nat (nat n) = c # r"
      by (cases "dec_nat (nat n)") auto
    have "is_digit c"
      using digits [of "nat n"] cr by simp
    then show ?thesis
      using False digits [of "nat n"] is_digit_facts [of c] digits_value_dec_nat [of "nat n"]
      by (simp add: int_of_string_def dec_def strip_digits cr)
  qed
qed

lemma dec_inject [simp]: "dec m = dec n \<longleftrightarrow> m = n"
  by (metis int_of_string_dec option.inject)

text \<open>
  Decimal notation without its sign: digits, a fraction, an exponent, as the exact rational.
\<close>

definition exponent_value :: "string \<Rightarrow> int option" where
  "exponent_value r =
     (case r of [] \<Rightarrow> Some 0 | c # r \<Rightarrow>
        if c \<noteq> CHR ''e'' \<and> c \<noteq> CHR ''E'' then None
        else
          let (neg, d) = (case r of [] \<Rightarrow> (False, []) | x # y \<Rightarrow>
            if x = CHR ''-'' then (True, y) else if x = CHR ''+'' then (False, y) else (False, r))
          in if d \<noteq> [] \<and> list_all is_digit d then Some (if neg then - digits_value d else digits_value d)
             else None)"

definition decimal_value :: "string \<Rightarrow> rat option" where
  "decimal_value s =
     (let ip = takeWhile is_digit s; r = dropWhile is_digit s;
          (fp, r) = (case r of [] \<Rightarrow> ([], []) | c # t \<Rightarrow>
            if c = CHR ''.'' then (takeWhile is_digit t, dropWhile is_digit t) else ([], r))
      in if ip = [] \<and> fp = [] then None
         else map_option (\<lambda>e. of_int (digits_value (ip @ fp)) * 10 powi (e - int (length fp)))
                (exponent_value r))"

definition float_of_string :: "string \<Rightarrow> pyfloat option" where
  "float_of_string s =
     (let s = strip s
      in case s of [] \<Rightarrow> None | c # r \<Rightarrow>
        if c = CHR ''-'' then map_option (\<lambda>q. flt (- q)) (decimal_value r)
        else if c = CHR ''+'' then map_option flt (decimal_value r)
        else map_option flt (decimal_value s))"

section \<open>CSV\<close>

text \<open>
  The states of the library's reader for the \<^verbatim>\<open>excel\<close> dialect. The text arrives line by
  line, each line followed by an end-of-line event, so a line feed outside quotes finishes
  the record at once; a carriage return waits for the rest of the line to be empty.
  \<open>None\<close> is \<^verbatim>\<open>csv.Error\<close>.
\<close>

datatype csv_state = Start_record | Start_field | In_field | In_quoted | Quote_in_quoted | Eat_crnl

definition csv_newline :: "char \<Rightarrow> bool" where
  "csv_newline c \<longleftrightarrow> c = CHR 0x0A \<or> c = CHR 0x0D"

text \<open>
  One character: the next state, the field and the record so far (both reversed).
\<close>

fun csv_char :: "csv_state \<Rightarrow> char \<Rightarrow> string \<Rightarrow> string list \<Rightarrow> (csv_state \<times> string \<times> string list) option" where
  "csv_char Start_record c f fs =
     (if csv_newline c then Some (Eat_crnl, [], fs)
      else if c = CHR 0x22 then Some (In_quoted, [], fs)
      else if c = CHR '','' then Some (Start_field, [], [] # fs)
      else Some (In_field, [c], fs))"
| "csv_char Start_field c f fs =
     (if csv_newline c then Some (Eat_crnl, [], [] # fs)
      else if c = CHR 0x22 then Some (In_quoted, [], fs)
      else if c = CHR '','' then Some (Start_field, [], [] # fs)
      else Some (In_field, [c], fs))"
| "csv_char In_field c f fs =
     (if csv_newline c then Some (Eat_crnl, [], rev f # fs)
      else if c = CHR '','' then Some (Start_field, [], rev f # fs)
      else Some (In_field, c # f, fs))"
| "csv_char In_quoted c f fs =
     (if c = CHR 0x22 then Some (Quote_in_quoted, f, fs) else Some (In_quoted, c # f, fs))"
| "csv_char Quote_in_quoted c f fs =
     (if c = CHR 0x22 then Some (In_quoted, c # f, fs)
      else if c = CHR '','' then Some (Start_field, [], rev f # fs)
      else if csv_newline c then Some (Eat_crnl, [], rev f # fs)
      else Some (In_field, c # f, fs))"
| "csv_char Eat_crnl c f fs = (if csv_newline c then Some (Eat_crnl, f, fs) else None)"

text \<open>The record a pending state stands for when its line (or the text) ends.\<close>

fun csv_flush :: "csv_state \<Rightarrow> string \<Rightarrow> string list \<Rightarrow> string list" where
  "csv_flush Start_record f fs = rev fs"
| "csv_flush Eat_crnl f fs = rev fs"
| "csv_flush _ f fs = rev (rev f # fs)"

fun csv_rows :: "csv_state \<Rightarrow> string \<Rightarrow> string list \<Rightarrow> string \<Rightarrow> string list list option" where
  "csv_rows st f fs [] = Some (if st = Start_record then [] else [csv_flush st f fs])"
| "csv_rows st f fs (c # s) =
     (case csv_char st c f fs of
        None \<Rightarrow> None
      | Some (st', f', fs') \<Rightarrow>
          if c = CHR 0x0A \<and> st' = Eat_crnl
          then map_option (Cons (rev fs')) (csv_rows Start_record [] [] s)
          else csv_rows st' f' fs' s)"

text \<open>
  \<^verbatim>\<open>csv.DictReader\<close>: the first record names the columns, empty records are skipped, a
  short record leaves its last columns \<^verbatim>\<open>None\<close>; surplus fields go under the key
  \<^verbatim>\<open>None\<close>, which nothing here reads.
\<close>

type_synonym csv_row = "(string \<times> string option) list"

fun dict_row :: "string list \<Rightarrow> string list \<Rightarrow> csv_row \<Rightarrow> csv_row" where
  "dict_row [] fs d = d"
| "dict_row (k # ks) [] d = dict_row ks [] (dict_put k None d)"
| "dict_row (k # ks) (f # fs) d = dict_row ks fs (dict_put k (Some f) d)"

definition dict_reader :: "string \<Rightarrow> csv_row list option" where
  "dict_reader s =
     (case csv_rows Start_record [] [] s of
        None \<Rightarrow> None
      | Some [] \<Rightarrow> Some []
      | Some (header # rows) \<Rightarrow>
          Some (map (\<lambda>r. dict_row header r []) (filter (\<lambda>r. r \<noteq> []) rows)))"

lemma csv_char_same_line:
  assumes "\<not> csv_newline c" "st \<noteq> Eat_crnl"
  shows "\<exists>st' f' fs'. csv_char st c f fs = Some (st', f', fs') \<and> st' \<noteq> Eat_crnl"
  using assms by (cases st) auto

lemma csv_one_line:
  "CHR 0x0A \<notin> set s \<Longrightarrow> CHR 0x0D \<notin> set s \<Longrightarrow> st \<noteq> Eat_crnl \<Longrightarrow>
   \<exists>rows. csv_rows st f fs s = Some rows \<and> length rows \<le> 1"
proof (induction s arbitrary: st f fs)
  case (Cons c s)
  then have c: "\<not> csv_newline c" by (auto simp: csv_newline_def)
  then obtain st' f' fs' where step: "csv_char st c f fs = Some (st', f', fs')" and "st' \<noteq> Eat_crnl"
    using csv_char_same_line [of c st f fs] Cons.prems(3) by blast
  then show ?case using Cons.IH [of st' f' fs'] Cons.prems(1,2) by auto
qed auto

text \<open>A text without line breaks is read as a header and no rows.\<close>

lemma dict_reader_one_line:
  assumes "CHR 0x0A \<notin> set s" "CHR 0x0D \<notin> set s"
  shows "dict_reader s = Some []"
proof -
  obtain rows where "csv_rows Start_record [] [] s = Some rows" "length rows \<le> 1"
    using csv_one_line [OF assms, of Start_record] by blast
  then show ?thesis
    by (cases rows) (auto simp: dict_reader_def)
qed

end
