(* ===== verification/Py_Json.thy ===== *)
theory Py_Json
  imports Py_Text
begin

text \<open>
  JSON values and \<^verbatim>\<open>json.loads\<close>: a tokenizer, and a parser that keeps its open arrays and
  objects on a stack and reads one token at a time. \<open>None\<close> is \<^verbatim>\<open>json.JSONDecodeError\<close>.
  The words \<^verbatim>\<open>NaN\<close> and \<^verbatim>\<open>Infinity\<close>, which the library also takes, are rejected, and an
  escaped code point above 255 is read as a question mark.
\<close>

section \<open>Values and tokens\<close>

datatype json =
    JNull
  | JBool bool
  | JInt int
  | JFloat pyfloat
  | JStr string
  | JText "frag list"
  | JList "json list"
  | JObj "(string \<times> json) list"
and frag =
    Lit string
  | F_val json
  | F_repr json
  | F_fix nat pyfloat
  | F_pct nat pyfloat
  | F_time datetime
  | F_exn

text \<open>
  A message is the sequence of what its f-string prints: literal text and formatted values.
  \<open>F_val\<close> is \<^verbatim>\<open>str\<close> of a value, \<open>F_repr\<close> is \<^verbatim>\<open>!r\<close>, \<open>F_fix n\<close> the format
  \<^verbatim>\<open>.nf\<close>, \<open>F_pct n\<close> is \<^verbatim>\<open>.n%\<close>, \<open>F_time\<close> a time, \<open>F_exn\<close> the text of an exception,
  which is not modelled. \<open>JText\<close> is such a message inside a document; the parser never
  returns one.
\<close>

type_synonym fstring = "frag list"

abbreviation f_int :: "int \<Rightarrow> frag" where "f_int n \<equiv> F_val (JInt n)"
abbreviation f_flt :: "pyfloat \<Rightarrow> frag" where "f_flt x \<equiv> F_val (JFloat x)"
abbreviation f_str :: "string \<Rightarrow> frag" where "f_str s \<equiv> F_val (JStr s)"

definition f_opt :: "('a \<Rightarrow> frag) \<Rightarrow> 'a option \<Rightarrow> frag" where
  "f_opt f x = (case x of None \<Rightarrow> F_val JNull | Some v \<Rightarrow> f v)"

text \<open>\<^verbatim>\<open>sep.join(parts)\<close>.\<close>

fun f_join :: "string \<Rightarrow> fstring list \<Rightarrow> fstring" where
  "f_join sep [] = []"
| "f_join sep [x] = x"
| "f_join sep (x # xs) = x @ Lit sep # f_join sep xs"

datatype token = T_lbrace | T_rbrace | T_lbrack | T_rbrack | T_comma | T_colon | T_value json

definition hex_val :: "char \<Rightarrow> nat option" where
  "hex_val c = (let n = of_char c :: nat in
     if 48 \<le> n \<and> n \<le> 57 then Some (n - 48)
     else if 65 \<le> n \<and> n \<le> 70 then Some (n - 55)
     else if 97 \<le> n \<and> n \<le> 102 then Some (n - 87) else None)"

definition code_point :: "nat \<Rightarrow> char" where
  "code_point n = (if n < 256 then char_of n else CHR ''?'')"

definition simple_escape :: "char \<Rightarrow> char option" where
  "simple_escape c =
     (if c = CHR 0x22 \<or> c = CHR 0x5C \<or> c = CHR ''/'' then Some c
      else if c = CHR ''b'' then Some (CHR 0x08) else if c = CHR ''f'' then Some (CHR 0x0C)
      else if c = CHR ''n'' then Some (CHR 0x0A) else if c = CHR ''r'' then Some (CHR 0x0D)
      else if c = CHR ''t'' then Some (CHR 0x09) else None)"

text \<open>The rest of a string after its opening quote: the characters and what follows.\<close>

fun lex_string :: "string \<Rightarrow> (string \<times> string) option" where
  "lex_string [] = None"
| "lex_string (c # s) =
     (if c = CHR 0x22 then Some ([], s)
      else if (of_char c :: nat) < 32 then None
      else if c \<noteq> CHR 0x5C then map_option (\<lambda>(x, r). (c # x, r)) (lex_string s)
      else case s of
        [] \<Rightarrow> None
      | e # t \<Rightarrow>
          (case simple_escape e of
             Some x \<Rightarrow> map_option (\<lambda>(y, r). (x # y, r)) (lex_string t)
           | None \<Rightarrow>
               (case t of
                  a # b # d # f # u \<Rightarrow>
                    (case (hex_val a, hex_val b, hex_val d, hex_val f) of
                       (Some i, Some j, Some k, Some l) \<Rightarrow>
                         if e \<noteq> CHR ''u'' then None
                         else map_option (\<lambda>(y, r). (code_point (((i * 16 + j) * 16 + k) * 16 + l) # y, r))
                                (lex_string u)
                     | _ \<Rightarrow> None)
                | _ \<Rightarrow> None)))"

text \<open>The longest number a text starts with.\<close>

definition lex_fraction :: "string \<Rightarrow> string \<times> string" where
  "lex_fraction s =
     (case s of [] \<Rightarrow> ([], []) | c # t \<Rightarrow>
        if c = CHR ''.'' \<and> takeWhile is_digit t \<noteq> []
        then (c # takeWhile is_digit t, dropWhile is_digit t) else ([], s))"

definition lex_exponent :: "string \<Rightarrow> string \<times> string" where
  "lex_exponent s =
     (case s of [] \<Rightarrow> ([], []) | c # t \<Rightarrow>
        let (g, u) = (case t of [] \<Rightarrow> ([], []) | x # y \<Rightarrow>
              if x = CHR ''-'' \<or> x = CHR ''+'' then ([x], y) else ([], t))
        in if (c = CHR ''e'' \<or> c = CHR ''E'') \<and> takeWhile is_digit u \<noteq> []
           then (c # g @ takeWhile is_digit u, dropWhile is_digit u) else ([], s))"

definition lex_number :: "string \<Rightarrow> (json \<times> string) option" where
  "lex_number s =
     (let (neg, r) = (case s of [] \<Rightarrow> (False, []) | c # r \<Rightarrow> if c = CHR ''-'' then (True, r) else (False, s));
          ip = (case r of [] \<Rightarrow> [] | c # _ \<Rightarrow> if c = CHR ''0'' then [c] else takeWhile is_digit r);
          (fp, r1) = lex_fraction (drop (length ip) r);
          (ep, r2) = lex_exponent r1
      in if ip = [] then None
         else if fp = [] \<and> ep = []
         then Some (JInt (if neg then - digits_value ip else digits_value ip), r2)
         else map_option (\<lambda>q. (JFloat (flt (if neg then - q else q)), r2)) (decimal_value (ip @ fp @ ep)))"

definition lex_word :: "string \<Rightarrow> (json \<times> string) option" where
  "lex_word s =
     (if starts_with ''true'' s then Some (JBool True, drop 4 s)
      else if starts_with ''false'' s then Some (JBool False, drop 5 s)
      else if starts_with ''null'' s then Some (JNull, drop 4 s)
      else None)"

definition json_space :: "char \<Rightarrow> bool" where
  "json_space c \<longleftrightarrow> c = CHR '' '' \<or> c = CHR 0x09 \<or> c = CHR 0x0A \<or> c = CHR 0x0D"

definition punct :: "char \<Rightarrow> token option" where
  "punct c =
     (if c = CHR 0x7B then Some T_lbrace else if c = CHR 0x7D then Some T_rbrace
      else if c = CHR 0x5B then Some T_lbrack else if c = CHR 0x5D then Some T_rbrack
      else if c = CHR '','' then Some T_comma else if c = CHR '':'' then Some T_colon else None)"

text \<open>One token from the front of a text that starts with no white space.\<close>

definition lex_token :: "char \<Rightarrow> string \<Rightarrow> (token \<times> string) option" where
  "lex_token c s =
     (case punct c of
        Some t \<Rightarrow> Some (t, s)
      | None \<Rightarrow>
          if c = CHR 0x22 then map_option (\<lambda>(x, r). (T_value (JStr x), r)) (lex_string s)
          else map_option (\<lambda>(v, r). (T_value v, r))
                 (case lex_number (c # s) of Some vr \<Rightarrow> Some vr | None \<Rightarrow> lex_word (c # s)))"

text \<open>Every token takes at least a character: the tokenizer ends with the fuel of the text's length.\<close>

fun lex_all :: "nat \<Rightarrow> string \<Rightarrow> token list option" where
  "lex_all n [] = Some []"
| "lex_all 0 (c # s) = None"
| "lex_all (Suc n) (c # s) =
     (if json_space c then lex_all n s
      else case lex_token c s of None \<Rightarrow> None | Some (t, r) \<Rightarrow> map_option (Cons t) (lex_all n r))"

definition tokens :: "string \<Rightarrow> token list option" where
  "tokens s = lex_all (length s) s"

section \<open>The parser\<close>

text \<open>
  An open array holds its elements so far, reversed; an open object its members and the key
  whose value is being read.
\<close>

datatype frame = In_array "json list" | In_object "(string \<times> json) list" string

datatype mode = M_value | M_first_element | M_first_key | M_key | M_colon | M_after | M_done json

definition reduce :: "json \<Rightarrow> frame list \<Rightarrow> mode \<times> frame list" where
  "reduce v st =
     (case st of
        [] \<Rightarrow> (M_done v, [])
      | In_array xs # st \<Rightarrow> (M_after, In_array (v # xs) # st)
      | In_object d k # st \<Rightarrow> (M_after, In_object (dict_put k v d) k # st))"

definition step_value :: "frame list \<Rightarrow> token \<Rightarrow> (mode \<times> frame list) option" where
  "step_value st t =
     (case t of
        T_lbrack \<Rightarrow> Some (M_first_element, In_array [] # st)
      | T_lbrace \<Rightarrow> Some (M_first_key, In_object [] [] # st)
      | T_value v \<Rightarrow> Some (reduce v st)
      | _ \<Rightarrow> None)"

definition step_key :: "frame list \<Rightarrow> token \<Rightarrow> (mode \<times> frame list) option" where
  "step_key st t =
     (case (t, st) of
        (T_value (JStr k), In_object d _ # st) \<Rightarrow> Some (M_colon, In_object d k # st)
      | _ \<Rightarrow> None)"

definition close :: "frame list \<Rightarrow> token \<Rightarrow> (mode \<times> frame list) option" where
  "close st t =
     (case (t, st) of
        (T_rbrack, In_array xs # st) \<Rightarrow> Some (reduce (JList (rev xs)) st)
      | (T_rbrace, In_object d _ # st) \<Rightarrow> Some (reduce (JObj d) st)
      | _ \<Rightarrow> None)"

fun json_step :: "mode \<Rightarrow> frame list \<Rightarrow> token \<Rightarrow> (mode \<times> frame list) option" where
  "json_step M_value st t = step_value st t"
| "json_step M_first_element st t = (if t = T_rbrack then close st t else step_value st t)"
| "json_step M_first_key st t = (if t = T_rbrace then close st t else step_key st t)"
| "json_step M_key st t = step_key st t"
| "json_step M_colon st t = (if t = T_colon then Some (M_value, st) else None)"
| "json_step M_after st t =
     (if t = T_comma then
        (case st of In_array _ # _ \<Rightarrow> Some (M_value, st) | In_object _ _ # _ \<Rightarrow> Some (M_key, st) | [] \<Rightarrow> None)
      else close st t)"
| "json_step (M_done v) st t = None"

fun json_run :: "mode \<Rightarrow> frame list \<Rightarrow> token list \<Rightarrow> json option" where
  "json_run m st [] = (case m of M_done v \<Rightarrow> Some v | _ \<Rightarrow> None)"
| "json_run m st (t # ts) =
     (case json_step m st t of None \<Rightarrow> None | Some (m', st') \<Rightarrow> json_run m' st' ts)"

definition json_loads :: "string \<Rightarrow> json option" where
  "json_loads s = (case tokens s of None \<Rightarrow> None | Some ts \<Rightarrow> json_run M_value [] ts)"

section \<open>Reading values\<close>

definition json_get :: "json \<Rightarrow> string \<Rightarrow> json option" where
  "json_get j k = (case j of JObj d \<Rightarrow> map_of d k | _ \<Rightarrow> None)"

text \<open>The truth value of an object: empty containers, zero and \<^verbatim>\<open>None\<close> are false.\<close>

fun truthy :: "json \<Rightarrow> bool" where
  "truthy JNull = False"
| "truthy (JBool b) = b"
| "truthy (JInt n) = (n \<noteq> 0)"
| "truthy (JFloat x) = (x \<noteq> 0)"
| "truthy (JStr s) = (s \<noteq> [])"
| "truthy (JText t) = (t \<noteq> [])"
| "truthy (JList xs) = (xs \<noteq> [])"
| "truthy (JObj d) = (d \<noteq> [])"

end
