(* ===== verification/Domain.thy ===== *)
theory Domain
  imports Py_Json
begin

text \<open>
  The data contracts of \<^verbatim>\<open>domain/models.py\<close>, one record per frozen dataclass with its
  fields in the same order. Record fields share one name space in Isabelle, so each carries a
  short prefix of its class (\<open>bar_close\<close> is \<^verbatim>\<open>MarketBar.close\<close>). Then the exceptions the
  package raises or catches, and the three Protocols of \<^verbatim>\<open>market_data/interfaces.py\<close> and
  \<^verbatim>\<open>mt5_adapter/interfaces.py\<close> as records of operations over a state.
\<close>

section \<open>Market data\<close>

datatype Side = BUY | SELL
datatype Direction = LONG | SHORT | FLAT
datatype OrderType = MARKET | LIMIT
datatype TradeMode = DEMO | CONTEST | REAL

definition side_str :: "Side \<Rightarrow> string" where
  "side_str s = (case s of BUY \<Rightarrow> ''BUY'' | SELL \<Rightarrow> ''SELL'')"

definition order_type_str :: "OrderType \<Rightarrow> string" where
  "order_type_str t = (case t of MARKET \<Rightarrow> ''MARKET'' | LIMIT \<Rightarrow> ''LIMIT'')"

record MarketBar =
  bar_symbol :: string
  bar_timeframe :: string
  bar_time :: datetime
  bar_open :: pyfloat
  bar_high :: pyfloat
  bar_low :: pyfloat
  bar_close :: pyfloat
  bar_tick_volume :: int
  bar_spread :: int

record Tick =
  tick_symbol :: string
  tick_bid :: pyfloat
  tick_ask :: pyfloat
  tick_time :: datetime

record FeatureSet =
  fs_symbol :: string
  fs_timeframe :: string
  fs_timestamp :: datetime
  fs_ema_fast :: "pyfloat option"
  fs_ema_slow :: "pyfloat option"
  fs_atr :: "pyfloat option"
  fs_macd :: "pyfloat option"

record SymbolInfo =
  si_symbol :: string
  si_digits :: int
  si_point :: pyfloat
  si_volume_min :: pyfloat
  si_volume_max :: pyfloat
  si_volume_step :: pyfloat
  si_stops_level :: int
  si_freeze_level :: int
  si_filling_modes :: "string list"
  si_spread :: int

section \<open>From strategy to order\<close>

record GridLevels =
  gl_symbol :: string
  gl_timestamp :: datetime
  gl_center :: pyfloat
  gl_atr :: pyfloat
  gl_step_price :: pyfloat
  gl_tp_price :: pyfloat
  gl_sl_price :: pyfloat
  gl_buy_price :: pyfloat
  gl_sell_price :: pyfloat

datatype GuardActionKind = NONE | PARTIAL_CLOSE | FLATTEN

record GuardState =
  gs_deadline_bars_remaining :: int
  gs_last_evaluated_bar_time :: "datetime option"

record GuardAction =
  ga_kind :: GuardActionKind
  ga_ratio :: "pyfloat option"

record Signal =
  sig_symbol :: string
  sig_strategy_name :: string
  sig_direction :: Direction
  sig_timestamp :: datetime
  sig_rationale :: fstring

record TradeIntent =
  ti_symbol :: string
  ti_side :: Side
  ti_strategy_name :: string
  ti_desired_order_type :: OrderType
  ti_timestamp :: datetime
  ti_reference_price :: "pyfloat option"
  ti_signal_ref :: "Signal option"

record LotDecision =
  ld_lot :: pyfloat
  ld_mode :: string
  ld_reasons :: "fstring list"

record SizedIntent =
  szi_intent :: TradeIntent
  szi_volume :: pyfloat
  szi_sizing_mode :: string
  szi_sizing_rationale :: fstring

record RiskDecision =
  rd_approved :: bool
  rd_reasons :: "fstring list"
  rd_adjusted_volume :: "pyfloat option"
  rd_blocking_guard :: "string option"

record OrderPlan =
  op_symbol :: string
  op_order_type :: OrderType
  op_side :: Side
  op_volume :: pyfloat
  op_price :: "pyfloat option"
  op_sl :: pyfloat
  op_tp :: pyfloat
  op_deviation :: int
  op_magic :: int
  op_comment :: string
  op_filling_mode :: "string option"
  op_expiry :: "datetime option"

record ExecutionResult =
  er_order_plan :: "OrderPlan option"
  er_success :: bool
  er_retcode :: int
  er_ticket :: "int option"
  er_deal :: "int option"
  er_executed_price :: "pyfloat option"
  er_executed_volume :: "pyfloat option"
  er_broker_comment :: fstring
  er_verified :: bool
  er_verification_details :: fstring

text \<open>A result with the class's defaults, to be updated with the arguments of a call.\<close>

definition execution_result :: "OrderPlan option \<Rightarrow> bool \<Rightarrow> int \<Rightarrow> ExecutionResult" where
  "execution_result plan success retcode =
     \<lparr> er_order_plan = plan, er_success = success, er_retcode = retcode, er_ticket = None,
       er_deal = None, er_executed_price = None, er_executed_volume = None,
       er_broker_comment = [], er_verified = False, er_verification_details = [] \<rparr>"

section \<open>Account state\<close>

record AccountState =
  acc_balance :: pyfloat
  acc_equity :: pyfloat
  acc_margin_free :: pyfloat
  acc_trade_mode :: TradeMode
  acc_login :: "int option"
  acc_server :: "string option"

record PositionState =
  pos_ticket :: int
  pos_symbol :: string
  pos_side :: Side
  pos_volume :: pyfloat
  pos_price_open :: pyfloat
  pos_profit :: pyfloat
  pos_magic :: int
  pos_sl :: pyfloat
  pos_tp :: pyfloat

record OrderState =
  ord_ticket :: int
  ord_symbol :: string
  ord_side :: Side
  ord_volume :: pyfloat
  ord_price :: pyfloat
  ord_magic :: int

record Deal =
  deal_ticket :: int
  deal_order :: int
  deal_position_id :: int
  deal_time :: datetime
  deal_type :: int
  deal_entry :: int
  deal_symbol :: string
  deal_volume :: pyfloat
  deal_price :: pyfloat
  deal_profit :: pyfloat
  deal_commission :: pyfloat
  deal_swap :: pyfloat
  deal_fee :: pyfloat
  deal_magic :: int
  deal_comment :: "string option"

record ConnectionState =
  cs_connected :: bool
  cs_terminal_build :: "int option"
  cs_detail :: fstring

section \<open>Exceptions\<close>

text \<open>
  The exceptions that can leave the modelled code, each with the data its class stores; the
  message texts are not modelled. \<open>Tool_error\<close> stands for whatever the MCP session itself
  raises (a dropped connection, a protocol error). \<open>KeyboardInterrupt\<close> is the one that
  \<^verbatim>\<open>except Exception\<close> does not catch.
\<close>

datatype exn =
    ValueError
  | TypeError
  | KeyError
  | IndexError
  | AttributeError
  | RuntimeError
  | AssertionError
  | ZeroDivisionError
  | NotImplementedError
  | JSONDecodeError
  | Csv_error
  | Tool_error string
  | KeyboardInterrupt
  | SettingsError
  | NotDemoAccountError
  | ToolNotClassifiedError
  | TradingDisabledError
  | McpCallTimeoutError string pyfloat
  | MalformedTradeResponseError
  | StateLoadError
  | ExecutionBlockedError
  | InvalidOrderPlanError
  | SlTpAttachmentFailedError int OrderPlan fstring "int option"
  | GridCycleError "ExecutionResult list" "(Side \<times> exn) list"

type_synonym 'a result = "exn + 'a"

definition is_Exception :: "exn \<Rightarrow> bool" where
  "is_Exception e \<longleftrightarrow> e \<noteq> KeyboardInterrupt"

text \<open>\<^verbatim>\<open>try: ... except Exception as exc: ...\<close>: other exceptions pass.\<close>

definition except_io :: "('s, exn, 'a) io \<Rightarrow> (exn \<Rightarrow> ('s, exn, 'a) io) \<Rightarrow> ('s, exn, 'a) io" where
  "except_io m h = catch_io m (\<lambda>e. if is_Exception e then h e else raise_io e)"

text \<open>The same with an \<^verbatim>\<open>else\<close> that runs outside the \<^verbatim>\<open>try\<close>.\<close>

definition except_else_io ::
  "('s, exn, 'a) io \<Rightarrow> (exn \<Rightarrow> ('s, exn, 'b) io) \<Rightarrow> ('a \<Rightarrow> ('s, exn, 'b) io) \<Rightarrow> ('s, exn, 'b) io" where
  "except_else_io m h k =
     bind_io (try_io m) (\<lambda>r. case r of
        Inl e \<Rightarrow> if is_Exception e then h e else raise_io e
      | Inr x \<Rightarrow> k x)"

text \<open>
  \<^verbatim>\<open>sorted(xs, key=...)\<close> by a time is stable, and raises when instants of both kinds occur.
\<close>

definition sort_by_time :: "('a \<Rightarrow> datetime) \<Rightarrow> 'a list \<Rightarrow> 'a list result" where
  "sort_by_time f xs =
     (if one_kind (map f xs) then Inr (sort_key (\<lambda>x. ticks (f x)) xs) else Inl TypeError)"

lemma sort_by_time_Inr:
  assumes "sort_by_time f xs = Inr ys"
  shows "set ys = set xs" "length ys = length xs" "sorted (map (\<lambda>x. ticks (f x)) ys)" "one_kind (map f xs)"
  using assms by (auto simp: sort_by_time_def split: if_splits)

text \<open>
  \<^verbatim>\<open>min\<close> and \<^verbatim>\<open>max\<close> of instants: no value for none, an exception for both kinds.
\<close>

definition dt_min :: "datetime list \<Rightarrow> datetime result" where
  "dt_min ts = (case ts of [] \<Rightarrow> Inl ValueError
     | t # us \<Rightarrow> if one_kind ts then Inr (foldl (\<lambda>a b. if ticks b < ticks a then b else a) t us) else Inl TypeError)"

definition dt_max :: "datetime list \<Rightarrow> datetime result" where
  "dt_max ts = (case ts of [] \<Rightarrow> Inl ValueError
     | t # us \<Rightarrow> if one_kind ts then Inr (foldl (\<lambda>a b. if ticks a < ticks b then b else a) t us) else Inl TypeError)"

text \<open>Division of floats where the divisor is not known to be nonzero.\<close>

definition py_div :: "pyfloat \<Rightarrow> pyfloat \<Rightarrow> pyfloat result" where
  "py_div a b = (if b = 0 then Inl ZeroDivisionError else Inr (a / b))"

text \<open>\<^verbatim>\<open>int(x)\<close> and \<^verbatim>\<open>float(x)\<close> of a value from a document.\<close>

fun int_of_json :: "json \<Rightarrow> int result" where
  "int_of_json (JInt n) = Inr n"
| "int_of_json (JBool b) = Inr (if b then 1 else 0)"
| "int_of_json (JFloat x) = Inr (py_trunc x)"
| "int_of_json (JStr s) = of_option ValueError (int_of_string s)"
| "int_of_json (JText t) = Inl ValueError"
| "int_of_json _ = Inl TypeError"

fun float_of_json :: "json \<Rightarrow> pyfloat result" where
  "float_of_json (JInt n) = Inr (fint n)"
| "float_of_json (JBool b) = Inr (if b then 1 else 0)"
| "float_of_json (JFloat x) = Inr x"
| "float_of_json (JStr s) = of_option ValueError (float_of_string s)"
| "float_of_json (JText t) = Inl ValueError"
| "float_of_json _ = Inl TypeError"

text \<open>
  \<^verbatim>\<open>d[k]\<close> and \<^verbatim>\<open>d.get(k)\<close> of a document that should be an object.
\<close>

definition item :: "json \<Rightarrow> string \<Rightarrow> json result" where
  "item j k = (case j of JObj d \<Rightarrow> of_option KeyError (map_of d k) | _ \<Rightarrow> Inl TypeError)"

definition get_item :: "json \<Rightarrow> string \<Rightarrow> json option result" where
  "get_item j k = (case j of JObj d \<Rightarrow> Inr (map_of d k) | _ \<Rightarrow> Inl AttributeError)"

text \<open>
  Values read without conversion, at the type the annotation of their field promises; another
  type is refused here, where Python would carry it along unchecked.
\<close>

fun as_str :: "json \<Rightarrow> string result" where
  "as_str (JStr s) = Inr s" | "as_str _ = Inl TypeError"

fun as_int :: "json \<Rightarrow> int result" where
  "as_int (JInt n) = Inr n" | "as_int _ = Inl TypeError"

fun as_float :: "json \<Rightarrow> pyfloat result" where
  "as_float (JFloat x) = Inr x" | "as_float (JInt n) = Inr (fint n)" | "as_float _ = Inl TypeError"

fun as_text :: "json \<Rightarrow> fstring result" where
  "as_text (JStr s) = Inr [f_str s]" | "as_text (JText t) = Inr t" | "as_text _ = Inl TypeError"

definition as_option :: "(json \<Rightarrow> 'a result) \<Rightarrow> json \<Rightarrow> 'a option result" where
  "as_option f j = (if j = JNull then Inr None else bind_res (f j) (\<lambda>x. Inr (Some x)))"

definition json_option :: "('a \<Rightarrow> json) \<Rightarrow> 'a option \<Rightarrow> json" where
  "json_option f x = (case x of None \<Rightarrow> JNull | Some v \<Rightarrow> f v)"

section \<open>Protocols\<close>

record 's MarketDataSource =
  get_bars :: "string \<Rightarrow> string \<Rightarrow> int \<Rightarrow> ('s, exn, MarketBar list) io"
  get_tick :: "string \<Rightarrow> ('s, exn, Tick) io"
  get_symbol_info :: "string \<Rightarrow> ('s, exn, SymbolInfo) io"

record 's AccountReader =
  get_account_state :: "('s, exn, AccountState) io"
  get_positions :: "string option \<Rightarrow> int option \<Rightarrow> ('s, exn, PositionState list) io"
  get_orders :: "string option \<Rightarrow> int option \<Rightarrow> ('s, exn, OrderState list) io"
  get_connection_state :: "('s, exn, ConnectionState) io"

record 's OrderExecutor =
  submit :: "OrderPlan \<Rightarrow> ('s, exn, ExecutionResult) io"
  cancel :: "int \<Rightarrow> ('s, exn, ExecutionResult) io"
  close_position :: "int \<Rightarrow> pyfloat option \<Rightarrow> ('s, exn, ExecutionResult) io"

end
