(* ===== verification/Features.thy ===== *)
theory Features
  imports Domain
begin

text \<open>
  The indicators of \<^verbatim>\<open>features/\<close>: exponential moving average, average true range, MACD
  and the efficiency ratio. All are over plain floats or over \<^verbatim>\<open>MarketBar\<close>s, oldest
  first. Shown: what each is on its boundary cases, that the range is never negative, and
  that the windowed indicators read no bar older than their window.
\<close>

section \<open>The indicators\<close>

definition ema :: "pyfloat list \<Rightarrow> int \<Rightarrow> pyfloat result" where
  "ema values period =
     (if period < 1 then Inl ValueError
      else if values = [] then Inr 0
      else let alpha = flt 2 / (fint period + 1)
           in Inr (foldl (\<lambda>result v. v * alpha + result * (1 - alpha)) (hd values) (tl values)))"

definition true_range :: "MarketBar \<Rightarrow> pyfloat \<Rightarrow> pyfloat" where
  "true_range bar prev_close =
     max (max (bar_high bar - bar_low bar) \<bar>bar_high bar - prev_close\<bar>) \<bar>bar_low bar - prev_close\<bar>"

definition true_ranges :: "MarketBar list \<Rightarrow> pyfloat list" where
  "true_ranges bars =
     map (\<lambda>i. true_range (bars ! i) (if i > 0 then bar_close (bars ! (i - 1)) else bar_close (bars ! i)))
       [0..<length bars]"

definition atr :: "MarketBar list \<Rightarrow> int \<Rightarrow> pyfloat result" where
  "atr bars period =
     (if period < 1 then Inl ValueError
      else if int (length bars) < period + 1 then Inr 0
      else Inr (py_sum (py_from (true_ranges bars) (- period)) / fint period))"

definition macd :: "pyfloat list \<Rightarrow> int \<Rightarrow> int \<Rightarrow> pyfloat result" where
  "macd closes fast slow =
     (if int (length closes) < max fast slow then Inr 0
      else let window = py_from closes (- slow);
               fast_period = (if fast < slow then fast else slow)
           in bind_res (ema window fast_period) (\<lambda>a.
              bind_res (ema window slow) (\<lambda>b. Inr (a - b))))"

definition steps_abs :: "pyfloat list \<Rightarrow> pyfloat list" where
  "steps_abs closes = map (\<lambda>i. \<bar>closes ! i - closes ! (i - 1)\<bar>) [1..<length closes]"

definition efficiency_ratio :: "MarketBar list \<Rightarrow> int \<Rightarrow> pyfloat result" where
  "efficiency_ratio bars period =
     (if period < 1 then Inl ValueError
      else if int (length bars) < period + 1 then Inr 0
      else let closes = map bar_close (py_from bars (- (period + 1)));
               net_change = \<bar>last closes - hd closes\<bar>;
               path_length = py_sum (steps_abs closes)
           in Inr (if path_length \<le> 0 then 0 else net_change / path_length))"

section \<open>Boundary cases\<close>

lemma ema_period_one: "values \<noteq> [] \<Longrightarrow> ema values 1 = Inr (last values)"
proof -
  have one: "flt 2 / (1 + 1 :: pyfloat) = 1"
    by (simp add: pyfloat_eq_iff rat_of_arith)
  have last: "foldl (\<lambda>result v. v) r vs = last (r # vs)" for r :: pyfloat and vs
    by (induction vs arbitrary: r) auto
  show "values \<noteq> [] \<Longrightarrow> ema values 1 = Inr (last values)"
    by (simp add: ema_def one last Let_def)
qed

lemma ema_returns: "1 \<le> period \<Longrightarrow> \<exists>v. ema values period = Inr v"
  by (simp add: ema_def Let_def)

lemma true_range_nonneg: "0 \<le> true_range bar prev"
  by (simp add: true_range_def le_max_iff_disj)

lemma true_ranges_nonneg: "x \<in> set (true_ranges bars) \<Longrightarrow> 0 \<le> x"
  by (auto simp: true_ranges_def true_range_nonneg)

lemma set_py_from: "set (py_from xs i) \<subseteq> set xs"
  by (auto simp: py_from_def dest: in_set_dropD split: if_splits)

lemma atr_nonneg: "atr bars period = Inr v \<Longrightarrow> 0 \<le> v"
proof -
  assume v: "atr bars period = Inr v"
  have sum: "0 \<le> py_sum (py_from (true_ranges bars) (- period))"
    by (rule py_sum_nonneg) (use set_py_from true_ranges_nonneg in fast)
  show "0 \<le> v"
  proof (cases "period < 1 \<or> int (length bars) < period + 1")
    case True
    then show ?thesis using v by (simp add: atr_def split: if_splits)
  next
    case False
    then have "v = py_sum (py_from (true_ranges bars) (- period)) / fint period"
      using v by (simp add: atr_def)
    moreover have "0 \<le> fint period" using False by simp
    ultimately show ?thesis using pyfloat_prod_sign(3) [OF sum] by simp
  qed
qed

lemma atr_returns: "1 \<le> period \<Longrightarrow> \<exists>v. atr bars period = Inr v"
  by (simp add: atr_def)

lemma efficiency_ratio_nonneg:
  assumes "efficiency_ratio bars period = Inr v"
  shows "0 \<le> v"
proof -
  have "0 \<le> \<bar>a\<bar> / p" if "\<not> p \<le> 0" for a p :: pyfloat
    using that by (simp add: pyfloat_prod_sign)
  then show ?thesis
    using assms by (auto simp: efficiency_ratio_def Let_def split: if_splits)
qed

text \<open>A swapped or degenerate pair of periods (fast not below slow) makes the MACD exactly 0.\<close>

lemma macd_degenerate:
  assumes "1 \<le> slow" "slow \<le> fast"
  shows "macd closes fast slow = Inr 0"
  using ema_returns [OF assms(1), of "py_from closes (- slow)"] assms
  by (auto simp: macd_def)

section \<open>Windows\<close>

lemma py_from_map: "py_from (map f xs) i = map f (py_from xs i)"
  by (simp add: py_from_def drop_map)

lemma py_from_add:
  assumes "0 < n" "n \<le> int (length ys)"
  shows "py_from (xs @ ys) (- n) = py_from ys (- n)"
proof -
  have "nat (int (length xs + length ys) + - n) = length xs + nat (int (length ys) + - n)"
    using assms by simp
  then show ?thesis using assms by (simp add: py_from_def)
qed

text \<open>All ranges but the first of a suffix are those of the whole series.\<close>

lemma true_ranges_suffix:
  assumes "ys \<noteq> []"
  shows "drop (Suc (length xs)) (true_ranges (xs @ ys)) = tl (true_ranges ys)"
proof (rule nth_equalityI)
  show "length (drop (Suc (length xs)) (true_ranges (xs @ ys))) = length (tl (true_ranges ys))"
    by (simp add: true_ranges_def)
next
  fix i
  assume "i < length (drop (Suc (length xs)) (true_ranges (xs @ ys)))"
  then have i: "i < length ys - 1" by (simp add: true_ranges_def)
  then show "drop (Suc (length xs)) (true_ranges (xs @ ys)) ! i = tl (true_ranges ys) ! i"
    by (simp add: true_ranges_def nth_tl nth_append)
qed

lemma atr_window:
  assumes "1 \<le> period" "int (length ys) = period + 1"
  shows "atr (xs @ ys) period = atr ys period"
proof -
  have len: "length (true_ranges zs) = length zs" for zs
    by (simp add: true_ranges_def)
  have ys: "ys \<noteq> []" using assms by auto
  have "py_from (true_ranges (xs @ ys)) (- period) = drop (Suc (length xs)) (true_ranges (xs @ ys))"
    using assms by (simp add: py_from_def len nat_add_distrib)
  moreover have "py_from (true_ranges ys) (- period) = tl (true_ranges ys)"
    using assms by (simp add: py_from_def len drop_Suc flip: drop_0)
  ultimately show ?thesis
    using assms true_ranges_suffix [OF ys, of xs] by (simp add: atr_def)
qed

text \<open>
  The windowed indicators read nothing older than their window: prepending any history to
  \<open>period + 1\<close> bars changes neither the average true range nor the efficiency ratio, and
  prepending closes to the last \<open>slow\<close> ones does not change the MACD.
\<close>

theorem indicators_read_their_window:
  assumes "1 \<le> period" "int (length ys) = period + 1"
    and "1 \<le> slow" "fast < slow" "int (length ws) = slow"
  shows "atr (xs @ ys) period = atr ys period \<and>
    efficiency_ratio (xs @ ys) period = efficiency_ratio ys period \<and>
    macd (vs @ ws) fast slow = macd ws fast slow"
proof -
  have "py_from (xs @ ys) (- (period + 1)) = py_from ys (- (period + 1))"
    using assms by (intro py_from_add) auto
  then have "efficiency_ratio (xs @ ys) period = efficiency_ratio ys period"
    unfolding efficiency_ratio_def using assms by simp
  moreover have "macd (vs @ ws) fast slow = macd ws fast slow"
    using assms by (simp add: macd_def py_from_add)
  ultimately show ?thesis
    using atr_window [OF assms(1,2)] by simp
qed

definition sample_bar :: "int \<Rightarrow> int \<Rightarrow> MarketBar" where
  "sample_bar i p =
     \<lparr> bar_symbol = ''BTCUSD'', bar_timeframe = ''M1'', bar_time = Aware (minutes i), bar_open = fint p,
       bar_high = fint (p + 1), bar_low = fint (p - 1), bar_close = fint p, bar_tick_volume = 1, bar_spread = 1 \<rparr>"

theorem indicators_read_their_window_witness:
  "atr ([sample_bar 0 5] @ [sample_bar 1 7, sample_bar 2 9]) 1 = atr [sample_bar 1 7, sample_bar 2 9] 1 \<and>
   efficiency_ratio ([sample_bar 0 5] @ [sample_bar 1 7, sample_bar 2 9]) 1 =
     efficiency_ratio [sample_bar 1 7, sample_bar 2 9] 1 \<and>
   macd ([fint 5] @ [fint 7, fint 9]) 1 2 = macd [fint 7, fint 9] 1 2"
  by (rule indicators_read_their_window) simp_all

end
