(* ===== verification/Strategy.thy ===== *)
theory Strategy
  imports Features
begin

text \<open>
  The strategies of \<^verbatim>\<open>strategy/\<close>: grid levels around a moving average, the guard that
  unwinds inventory on an adverse crossing, and the runner's directional signal with its stop
  distances. Shown: the order of the grid's levels and their floors, the guard's state machine
  (one action per closed bar, the countdown to FLATTEN, its invariant), and that the runner
  treats rising and falling markets alike.
\<close>

section \<open>Grid\<close>

datatype CenterMode = Center_ema | Center_last

record GridStrategyConfig =
  gc_atr_period :: int
  gc_center_ema_period :: int
  gc_center_mode :: CenterMode
  gc_step_mult :: pyfloat
  gc_min_step_points :: pyfloat
  gc_sl_atr_mult :: pyfloat
  gc_max_entry_efficiency_ratio :: "pyfloat option"
  gc_efficiency_ratio_period :: int

definition default_grid_config :: GridStrategyConfig where
  "default_grid_config =
     \<lparr> gc_atr_period = 14, gc_center_ema_period = 50, gc_center_mode = Center_ema,
       gc_step_mult = flt (2 / 5), gc_min_step_points = fint 10, gc_sl_atr_mult = fint 2,
       gc_max_entry_efficiency_ratio = None, gc_efficiency_ratio_period = 14 \<rparr>"

definition grid_center :: "pyfloat list \<Rightarrow> GridStrategyConfig \<Rightarrow> pyfloat result" where
  "grid_center closes config =
     (if gc_center_mode config = Center_ema then ema closes (gc_center_ema_period config)
      else Inr (last closes))"

definition grid_levels_of ::
  "MarketBar \<Rightarrow> pyfloat \<Rightarrow> pyfloat \<Rightarrow> pyfloat \<Rightarrow> pyfloat \<Rightarrow> pyfloat \<Rightarrow> GridLevels" where
  "grid_levels_of bar center atr_value step_price tp_price sl_price =
     \<lparr> gl_symbol = bar_symbol bar, gl_timestamp = bar_time bar, gl_center = center, gl_atr = atr_value,
       gl_step_price = step_price, gl_tp_price = tp_price, gl_sl_price = sl_price,
       gl_buy_price = center - step_price, gl_sell_price = center + step_price \<rparr>"

definition compute_grid_levels ::
  "MarketBar list \<Rightarrow> pyfloat \<Rightarrow> GridStrategyConfig \<Rightarrow> GridLevels result" where
  "compute_grid_levels bars point config =
     (if bars = [] then Inl ValueError
      else
        let closes = map bar_close bars;
            min_step = gc_min_step_points config * point
        in bind_res (atr bars (gc_atr_period config)) (\<lambda>atr_value.
           if atr_value \<le> 0
           then Inr (grid_levels_of (last bars) (last closes) 0 min_step min_step min_step)
           else bind_res (grid_center closes config) (\<lambda>center.
             Inr (grid_levels_of (last bars) center atr_value
                    (max min_step (atr_value * gc_step_mult config))
                    (max min_step (atr_value * gc_step_mult config * flt (6 / 5)))
                    (max min_step (atr_value * gc_sl_atr_mult config))))))"

lemma compute_grid_levels_shape:
  assumes "compute_grid_levels bars point config = Inr gl"
  shows "gl_buy_price gl = gl_center gl - gl_step_price gl"
    and "gl_sell_price gl = gl_center gl + gl_step_price gl"
    and "gc_min_step_points config * point \<le> gl_step_price gl"
    and "gc_min_step_points config * point \<le> gl_tp_price gl"
    and "gc_min_step_points config * point \<le> gl_sl_price gl"
    and "0 \<le> gl_atr gl" and "bars \<noteq> []"
    and "gl_symbol gl = bar_symbol (last bars)" and "gl_timestamp gl = bar_time (last bars)"
  using assms
  by (auto simp: compute_grid_levels_def grid_levels_of_def Let_def result_simps split: if_splits
      dest: atr_nonneg)

text \<open>
  The grid's two proposals lie on the two sides of its center, and its step, target and stop
  distances never fall under the configured floor of ticks; the levels carry the last bar's
  symbol and time.
\<close>

theorem grid_levels_ordered:
  assumes "compute_grid_levels bars point config = Inr gl"
    and "0 \<le> point" "0 \<le> gc_min_step_points config"
  shows "gl_buy_price gl \<le> gl_center gl \<and> gl_center gl \<le> gl_sell_price gl \<and>
    gc_min_step_points config * point \<le> min (gl_step_price gl) (min (gl_tp_price gl) (gl_sl_price gl)) \<and>
    0 \<le> gl_atr gl \<and> gl_symbol gl = bar_symbol (last bars) \<and> gl_timestamp gl = bar_time (last bars)"
proof -
  have "0 \<le> gc_min_step_points config * point"
    using assms(2,3) by (intro pyfloat_prod_sign(1))
  then have "0 \<le> gl_step_price gl"
    using compute_grid_levels_shape(3) [OF assms(1)] by (rule order_trans)
  then show ?thesis
    using compute_grid_levels_shape [OF assms(1)] by (simp add: pyfloat_diff_le pyfloat_le_add)
qed

text \<open>A lone bar has no true range yet, so the floor of 10 ticks of size 1 is the step.\<close>

lemma one_bar_levels:
  "compute_grid_levels [sample_bar 0 100] 1 default_grid_config =
     Inr (grid_levels_of (sample_bar 0 100) (fint 100) 0 (fint 10) (fint 10) (fint 10))"
  by (simp add: compute_grid_levels_def default_grid_config_def atr_def sample_bar_def Let_def)

theorem grid_levels_ordered_witness:
  "gl_buy_price (grid_levels_of (sample_bar 0 100) (fint 100) 0 (fint 10) (fint 10) (fint 10)) \<le> fint 100"
  using grid_levels_ordered [OF one_bar_levels]
  by (simp add: default_grid_config_def grid_levels_of_def)

section \<open>Guard\<close>

record GuardConfig =
  gd_ema_long :: int
  gd_partial_ratio_long :: pyfloat
  gd_partial_ratio_short :: pyfloat
  gd_deadline_bars :: int

definition default_guard_config :: GuardConfig where
  "default_guard_config =
     \<lparr> gd_ema_long = 26, gd_partial_ratio_long = flt (1 / 2), gd_partial_ratio_short = flt (1 / 2),
       gd_deadline_bars = 6 \<rparr>"

definition no_action :: GuardAction where
  "no_action = \<lparr> ga_kind = NONE, ga_ratio = None \<rparr>"

definition partial_close :: "pyfloat \<Rightarrow> GuardAction" where
  "partial_close r = \<lparr> ga_kind = PARTIAL_CLOSE, ga_ratio = Some r \<rparr>"

definition flatten :: GuardAction where
  "flatten = \<lparr> ga_kind = FLATTEN, ga_ratio = None \<rparr>"

text \<open>The decision on a closed bar not seen before: the countdown left and the action.\<close>

definition guard_decision :: "bool \<Rightarrow> bool \<Rightarrow> int \<Rightarrow> GuardConfig \<Rightarrow> int \<times> GuardAction" where
  "guard_decision long_trigger short_trigger deadline config =
     (if long_trigger then (gd_deadline_bars config, partial_close (gd_partial_ratio_long config))
      else if short_trigger then (gd_deadline_bars config, partial_close (gd_partial_ratio_short config))
      else if deadline > 0
      then (deadline - 1, if deadline - 1 = 0 then flatten else no_action)
      else (deadline, no_action))"

definition holds_side :: "PositionState list \<Rightarrow> int \<Rightarrow> Side \<Rightarrow> bool" where
  "holds_side positions magic side \<longleftrightarrow> list_ex (\<lambda>p. pos_magic p = magic \<and> pos_side p = side) positions"

definition evaluate_guard ::
  "MarketBar list \<Rightarrow> PositionState list \<Rightarrow> int \<Rightarrow> GuardState \<Rightarrow> GuardConfig \<Rightarrow>
   (GuardState \<times> GuardAction) result" where
  "evaluate_guard bars positions magic state config =
     (if int (length bars) < gd_ema_long config + 5 then Inl ValueError
      else if length bars < 2 then Inl IndexError
      else
        let last_closed = bars ! (length bars - 2)
        in if gs_last_evaluated_bar_time state = Some (bar_time last_closed) then Inr (state, no_action)
           else bind_res (ema (map bar_close (butlast bars)) (gd_ema_long config)) (\<lambda>ema_long_value.
             let long_trigger = holds_side positions magic BUY \<and> bar_high last_closed < ema_long_value;
                 short_trigger = holds_side positions magic SELL \<and> bar_low last_closed > ema_long_value;
                 (deadline, action) =
                   guard_decision long_trigger short_trigger (gs_deadline_bars_remaining state) config
             in Inr (\<lparr> gs_deadline_bars_remaining = deadline,
                       gs_last_evaluated_bar_time = Some (bar_time last_closed) \<rparr>, action)))"

text \<open>What one evaluation does, by cases: nothing new, or the decision on a fresh bar.\<close>

lemma evaluate_guard_cases:
  assumes "evaluate_guard bars positions magic state config = Inr (state', action)"
  obtains (seen) "gs_last_evaluated_bar_time state = Some (bar_time (bars ! (length bars - 2)))"
      "state' = state" "action = no_action"
  | (fresh) long_trigger short_trigger where
      "gs_last_evaluated_bar_time state \<noteq> Some (bar_time (bars ! (length bars - 2)))"
      "guard_decision long_trigger short_trigger (gs_deadline_bars_remaining state) config =
         (gs_deadline_bars_remaining state', action)"
      "gs_last_evaluated_bar_time state' = Some (bar_time (bars ! (length bars - 2)))"
proof (cases "gs_last_evaluated_bar_time state = Some (bar_time (bars ! (length bars - 2)))")
  case True
  then show ?thesis
    using assms by (intro seen) (auto simp: evaluate_guard_def Let_def split: if_splits)
next
  case False
  obtain v where v: "ema (map bar_close (butlast bars)) (gd_ema_long config) = Inr v"
    using assms False by (auto simp: evaluate_guard_def Let_def result_simps split: if_splits)
  define d where "d = guard_decision (holds_side positions magic BUY \<and> bar_high (bars ! (length bars - 2)) < v)
    (holds_side positions magic SELL \<and> bar_low (bars ! (length bars - 2)) > v)
    (gs_deadline_bars_remaining state) config"
  have "state' = \<lparr> gs_deadline_bars_remaining = fst d,
      gs_last_evaluated_bar_time = Some (bar_time (bars ! (length bars - 2))) \<rparr> \<and> action = snd d"
    using assms False v by (auto simp: evaluate_guard_def Let_def d_def split_beta split: if_splits)
  then show ?thesis
    using d_def [symmetric] by (intro fresh [OF False]) (auto simp: prod_eq_iff)
qed

lemma evaluate_guard_records_bar:
  "evaluate_guard bars positions magic state config = Inr (state', action) \<Longrightarrow>
   gs_last_evaluated_bar_time state' = Some (bar_time (bars ! (length bars - 2)))"
  by (erule evaluate_guard_cases) auto

text \<open>
  The guard acts at most once per closed bar: evaluated again while the same bar is the last
  closed one (with any inventory), it returns no action and leaves its state alone.
\<close>

theorem guard_once_per_bar:
  assumes "evaluate_guard bars positions magic state config = Inr (state', action)"
    and "length bars' = length bars" "bar_time (bars' ! (length bars - 2)) = bar_time (bars ! (length bars - 2))"
  shows "evaluate_guard bars' positions' magic' state' config = Inr (state', no_action)"
proof -
  have "\<not> int (length bars) < gd_ema_long config + 5" "\<not> length bars < 2"
    using assms(1) by (auto simp: evaluate_guard_def split: if_splits)
  then show ?thesis
    using assms(2,3) evaluate_guard_records_bar [OF assms(1)] by (simp add: evaluate_guard_def Let_def)
qed

section \<open>The guard as a state machine\<close>

text \<open>
  The states a caller that feeds each state back can get to from the initial one, whatever bars
  and positions it shows the guard; evaluations that raise leave the state as it was.
\<close>

definition initial_guard_state :: GuardState where
  "initial_guard_state = \<lparr> gs_deadline_bars_remaining = 0, gs_last_evaluated_bar_time = None \<rparr>"

inductive guard_reachable :: "GuardConfig \<Rightarrow> int \<Rightarrow> GuardState \<Rightarrow> bool" for config magic where
  start: "guard_reachable config magic initial_guard_state"
| evaluate: "guard_reachable config magic s \<Longrightarrow>
    evaluate_guard bars positions magic s config = Inr (s', action) \<Longrightarrow> guard_reachable config magic s'"

lemma guard_decision_range:
  assumes "guard_decision l s d config = (d', action)" "0 \<le> gd_deadline_bars config"
    "0 \<le> d" "d \<le> gd_deadline_bars config"
  shows "0 \<le> d' \<and> d' \<le> gd_deadline_bars config \<and> (ga_kind action = FLATTEN \<longrightarrow> d' = 0 \<and> d = 1)"
  using assms
  by (auto simp: guard_decision_def no_action_def partial_close_def flatten_def split: if_splits)

text \<open>In every reachable guard state the countdown lies between 0 and the configured deadline.\<close>

theorem guard_deadline_invariant:
  assumes "guard_reachable config magic s" "0 \<le> gd_deadline_bars config"
  shows "0 \<le> gs_deadline_bars_remaining s \<and> gs_deadline_bars_remaining s \<le> gd_deadline_bars config"
  using assms(1)
proof induction
  case start
  then show ?case using assms(2) by (simp add: initial_guard_state_def)
next
  case (evaluate s bars positions s' action)
  from evaluate.hyps(2) show ?case
    by (cases rule: evaluate_guard_cases) (use evaluate.IH assms(2) guard_decision_range in auto)
qed

text \<open>
  A sequence of evaluations, each on a window of bars and the positions held then.
\<close>

fun guard_run ::
  "(MarketBar list \<times> PositionState list) list \<Rightarrow> int \<Rightarrow> GuardState \<Rightarrow> GuardConfig \<Rightarrow>
   (GuardState \<times> GuardAction list) result" where
  "guard_run [] magic s config = Inr (s, [])"
| "guard_run ((bars, positions) # inputs) magic s config =
     bind_res (evaluate_guard bars positions magic s config) (\<lambda>(s', action).
     bind_res (guard_run inputs magic s' config) (\<lambda>(s'', actions). Inr (s'', action # actions)))"

text \<open>
  An input is fresh after \<open>t\<close> if its last closed bar is another one, and quiet if it triggers
  nothing (here: no position of the guard's magic is left to trigger on).
\<close>

definition quiet_input :: "GuardConfig \<Rightarrow> int \<Rightarrow> MarketBar list \<times> PositionState list \<Rightarrow> bool" where
  "quiet_input config magic i \<longleftrightarrow>
     (case i of (bars, positions) \<Rightarrow>
        gd_ema_long config + 5 \<le> int (length bars) \<and>
        \<not> holds_side positions magic BUY \<and> \<not> holds_side positions magic SELL)"

definition closed_time :: "MarketBar list \<times> PositionState list \<Rightarrow> datetime" where
  "closed_time i = bar_time (fst i ! (length (fst i) - 2))"

lemma quiet_step:
  assumes "quiet_input config magic (bars, positions)" "1 \<le> gd_ema_long config"
    and "gs_last_evaluated_bar_time s \<noteq> Some (closed_time (bars, positions))"
    and "0 < gs_deadline_bars_remaining s"
  shows "evaluate_guard bars positions magic s config =
    Inr (\<lparr> gs_deadline_bars_remaining = gs_deadline_bars_remaining s - 1,
           gs_last_evaluated_bar_time = Some (closed_time (bars, positions)) \<rparr>,
         if gs_deadline_bars_remaining s = 1 then flatten else no_action)"
proof -
  obtain v where "ema (map bar_close (butlast bars)) (gd_ema_long config) = Inr v"
    using ema_returns [OF assms(2)] by blast
  then show ?thesis
    using assms by (simp add: evaluate_guard_def quiet_input_def closed_time_def guard_decision_def Let_def)
qed

text \<open>
  Once armed with \<open>n\<close> bars left, the guard flattens on exactly the \<open>n\<close>th new closed bar
  that triggers nothing, and takes no action on the bars before it.
\<close>

theorem guard_flattens_at_deadline:
  assumes "gs_deadline_bars_remaining s = int n" "n = length inputs" "0 < n"
    and "1 \<le> gd_ema_long config" "\<forall>i \<in> set inputs. quiet_input config magic i"
    and "distinct (map closed_time inputs)"
    and "\<forall>i \<in> set inputs. gs_last_evaluated_bar_time s \<noteq> Some (closed_time i)"
  shows "\<exists>s'. guard_run inputs magic s config = Inr (s', replicate (n - 1) no_action @ [flatten]) \<and>
    gs_deadline_bars_remaining s' = 0"
  using assms
proof (induction inputs arbitrary: s n)
  case (Cons i inputs)
  obtain bars positions where i: "i = (bars, positions)" by (cases i)
  define s1 where "s1 = \<lparr> gs_deadline_bars_remaining = int n - 1,
    gs_last_evaluated_bar_time = Some (closed_time i) \<rparr>"
  have step: "evaluate_guard bars positions magic s config = Inr (s1, if n = 1 then flatten else no_action)"
    using quiet_step [of config magic bars positions s] Cons.prems by (auto simp: i s1_def)
  show ?case
  proof (cases "inputs = []")
    case True
    then show ?thesis using Cons.prems(2) by (simp add: i step) (simp add: s1_def)
  next
    case False
    obtain m where n: "n = Suc (Suc m)" and m: "Suc m = length inputs"
      using Cons.prems(2) False by (cases inputs) auto
    have "\<forall>x \<in> set inputs. closed_time i \<noteq> closed_time x"
      using Cons.prems(6) by (auto simp: image_iff)
    then obtain s' where "guard_run inputs magic s1 config = Inr (s', replicate (Suc m - 1) no_action @ [flatten])"
        "gs_deadline_bars_remaining s' = 0"
      using Cons.IH [of s1 "Suc m"] Cons.prems m False by (auto simp: s1_def n)
    then show ?thesis by (auto simp: i step n)
  qed
qed simp

text \<open>A flat book, one bar left of two: two new bars flatten it.\<close>

definition quiet_window :: "int \<Rightarrow> MarketBar list \<times> PositionState list" where
  "quiet_window t = (map (\<lambda>i. sample_bar (t + int i) 100) [0..<6], [])"

theorem guard_flattens_at_deadline_witness:
  "\<exists>s'. guard_run [quiet_window 0, quiet_window 1] 7
      \<lparr> gs_deadline_bars_remaining = 2, gs_last_evaluated_bar_time = None \<rparr>
      (default_guard_config\<lparr>gd_ema_long := 1\<rparr>) = Inr (s', [no_action, flatten]) \<and>
    gs_deadline_bars_remaining s' = 0"
  using guard_flattens_at_deadline
    [of "\<lparr> gs_deadline_bars_remaining = 2, gs_last_evaluated_bar_time = None \<rparr>" 2
      "[quiet_window 0, quiet_window 1]" "default_guard_config\<lparr>gd_ema_long := 1\<rparr>" 7]
  by (simp add: quiet_window_def quiet_input_def closed_time_def holds_side_def sample_bar_def)

theorem guard_once_per_bar_witness:
  "evaluate_guard (fst (quiet_window 0)) [] 7
     \<lparr> gs_deadline_bars_remaining = 1, gs_last_evaluated_bar_time = Some (Aware (minutes 4)) \<rparr>
     (default_guard_config\<lparr>gd_ema_long := 1\<rparr>) =
   Inr (\<lparr> gs_deadline_bars_remaining = 1, gs_last_evaluated_bar_time = Some (Aware (minutes 4)) \<rparr>, no_action)"
proof (rule guard_once_per_bar)
  show "evaluate_guard (fst (quiet_window 0)) [] 7
      \<lparr> gs_deadline_bars_remaining = 2, gs_last_evaluated_bar_time = None \<rparr>
      (default_guard_config\<lparr>gd_ema_long := 1\<rparr>) =
    Inr (\<lparr> gs_deadline_bars_remaining = 1, gs_last_evaluated_bar_time = Some (Aware (minutes 4)) \<rparr>, no_action)"
    using quiet_step [of "default_guard_config\<lparr>gd_ema_long := 1\<rparr>" 7 "fst (quiet_window 0)" "[]"
        "\<lparr> gs_deadline_bars_remaining = 2, gs_last_evaluated_bar_time = None \<rparr>"]
    by (simp add: quiet_window_def quiet_input_def closed_time_def holds_side_def sample_bar_def)
qed simp_all

theorem guard_deadline_invariant_witness:
  "0 \<le> gs_deadline_bars_remaining initial_guard_state \<and>
   gs_deadline_bars_remaining initial_guard_state \<le> gd_deadline_bars default_guard_config"
  by (rule guard_deadline_invariant [OF guard_reachable.start [of _ 7]]) (simp add: default_guard_config_def)

section \<open>Runner\<close>

record RunnerStrategyConfig =
  rc_fast :: int
  rc_slow :: int
  rc_min_bars_floor :: int
  rc_atr_period :: int
  rc_sl_atr_mult :: pyfloat
  rc_tp_atr_mult :: pyfloat
  rc_min_stop_distance_points :: pyfloat
  rc_min_stop_distance_fraction_of_price :: pyfloat
  rc_max_concurrent_positions :: int

definition default_runner_config :: RunnerStrategyConfig where
  "default_runner_config =
     \<lparr> rc_fast = 12, rc_slow = 26, rc_min_bars_floor = 30, rc_atr_period = 14,
       rc_sl_atr_mult = fint 3, rc_tp_atr_mult = fint 6, rc_min_stop_distance_points = fint 10,
       rc_min_stop_distance_fraction_of_price = flt (1 / 100), rc_max_concurrent_positions = 1 \<rparr>"

definition min_required_bars :: "RunnerStrategyConfig \<Rightarrow> int" where
  "min_required_bars config = max (rc_min_bars_floor config) (rc_slow config + 5)"

definition direction_of :: "pyfloat \<Rightarrow> Direction" where
  "direction_of macd_value = (if macd_value > 0 then LONG else if macd_value < 0 then SHORT else FLAT)"

definition runner_signal :: "MarketBar list \<Rightarrow> RunnerStrategyConfig \<Rightarrow> Signal result" where
  "runner_signal bars config =
     (if int (length bars) < min_required_bars config then Inl ValueError
      else bind_res (macd (map bar_close bars) (rc_fast config) (rc_slow config)) (\<lambda>macd_value.
        if bars = [] then Inl IndexError
        else Inr \<lparr> sig_symbol = bar_symbol (last bars), sig_strategy_name = ''runner'',
                   sig_direction = direction_of macd_value, sig_timestamp = bar_time (last bars),
                   sig_rationale = [Lit ''macd='', F_fix 6 macd_value, Lit '' fast='', f_int (rc_fast config),
                                    Lit '' slow='', f_int (rc_slow config)] \<rparr>))"

definition compute_stop_distances ::
  "MarketBar list \<Rightarrow> pyfloat \<Rightarrow> RunnerStrategyConfig \<Rightarrow> (pyfloat \<times> pyfloat) result" where
  "compute_stop_distances bars point config =
     bind_res (atr bars (rc_atr_period config)) (\<lambda>atr_value.
       if bars = [] then Inl IndexError
       else
         let base = (if atr_value > 0 then atr_value else rc_min_stop_distance_points config * point);
             base = max base (bar_close (last bars) * rc_min_stop_distance_fraction_of_price config)
         in Inr (base * rc_sl_atr_mult config, base * rc_tp_atr_mult config))"

lemma stop_distances_base:
  assumes "compute_stop_distances bars point config = Inr (sl, tp)"
  obtains base where "sl = base * rc_sl_atr_mult config" "tp = base * rc_tp_atr_mult config"
    "bar_close (last bars) * rc_min_stop_distance_fraction_of_price config \<le> base"
    "0 < rc_min_stop_distance_points config * point \<Longrightarrow> 0 < base"
  using assms
  by (auto simp: compute_stop_distances_def Let_def result_simps less_max_iff_disj split: if_splits)

text \<open>
  The runner's stop and target distances are positive, at least the configured fraction of the
  price times their multipliers, and the stop is no farther than the target.
\<close>

theorem stop_distances_positive:
  assumes "compute_stop_distances bars point config = Inr (sl, tp)"
    and "0 < point" "0 < rc_min_stop_distance_points config"
    and "0 < rc_sl_atr_mult config" "rc_sl_atr_mult config \<le> rc_tp_atr_mult config"
  shows "0 < sl \<and> sl \<le> tp \<and>
    bar_close (last bars) * rc_min_stop_distance_fraction_of_price config * rc_sl_atr_mult config \<le> sl"
proof -
  obtain base where b: "sl = base * rc_sl_atr_mult config" "tp = base * rc_tp_atr_mult config"
      "bar_close (last bars) * rc_min_stop_distance_fraction_of_price config \<le> base" "0 < base"
    using stop_distances_base [OF assms(1)] pyfloat_prod_sign(2) [OF assms(3,2)] by metis
  have "sl \<le> tp"
    using pyfloat_mult_right_mono [OF assms(5), of base] b(4)
    by (simp add: b(1,2) pyfloat_mult_commute [of base])
  then show ?thesis
    using b assms(4) pyfloat_mult_right_mono [OF b(3)] by (simp add: pyfloat_prod_sign)
qed

lemma one_bar_stops:
  "compute_stop_distances [sample_bar 0 100] 1 (default_runner_config\<lparr>rc_min_stop_distance_fraction_of_price := 0\<rparr>) =
     Inr (fint 10 * fint 3, fint 10 * fint 6)"
  by (simp add: compute_stop_distances_def default_runner_config_def atr_def sample_bar_def Let_def max_def)

theorem stop_distances_positive_witness: "0 < fint 10 * fint 3 \<and> fint 10 * fint 3 \<le> fint 10 * fint 6"
  using stop_distances_positive [OF one_bar_stops]
  by (simp add: default_runner_config_def fint_mono)

section \<open>The runner has no directional bias\<close>

definition mirror :: "MarketBar \<Rightarrow> MarketBar" where
  "mirror b = b\<lparr>bar_open := - bar_open b, bar_high := - bar_low b, bar_low := - bar_high b,
               bar_close := - bar_close b\<rparr>"

fun opposite :: "Direction \<Rightarrow> Direction" where
  "opposite LONG = SHORT" | "opposite SHORT = LONG" | "opposite FLAT = FLAT"

lemma ema_mirror: "ema (map uminus xs) p = map_sum id uminus (ema xs p)"
proof -
  have "foldl (\<lambda>r v. v * a + r * b) (- r) (map uminus vs) = - foldl (\<lambda>r v. v * a + r * b) r vs"
    for a b r :: pyfloat and vs
    by (induction vs arbitrary: r) (auto simp: pyfloat_mult_minus pyfloat_add_minus)
  then show ?thesis
    by (cases xs) (auto simp: ema_def Let_def)
qed

lemma macd_mirror: "macd (map uminus xs) fast slow = map_sum id uminus (macd xs fast slow)"
proof -
  have "bind_res (map_sum id uminus p) (\<lambda>a. bind_res (map_sum id uminus q) (\<lambda>b. Inr (a - b))) =
      map_sum id uminus (bind_res p (\<lambda>a. bind_res q (\<lambda>b. Inr (a - b))))" for p q :: "pyfloat result"
    by (cases p; cases q) (auto simp: pyfloat_sub_minus)
  then show ?thesis
    by (simp add: macd_def py_from_map ema_mirror Let_def)
qed

text \<open>
  The runner treats rising and falling markets alike: on the mirror image of a price series it
  signals the opposite direction, and raises exactly when it does on the series itself.
\<close>

theorem runner_signal_mirror:
  "map_sum id sig_direction (runner_signal (map mirror bars) config) =
   map_sum id (opposite \<circ> sig_direction) (runner_signal bars config)"
proof -
  have closes: "map bar_close (map mirror bars) = map uminus (map bar_close bars)"
    by (simp add: mirror_def)
  have "direction_of (- v) = opposite (direction_of v)" for v
    by (auto simp: direction_of_def)
  then show ?thesis
    unfolding runner_signal_def closes macd_mirror
    by (cases "macd (map bar_close bars) (rc_fast config) (rc_slow config)") auto
qed

end
