(* ===== verification/Sizing.thy ===== *)
theory Sizing
  imports Strategy
begin

text \<open>
  From a strategy's output to a sized intent: \<^verbatim>\<open>trade_intent/\<close> and
  \<^verbatim>\<open>sizing/money.py\<close>. Shown: what the intents are, the bounds and fallbacks of the lot in
  each mode, and how it moves with its inputs.
\<close>

section \<open>Intents\<close>

definition grid_levels_to_trade_intents :: "GridLevels \<Rightarrow> string \<Rightarrow> TradeIntent \<times> TradeIntent" where
  "grid_levels_to_trade_intents levels strategy_name =
     (\<lparr> ti_symbol = gl_symbol levels, ti_side = BUY, ti_strategy_name = strategy_name,
        ti_desired_order_type = LIMIT, ti_timestamp = gl_timestamp levels,
        ti_reference_price = Some (gl_buy_price levels), ti_signal_ref = None \<rparr>,
      \<lparr> ti_symbol = gl_symbol levels, ti_side = SELL, ti_strategy_name = strategy_name,
        ti_desired_order_type = LIMIT, ti_timestamp = gl_timestamp levels,
        ti_reference_price = Some (gl_sell_price levels), ti_signal_ref = None \<rparr>)"

definition signal_to_trade_intent :: "Signal \<Rightarrow> TradeIntent option" where
  "signal_to_trade_intent signal =
     (if sig_direction signal = FLAT then None
      else Some \<lparr> ti_symbol = sig_symbol signal,
                  ti_side = (if sig_direction signal = LONG then BUY else SELL),
                  ti_strategy_name = sig_strategy_name signal, ti_desired_order_type = MARKET,
                  ti_timestamp = sig_timestamp signal, ti_reference_price = None,
                  ti_signal_ref = Some signal \<rparr>)"

lemma signal_to_trade_intent_None: "signal_to_trade_intent s = None \<longleftrightarrow> sig_direction s = FLAT"
  by (simp add: signal_to_trade_intent_def)

lemma signal_to_trade_intent_Some:
  "signal_to_trade_intent s = Some i \<Longrightarrow>
   ti_desired_order_type i = MARKET \<and> ti_reference_price i = None \<and> ti_symbol i = sig_symbol s \<and>
   ti_strategy_name i = sig_strategy_name s \<and> (ti_side i = BUY \<longleftrightarrow> sig_direction s = LONG)"
  by (auto simp: signal_to_trade_intent_def split: if_splits)

section \<open>Lots\<close>

text \<open>\<^verbatim>\<open>float(x)\<close> of a missing value raises and the alternative is taken.\<close>

definition nz :: "pyfloat option \<Rightarrow> pyfloat \<Rightarrow> pyfloat" where
  "nz x alt = (case x of None \<Rightarrow> alt | Some v \<Rightarrow> v)"

definition nz_optional :: "pyfloat option \<Rightarrow> pyfloat option" where
  "nz_optional x = x"

record MoneyConfig =
  mc_lot_size_mode :: string
  mc_fixed_lot :: pyfloat
  mc_atr_scale_base :: pyfloat
  mc_atr_scale_ref :: pyfloat
  mc_atr_scale_min :: pyfloat
  mc_atr_scale_max :: pyfloat
  mc_risk_per_trade :: pyfloat
  mc_stop_distance_points :: "pyfloat option"
  mc_max_open_lots_hint :: "pyfloat option"

definition default_money_config :: MoneyConfig where
  "default_money_config =
     \<lparr> mc_lot_size_mode = ''fixed'', mc_fixed_lot = flt (1 / 100), mc_atr_scale_base = flt (1 / 100),
       mc_atr_scale_ref = 1, mc_atr_scale_min = flt (1 / 100), mc_atr_scale_max = flt (1 / 10),
       mc_risk_per_trade = 0, mc_stop_distance_points = None, mc_max_open_lots_hint = None \<rparr>"

record lot_inputs =
  li_atr :: "pyfloat option"
  li_step :: "pyfloat option"
  li_account_balance :: pyfloat
  li_point_value_per_lot :: "pyfloat option"
  li_price_point :: "pyfloat option"
  li_open_lots_now :: "pyfloat option"
  li_pending_lots_now :: "pyfloat option"

text \<open>The keyword arguments left out of a call.\<close>

definition no_lot_inputs :: lot_inputs where
  "no_lot_inputs = \<lparr> li_atr = None, li_step = None, li_account_balance = 0, li_point_value_per_lot = None,
     li_price_point = None, li_open_lots_now = None, li_pending_lots_now = None \<rparr>"

definition eps :: pyfloat where
  "eps = flt (1 / 10 ^ 9)"

definition lot_mode :: "MoneyConfig \<Rightarrow> string" where
  "lot_mode config = strip (lower (if mc_lot_size_mode config = [] then ''fixed'' else mc_lot_size_mode config))"

definition missing :: "pyfloat option \<Rightarrow> bool" where
  "missing x \<longleftrightarrow> x = None \<or> x = Some 0"

definition risk_inputs_insufficient :: "MoneyConfig \<Rightarrow> lot_inputs \<Rightarrow> bool" where
  "risk_inputs_insufficient config i \<longleftrightarrow>
     max 0 (mc_risk_per_trade config) \<le> 0 \<or> missing (mc_stop_distance_points config) \<or>
     missing (nz_optional (li_point_value_per_lot i)) \<or> missing (nz_optional (li_price_point i))"

definition atr_scale_step :: "lot_inputs \<Rightarrow> pyfloat" where
  "atr_scale_step i = max eps (nz (li_step i) (nz (li_atr i) 0))"

definition atr_scale_raw :: "MoneyConfig \<Rightarrow> lot_inputs \<Rightarrow> pyfloat" where
  "atr_scale_raw config i = mc_atr_scale_base config * (max eps (mc_atr_scale_ref config) / atr_scale_step i)"

definition risk_raw :: "MoneyConfig \<Rightarrow> lot_inputs \<Rightarrow> pyfloat" where
  "risk_raw config i =
     (li_account_balance i * max 0 (mc_risk_per_trade config)) /
     max eps (the (mc_stop_distance_points config) * the (nz_optional (li_point_value_per_lot i)))"

definition clamp_lot :: "MoneyConfig \<Rightarrow> pyfloat \<Rightarrow> pyfloat" where
  "clamp_lot config raw = max (mc_atr_scale_min config) (min (mc_atr_scale_max config) raw)"

definition lot_and_reason :: "MoneyConfig \<Rightarrow> lot_inputs \<Rightarrow> pyfloat \<times> fstring" where
  "lot_and_reason config i =
     (let mode = lot_mode config; lot = mc_fixed_lot config;
          clamped = [Lit '' (clamped ['', f_flt (mc_atr_scale_min config), Lit '','',
                     f_flt (mc_atr_scale_max config), Lit ''])'']
      in if mode = ''fixed'' then (lot, [Lit ''mode=fixed, fixed_lot='', f_flt lot])
      else if mode = ''atr_scale'' then
        (let raw = atr_scale_raw config i; lot = clamp_lot config raw
         in (lot, [Lit ''mode=atr_scale, base='', f_flt (mc_atr_scale_base config),
                   Lit '', ref='', f_flt (max eps (mc_atr_scale_ref config)),
                   Lit '', step='', F_fix 6 (atr_scale_step i), Lit '' -> raw='', F_fix 6 raw,
                   Lit '', lot='', F_fix 5 lot] @ clamped))
      else if mode = ''risk_percent'' then
        (let rp = max 0 (mc_risk_per_trade config)
         in if risk_inputs_insufficient config i
            then (lot, [Lit ''mode=risk_percent but insufficient inputs (risk_per_trade='', f_flt rp,
                        Lit '', stop_points='', f_opt f_flt (mc_stop_distance_points config),
                        Lit '', point_value_per_lot='', f_opt f_flt (nz_optional (li_point_value_per_lot i)),
                        Lit '', price_point='', f_opt f_flt (nz_optional (li_price_point i)),
                        Lit '') -> fallback fixed_lot='', f_flt lot])
            else (let raw = risk_raw config i; lot = clamp_lot config raw
                  in (lot, [Lit ''mode=risk_percent, balance='', F_fix 2 (li_account_balance i),
                            Lit '', risk%='', F_fix 2 (rp * fint 100), Lit ''%, risk=$'',
                            F_fix 2 (li_account_balance i * rp),
                            Lit '', stop_points='', f_opt f_flt (mc_stop_distance_points config),
                            Lit '', $/lot/point='', f_opt f_flt (nz_optional (li_point_value_per_lot i)),
                            Lit '' -> raw='', F_fix 5 raw, Lit '' -> lot='', F_fix 5 lot] @ clamped)))
      else (lot, [Lit ''mode='', f_str mode, Lit '' not recognized -> fallback fixed_lot='', f_flt lot]))"

definition decide_lot :: "MoneyConfig \<Rightarrow> lot_inputs \<Rightarrow> LotDecision" where
  "decide_lot config i =
     (let (lot, reason) = lot_and_reason config i
      in \<lparr> ld_lot = lot, ld_mode = lot_mode config,
           ld_reasons = reason # (case mc_max_open_lots_hint config of
              None \<Rightarrow> []
            | Some hint \<Rightarrow> [[Lit ''hint:max_open_lots='', f_flt hint,
                            Lit '', now_open='', f_flt (nz (li_open_lots_now i) 0),
                            Lit '', now_pending='', f_flt (nz (li_pending_lots_now i) 0)]]) \<rparr>)"

definition to_sized_intent :: "TradeIntent \<Rightarrow> LotDecision \<Rightarrow> SizedIntent" where
  "to_sized_intent intent decision =
     \<lparr> szi_intent = intent, szi_volume = ld_lot decision, szi_sizing_mode = ld_mode decision,
       szi_sizing_rationale = f_join ''; '' (ld_reasons decision) \<rparr>"

section \<open>What the lot is\<close>

lemma eps_pos: "0 < eps"
  by (simp add: eps_def)

lemma decide_lot_lot:
  "ld_lot (decide_lot config i) =
     (if lot_mode config = ''atr_scale'' then clamp_lot config (atr_scale_raw config i)
      else if lot_mode config = ''risk_percent'' \<and> \<not> risk_inputs_insufficient config i
      then clamp_lot config (risk_raw config i)
      else mc_fixed_lot config)"
  by (simp add: decide_lot_def lot_and_reason_def Let_def split: prod.splits)

lemma clamp_lot_mono: "a \<le> b \<Longrightarrow> clamp_lot config a \<le> clamp_lot config b"
  by (simp add: clamp_lot_def le_max_iff_disj min_le_iff_disj) (auto simp: min_def max_def)

text \<open>
  The lot is the fixed lot or lies between the configured minimum and maximum: the scaling
  modes clamp, and everything else (fixed mode, an unknown mode, risk sizing with a missing or zero
  input) falls back to the fixed lot.
\<close>

theorem lot_fixed_or_clamped:
  assumes "mc_atr_scale_min config \<le> mc_atr_scale_max config"
  shows "let lot = ld_lot (decide_lot config i); mode = lot_mode config in
    (if mode = ''atr_scale'' \<or> mode = ''risk_percent'' \<and> \<not> risk_inputs_insufficient config i
     then mc_atr_scale_min config \<le> lot \<and> lot \<le> mc_atr_scale_max config
     else lot = mc_fixed_lot config)"
  using assms by (auto simp: decide_lot_lot clamp_lot_def Let_def)

theorem lot_fixed_or_clamped_witness:
  "ld_lot (decide_lot (default_money_config\<lparr>mc_lot_size_mode := '' FIXED''\<rparr>) no_lot_inputs) = flt (1 / 100)"
proof -
  have mode: "lot_mode (default_money_config\<lparr>mc_lot_size_mode := '' FIXED''\<rparr>) = ''fixed''"
    by code_simp
  show ?thesis
    using lot_fixed_or_clamped [of "default_money_config\<lparr>mc_lot_size_mode := '' FIXED''\<rparr>" no_lot_inputs]
    unfolding mode Let_def by (simp add: default_money_config_def flt_mono)
qed

lemma divide_antimono:
  assumes "0 < a" "0 < s" "s \<le> t"
  shows "a / t \<le> a / (s :: pyfloat)"
proof -
  have "rat_of a / rat_of t \<le> rat_of a / rat_of s"
    using assms by (intro divide_left_mono) (auto simp: pyfloat_iffs)
  then show ?thesis by (simp add: pyfloat_le_iff rat_of_arith rnd_mono)
qed

text \<open>
  Volatility scaling works against risk: with a wider step (or range) the lot never grows; and
  risk sizing never gives a smaller lot to a larger balance.
\<close>

theorem lot_monotone:
  assumes "0 \<le> mc_atr_scale_base config" "atr_scale_step i \<le> atr_scale_step j"
    and "lot_mode config = ''atr_scale''"
    and "lot_mode config' = ''risk_percent''" "li_account_balance k \<le> b"
  shows "ld_lot (decide_lot config j) \<le> ld_lot (decide_lot config i) \<and>
    ld_lot (decide_lot config' k) \<le> ld_lot (decide_lot config' (k\<lparr>li_account_balance := b\<rparr>))"
proof
  have eps': "0 < max eps x" for x using eps_pos by (simp add: less_max_iff_disj)
  then have "max eps (mc_atr_scale_ref config) / atr_scale_step j \<le> max eps (mc_atr_scale_ref config) / atr_scale_step i"
    using assms(2) by (intro divide_antimono) (simp_all add: atr_scale_step_def)
  then have "atr_scale_raw config j \<le> atr_scale_raw config i"
    unfolding atr_scale_raw_def
    using pyfloat_mult_right_mono [OF _ assms(1)] by (simp add: pyfloat_mult_commute [of "mc_atr_scale_base config"])
  then show "ld_lot (decide_lot config j) \<le> ld_lot (decide_lot config i)"
    using assms(3) by (simp add: decide_lot_lot clamp_lot_mono)
  have "risk_raw config' k \<le> risk_raw config' (k\<lparr>li_account_balance := b\<rparr>)"
    unfolding risk_raw_def
    using pyfloat_mult_right_mono [OF assms(5), of "max 0 (mc_risk_per_trade config')"] eps' less_imp_le
    by (auto intro!: pyfloat_divide_right_mono)
  then show "ld_lot (decide_lot config' k) \<le> ld_lot (decide_lot config' (k\<lparr>li_account_balance := b\<rparr>))"
    using assms(4) by (simp add: decide_lot_lot clamp_lot_mono risk_inputs_insufficient_def)
qed

theorem lot_monotone_witness:
  "ld_lot (decide_lot (default_money_config\<lparr>mc_lot_size_mode := ''atr_scale''\<rparr>) (no_lot_inputs\<lparr>li_step := Some (fint 5)\<rparr>)) \<le>
     ld_lot (decide_lot (default_money_config\<lparr>mc_lot_size_mode := ''atr_scale''\<rparr>) (no_lot_inputs\<lparr>li_step := Some (fint 4)\<rparr>)) \<and>
   ld_lot (decide_lot (default_money_config\<lparr>mc_lot_size_mode := ''risk_percent''\<rparr>) no_lot_inputs) \<le>
     ld_lot (decide_lot (default_money_config\<lparr>mc_lot_size_mode := ''risk_percent''\<rparr>) (no_lot_inputs\<lparr>li_account_balance := 1\<rparr>))"
proof (rule lot_monotone)
  show "lot_mode (default_money_config\<lparr>mc_lot_size_mode := ''atr_scale''\<rparr>) = ''atr_scale''"
    "lot_mode (default_money_config\<lparr>mc_lot_size_mode := ''risk_percent''\<rparr>) = ''risk_percent''"
    by code_simp+
  show "atr_scale_step (no_lot_inputs\<lparr>li_step := Some (fint 4)\<rparr>) \<le> atr_scale_step (no_lot_inputs\<lparr>li_step := Some (fint 5)\<rparr>)"
    using fint_mono [of 4 5] by (auto simp: atr_scale_step_def nz_def le_max_iff_disj)
qed (simp_all add: default_money_config_def no_lot_inputs_def)

end
