(* ===== verification/Risk.thy ===== *)
theory Risk
  imports Sizing
begin

text \<open>
  The guards of \<^verbatim>\<open>risk/\<close>, each from its inputs to a \<^verbatim>\<open>RiskDecision\<close>, and their
  combination. Shown: exactly when each guard approves, that a combination approves exactly when
  every guard does, that more exposure or more loss never turns a rejection into an approval, and
  where the daily window starts.
\<close>

definition approve :: "fstring list \<Rightarrow> RiskDecision" where
  "approve reasons =
     \<lparr> rd_approved = True, rd_reasons = reasons, rd_adjusted_volume = None, rd_blocking_guard = None \<rparr>"

definition reject :: "fstring list \<Rightarrow> string option \<Rightarrow> RiskDecision" where
  "reject reasons guard =
     \<lparr> rd_approved = False, rd_reasons = reasons, rd_adjusted_volume = None, rd_blocking_guard = guard \<rparr>"

lemma decision_simps [simp]:
  "rd_approved (approve rs)" "rd_reasons (approve rs) = rs" "rd_blocking_guard (approve rs) = None"
  "\<not> rd_approved (reject rs g)" "rd_reasons (reject rs g) = rs" "rd_blocking_guard (reject rs g) = g"
  by (simp_all add: approve_def reject_def)

section \<open>Combination\<close>

definition combine :: "RiskDecision list \<Rightarrow> RiskDecision result" where
  "combine decisions =
     (if decisions = [] then Inl ValueError
      else let all_reasons = concat (map rd_reasons decisions)
           in Inr (case find (\<lambda>d. \<not> rd_approved d) decisions of
                Some d \<Rightarrow> reject all_reasons (rd_blocking_guard d)
              | None \<Rightarrow> approve all_reasons))"

text \<open>
  A combination of guards approves exactly when every guard does, keeps every guard's reasons
  in order, and otherwise names the first guard that rejected: no guard is skipped because another
  one passed.
\<close>

theorem combine_all:
  assumes "combine decisions = Inr d"
  shows "(rd_approved d \<longleftrightarrow> (\<forall>x \<in> set decisions. rd_approved x)) \<and>
    rd_reasons d = concat (map rd_reasons decisions) \<and>
    (\<forall>pre x post. decisions = pre @ x # post \<and> (\<forall>y \<in> set pre. rd_approved y) \<and> \<not> rd_approved x \<longrightarrow>
       rd_blocking_guard d = rd_blocking_guard x)"
proof -
  have first: "find (\<lambda>d. \<not> rd_approved d) (pre @ x # post) = Some x"
    if "\<forall>y \<in> set pre. rd_approved y" "\<not> rd_approved x" for pre x post
    using that by (induction pre) auto
  have none: "find (\<lambda>d. \<not> rd_approved d) decisions = None \<longleftrightarrow> (\<forall>x \<in> set decisions. rd_approved x)"
    by (auto simp: find_None_iff)
  show ?thesis
  proof (cases "find (\<lambda>d. \<not> rd_approved d) decisions")
    case None
    then show ?thesis using assms none by (auto simp: combine_def Let_def split: if_splits)
  next
    case (Some y)
    then have "y \<in> set decisions \<and> \<not> rd_approved y" by (rule find_Some_iff')
    then show ?thesis
      using assms Some first by (auto simp: combine_def Let_def split: if_splits)
  qed
qed

theorem combine_all_witness:
  "combine [approve [[Lit ''a'']], reject [[Lit ''b'']] (Some ''g''), reject [] (Some ''h'')] =
     Inr (reject [[Lit ''a''], [Lit ''b'']] (Some ''g'')) \<and>
   rd_blocking_guard (reject [[Lit ''a''], [Lit ''b'']] (Some ''g'')) = Some ''g''"
  (is "?run \<and> _")
proof
  show run: ?run by (simp add: combine_def approve_def reject_def)
  show "rd_blocking_guard (reject [[Lit ''a''], [Lit ''b'']] (Some ''g'')) = Some ''g''"
    using combine_all [OF run, THEN conjunct2, THEN conjunct2, rule_format,
        of "[approve [[Lit ''a'']]]" "reject [[Lit ''b'']] (Some ''g'')" "[reject [] (Some ''h'')]"]
    by simp
qed

lemma combine_pair:
  "combine [a, b] = Inr (if rd_approved a \<and> rd_approved b then approve (rd_reasons a @ rd_reasons b)
     else reject (rd_reasons a @ rd_reasons b) (rd_blocking_guard (if rd_approved a then b else a)))"
  by (simp add: combine_def)

section \<open>Exposure\<close>

record ExposureCaps =
  caps_max_open_lots :: "pyfloat option"
  caps_budget_max_lots :: "pyfloat option"

definition over_cap :: "pyfloat \<Rightarrow> pyfloat option \<Rightarrow> bool" where
  "over_cap lots cap \<longleftrightarrow> (case cap of None \<Rightarrow> False | Some c \<Rightarrow> lots > c)"

definition check_exposure_cap :: "pyfloat \<Rightarrow> pyfloat \<Rightarrow> pyfloat \<Rightarrow> ExposureCaps \<Rightarrow> RiskDecision" where
  "check_exposure_cap open_lots pending_lots proposed_volume caps =
     (let projected_total = open_lots + pending_lots + proposed_volume;
          reason = [Lit ''open='', f_flt open_lots, Lit '', pending='', f_flt pending_lots,
                    Lit '', proposed='', f_flt proposed_volume, Lit '', projected_total='', f_flt projected_total]
      in if over_cap projected_total (caps_max_open_lots caps)
         then reject [reason, [Lit ''projected_total='', f_flt projected_total, Lit '' exceeds max_open_lots='',
                               f_opt f_flt (caps_max_open_lots caps)]] (Some ''portfolio.max_open_lots'')
         else if over_cap projected_total (caps_budget_max_lots caps)
         then reject [reason, [Lit ''projected_total='', f_flt projected_total, Lit '' exceeds budget_max_lots='',
                               f_opt f_flt (caps_budget_max_lots caps)]] (Some ''portfolio.budget_max_lots'')
         else approve [reason, [Lit ''within configured caps'']])"

lemma check_exposure_cap_iff:
  "rd_approved (check_exposure_cap o' p v caps) \<longleftrightarrow>
   \<not> over_cap (o' + p + v) (caps_max_open_lots caps) \<and> \<not> over_cap (o' + p + v) (caps_budget_max_lots caps)"
  by (simp add: check_exposure_cap_def Let_def)

text \<open>
  A proposal is approved exactly when the exposure it leads to stays within every configured
  cap, and a smaller proposal on less exposure is approved whenever a larger one is.
\<close>

theorem exposure_cap_monotone:
  assumes "rd_approved (check_exposure_cap open_lots pending_lots volume caps)"
    and "open_lots' \<le> open_lots" "pending_lots' \<le> pending_lots" "volume' \<le> volume"
  shows "rd_approved (check_exposure_cap open_lots' pending_lots' volume' caps) \<and>
    (\<forall>c. caps_max_open_lots caps = Some c \<longrightarrow> open_lots + pending_lots + volume \<le> c) \<and>
    (\<forall>c. caps_budget_max_lots caps = Some c \<longrightarrow> open_lots + pending_lots + volume \<le> c)"
proof -
  have "open_lots' + pending_lots' + volume' \<le> open_lots + pending_lots + volume"
    using assms(2-4) by (intro pyfloat_add_mono)
  then have "over_cap (open_lots' + pending_lots' + volume') c \<Longrightarrow> over_cap (open_lots + pending_lots + volume) c" for c
    by (auto simp: over_cap_def split: option.splits)
  then show ?thesis
    using assms(1) by (auto simp: check_exposure_cap_iff over_cap_def)
qed

theorem exposure_cap_monotone_witness:
  "rd_approved (check_exposure_cap 1 0 1 \<lparr> caps_max_open_lots = Some (fint 3), caps_budget_max_lots = None \<rparr>)"
proof (rule exposure_cap_monotone [THEN conjunct1])
  show "rd_approved (check_exposure_cap 1 1 1 \<lparr> caps_max_open_lots = Some (fint 3), caps_budget_max_lots = None \<rparr>)"
    by (simp add: check_exposure_cap_iff over_cap_def pyfloat_iffs rat_of_arith fint_def not_less)
qed simp_all

section \<open>Symbol guards\<close>

definition near_order :: "Side \<Rightarrow> pyfloat \<Rightarrow> pyfloat \<Rightarrow> OrderState \<Rightarrow> bool" where
  "near_order side price tolerance o' \<longleftrightarrow> ord_side o' = side \<and> \<bar>ord_price o' - price\<bar> \<le> tolerance"

definition check_duplicate_order ::
  "OrderState list \<Rightarrow> Side \<Rightarrow> pyfloat \<Rightarrow> pyfloat \<Rightarrow> pyfloat \<Rightarrow> RiskDecision" where
  "check_duplicate_order existing_orders side price point tol_ticks =
     (let tolerance = tol_ticks * point
      in case find (near_order side price tolerance) existing_orders of
           Some o' \<Rightarrow>
             reject [[Lit ''existing order '', f_int (ord_ticket o'), Lit '' at '', f_flt (ord_price o'),
                      Lit '' is within '', f_flt tolerance, Lit '' of proposed '', f_str (side_str side),
                      Lit '' price '', f_flt price, Lit '' (tol_ticks='', f_flt tol_ticks, Lit '')'']]
               (Some ''symbol.duplicate_order'')
         | None \<Rightarrow>
             approve [[Lit ''no existing '', f_str (side_str side), Lit '' order within '', f_flt tolerance,
                       Lit '' of proposed price '', f_flt price]])"

definition default_tol_ticks :: pyfloat where
  "default_tol_ticks = fint 5"

definition check_position_limit :: "PositionState list \<Rightarrow> int \<Rightarrow> RiskDecision" where
  "check_position_limit positions max_concurrent =
     (if int (length positions) \<ge> max_concurrent
      then reject [[f_int (int (length positions)), Lit '' position(s) already open, at or above max_concurrent='',
                    f_int max_concurrent]] (Some ''symbol.position_limit'')
      else approve [[f_int (int (length positions)), Lit '' position(s) open, below max_concurrent='',
                     f_int max_concurrent]])"

lemma check_duplicate_order_iff:
  "rd_approved (check_duplicate_order orders side price point tol) \<longleftrightarrow>
   (\<forall>o' \<in> set orders. ord_side o' = side \<longrightarrow> \<not> \<bar>ord_price o' - price\<bar> \<le> tol * point)"
proof -
  have "rd_approved (check_duplicate_order orders side price point tol) \<longleftrightarrow>
      find (near_order side price (tol * point)) orders = None"
    by (simp add: check_duplicate_order_def Let_def split: option.splits)
  then show ?thesis by (auto simp: find_None_iff near_order_def)
qed

text \<open>
  The duplicate guard rejects exactly when some order of the same side lies within the
  tolerance of the proposed price, and the position limit exactly when the limit is reached.
\<close>

theorem symbol_guards_iff:
  "(rd_approved (check_duplicate_order orders side price point tol) \<longleftrightarrow>
      \<not> (\<exists>o' \<in> set orders. ord_side o' = side \<and> \<bar>ord_price o' - price\<bar> \<le> tol * point)) \<and>
   (rd_approved (check_position_limit positions n) \<longleftrightarrow> int (length positions) < n)"
  by (auto simp: check_duplicate_order_iff check_position_limit_def)

section \<open>Daily loss\<close>

record DailyLossLimitConfig =
  dl_max_daily_loss :: "pyfloat option"
  dl_reset_hour_utc :: int

definition check_daily_loss_limit :: "pyfloat \<Rightarrow> DailyLossLimitConfig \<Rightarrow> RiskDecision result" where
  "check_daily_loss_limit pnl limit =
     (case dl_max_daily_loss limit of
        None \<Rightarrow> Inr (approve [[Lit ''no daily loss limit configured'']])
      | Some max_loss \<Rightarrow>
          if max_loss < 0 then Inl ValueError
          else if pnl < 0 \<and> - pnl \<ge> max_loss
          then Inr (reject [[Lit ''realized_pnl_since_reset='', F_fix 2 pnl, Lit '' breaches max_daily_loss='', F_fix 2 max_loss]]
                 (Some ''risk.daily_loss_limit''))
          else Inr (approve [[Lit ''realized_pnl_since_reset='', F_fix 2 pnl, Lit '' within max_daily_loss='', F_fix 2 max_loss]]))"

text \<open>
  With a limit \<open>m \<ge> 0\<close> the kill switch trips exactly on a genuine loss of at least \<open>m\<close>
  (reaching the limit trips it, a break-even day never does, even with a limit of 0), so a
  tripped switch stays tripped for any deeper loss.
\<close>

theorem daily_loss_trips_iff:
  assumes "dl_max_daily_loss limit = Some m" "0 \<le> m"
  shows "\<exists>d. check_daily_loss_limit pnl limit = Inr d \<and> (rd_approved d \<longleftrightarrow> \<not> (pnl < 0 \<and> m \<le> - pnl)) \<and>
    (\<forall>pnl' \<le> pnl. \<not> rd_approved d \<longrightarrow>
       (\<exists>d'. check_daily_loss_limit pnl' limit = Inr d' \<and> \<not> rd_approved d'))"
proof -
  have "\<not> m < 0" using assms(2) by simp
  moreover have "m \<le> - pnl'" if "m \<le> - pnl" "pnl' \<le> pnl" for pnl'
    using that pyfloat_minus_mono order_trans by metis
  ultimately show ?thesis
    using assms(1) by (auto simp: check_daily_loss_limit_def)
qed

theorem daily_loss_trips_iff_witness:
  "\<exists>d. check_daily_loss_limit (- fint 50) \<lparr> dl_max_daily_loss = Some (fint 50), dl_reset_hour_utc = 0 \<rparr> = Inr d \<and>
     \<not> rd_approved d"
  using daily_loss_trips_iff [of "\<lparr> dl_max_daily_loss = Some (fint 50), dl_reset_hour_utc = 0 \<rparr>" "fint 50" "- fint 50"]
  by auto

text \<open>
  \<^verbatim>\<open>astimezone(utc)\<close> is the identity on instants; \<^verbatim>\<open>replace(hour=h, minute=0, ...)\<close>
  keeps the UTC day.
\<close>

definition daily_reset_boundary :: "datetime \<Rightarrow> int \<Rightarrow> datetime result" where
  "daily_reset_boundary now reset_hour_utc =
     (case now of
        Naive _ \<Rightarrow> Inl ValueError
      | Aware t \<Rightarrow>
          if \<not> (0 \<le> reset_hour_utc \<and> reset_hour_utc \<le> 23) then Inl ValueError
          else let boundary = (t - t mod day_us) + hours reset_hour_utc
               in Inr (Aware (if boundary > t then boundary - days 1 else boundary)))"

lemma day_us_pos: "0 < day_us"
  by (simp add: day_us_def)

text \<open>
  The daily window is well defined: its start is the latest instant with the configured UTC
  hour that is not after \<open>now\<close>, less than a day before it, and every instant of the same
  window computes the same start.
\<close>

theorem reset_boundary_window:
  assumes "0 \<le> h" "h \<le> 23"
  shows "\<exists>b. daily_reset_boundary (Aware t) h = Inr (Aware b) \<and> b \<le> t \<and> t < b + days 1 \<and>
    b mod day_us = hours h \<and>
    (\<forall>u. b \<le> u \<and> u < b + days 1 \<longrightarrow> daily_reset_boundary (Aware u) h = Inr (Aware b))"
proof -
  let ?H = "hours h"
  have D: "day_us = days 1" by (simp add: day_us_def)
  have H: "0 \<le> ?H" "?H < day_us" using assms by (simp_all add: D)
  have mod_bounds: "0 \<le> u mod day_us" "u mod day_us < day_us" for u
    using day_us_pos by simp_all
  define start where "start u = (u - u mod day_us) + ?H - (if u mod day_us < ?H then day_us else 0)" for u
  have run: "daily_reset_boundary (Aware u) h = Inr (Aware (start u))" for u
    using assms by (auto simp: daily_reset_boundary_def start_def Let_def D)
  have "0 \<le> r \<Longrightarrow> r < D \<Longrightarrow> 0 \<le> k \<Longrightarrow> k < D \<Longrightarrow>
      (u - r) + k - (if r < k then D else 0) \<le> u \<and> u < (u - r) + k - (if r < k then D else 0) + D"
    for u r k D :: int by auto
  then have range: "start u \<le> u \<and> u < start u + day_us" for u
    using mod_bounds [of u] H unfolding start_def by blast
  have "(start u) mod day_us = ?H mod day_us" for u
  proof -
    have "start u = ?H + day_us * (u div day_us - (if u mod day_us < ?H then 1 else 0))"
      by (simp add: start_def minus_mod_eq_mult_div algebra_simps)
    then show ?thesis by (simp only: mod_mult_self2)
  qed
  then have aligned: "start u mod day_us = ?H" for u using H by simp
  have unique: "start u = start t" if "start t \<le> u" "u < start t + day_us" for u
  proof -
    have "\<bar>start u - start t\<bar> < day_us" using range [of u] that by linarith
    moreover have "day_us dvd start u - start t"
      using aligned [of u] aligned [of t] by (simp only: mod_eq_dvd_iff [symmetric])
    ultimately show ?thesis
      using dvd_imp_le_int [of "start u - start t" day_us] day_us_pos by fastforce
  qed
  show ?thesis
    unfolding D [symmetric]
  proof (intro exI [of _ "start t"] conjI allI impI)
    show "daily_reset_boundary (Aware t) h = Inr (Aware (start t))" by (rule run)
    show "start t \<le> t" "t < start t + day_us" using range by blast+
    show "start t mod day_us = hours h" by (rule aligned)
  next
    fix u
    assume "start t \<le> u \<and> u < start t + day_us"
    then show "daily_reset_boundary (Aware u) h = Inr (Aware (start t))"
      using run [of u] unique [of u] by (simp only:)
  qed
qed

theorem reset_boundary_window_witness:
  "\<exists>b. daily_reset_boundary (Aware (hours 5)) 7 = Inr (Aware b) \<and> b \<le> hours 5 \<and> hours 5 < b + days 1"
  using reset_boundary_window [of 7 "hours 5"] by auto

end
