(* ===== verification/Order_Planning.thy ===== *)
theory Order_Planning
  imports Risk
begin

text \<open>
  \<^verbatim>\<open>order_planning/\<close>: a sized intent and an approved decision become an order plan that
  needs nothing more from the broker's constraints. Shown: a limit price that is returned keeps
  the broker's distance from the market, the path that returns none can be taken, the volume lies
  on the broker's range, and no plan comes from a rejected decision.
\<close>

section \<open>Limit prices\<close>

datatype LimitSide = BUY_LIMIT | SELL_LIMIT

definition snap :: "pyfloat \<Rightarrow> pyfloat \<Rightarrow> pyfloat result" where
  "snap point x = bind_res (py_div x point) (\<lambda>q. Inr (fint (py_round q) * point))"

definition min_gap :: "SymbolInfo \<Rightarrow> pyfloat" where
  "min_gap symbol_info = fint (si_stops_level symbol_info + si_freeze_level symbol_info + 2) * si_point symbol_info"

definition normalize_limit_price ::
  "pyfloat \<Rightarrow> LimitSide \<Rightarrow> SymbolInfo \<Rightarrow> Tick \<Rightarrow> pyfloat option result" where
  "normalize_limit_price price side symbol_info tick =
     (let point = si_point symbol_info; gap = min_gap symbol_info
      in bind_res (snap point price) (\<lambda>p.
           case side of
             BUY_LIMIT \<Rightarrow>
               let min_ok = tick_bid tick - gap
               in bind_res (if \<not> p < min_ok then snap point (min_ok - fint 3 * point) else Inr p) (\<lambda>p.
                    Inr (if \<not> p < tick_bid tick - gap then None else Some p))
           | SELL_LIMIT \<Rightarrow>
               let min_ok = tick_ask tick + gap
               in bind_res (if \<not> p > min_ok then snap point (min_ok + fint 3 * point) else Inr p) (\<lambda>p.
                    Inr (if \<not> p > tick_ask tick + gap then None else Some p))))"

definition beyond_gap :: "LimitSide \<Rightarrow> pyfloat \<Rightarrow> SymbolInfo \<Rightarrow> Tick \<Rightarrow> bool" where
  "beyond_gap side p symbol_info tick \<longleftrightarrow>
     (case side of BUY_LIMIT \<Rightarrow> p < tick_bid tick - min_gap symbol_info
                 | SELL_LIMIT \<Rightarrow> p > tick_ask tick + min_gap symbol_info)"

lemma snap_on_grid: "snap point x = Inr p \<Longrightarrow> \<exists>k. p = fint k * point"
  by (auto simp: snap_def result_simps)

lemma snap_raises: "snap point x = Inl e \<longleftrightarrow> point = 0 \<and> e = ZeroDivisionError"
  by (auto simp: snap_def py_div_def result_simps)

lemma normalize_limit_price_sound:
  "normalize_limit_price price side symbol_info tick = Inr (Some p) \<Longrightarrow>
     beyond_gap side p symbol_info tick \<and> (\<exists>k. p = fint k * si_point symbol_info)"
  "normalize_limit_price price side symbol_info tick = Inl e \<Longrightarrow>
     e = ZeroDivisionError \<and> si_point symbol_info = 0"
  by (cases side;
      auto simp: normalize_limit_price_def beyond_gap_def Let_def result_simps snap_raises
      dest: snap_on_grid split: if_splits)+

text \<open>
  A limit price that is returned lies strictly beyond the broker's minimum distance from the
  market (below the bid for a buy, above the ask for a sell) and is a whole number of ticks.
\<close>

theorem limit_price_beyond_gap:
  assumes "normalize_limit_price price side symbol_info tick = Inr (Some p)"
  shows "beyond_gap side p symbol_info tick \<and> (\<exists>k. p = fint k * si_point symbol_info)"
  using assms by (rule normalize_limit_price_sound)

text \<open>A price already beyond the distance is only snapped to the grid of ticks.\<close>

lemma normalize_far:
  assumes "snap (si_point symbol_info) price = Inr p" "beyond_gap side p symbol_info tick"
  shows "normalize_limit_price price side symbol_info tick = Inr (Some p)"
  using assms by (cases side) (auto simp: normalize_limit_price_def beyond_gap_def Let_def)

definition unit_symbol :: SymbolInfo where
  "unit_symbol =
     \<lparr> si_symbol = ''UNIT'', si_digits = 0, si_point = 1, si_volume_min = 1, si_volume_max = fint 100,
       si_volume_step = 1, si_stops_level = 3, si_freeze_level = 0, si_filling_modes = [], si_spread = 1 \<rparr>"

definition round_tick :: Tick where
  "round_tick = \<lparr> tick_symbol = ''UNIT'', tick_bid = fint 100, tick_ask = fint 101, tick_time = Aware 0 \<rparr>"

theorem limit_price_beyond_gap_witness:
  "beyond_gap BUY_LIMIT (fint 50) unit_symbol round_tick \<and> (\<exists>k. fint 50 = fint k * si_point unit_symbol)"
proof (rule limit_price_beyond_gap)
  have "snap (si_point unit_symbol) (fint 50) = Inr (fint 50)"
    by (simp add: snap_def py_div_def unit_symbol_def py_round_fint)
  moreover have "beyond_gap BUY_LIMIT (fint 50) unit_symbol round_tick"
    by (simp add: beyond_gap_def min_gap_def unit_symbol_def round_tick_def pyfloat_less_iff rat_of_arith fint_def)
  ultimately show "normalize_limit_price (fint 50) BUY_LIMIT unit_symbol round_tick = Inr (Some (fint 50))"
    by (rule normalize_far)
qed

text \<open>
  With a tick size far below the spacing of floats near the price, the push of three ticks is lost
  in rounding.
\<close>

definition tiny_point :: pyfloat where
  "tiny_point = flt (1 / 2 ^ 60)"

definition tiny_symbol :: SymbolInfo where
  "tiny_symbol =
     \<lparr> si_symbol = ''TINY'', si_digits = 8, si_point = tiny_point, si_volume_min = 1, si_volume_max = fint 100,
       si_volume_step = 1, si_stops_level = 0, si_freeze_level = 0, si_filling_modes = [], si_spread = 1 \<rparr>"

definition unit_tick :: Tick where
  "unit_tick = \<lparr> tick_symbol = ''TINY'', tick_bid = 1, tick_ask = 1, tick_time = Aware 0 \<rparr>"

lemma rnd_near_one:
  assumes "0 \<le> d" "d \<le> 1 / 2 ^ 55"
  shows "rnd (1 - d) = 1"
proof (cases "d = 0")
  case False
  have ub: "rnd (1 - d) \<le> 1"
    using ieee.le_of [of 1 "1 - d"] assms(1) is_flt_of_int [of 1] by simp
  have e: "expo \<bar>1 - d\<bar> = - 1"
    by (rule expo_unique) (use assms False in \<open>auto simp: power_int_minus\<close>)
  have "rnd (1 - d) = of_int (round_half_even ((1 - d) / 2 powi - 53)) * 2 powi - 53"
    unfolding rnd_def e using assms False by (simp add: Let_def)
  moreover have "round_half_even ((1 - d) * 2 ^ 53) = 2 ^ 53"
    by (rule round_half_even_unique) (use assms in \<open>auto simp: field_simps\<close>)
  ultimately show ?thesis by (simp add: power_int_minus)
qed simp

lemma is_flt_scaled: "\<bar>m\<bar> \<le> 2 ^ 53 \<Longrightarrow> is_flt (of_int m * 2 ^ k)" "\<bar>m\<bar> \<le> 2 ^ 53 \<Longrightarrow> is_flt (of_int m / 2 ^ k)"
  by (rule is_fltI [where m = m and e = "int k"], simp_all)
    (rule is_fltI [where m = m and e = "- int k"], simp_all add: power_int_minus divide_inverse)

lemma rat_of_tiny: "rat_of tiny_point = 1 / 2 ^ 60" "rat_of (fint k * tiny_point) = of_int k / 2 ^ 60"
  if "\<bar>k\<bar> \<le> 2 ^ 53"
proof -
  show t: "rat_of tiny_point = 1 / 2 ^ 60"
    using is_flt_scaled(2) [of 1 60] by (simp add: tiny_point_def rnd_id)
  show "rat_of (fint k * tiny_point) = of_int k / 2 ^ 60"
    using is_flt_scaled(2) [of k 60] is_flt_of_int [of k] that
    by (simp add: rat_of_arith t fint_def rnd_id)
qed

lemma snap_one: "snap tiny_point 1 = Inr 1"
proof -
  have t: "rat_of tiny_point = 1 / 2 ^ 60" by (rule rat_of_tiny(1) [of 0]) simp
  have "rat_of (1 / tiny_point) = of_int (2 ^ 60)"
    using is_flt_scaled(1) [of 1 60] unfolding rat_of_arith t by (simp add: rnd_id)
  then have round: "py_round (1 / tiny_point) = 2 ^ 60"
    unfolding py_round_def by (simp only: round_half_even_of_int)
  have "rat_of (fint (2 ^ 60) * tiny_point) = 1"
    using is_flt_scaled(1) [of 1 60] unfolding rat_of_arith t
    by (simp add: fint_def rnd_id)
  then have "fint (2 ^ 60) * tiny_point = 1"
    by (simp add: pyfloat_eq_iff)
  moreover have "tiny_point \<noteq> 0"
    using rat_of_tiny(1) [of 0] by (auto simp: pyfloat_eq_iff)
  ultimately show ?thesis by (simp add: snap_def py_div_def round)
qed

lemma one_minus_tiny: "0 \<le> k \<Longrightarrow> k \<le> 3 \<Longrightarrow> 1 - fint k * tiny_point = 1"
proof -
  assume k: "0 \<le> k" "k \<le> 3"
  have "(0 :: rat) \<le> of_int k / 2 ^ 60" "of_int k / 2 ^ 60 \<le> (1 :: rat) / 2 ^ 55"
    using k by (simp_all add: field_simps)
  then have "rnd (1 - of_int k / 2 ^ 60) = 1" by (rule rnd_near_one)
  moreover have "rat_of (fint k * tiny_point) = of_int k / 2 ^ 60" using rat_of_tiny(2) k by simp
  ultimately show ?thesis
    by (simp only: pyfloat_eq_iff rat_of_arith(2) rat_of_simps)
qed

text \<open>
  The defensive path that returns no price is reachable: at a price of 1 with ticks of
  \<open>2 ^ -60\<close> a buy limit at the bid cannot be moved below it.
\<close>

theorem limit_price_none_reachable:
  "normalize_limit_price 1 BUY_LIMIT tiny_symbol unit_tick = Inr None"
proof -
  have "min_gap tiny_symbol = fint 2 * tiny_point"
    by (simp add: min_gap_def tiny_symbol_def)
  then have "tick_bid unit_tick - min_gap tiny_symbol = 1"
    using one_minus_tiny [of 2] by (simp add: unit_tick_def)
  then show ?thesis
    using one_minus_tiny [of 3] snap_one
    by (simp add: normalize_limit_price_def Let_def) (simp add: tiny_symbol_def)
qed

section \<open>Order plans\<close>

definition clamp_volume :: "pyfloat \<Rightarrow> SymbolInfo \<Rightarrow> pyfloat" where
  "clamp_volume volume symbol_info =
     (let step = si_volume_step symbol_info;
          volume = (if step > 0 then fint (py_round (volume / step)) * step else volume);
          volume = max (si_volume_min symbol_info) (min (si_volume_max symbol_info) volume)
      in py_round_digits volume 8)"

definition build_order_plan ::
  "SizedIntent \<Rightarrow> RiskDecision \<Rightarrow> SymbolInfo \<Rightarrow> Tick \<Rightarrow> int \<Rightarrow> string option \<Rightarrow> int \<Rightarrow> pyfloat \<Rightarrow> pyfloat \<Rightarrow>
   OrderPlan option result" where
  "build_order_plan sized_intent risk_decision symbol_info tick magic comment deviation sl tp =
     (if \<not> rd_approved risk_decision then Inl ValueError
      else
        let intent = szi_intent sized_intent
        in bind_res
             (if ti_desired_order_type intent = LIMIT then
                (case ti_reference_price intent of
                   None \<Rightarrow> Inl ValueError
                 | Some reference_price \<Rightarrow>
                     normalize_limit_price reference_price
                       (if ti_side intent = BUY then BUY_LIMIT else SELL_LIMIT) symbol_info tick)
              else Inr (Some (case ti_reference_price intent of
                   Some p \<Rightarrow> p
                 | None \<Rightarrow> if ti_side intent = BUY then tick_ask tick else tick_bid tick)))
             (\<lambda>price. Inr (map_option (\<lambda>price.
                \<lparr> op_symbol = ti_symbol intent, op_order_type = ti_desired_order_type intent,
                  op_side = ti_side intent, op_volume = clamp_volume (szi_volume sized_intent) symbol_info,
                  op_price = Some price, op_sl = sl, op_tp = tp, op_deviation = deviation, op_magic = magic,
                  op_comment = (case comment of Some c \<Rightarrow> c | None \<Rightarrow> ti_strategy_name intent),
                  op_filling_mode = None, op_expiry = None \<rparr>) price)))"

definition default_deviation :: int where
  "default_deviation = 150"

text \<open>
  The volume of a plan lies on the broker's range (whose ends have at most the 8 decimals the
  final rounding keeps), whatever was asked for, and a larger request never gives a smaller
  volume.
\<close>

theorem clamp_volume_range:
  assumes "si_volume_min si \<le> si_volume_max si"
    and "py_round_digits (si_volume_min si) 8 = si_volume_min si"
    and "py_round_digits (si_volume_max si) 8 = si_volume_max si"
    and "v \<le> w"
  shows "si_volume_min si \<le> clamp_volume v si \<and> clamp_volume v si \<le> si_volume_max si \<and>
    clamp_volume v si \<le> clamp_volume w si"
proof -
  define stepped where
    "stepped u = (if si_volume_step si > 0 then fint (py_round (u / si_volume_step si)) * si_volume_step si else u)" for u
  define clamped where "clamped u = max (si_volume_min si) (min (si_volume_max si) (stepped u))" for u
  have eq: "clamp_volume u si = py_round_digits (clamped u) 8" for u
    by (simp add: clamp_volume_def clamped_def stepped_def Let_def)
  have "stepped v \<le> stepped w"
    using assms(4) unfolding stepped_def
    by (auto intro!: pyfloat_mult_right_mono fint_mono py_round_mono pyfloat_divide_right_mono)
  then have mono: "clamped v \<le> clamped w"
    unfolding clamped_def by (intro max.mono min.mono) simp_all
  have "si_volume_min si \<le> clamped v" "clamped v \<le> si_volume_max si"
    using assms(1) by (simp_all add: clamped_def)
  then have "py_round_digits (si_volume_min si) 8 \<le> clamp_volume v si"
      "clamp_volume v si \<le> py_round_digits (si_volume_max si) 8"
    unfolding eq by (auto intro: py_round_digits_mono)
  then show ?thesis
    using assms(2,3) py_round_digits_mono [OF mono] by (simp add: eq)
qed

lemma py_round_digits_int: "\<bar>k\<bar> \<le> 2 ^ 53 \<Longrightarrow> py_round_digits (fint k) 8 = fint k"
proof -
  assume k: "\<bar>k\<bar> \<le> 2 ^ 53"
  have r: "rat_of (fint k) = of_int k" using k by (simp add: fint_def rnd_id is_flt_of_int)
  have "of_int k * (10 :: rat) powi 8 = of_int (k * 10 ^ 8)" by simp
  then have "round_half_even (of_int k * (10 :: rat) powi 8) = k * 10 ^ 8"
    by (simp only: round_half_even_of_int)
  then show ?thesis
    unfolding py_round_digits_def r by (simp add: fint_def)
qed

theorem clamp_volume_range_witness:
  "1 \<le> clamp_volume 0 tiny_symbol \<and> clamp_volume 0 tiny_symbol \<le> fint 100 \<and>
   clamp_volume 0 tiny_symbol \<le> clamp_volume (fint 3) tiny_symbol"
  using clamp_volume_range [of tiny_symbol 0 "fint 3"] py_round_digits_int [of 1] py_round_digits_int [of 100]
    fint_mono [of 1 100]
  by (simp add: tiny_symbol_def)

text \<open>
  Every plan comes from an approved decision, copies the intent's symbol, side and order type,
  has a clamped volume, and a price: for a LIMIT order one beyond the broker's distance, for a
  MARKET order the reference price or the side of the market it buys or sells at.
\<close>

theorem order_plan_sound:
  assumes "build_order_plan sized decision si tick magic comment dev sl tp = Inr (Some plan)"
  shows "rd_approved decision \<and> op_symbol plan = ti_symbol (szi_intent sized) \<and>
    op_side plan = ti_side (szi_intent sized) \<and> op_order_type plan = ti_desired_order_type (szi_intent sized) \<and>
    op_volume plan = clamp_volume (szi_volume sized) si \<and> op_magic plan = magic \<and>
    op_sl plan = sl \<and> op_tp plan = tp \<and>
    (\<exists>p. op_price plan = Some p \<and>
       (if op_order_type plan = LIMIT
        then beyond_gap (if op_side plan = BUY then BUY_LIMIT else SELL_LIMIT) p si tick
        else p = (case ti_reference_price (szi_intent sized) of Some r \<Rightarrow> r
                  | None \<Rightarrow> if op_side plan = BUY then tick_ask tick else tick_bid tick)))"
  using assms normalize_limit_price_sound(1)
  by (auto simp: build_order_plan_def Let_def result_simps split: if_splits option.splits)

definition market_intent :: SizedIntent where
  "market_intent =
     \<lparr> szi_intent = \<lparr> ti_symbol = ''UNIT'', ti_side = BUY, ti_strategy_name = ''runner'',
         ti_desired_order_type = MARKET, ti_timestamp = Aware 0, ti_reference_price = None, ti_signal_ref = None \<rparr>,
       szi_volume = fint 3, szi_sizing_mode = ''fixed'', szi_sizing_rationale = [] \<rparr>"

theorem order_plan_sound_witness:
  "\<exists>plan. build_order_plan market_intent (approve []) unit_symbol round_tick 7 None default_deviation 0 0 = Inr (Some plan) \<and>
     op_price plan = Some (fint 101) \<and> op_volume plan = clamp_volume (fint 3) unit_symbol"
proof -
  have "\<exists>plan. build_order_plan market_intent (approve []) unit_symbol round_tick 7 None default_deviation 0 0 = Inr (Some plan) \<and>
      op_order_type plan = MARKET \<and> op_side plan = BUY"
    by (simp add: build_order_plan_def market_intent_def Let_def)
  then obtain plan where plan: "op_order_type plan = MARKET" "op_side plan = BUY"
      "build_order_plan market_intent (approve []) unit_symbol round_tick 7 None default_deviation 0 0 = Inr (Some plan)"
    by blast
  then show ?thesis
    using order_plan_sound [OF plan(3)] by (auto simp: market_intent_def round_tick_def)
qed

end
