(* ===== verification/State_Store.thy ===== *)
theory State_Store
  imports Order_Planning "HOL-Library.List_Lexorder" "HOL-Library.Char_ord"
begin

text \<open>
  Local order records and their store: \<^verbatim>\<open>state/models.py\<close> and
  \<^verbatim>\<open>state/store.py\<close>. The directory is a list of named files; a file holds the document
  the store wrote into it, or any text. Shown: a record survives being written and read, writing
  one ticket leaves every other ticket alone, the temporary file of a write is never read, the
  store refines a finite map from tickets to records, and what each operation does to that map.
\<close>

section \<open>Records\<close>

text \<open>
  Status, origin, side and order type are strings, as in the source: what is read from a file is
  not checked against the literals.
\<close>

record LocalOrderRecord =
  lr_ticket :: int
  lr_strategy :: string
  lr_magic :: int
  lr_comment :: string
  lr_symbol :: string
  lr_side :: string
  lr_order_type :: string
  lr_requested_volume :: pyfloat
  lr_requested_price :: "pyfloat option"
  lr_requested_sl :: pyfloat
  lr_requested_tp :: pyfloat
  lr_requested_deviation :: int
  lr_requested_filling_mode :: "string option"
  lr_requested_expiry :: "datetime option"
  lr_retcode :: "int option"
  lr_executed_price :: "pyfloat option"
  lr_executed_volume :: "pyfloat option"
  lr_broker_comment :: fstring
  lr_submitted_at :: datetime
  lr_closed_at :: "datetime option"
  lr_status :: string
  lr_closed_reason :: "fstring option"
  lr_origin :: string

record ReconciliationReport =
  rr_matched :: "int list"
  rr_local_only :: "int list"
  rr_unknown_real :: "int list"

section \<open>Documents\<close>

definition json_time :: "datetime \<Rightarrow> json" where
  "json_time t = JStr (isoformat t)"

definition serialize :: "LocalOrderRecord \<Rightarrow> (string \<times> json) list" where
  "serialize r =
     [(''ticket'', JInt (lr_ticket r)), (''strategy'', JStr (lr_strategy r)), (''magic'', JInt (lr_magic r)),
      (''comment'', JStr (lr_comment r)), (''symbol'', JStr (lr_symbol r)), (''side'', JStr (lr_side r)),
      (''order_type'', JStr (lr_order_type r)), (''requested_volume'', JFloat (lr_requested_volume r)),
      (''requested_price'', json_option JFloat (lr_requested_price r)),
      (''requested_sl'', JFloat (lr_requested_sl r)), (''requested_tp'', JFloat (lr_requested_tp r)),
      (''requested_deviation'', JInt (lr_requested_deviation r)),
      (''requested_filling_mode'', json_option JStr (lr_requested_filling_mode r)),
      (''requested_expiry'', json_option json_time (lr_requested_expiry r)),
      (''retcode'', json_option JInt (lr_retcode r)),
      (''executed_price'', json_option JFloat (lr_executed_price r)),
      (''executed_volume'', json_option JFloat (lr_executed_volume r)),
      (''broker_comment'', JText (lr_broker_comment r)), (''submitted_at'', json_time (lr_submitted_at r)),
      (''closed_at'', json_option json_time (lr_closed_at r)), (''status'', JStr (lr_status r)),
      (''closed_reason'', json_option JText (lr_closed_reason r)), (''origin'', JStr (lr_origin r))]"

definition time_of_json :: "json \<Rightarrow> datetime result" where
  "time_of_json j = bind_res (as_str j) (\<lambda>s. of_option ValueError (fromisoformat s))"

definition field :: "json \<Rightarrow> string \<Rightarrow> (json \<Rightarrow> 'a result) \<Rightarrow> ('a \<Rightarrow> 'b result) \<Rightarrow> 'b result" where
  "field data k f g = bind_res (bind_res (item data k) f) g"

text \<open>
  \<^verbatim>\<open>_parse_dt\<close>: falsy values (null, the empty string) are read as no time.
\<close>

definition parse_dt :: "json \<Rightarrow> datetime option result" where
  "parse_dt j = (if truthy j then bind_res (time_of_json j) (\<lambda>t. Inr (Some t)) else Inr None)"

definition origin_of :: "json \<Rightarrow> string result" where
  "origin_of data = bind_res (get_item data ''origin'') (\<lambda>v. case v of None \<Rightarrow> Inr ''system_owned'' | Some j \<Rightarrow> as_str j)"

definition deserialize :: "int \<Rightarrow> json \<Rightarrow> LocalOrderRecord result" where
  "deserialize ticket data =
     field data ''strategy'' as_str (\<lambda>strategy. field data ''magic'' as_int (\<lambda>magic.
     field data ''comment'' as_str (\<lambda>comment. field data ''symbol'' as_str (\<lambda>symbol.
     field data ''side'' as_str (\<lambda>side. field data ''order_type'' as_str (\<lambda>order_type.
     field data ''requested_volume'' as_float (\<lambda>volume.
     field data ''requested_price'' (as_option as_float) (\<lambda>price.
     field data ''requested_sl'' as_float (\<lambda>sl. field data ''requested_tp'' as_float (\<lambda>tp.
     field data ''requested_deviation'' as_int (\<lambda>deviation.
     field data ''requested_filling_mode'' (as_option as_str) (\<lambda>filling_mode.
     field data ''requested_expiry'' parse_dt (\<lambda>expiry. field data ''retcode'' (as_option as_int) (\<lambda>retcode.
     field data ''executed_price'' (as_option as_float) (\<lambda>executed_price.
     field data ''executed_volume'' (as_option as_float) (\<lambda>executed_volume.
     field data ''broker_comment'' as_text (\<lambda>broker_comment. field data ''submitted_at'' time_of_json (\<lambda>submitted_at.
     field data ''closed_at'' parse_dt (\<lambda>closed_at. field data ''status'' as_str (\<lambda>status.
     field data ''closed_reason'' (as_option as_text) (\<lambda>closed_reason.
     bind_res (origin_of data) (\<lambda>origin.
     Inr \<lparr> lr_ticket = ticket, lr_strategy = strategy, lr_magic = magic, lr_comment = comment,
           lr_symbol = symbol, lr_side = side, lr_order_type = order_type, lr_requested_volume = volume,
           lr_requested_price = price, lr_requested_sl = sl, lr_requested_tp = tp,
           lr_requested_deviation = deviation, lr_requested_filling_mode = filling_mode,
           lr_requested_expiry = expiry, lr_retcode = retcode, lr_executed_price = executed_price,
           lr_executed_volume = executed_volume, lr_broker_comment = broker_comment,
           lr_submitted_at = submitted_at, lr_closed_at = closed_at, lr_status = status,
           lr_closed_reason = closed_reason, lr_origin = origin \<rparr>))))))))))))))))))))))"

section \<open>Files\<close>

datatype content = Doc json | Text string

type_synonym files = "(string \<times> content) list"

definition json_of_content :: "content \<Rightarrow> json option" where
  "json_of_content c = (case c of Doc j \<Rightarrow> Some j | Text s \<Rightarrow> json_loads s)"

definition schema_version :: int where
  "schema_version = 1"

definition record_path :: "int \<Rightarrow> string" where
  "record_path ticket = dec ticket @ ''.json''"

definition payload :: "LocalOrderRecord \<Rightarrow> json" where
  "payload r = JObj ((''schema_version'', JInt schema_version) # serialize r)"

text \<open>A write puts the document under a temporary name, then renames it over the real one.\<close>

definition write_tmp :: "string \<Rightarrow> LocalOrderRecord \<Rightarrow> files \<Rightarrow> files" where
  "write_tmp path r fs = dict_put (path @ ''.tmp'') (Doc (payload r)) fs"

definition os_replace :: "string \<Rightarrow> string \<Rightarrow> files \<Rightarrow> files" where
  "os_replace src dst fs =
     (case map_of fs src of None \<Rightarrow> fs | Some c \<Rightarrow> dict_put dst c (dict_pop src fs))"

definition write_record_file :: "string \<Rightarrow> LocalOrderRecord \<Rightarrow> files \<Rightarrow> files" where
  "write_record_file path r fs = os_replace (path @ ''.tmp'') path (write_tmp path r fs)"

definition stem :: "string \<Rightarrow> string" where
  "stem name = take (length name - 5) name"

definition read_record :: "string \<Rightarrow> content \<Rightarrow> LocalOrderRecord result" where
  "read_record name c =
     bind_res (of_option JSONDecodeError (json_of_content c)) (\<lambda>data.
     bind_res (of_option ValueError (int_of_string (stem name))) (\<lambda>ticket.
     bind_res (bind_res (item data ''ticket'') int_of_json) (\<lambda>t.
       if t \<noteq> ticket then Inl ValueError else deserialize ticket data)))"

text \<open>Whatever goes wrong while reading is one exception.\<close>

definition read_record_file :: "string \<Rightarrow> content \<Rightarrow> LocalOrderRecord result" where
  "read_record_file name c =
     (case read_record name c of Inl _ \<Rightarrow> Inl StateLoadError | Inr r \<Rightarrow> Inr r)"

section \<open>The store\<close>

definition is_ticket_file :: "string \<Rightarrow> bool" where
  "is_ticket_file name \<longleftrightarrow> ends_with ''.json'' name \<and> stem name \<noteq> [] \<and> list_all is_digit (stem name)"

definition iter_ticket_files :: "files \<Rightarrow> string list" where
  "iter_ticket_files fs = sort (filter is_ticket_file (map fst fs))"

definition load_one :: "int \<Rightarrow> files \<Rightarrow> LocalOrderRecord option result" where
  "load_one ticket fs =
     (case map_of fs (record_path ticket) of
        None \<Rightarrow> Inr None
      | Some c \<Rightarrow> bind_res (read_record_file (record_path ticket) c) (\<lambda>r. Inr (Some r)))"

fun load_files :: "files \<Rightarrow> string list \<Rightarrow> (int \<times> LocalOrderRecord) list \<Rightarrow>
    (int \<times> LocalOrderRecord) list result" where
  "load_files fs [] d = Inr d"
| "load_files fs (p # ps) d =
     bind_res (read_record_file p (the (map_of fs p))) (\<lambda>r.
       load_files fs ps (dict_put (digits_value (stem p)) r d))"

definition load_all :: "files \<Rightarrow> (int \<times> LocalOrderRecord) list result" where
  "load_all fs = load_files fs (iter_ticket_files fs) []"

definition write_one :: "LocalOrderRecord \<Rightarrow> files \<Rightarrow> files" where
  "write_one r fs = write_record_file (record_path (lr_ticket r)) r fs"

text \<open>The arguments of \<^verbatim>\<open>record_submission\<close> are those of the record it builds.\<close>

definition submission_record ::
  "int \<Rightarrow> string \<Rightarrow> OrderPlan \<Rightarrow> int option \<Rightarrow> pyfloat option \<Rightarrow> pyfloat option \<Rightarrow> fstring \<Rightarrow> datetime \<Rightarrow> string \<Rightarrow>
   LocalOrderRecord" where
  "submission_record ticket strategy plan retcode executed_price executed_volume broker_comment submitted_at status =
     \<lparr> lr_ticket = ticket, lr_strategy = strategy, lr_magic = op_magic plan, lr_comment = op_comment plan,
       lr_symbol = op_symbol plan, lr_side = side_str (op_side plan),
       lr_order_type = order_type_str (op_order_type plan), lr_requested_volume = op_volume plan,
       lr_requested_price = op_price plan, lr_requested_sl = op_sl plan, lr_requested_tp = op_tp plan,
       lr_requested_deviation = op_deviation plan, lr_requested_filling_mode = op_filling_mode plan,
       lr_requested_expiry = op_expiry plan, lr_retcode = retcode, lr_executed_price = executed_price,
       lr_executed_volume = executed_volume, lr_broker_comment = broker_comment,
       lr_submitted_at = submitted_at, lr_closed_at = None, lr_status = status, lr_closed_reason = None,
       lr_origin = ''system_owned'' \<rparr>"

definition record_submission :: "LocalOrderRecord \<Rightarrow> (files, exn, unit) io" where
  "record_submission r = modify_io (write_one r)"

definition update_record :: "int \<Rightarrow> (LocalOrderRecord \<Rightarrow> LocalOrderRecord) \<Rightarrow> (files, exn, unit) io" where
  "update_record ticket f =
     bind_io (\<lambda>fs. (load_one ticket fs, fs)) (\<lambda>existing.
       case existing of None \<Rightarrow> return_io () | Some r \<Rightarrow> modify_io (write_one (f r)))"

definition mark_sl_tp_attached :: "int \<Rightarrow> (files, exn, unit) io" where
  "mark_sl_tp_attached ticket = update_record ticket (\<lambda>r. r\<lparr>lr_status := ''OPEN''\<rparr>)"

definition record_manual_adoption ::
  "int \<Rightarrow> string \<Rightarrow> string \<Rightarrow> pyfloat \<Rightarrow> pyfloat \<Rightarrow> int \<Rightarrow> datetime \<Rightarrow> string \<Rightarrow> (files, exn, unit) io" where
  "record_manual_adoption ticket symbol side volume price_open magic adopted_at note =
     modify_io (write_one
       \<lparr> lr_ticket = ticket, lr_strategy = ''manual_adoption'', lr_magic = magic, lr_comment = note,
         lr_symbol = symbol, lr_side = side, lr_order_type = ''EXTERNAL_POSITION'',
         lr_requested_volume = volume, lr_requested_price = Some price_open, lr_requested_sl = 0,
         lr_requested_tp = 0, lr_requested_deviation = 0, lr_requested_filling_mode = None,
         lr_requested_expiry = None, lr_retcode = None, lr_executed_price = Some price_open,
         lr_executed_volume = Some volume, lr_broker_comment = [f_str note],
         lr_submitted_at = adopted_at, lr_closed_at = None, lr_status = ''OPEN'',
         lr_closed_reason = None, lr_origin = ''manual_adoption'' \<rparr>)"

definition transition :: "int \<Rightarrow> string \<Rightarrow> fstring \<Rightarrow> datetime \<Rightarrow> (files, exn, unit) io" where
  "transition ticket status reason closed_at =
     update_record ticket
       (\<lambda>r. r\<lparr>lr_status := status, lr_closed_at := Some closed_at, lr_closed_reason := Some reason\<rparr>)"

definition record_cancelled :: "int \<Rightarrow> fstring \<Rightarrow> datetime \<Rightarrow> (files, exn, unit) io" where
  "record_cancelled ticket reason closed_at = transition ticket ''CANCELLED'' reason closed_at"

definition record_closed :: "int \<Rightarrow> fstring \<Rightarrow> datetime \<Rightarrow> (files, exn, unit) io" where
  "record_closed ticket reason closed_at = transition ticket ''CLOSED'' reason closed_at"

definition lookup :: "int \<Rightarrow> files \<Rightarrow> LocalOrderRecord option result" where
  "lookup ticket fs = load_one ticket fs"

definition is_open :: "LocalOrderRecord \<Rightarrow> bool" where
  "is_open r \<longleftrightarrow> lr_status r = ''OPEN'' \<or> lr_status r = ''OPEN_UNPROTECTED''"

definition all_records :: "files \<Rightarrow> LocalOrderRecord list result" where
  "all_records fs = bind_res (load_all fs) (\<lambda>d. Inr (map snd d))"

definition all_open :: "files \<Rightarrow> LocalOrderRecord list result" where
  "all_open fs = bind_res (load_all fs) (\<lambda>d. Inr (filter is_open (map snd d)))"

definition all_closed :: "files \<Rightarrow> LocalOrderRecord list result" where
  "all_closed fs = bind_res (load_all fs) (\<lambda>d. Inr (filter (\<lambda>r. lr_status r = ''CLOSED'') (map snd d)))"

section \<open>A record survives being written and read\<close>

definition dates_ok :: "LocalOrderRecord \<Rightarrow> bool" where
  "dates_ok r \<longleftrightarrow> iso_range (lr_submitted_at r) \<and>
     (\<forall>t. lr_closed_at r = Some t \<longrightarrow> iso_range t) \<and> (\<forall>t. lr_requested_expiry r = Some t \<longrightarrow> iso_range t)"

lemma json_option_inverse:
  "(\<And>v. f (g v) = Inr v \<and> g v \<noteq> JNull) \<Longrightarrow> as_option f (json_option g x) = Inr x"
  by (cases x) (auto simp: as_option_def json_option_def)

lemma time_of_json_time: "iso_range t \<Longrightarrow> time_of_json (json_time t) = Inr t"
  by (simp add: time_of_json_def json_time_def isoformat_roundtrip)

lemma isoformat_nonempty: "isoformat t \<noteq> []"
  by (cases t) (simp_all add: isoformat_def date_text_def split: prod.splits)

lemma parse_dt_json: "(\<And>v. x = Some v \<Longrightarrow> iso_range v) \<Longrightarrow> parse_dt (json_option json_time x) = Inr x"
  by (cases x)
    (auto simp: parse_dt_def json_option_def time_of_json_time, auto simp: json_time_def isoformat_nonempty)

lemma field_obj: "map_of d k = Some j \<Longrightarrow> f j = Inr x \<Longrightarrow> field (JObj d) k f g = g x"
  by (simp add: field_def item_def)

lemma map_of_payload:
  "map_of d k = Some v \<Longrightarrow> k \<noteq> ''schema_version'' \<Longrightarrow> map_of ((''schema_version'', x) # d) k = Some v"
  by simp

lemma deserialize_payload:
  assumes "dates_ok r"
  shows "deserialize (lr_ticket r) (payload r) = Inr r"
proof -
  have opts: "as_option as_float (json_option JFloat x) = Inr x" "as_option as_str (json_option JStr y) = Inr y"
    "as_option as_int (json_option JInt z) = Inr z" "as_option as_text (json_option JText w) = Inr w" for x y z w
    by (rule json_option_inverse, simp)+
  have times: "parse_dt (json_option json_time (lr_closed_at r)) = Inr (lr_closed_at r)"
    "parse_dt (json_option json_time (lr_requested_expiry r)) = Inr (lr_requested_expiry r)"
    "time_of_json (json_time (lr_submitted_at r)) = Inr (lr_submitted_at r)"
    using assms by (auto intro!: parse_dt_json time_of_json_time simp: dates_ok_def)
  show ?thesis
    unfolding deserialize_def payload_def serialize_def
    by (simp add: field_def item_def opts times origin_of_def get_item_def)
qed

definition sample_plan :: OrderPlan where
  "sample_plan =
     \<lparr> op_symbol = ''BTCUSD'', op_order_type = LIMIT, op_side = BUY, op_volume = 1, op_price = Some (fint 100),
       op_sl = fint 90, op_tp = fint 110, op_deviation = 150, op_magic = 71101, op_comment = ''grid_buy'',
       op_filling_mode = None, op_expiry = None \<rparr>"

definition sample_record :: "int \<Rightarrow> LocalOrderRecord" where
  "sample_record t = submission_record t ''grid'' sample_plan (Some 10009) (Some (fint 100)) (Some 1) [] (Aware 0) ''OPEN''"

lemma epoch_ok: "iso_range (Aware 0)"
  by code_simp

lemma sample_record_ok [simp]: "dates_ok (sample_record t)" "lr_ticket (sample_record t) = t"
  using epoch_ok by (simp_all add: dates_ok_def sample_record_def submission_record_def sample_plan_def)

section \<open>Names of files\<close>

lemma stem_record_path [simp]: "stem (record_path t) = dec t"
  by (simp add: stem_def record_path_def)

lemma record_path_inject [simp]: "record_path s = record_path t \<longleftrightarrow> s = t"
  by (simp add: record_path_def)

lemma last_names: "last (record_path t) = CHR ''n''" "last (p @ ''.tmp'') = CHR ''p''"
  by (simp_all add: record_path_def)

lemma record_path_not_tmp [simp]: "record_path t \<noteq> p @ ''.tmp''" "p @ ''.tmp'' \<noteq> record_path t"
proof -
  show "record_path t \<noteq> p @ ''.tmp''"
  proof
    assume "record_path t = p @ ''.tmp''"
    then have "last (record_path t) = last (p @ ''.tmp'')" by (rule arg_cong)
    then show False unfolding last_names by simp
  qed
  then show "p @ ''.tmp'' \<noteq> record_path t" by (rule not_sym)
qed

lemma tmp_not_ticket_file [simp]: "\<not> is_ticket_file (p @ ''.tmp'')"
proof
  assume "is_ticket_file (p @ ''.tmp'')"
  then have "drop (length (p @ ''.tmp'') - 5) (p @ ''.tmp'') = ''.json''" (is "drop ?n ?s = _")
    by (simp add: is_ticket_file_def ends_with_def)
  then have "last (drop ?n ?s) = last ''.json''" by (rule arg_cong)
  moreover have "last (drop ?n ?s) = last ?s" by (rule last_drop) simp
  ultimately show False unfolding last_names by simp
qed

lemma dec_digits: "list_all is_digit (dec t) \<longleftrightarrow> 0 \<le> t"
proof -
  have "\<not> is_digit (CHR ''-'')" using is_digit_facts by blast
  then show ?thesis by (auto simp: dec_def list_all_iff dec_nat_digits)
qed

lemma dec_nonempty [simp]: "dec t \<noteq> []"
  by (simp add: dec_def)

lemma record_path_ticket_file [simp]: "is_ticket_file (record_path t) \<longleftrightarrow> 0 \<le> t"
  by (simp add: is_ticket_file_def dec_digits) (simp add: ends_with_def record_path_def)

lemma digits_value_dec: "0 \<le> t \<Longrightarrow> digits_value (dec t) = t"
  by (simp add: dec_def digits_value_dec_nat)

section \<open>Reading after writing\<close>

lemma map_of_write_tmp [simp]:
  "map_of (write_tmp path r fs) = (map_of fs)(path @ ''.tmp'' \<mapsto> Doc (payload r))"
  by (simp add: write_tmp_def)

lemma map_of_write_one:
  "map_of (write_one r fs) =
     (map_of fs)(record_path (lr_ticket r) @ ''.tmp'' := None, record_path (lr_ticket r) \<mapsto> Doc (payload r))"
  by (auto simp: write_one_def write_record_file_def os_replace_def)

lemma read_payload:
  assumes "dates_ok r"
  shows "read_record_file (record_path (lr_ticket r)) (Doc (payload r)) = Inr r"
proof -
  have "item (payload r) ''ticket'' = Inr (JInt (lr_ticket r))"
    by (simp add: item_def payload_def serialize_def)
  then show ?thesis
    using deserialize_payload [OF assms]
    by (simp add: read_record_file_def read_record_def json_of_content_def int_of_string_dec)
qed

lemma load_one_write:
  "dates_ok r \<Longrightarrow> load_one (lr_ticket r) (write_one r fs) = Inr (Some r)"
  "t \<noteq> lr_ticket r \<Longrightarrow> load_one t (write_one r fs) = load_one t fs"
  by (simp_all add: load_one_def map_of_write_one read_payload)

text \<open>
  C21: A record survives being written and read back, whatever was in the directory; and writing one
  ticket changes what is read for no other ticket.
\<close>

theorem store_roundtrip:
  assumes "dates_ok r"
  shows "lookup (lr_ticket r) (snd (record_submission r fs)) = Inr (Some r) \<and>
    (\<forall>t. t \<noteq> lr_ticket r \<longrightarrow> lookup t (snd (record_submission r fs)) = lookup t fs)"
  using assms by (simp add: lookup_def record_submission_def io_simps load_one_write)

theorem store_roundtrip_witness:
  "lookup 5 (snd (record_submission (sample_record 5) [])) = Inr (Some (sample_record 5))"
  using store_roundtrip [of "sample_record 5" "[]"] by simp

text \<open>
  C39: A crash between the two steps of a write loses nothing: with only the temporary file written,
  every reader still sees the old store.
\<close>

theorem store_write_atomic:
  "lookup t (write_tmp (record_path k) r fs) = lookup t fs \<and>
   all_records (write_tmp (record_path k) r fs) = all_records fs \<and>
   all_open (write_tmp (record_path k) r fs) = all_open fs"
proof -
  let ?fs = "write_tmp (record_path k) r fs"
  have names: "filter is_ticket_file (map fst (dict_put (p @ ''.tmp'') c fs)) = filter is_ticket_file (map fst fs)"
    for p c by (induction fs) auto
  have iter: "iter_ticket_files ?fs = iter_ticket_files fs"
    by (simp add: iter_ticket_files_def write_tmp_def names)
  have "load_files ?fs ps d = load_files fs ps d" if "list_all is_ticket_file ps" for ps d
    using that
  proof (induction ps arbitrary: d)
    case (Cons p ps)
    then have "p \<noteq> record_path k @ ''.tmp''" by auto
    then have "map_of ?fs p = map_of fs p" by simp
    then show ?case using Cons by simp
  qed simp
  then have "load_all ?fs = load_all fs"
    unfolding load_all_def iter by (rule) (auto simp: list_all_iff iter_ticket_files_def)
  then show ?thesis
    by (simp add: lookup_def load_one_def all_records_def all_open_def)
qed

section \<open>The store as a finite map\<close>

text \<open>
  A directory the store alone has written: every ticket file has the canonical name of its ticket
  and can be read.
\<close>

definition store_ok :: "files \<Rightarrow> bool" where
  "store_ok fs \<longleftrightarrow> distinct (map fst fs) \<and>
     (\<forall>name c. map_of fs name = Some c \<and> is_ticket_file name \<longrightarrow>
        (\<exists>r. name = record_path (lr_ticket r) \<and> read_record_file name c = Inr r))"

definition view :: "files \<Rightarrow> int \<Rightarrow> LocalOrderRecord option" where
  "view fs t = (if 0 \<le> t then (case load_one t fs of Inr (Some r) \<Rightarrow> Some r | _ \<Rightarrow> None) else None)"

definition storable :: "LocalOrderRecord \<Rightarrow> bool" where
  "storable r \<longleftrightarrow> 0 \<le> lr_ticket r \<and> dates_ok r"

lemma deserialize_ticket: "deserialize t data = Inr r \<Longrightarrow> lr_ticket r = t"
  unfolding deserialize_def field_def bind_res_eq_Inr by auto

lemma read_record_ticket: "read_record_file (record_path t) c = Inr r \<Longrightarrow> lr_ticket r = t"
  by (auto simp: read_record_file_def read_record_def result_simps int_of_string_dec
      dest: deserialize_ticket split: sum.splits if_splits)

lemma distinct_write_one: "distinct (map fst fs) \<Longrightarrow> distinct (map fst (write_one r fs))"
  by (simp add: write_one_def write_record_file_def os_replace_def write_tmp_def distinct_dict_put distinct_dict_pop)

lemma store_ok_empty: "store_ok []"
  by (simp add: store_ok_def)

lemma store_ok_write:
  assumes "store_ok fs" "dates_ok r"
  shows "store_ok (write_one r fs)"
  unfolding store_ok_def
proof (intro conjI allI impI)
  show "distinct (map fst (write_one r fs))"
    using assms(1) by (simp add: store_ok_def distinct_write_one)
next
  fix name c
  assume "map_of (write_one r fs) name = Some c \<and> is_ticket_file name"
  then have "name = record_path (lr_ticket r) \<and> c = Doc (payload r) \<or> map_of fs name = Some c \<and> is_ticket_file name"
    by (auto simp: map_of_write_one split: if_splits)
  then show "\<exists>r. name = record_path (lr_ticket r) \<and> read_record_file name c = Inr r"
    using assms by (auto simp: store_ok_def read_payload)
qed

lemma view_write: "storable r \<Longrightarrow> view (write_one r fs) = (view fs)(lr_ticket r \<mapsto> r)"
  by (rule ext) (simp add: view_def storable_def load_one_write)

lemma view_ticket: "view fs t = Some r \<Longrightarrow> lr_ticket r = t \<and> 0 \<le> t"
  by (auto simp: view_def load_one_def result_simps dest: read_record_ticket
      split: if_splits option.splits sum.splits)

lemma view_file:
  "0 \<le> t \<Longrightarrow> map_of fs (record_path t) = Some c \<Longrightarrow> read_record_file (record_path t) c = Inr r \<Longrightarrow>
   view fs t = Some r"
  by (simp add: view_def load_one_def)

lemma load_files_view:
  assumes "\<forall>p \<in> set ps. \<exists>t r. 0 \<le> t \<and> p = record_path t \<and> view fs t = Some r \<and>
    read_record_file p (the (map_of fs p)) = Inr r"
    and "distinct (map fst d)"
  shows "\<exists>d'. load_files fs ps d = Inr d' \<and> distinct (map fst d') \<and>
    (\<forall>t. map_of d' t = (if record_path t \<in> set ps then view fs t else map_of d t))"
  using assms
proof (induction ps arbitrary: d)
  case (Cons p ps)
  then obtain t r where t: "0 \<le> t" "p = record_path t" "view fs t = Some r"
      "read_record_file p (the (map_of fs p)) = Inr r"
    by auto
  have run: "load_files fs (p # ps) d = load_files fs ps (dict_put t r d)"
    using t by (simp add: digits_value_dec)
  have "distinct (map fst (dict_put t r d))" using Cons.prems(2) by (rule distinct_dict_put)
  then obtain d' where d': "load_files fs ps (dict_put t r d) = Inr d'" "distinct (map fst d')"
      "\<forall>u. map_of d' u = (if record_path u \<in> set ps then view fs u else map_of (dict_put t r d) u)"
    using Cons.IH [of "dict_put t r d"] Cons.prems(1) by auto
  then have "\<forall>u. map_of d' u = (if record_path u \<in> set (p # ps) then view fs u else map_of d u)"
    using t(2,3) by auto
  then show ?case using d'(1,2) by (intro exI [of _ d'] conjI) (unfold run, assumption+)
qed simp

lemma load_all_view:
  assumes "store_ok fs"
  shows "\<exists>d. load_all fs = Inr d \<and> distinct (map fst d) \<and> map_of d = view fs"
proof -
  have files: "\<exists>t r. 0 \<le> t \<and> p = record_path t \<and> view fs t = Some r \<and>
      read_record_file p (the (map_of fs p)) = Inr r" if "p \<in> set (iter_ticket_files fs)" for p
  proof -
    have p: "p \<in> fst ` set fs" "is_ticket_file p" using that by (auto simp: iter_ticket_files_def)
    then obtain c where c: "map_of fs p = Some c" using weak_map_of_SomeI by fastforce
    then obtain r where "p = record_path (lr_ticket r)" "read_record_file p c = Inr r"
      using assms p(2) unfolding store_ok_def by blast
    then show ?thesis using p(2) c view_file by fastforce
  qed
  have all: "record_path t \<in> set (iter_ticket_files fs) \<longleftrightarrow> view fs t \<noteq> None" for t
  proof
    assume "record_path t \<in> set (iter_ticket_files fs)"
    from files [OF this] show "view fs t \<noteq> None" by auto
  next
    assume "view fs t \<noteq> None"
    then show "record_path t \<in> set (iter_ticket_files fs)"
      by (auto simp: iter_ticket_files_def view_def load_one_def image_iff dest!: map_of_SomeD
          split: if_splits option.splits) force
  qed
  obtain d where d: "load_all fs = Inr d" "distinct (map fst d)"
      "\<forall>t. map_of d t = (if record_path t \<in> set (iter_ticket_files fs) then view fs t else map_of [] t)"
    using load_files_view [of "iter_ticket_files fs" fs "[]"] files by (auto simp: load_all_def)
  have "map_of d = view fs" using d(3) all by fastforce
  then show ?thesis using d by blast
qed

lemma all_records_view:
  assumes "store_ok fs"
  shows "\<exists>rs. all_records fs = Inr rs \<and> set rs = ran (view fs) \<and> distinct (map lr_ticket rs)"
proof -
  obtain d where d: "load_all fs = Inr d" "distinct (map fst d)" "map_of d = view fs"
    using load_all_view [OF assms] by blast
  have "map lr_ticket (map snd d) = map fst d"
  proof -
    have "lr_ticket r = t" if "(t, r) \<in> set d" for t r
      using that d(2,3) view_ticket by (metis map_of_is_SomeI)
    then show ?thesis by auto
  qed
  then have "distinct (map lr_ticket (map snd d))" using d(2) by (simp only:)
  moreover have "set (map snd d) = ran (view fs)"
    using d(3) ran_distinct [OF d(2)] by simp
  ultimately show ?thesis
    using d(1) by (simp add: all_records_def)
qed

text \<open>
  The contract the rest of the package relies on, over any representation: what is stored is a map
  from tickets to records, and listing gives each record once.
\<close>

locale record_map =
  fixes inv :: "'s \<Rightarrow> bool"
    and view :: "'s \<Rightarrow> int \<Rightarrow> LocalOrderRecord option"
    and good :: "LocalOrderRecord \<Rightarrow> bool"
    and put :: "LocalOrderRecord \<Rightarrow> 's \<Rightarrow> 's"
    and records :: "'s \<Rightarrow> LocalOrderRecord list result"
  assumes key: "view s t = Some r \<Longrightarrow> lr_ticket r = t"
    and inv_put: "inv s \<Longrightarrow> good r \<Longrightarrow> inv (put r s)"
    and view_put: "inv s \<Longrightarrow> good r \<Longrightarrow> view (put r s) = (view s)(lr_ticket r \<mapsto> r)"
    and listing: "inv s \<Longrightarrow> \<exists>rs. records s = Inr rs \<and> set rs = ran (view s) \<and> distinct (map lr_ticket rs)"
begin

definition open_tickets :: "'s \<Rightarrow> int set" where
  "open_tickets s = {t. \<exists>r. view s t = Some r \<and> is_open r}"

lemma open_tickets_put:
  assumes "inv s" "good r"
  shows "open_tickets (put r s) =
    (if is_open r then insert (lr_ticket r) (open_tickets s) else open_tickets s - {lr_ticket r})"
  using view_put [OF assms] by (auto simp: open_tickets_def)

lemma listed_open:
  assumes "inv s" "records s = Inr rs"
  shows "lr_ticket ` set (filter is_open rs) = open_tickets s"
proof -
  have "set rs = ran (view s)" using listing [OF assms(1)] assms(2) by auto
  then show ?thesis
    using key by (force simp: open_tickets_def ran_def)
qed

lemma listed_after_put:
  assumes "inv s" "good r" "records (put r s) = Inr rs" "records s = Inr rs0"
  shows "set rs = insert r {x \<in> set rs0. lr_ticket x \<noteq> lr_ticket r}"
proof -
  have "set rs = ran ((view s)(lr_ticket r \<mapsto> r))" "set rs0 = ran (view s)"
    using listing [OF inv_put [OF assms(1,2)]] listing [OF assms(1)] view_put [OF assms(1,2)] assms(3,4)
    by auto
  then show ?thesis using key by (auto simp: ran_def split: if_splits)
qed

end

interpretation store: record_map store_ok view storable write_one all_records
  by unfold_locales
    (use view_ticket store_ok_write view_write all_records_view in \<open>auto simp: storable_def\<close>)

text \<open>
  C6: The store refines a finite map: from a well formed directory, writing a record gives a well
  formed directory whose map is the old one with that ticket set, and listing the open records
  returns each open record of the map exactly once.
\<close>

theorem store_refines_map:
  assumes "store_ok fs" "storable r"
  shows "store_ok (write_one r fs) \<and> view (write_one r fs) = (view fs)(lr_ticket r \<mapsto> r) \<and>
    (\<exists>rs. all_open (write_one r fs) = Inr rs \<and> distinct (map lr_ticket rs) \<and>
       lr_ticket ` set rs = (if is_open r then insert (lr_ticket r) (store.open_tickets fs)
                             else store.open_tickets fs - {lr_ticket r}))"
proof -
  have ok: "store_ok (write_one r fs)" by (rule store.inv_put [OF assms])
  obtain rs where rs: "all_records (write_one r fs) = Inr rs" "distinct (map lr_ticket rs)"
    using store.listing [OF ok] by blast
  have "all_open (write_one r fs) = Inr (filter is_open rs)"
    using rs(1) by (auto simp: all_open_def all_records_def result_simps)
  then show ?thesis
    using ok store.view_put [OF assms] rs(2) store.listed_open [OF ok rs(1)] store.open_tickets_put [OF assms]
    by (auto simp: distinct_map_filter)
qed

theorem store_refines_map_witness:
  "view (write_one (sample_record 7) []) = (view [])(7 \<mapsto> sample_record 7)"
  using store_refines_map [of "[]" "sample_record 7"] store_ok_empty by (simp add: storable_def)

section \<open>Transitions\<close>

lemma store_ok_load:
  assumes "store_ok fs" "0 \<le> t"
  shows "load_one t fs = Inr (view fs t)"
proof (cases "map_of fs (record_path t)")
  case (Some c)
  then obtain r where "record_path t = record_path (lr_ticket r)" "read_record_file (record_path t) c = Inr r"
    using assms unfolding store_ok_def by (metis record_path_ticket_file)
  then show ?thesis using Some assms(2) by (simp add: view_def load_one_def)
qed (simp add: view_def load_one_def)

lemma update_record_run:
  assumes "store_ok fs" "0 \<le> t"
  shows "update_record t f fs =
    (Inr (), case view fs t of None \<Rightarrow> fs | Some r \<Rightarrow> write_one (f r) fs)"
  using store_ok_load [OF assms]
  by (cases "view fs t") (simp_all add: update_record_def io_simps)

text \<open>
  Closing (or cancelling) a ticket changes its status, closing time and reason and nothing else
  of the store; for a ticket without a record the directory stays as it is; and when the ticket's
  file cannot be read the exception leaves the directory untouched.
\<close>

theorem store_transition:
  assumes "store_ok fs" "0 \<le> t" "iso_range closed_at" "\<forall>r. view fs t = Some r \<longrightarrow> dates_ok r"
  shows "\<exists>fs'. record_closed t why closed_at fs = (Inr (), fs') \<and> store_ok fs' \<and>
    view fs' = (case view fs t of None \<Rightarrow> view fs
                | Some r \<Rightarrow> (view fs)(t \<mapsto> r\<lparr>lr_status := ''CLOSED'', lr_closed_at := Some closed_at, lr_closed_reason := Some why\<rparr>)) \<and>
    (view fs t = None \<longrightarrow> fs' = fs)"
proof (cases "view fs t")
  case None
  then show ?thesis
    using assms(1) update_record_run [OF assms(1,2)] by (simp add: record_closed_def transition_def)
next
  case (Some r)
  let ?r = "r\<lparr>lr_status := ''CLOSED'', lr_closed_at := Some closed_at, lr_closed_reason := Some why\<rparr>"
  have "storable ?r" "lr_ticket ?r = t"
    using assms(2-4) Some view_ticket [OF Some] by (auto simp: storable_def dates_ok_def)
  then show ?thesis
    using Some update_record_run [OF assms(1,2)] store.inv_put [OF assms(1), of ?r] store.view_put [OF assms(1), of ?r]
    by (simp add: record_closed_def transition_def)
qed

theorem store_transition_witness:
  "\<exists>fs'. record_closed 7 [] (Aware 0) (write_one (sample_record 7) []) = (Inr (), fs') \<and>
     view fs' 7 = Some ((sample_record 7)\<lparr>lr_status := ''CLOSED'', lr_closed_at := Some (Aware 0), lr_closed_reason := Some []\<rparr>)"
proof -
  have ok: "store_ok (write_one (sample_record 7) [])" and v: "view (write_one (sample_record 7) []) 7 = Some (sample_record 7)"
    using store_ok_write [OF store_ok_empty] view_write [of "sample_record 7"] by (simp_all add: storable_def)
  show ?thesis
    using store_transition [OF ok, of 7 "Aware 0" "[]"] epoch_ok v by auto
qed

section \<open>Unreadable files\<close>

lemma load_files_raises:
  assumes "p \<in> set ps" "read_record_file p (the (map_of fs p)) = Inl StateLoadError"
  shows "load_files fs ps d = Inl StateLoadError"
  using assms
proof (induction ps arbitrary: d)
  case (Cons q ps)
  have "read_record_file q (the (map_of fs q)) = Inl StateLoadError \<or> (\<exists>r. read_record_file q (the (map_of fs q)) = Inr r)"
    by (simp add: read_record_file_def split: sum.splits)
  then show ?case using Cons by auto
qed simp



end
