(* ===== verification/Reconcile.thy ===== *)
theory Reconcile
  imports State_Store
begin

text \<open>
  Cross-checking local records against the account: \<^verbatim>\<open>state/reconcile.py\<close>,
  \<^verbatim>\<open>state/policy.py\<close>, \<^verbatim>\<open>state/strategy_registry.py\<close> and the second look at unknown
  tickets in \<^verbatim>\<open>state/sl_tp_artifact.py\<close>. Shown: the report is a partition by ticket, when
  new orders are allowed, what evidence every explained ticket carries, and that a deal's magic
  number is never part of it.
\<close>

section \<open>Reconciliation\<close>

definition reconcile ::
  "LocalOrderRecord list \<Rightarrow> PositionState list \<Rightarrow> OrderState list \<Rightarrow> ReconciliationReport" where
  "reconcile local_open real_positions real_orders =
     (let local_tickets = set (map lr_ticket local_open);
          real_tickets = set (map pos_ticket real_positions) \<union> set (map ord_ticket real_orders)
      in \<lparr> rr_matched = sorted_list_of_set (local_tickets \<inter> real_tickets),
           rr_local_only = sorted_list_of_set (local_tickets - real_tickets),
           rr_unknown_real = sorted_list_of_set (real_tickets - local_tickets) \<rparr>)"

definition local_tickets :: "LocalOrderRecord list \<Rightarrow> int set" where
  "local_tickets rs = lr_ticket ` set rs"

definition real_tickets :: "PositionState list \<Rightarrow> OrderState list \<Rightarrow> int set" where
  "real_tickets ps os = pos_ticket ` set ps \<union> ord_ticket ` set os"

lemma finite_tickets [simp]: "finite (local_tickets rs)" "finite (real_tickets ps os)"
  by (simp_all add: local_tickets_def real_tickets_def)

lemma reconcile_sets:
  "set (rr_matched (reconcile rs ps os)) = local_tickets rs \<inter> real_tickets ps os"
  "set (rr_local_only (reconcile rs ps os)) = local_tickets rs - real_tickets ps os"
  "set (rr_unknown_real (reconcile rs ps os)) = real_tickets ps os - local_tickets rs"
  by (simp_all add: reconcile_def Let_def local_tickets_def real_tickets_def)

text \<open>
  Reconciliation is by ticket only and exact: the three lists are sorted without repetition,
  the local tickets are the matched and the local-only ones, the real tickets the matched and the
  unknown ones, and no ticket is in two lists.
\<close>

theorem reconcile_partition:
  "let rep = reconcile rs ps os;
       m = rr_matched rep; l = rr_local_only rep; u = rr_unknown_real rep
   in sorted m \<and> sorted l \<and> sorted u \<and> distinct (m @ l @ u) \<and>
      set m \<union> set l = lr_ticket ` set rs \<and>
      set m \<union> set u = pos_ticket ` set ps \<union> ord_ticket ` set os"
  by (auto simp: reconcile_def Let_def)

section \<open>Posture\<close>

datatype ExecutionPosture = NORMAL | MANAGE_ONLY | BLOCKED

definition determine_posture :: "ReconciliationReport option \<Rightarrow> exn option \<Rightarrow> ExecutionPosture result" where
  "determine_posture report state_load_error =
     (if state_load_error \<noteq> None then Inr BLOCKED
      else case report of
          None \<Rightarrow> Inl ValueError
        | Some rep \<Rightarrow> Inr (if rr_unknown_real rep \<noteq> [] then MANAGE_ONLY else NORMAL))"

text \<open>
  New orders are allowed exactly when the local state loaded and every real position and order
  has an open local record; a load error blocks whatever the report says.
\<close>

theorem posture_normal_iff:
  "(determine_posture (Some (reconcile rs ps os)) err = Inr NORMAL \<longleftrightarrow>
      err = None \<and> pos_ticket ` set ps \<union> ord_ticket ` set os \<subseteq> lr_ticket ` set rs) \<and>
   (determine_posture rep err = Inr BLOCKED \<longleftrightarrow> err \<noteq> None) \<and>
   (determine_posture rep err = Inl ValueError \<longleftrightarrow> rep = None \<and> err = None)"
proof -
  have "rr_unknown_real (reconcile rs ps os) = [] \<longleftrightarrow> real_tickets ps os \<subseteq> local_tickets rs"
    using reconcile_sets(3) [of rs ps os] by (metis Diff_eq_empty_iff set_empty)
  then show ?thesis
    by (auto simp: determine_posture_def local_tickets_def real_tickets_def split: option.splits)
qed

section \<open>Strategy names\<close>

definition magic_to_strategy :: "(int \<times> string) list" where
  "magic_to_strategy = [(71101, ''grid''), (72101, ''runner'')]"

definition strategy_name_for_magic :: "int \<Rightarrow> string" where
  "strategy_name_for_magic magic =
     (case map_of magic_to_strategy magic of Some s \<Rightarrow> s | None \<Rightarrow> ''unknown_magic_'' @ dec magic)"

lemma strategy_names_differ: "strategy_name_for_magic m = strategy_name_for_magic n \<longleftrightarrow> m = n"
  by (auto simp: strategy_name_for_magic_def magic_to_strategy_def)

section \<open>Artifacts of stop and target executions\<close>

definition deal_type_buy :: int where "deal_type_buy = 0"
definition deal_type_sell :: int where "deal_type_sell = 1"

definition is_closing_entry :: "int \<Rightarrow> bool" where
  "is_closing_entry e \<longleftrightarrow> e = 1 \<or> e = 2"

definition volume_tolerance :: pyfloat where
  "volume_tolerance = flt (1 / 10 ^ 9)"

definition price_abs_tolerance :: pyfloat where
  "price_abs_tolerance = flt (1 / 10 ^ 6)"

definition price_rel_tolerance :: pyfloat where
  "price_rel_tolerance = flt (2 / 1000)"

record SlTpArtifactEvidence =
  ev_ticket :: int
  ev_position_ticket :: int
  ev_kind :: string
  ev_deal_ticket :: int
  ev_order_ticket :: int
  ev_price :: pyfloat
  ev_reference_price :: pyfloat
  ev_time :: datetime

record SlTpArtifactRejection =
  rej_ticket :: int
  rej_reason :: fstring

record SlTpArtifactClassification =
  cl_explained :: "int list"
  cl_unexplained :: "int list"
  cl_evidence :: "SlTpArtifactEvidence list"
  cl_rejections :: "SlTpArtifactRejection list"

definition reference_volume :: "LocalOrderRecord \<Rightarrow> pyfloat" where
  "reference_volume r = (case lr_executed_volume r of Some v \<Rightarrow> v | None \<Rightarrow> lr_requested_volume r)"

definition volume_matches :: "pyfloat \<Rightarrow> LocalOrderRecord \<Rightarrow> bool" where
  "volume_matches v r \<longleftrightarrow> \<bar>v - reference_volume r\<bar> < volume_tolerance"

definition is_closing_side :: "int \<Rightarrow> string \<Rightarrow> bool" where
  "is_closing_side deal_type' position_side =
     (if position_side = ''BUY'' then deal_type' = deal_type_sell
      else if position_side = ''SELL'' then deal_type' = deal_type_buy
      else False)"

text \<open>
  The regular expression \<^verbatim>\<open>^\[(sl|tp)\b\<close>, ignoring case: after the bracket and the two
  letters no further word character.
\<close>

definition is_word :: "char \<Rightarrow> bool" where
  "is_word c = (let n = of_char (lower_char c) :: nat in is_digit c \<or> (97 \<le> n \<and> n \<le> 122) \<or> n = 95)"

definition extract_sl_tp_kind :: "string option \<Rightarrow> string option" where
  "extract_sl_tp_kind comment =
     (case comment of
        Some (b # x # y # rest) \<Rightarrow>
          (let kind = lower [x, y]
           in if b = CHR 0x5B \<and> (kind = ''sl'' \<or> kind = ''tp'') \<and> (rest = [] \<or> \<not> is_word (hd rest))
              then Some kind else None)
      | _ \<Rightarrow> None)"

definition price_matches :: "pyfloat \<Rightarrow> pyfloat \<Rightarrow> bool" where
  "price_matches price reference \<longleftrightarrow>
     \<bar>price - reference\<bar> \<le> max price_abs_tolerance (price_rel_tolerance * \<bar>reference\<bar>)"

definition requested_level :: "string \<Rightarrow> LocalOrderRecord \<Rightarrow> pyfloat" where
  "requested_level kind r = (if kind = ''sl'' then lr_requested_sl r else lr_requested_tp r)"

definition comment_value :: "string option \<Rightarrow> json" where
  "comment_value c = json_option JStr c"

definition quoted :: "string \<Rightarrow> string" where
  "quoted s = CHR 0x27 # s @ [CHR 0x27]"

text \<open>
  The check of one ticket: the reason it stays unexplained, or its evidence. Comparing a time
  with a zone to one without raises.
\<close>

definition check_closing_deal ::
  "int \<Rightarrow> Deal \<Rightarrow> LocalOrderRecord \<Rightarrow> timedelta \<Rightarrow> (fstring + SlTpArtifactEvidence) result" where
  "check_closing_deal ticket deal r deal_time_offset =
     (if lr_symbol r \<noteq> deal_symbol deal
      then Inr (Inl [Lit ''symbol mismatch: local position='', F_repr (JStr (lr_symbol r)),
                     Lit '', deal='', F_repr (JStr (deal_symbol deal))])
      else if \<not> volume_matches (deal_volume deal) r
      then Inr (Inl [Lit ''volume mismatch: local position='', f_flt (reference_volume r),
                     Lit '', deal='', f_flt (deal_volume deal)])
      else if \<not> is_closing_side (deal_type deal) (lr_side r)
      then Inr (Inl [Lit ''deal type='', f_int (deal_type deal),
                     Lit '' is not a valid closing side for local position.side='', F_repr (JStr (lr_side r))])
      else case extract_sl_tp_kind (deal_comment deal) of
          None \<Rightarrow> Inr (Inl [Lit (''deal comment does not start with '' @ quoted ''[sl '' @ '' or '' @ quoted ''[tp '' @ '': ''),
                           F_repr (comment_value (deal_comment deal))])
        | Some kind \<Rightarrow>
            let reference = requested_level kind r;
                corrected_time = dt_add (deal_time deal) (- deal_time_offset)
            in if reference \<le> 0
               then Inr (Inl [Lit ''local position has no usable requested_'', f_str kind, Lit '' (unset or <= 0)''])
               else if \<not> price_matches (deal_price deal) reference
               then Inr (Inl [Lit ''price '', f_flt (deal_price deal), Lit '' does not match requested_'', f_str kind,
                              Lit ''='', f_flt reference, Lit '' within tolerance''])
               else bind_res (of_option TypeError (dt_less corrected_time (lr_submitted_at r))) (\<lambda>early.
                 Inr (if early
                   then Inl [Lit ''deal time '', F_time corrected_time,
                             Lit '' (offset-corrected) precedes local position'', Lit (CHR 0x27 # ''s own submitted_at=''),
                             F_time (lr_submitted_at r), Lit '' -- a position cannot close before it opened'']
                   else Inr \<lparr> ev_ticket = ticket, ev_position_ticket = lr_ticket r, ev_kind = kind,
                              ev_deal_ticket = deal_ticket deal, ev_order_ticket = deal_order deal,
                              ev_price = deal_price deal, ev_reference_price = reference,
                              ev_time = corrected_time \<rparr>)))"

definition explain_one ::
  "int \<Rightarrow> Deal list \<Rightarrow> (int \<rightharpoonup> LocalOrderRecord) \<Rightarrow> timedelta \<Rightarrow> (fstring + SlTpArtifactEvidence) result" where
  "explain_one ticket closing_deals local_by_ticket deal_time_offset =
     (case closing_deals of
        [] \<Rightarrow> Inr (Inl [Lit ''no closing (entry=out/inout) deal found whose order ticket matches this candidate''])
      | [deal] \<Rightarrow>
          (case local_by_ticket (deal_position_id deal) of
             None \<Rightarrow> Inr (Inl [Lit ''deal closes position_id='', f_int (deal_position_id deal),
                 Lit '', which is not a currently locally-open position (never adopted, never guessed)''])
           | Some r \<Rightarrow> check_closing_deal ticket deal r deal_time_offset)
      | _ \<Rightarrow> Inr (Inl [f_int (int (length closing_deals)),
               Lit '' candidate closing deals found for this order ticket -- ambiguous, not strong evidence'']))"

definition local_by_ticket :: "LocalOrderRecord list \<Rightarrow> int \<rightharpoonup> LocalOrderRecord" where
  "local_by_ticket local_open = map_of (rev (map (\<lambda>r. (lr_ticket r, r)) local_open))"

definition closing_deals_of :: "Deal list \<Rightarrow> int \<Rightarrow> Deal list" where
  "closing_deals_of deals ticket = filter (\<lambda>d. is_closing_entry (deal_entry d) \<and> deal_order d = ticket) deals"

definition collect_classification :: "(int \<times> (fstring + SlTpArtifactEvidence)) list \<Rightarrow> SlTpArtifactClassification" where
  "collect_classification outcomes =
     \<lparr> cl_explained = concat (map (\<lambda>(t, r). case r of Inl _ \<Rightarrow> [] | Inr _ \<Rightarrow> [t]) outcomes),
       cl_unexplained = concat (map (\<lambda>(t, r). case r of Inl _ \<Rightarrow> [t] | Inr _ \<Rightarrow> []) outcomes),
       cl_evidence = concat (map (\<lambda>(t, r). case r of Inl _ \<Rightarrow> [] | Inr ev \<Rightarrow> [ev]) outcomes),
       cl_rejections = concat (map (\<lambda>(t, r). case r of
          Inl why \<Rightarrow> [\<lparr> rej_ticket = t, rej_reason = why \<rparr>] | Inr _ \<Rightarrow> []) outcomes) \<rparr>"

definition classify_unknown_real_tickets ::
  "int list \<Rightarrow> LocalOrderRecord list \<Rightarrow> Deal list \<Rightarrow> timedelta \<Rightarrow> SlTpArtifactClassification result" where
  "classify_unknown_real_tickets unknown_real local_open deals deal_time_offset =
     bind_res (traverse (\<lambda>ticket.
       bind_res (explain_one ticket (closing_deals_of deals ticket) (local_by_ticket local_open) deal_time_offset)
         (\<lambda>r. Inr (ticket, r))) unknown_real) (\<lambda>outcomes. Inr (collect_classification outcomes))"

section \<open>What an explained ticket is\<close>

definition strong_evidence ::
  "LocalOrderRecord list \<Rightarrow> Deal list \<Rightarrow> timedelta \<Rightarrow> int \<Rightarrow> SlTpArtifactEvidence \<Rightarrow> bool" where
  "strong_evidence local_open deals off ticket ev \<longleftrightarrow>
     (\<exists>deal r. closing_deals_of deals ticket = [deal] \<and> r \<in> set local_open \<and>
        lr_ticket r = deal_position_id deal \<and> lr_symbol r = deal_symbol deal \<and>
        volume_matches (deal_volume deal) r \<and> is_closing_side (deal_type deal) (lr_side r) \<and>
        extract_sl_tp_kind (deal_comment deal) = Some (ev_kind ev) \<and>
        0 < requested_level (ev_kind ev) r \<and> price_matches (deal_price deal) (requested_level (ev_kind ev) r) \<and>
        dt_less (dt_add (deal_time deal) (- off)) (lr_submitted_at r) = Some False \<and>
        ev_ticket ev = ticket \<and> ev_order_ticket ev = ticket \<and> ev_deal_ticket ev = deal_ticket deal \<and>
        ev_position_ticket ev = lr_ticket r \<and> ev_price ev = deal_price deal \<and>
        ev_reference_price ev = requested_level (ev_kind ev) r \<and>
        ev_time ev = dt_add (deal_time deal) (- off))"

lemma local_by_ticket_Some: "local_by_ticket rs t = Some r \<Longrightarrow> r \<in> set rs \<and> lr_ticket r = t"
  by (auto simp: local_by_ticket_def dest: map_of_SomeD)

lemma closing_deals_order: "closing_deals_of deals ticket = [deal] \<Longrightarrow> deal_order deal = ticket"
proof -
  assume "closing_deals_of deals ticket = [deal]"
  then have "deal \<in> set (closing_deals_of deals ticket)" by simp
  then show ?thesis by (simp add: closing_deals_of_def)
qed

lemma check_closing_deal_evidence:
  assumes "check_closing_deal ticket deal r off = Inr (Inr ev)"
  shows "lr_symbol r = deal_symbol deal" "volume_matches (deal_volume deal) r"
    "is_closing_side (deal_type deal) (lr_side r)"
    "extract_sl_tp_kind (deal_comment deal) = Some (ev_kind ev)"
    "0 < requested_level (ev_kind ev) r" "price_matches (deal_price deal) (requested_level (ev_kind ev) r)"
    "dt_less (dt_add (deal_time deal) (- off)) (lr_submitted_at r) = Some False"
    "ev = \<lparr> ev_ticket = ticket, ev_position_ticket = lr_ticket r, ev_kind = ev_kind ev,
       ev_deal_ticket = deal_ticket deal, ev_order_ticket = deal_order deal, ev_price = deal_price deal,
       ev_reference_price = requested_level (ev_kind ev) r, ev_time = dt_add (deal_time deal) (- off) \<rparr>"
  using assms
  by (auto simp: check_closing_deal_def Let_def result_simps not_le split: if_splits option.splits)

lemma explain_one_evidence:
  assumes "explain_one ticket (closing_deals_of deals ticket) (local_by_ticket rs) off = Inr (Inr ev)"
  shows "strong_evidence rs deals off ticket ev"
proof -
  obtain deal r where deal: "closing_deals_of deals ticket = [deal]"
      and r: "local_by_ticket rs (deal_position_id deal) = Some r"
      and check: "check_closing_deal ticket deal r off = Inr (Inr ev)"
    using assms by (auto simp: explain_one_def split: list.splits option.splits)
  note facts = check_closing_deal_evidence [OF check]
  have ev: "ev_ticket ev = ticket" "ev_order_ticket ev = deal_order deal" "ev_deal_ticket ev = deal_ticket deal"
    "ev_position_ticket ev = lr_ticket r" "ev_price ev = deal_price deal"
    "ev_reference_price ev = requested_level (ev_kind ev) r" "ev_time ev = dt_add (deal_time deal) (- off)"
    by (subst facts(8), simp)+
  show ?thesis
    unfolding strong_evidence_def
    using deal local_by_ticket_Some [OF r] facts(1-7) ev closing_deals_order [OF deal]
    by (intro exI [of _ deal] exI [of _ r] conjI) simp_all
qed

lemma magic_irrelevant [simp]:
  "volume_matches v (r\<lparr>lr_magic := m\<rparr>) = volume_matches v r"
  "requested_level kind (r\<lparr>lr_magic := m\<rparr>) = requested_level kind r"
  "reference_volume (r\<lparr>lr_magic := m\<rparr>) = reference_volume r"
  by (simp_all add: volume_matches_def reference_volume_def requested_level_def split: option.split)

lemma check_closing_deal_magic:
  "check_closing_deal t (d\<lparr>deal_magic := n\<rparr>) (r\<lparr>lr_magic := m\<rparr>) off = check_closing_deal t d r off"
  by (cases "extract_sl_tp_kind (deal_comment d)"; cases "dt_less (dt_add (deal_time d) (- off)) (lr_submitted_at r)")
    (simp_all add: check_closing_deal_def Let_def)

lemma collect_Nil [simp]:
  "cl_explained (collect_classification []) = []" "cl_unexplained (collect_classification []) = []"
  "cl_evidence (collect_classification []) = []" "cl_rejections (collect_classification []) = []"
  by (simp_all add: collect_classification_def)

lemma collect_Cons [simp]:
  "cl_explained (collect_classification ((t, Inl why) # xs)) = cl_explained (collect_classification xs)"
  "cl_explained (collect_classification ((t, Inr ev) # xs)) = t # cl_explained (collect_classification xs)"
  "cl_unexplained (collect_classification ((t, Inl why) # xs)) = t # cl_unexplained (collect_classification xs)"
  "cl_unexplained (collect_classification ((t, Inr ev) # xs)) = cl_unexplained (collect_classification xs)"
  "cl_evidence (collect_classification ((t, Inl why) # xs)) = cl_evidence (collect_classification xs)"
  "cl_evidence (collect_classification ((t, Inr ev) # xs)) = ev # cl_evidence (collect_classification xs)"
  "cl_rejections (collect_classification ((t, Inl why) # xs)) =
     \<lparr> rej_ticket = t, rej_reason = why \<rparr> # cl_rejections (collect_classification xs)"
  "cl_rejections (collect_classification ((t, Inr ev) # xs)) = cl_rejections (collect_classification xs)"
  by (simp_all add: collect_classification_def)

lemma outcomes_induct [case_names Nil rejected explained]:
  fixes xs :: "('t \<times> ('w + 'e)) list"
  assumes "P []" "\<And>t why xs. P xs \<Longrightarrow> P ((t, Inl why) # xs)" "\<And>t ev xs. P xs \<Longrightarrow> P ((t, Inr ev) # xs)"
  shows "P xs"
proof (induction xs)
  case (Cons x xs)
  obtain t r where x: "x = (t, r)" by (cases x)
  show ?case
  proof (cases r)
    case (Inl why)
    then show ?thesis using assms(2) [OF Cons] by (simp add: x)
  next
    case (Inr ev)
    then show ?thesis using assms(3) [OF Cons] by (simp add: x)
  qed
qed (rule assms(1))

lemma collect_members:
  "list_all (\<lambda>(t, r). case r of Inl _ \<Rightarrow> True | Inr ev \<Rightarrow> ev_ticket ev = t) xs \<Longrightarrow>
   map ev_ticket (cl_evidence (collect_classification xs)) = cl_explained (collect_classification xs)"
  by (induction xs rule: outcomes_induct) simp_all

lemma collect_evidence: "ev \<in> set (cl_evidence (collect_classification xs)) \<Longrightarrow> \<exists>t. (t, Inr ev) \<in> set xs"
  by (induction xs rule: outcomes_induct) auto

lemma collect_partition:
  "set (cl_explained (collect_classification xs)) \<union> set (cl_unexplained (collect_classification xs)) = fst ` set xs"
  by (induction xs rule: outcomes_induct) auto

lemma collect_distinct:
  "distinct (map fst xs) \<Longrightarrow>
   distinct (cl_explained (collect_classification xs) @ cl_unexplained (collect_classification xs))"
  by (induction xs rule: outcomes_induct) (use collect_partition in fastforce)+

lemma collect_rejections:
  "map rej_ticket (cl_rejections (collect_classification xs)) = cl_unexplained (collect_classification xs)"
  by (induction xs rule: outcomes_induct) auto

lemma classify_outcomes:
  assumes "classify_unknown_real_tickets unknown rs deals off = Inr cl"
  obtains os where "cl = collect_classification os" "map fst os = unknown"
    "\<forall>(t, r) \<in> set os. explain_one t (closing_deals_of deals t) (local_by_ticket rs) off = Inr r"
proof -
  let ?f = "\<lambda>ticket. bind_res (explain_one ticket (closing_deals_of deals ticket) (local_by_ticket rs) off)
    (\<lambda>r. Inr (ticket, r))"
  obtain os where os: "traverse ?f unknown = Inr os" "cl = collect_classification os"
    using assms by (auto simp: classify_unknown_real_tickets_def result_simps)
  have "list_all2 (\<lambda>t y. ?f t = Inr y) unknown os" using os(1) by (simp add: traverse_Inr_iff)
  then have "map fst os = unknown \<and>
      (\<forall>(t, r) \<in> set os. explain_one t (closing_deals_of deals t) (local_by_ticket rs) off = Inr r)"
    by induction (auto simp: result_simps)
  then show ?thesis using os(2) that by blast
qed

lemma collect_unexplained: "(t, Inl why) \<in> set xs \<Longrightarrow> t \<in> set (cl_unexplained (collect_classification xs))"
  by (induction xs rule: outcomes_induct) auto

lemma classify_explains:
  assumes "classify_unknown_real_tickets unknown rs deals off = Inr cl" "t \<in> set unknown"
  shows "t \<in> set (cl_unexplained cl) \<or> (\<exists>ev. strong_evidence rs deals off t ev)"
proof -
  obtain os where os: "cl = collect_classification os" "map fst os = unknown"
      and run: "\<forall>(t, r) \<in> set os. explain_one t (closing_deals_of deals t) (local_by_ticket rs) off = Inr r"
    using classify_outcomes [OF assms(1)] by blast
  obtain r where r: "(t, r) \<in> set os" using assms(2) os(2) by force
  show ?thesis
  proof (cases r)
    case (Inl why)
    then show ?thesis using r collect_unexplained os(1) by blast
  next
    case (Inr ev)
    then have "strong_evidence rs deals off t ev" using r run by (auto intro: explain_one_evidence)
    then show ?thesis by blast
  qed
qed

text \<open>
  C23: Every explained ticket carries all the evidence asked for (one closing deal of that order on a
  locally open position with its symbol, volume, closing side, an SL or TP comment whose level the
  price matches, not before the submission), the explained and unexplained tickets partition the
  unknown ones, and every unexplained ticket has its reason.
\<close>

theorem artifact_classification_sound:
  assumes "classify_unknown_real_tickets unknown rs deals off = Inr cl" "distinct unknown"
  shows "map ev_ticket (cl_evidence cl) = cl_explained cl \<and>
    (\<forall>ev \<in> set (cl_evidence cl). strong_evidence rs deals off (ev_ticket ev) ev) \<and>
    set (cl_explained cl) \<union> set (cl_unexplained cl) = set unknown \<and>
    distinct (cl_explained cl @ cl_unexplained cl) \<and>
    map rej_ticket (cl_rejections cl) = cl_unexplained cl"
proof -
  obtain os where os: "cl = collect_classification os" "map fst os = unknown"
      and run: "\<forall>(t, r) \<in> set os. explain_one t (closing_deals_of deals t) (local_by_ticket rs) off = Inr r"
    using classify_outcomes [OF assms(1)] by blast
  have strong: "strong_evidence rs deals off t ev" if "(t, Inr ev) \<in> set os" for t ev
    using run that by (auto intro: explain_one_evidence)
  then have own: "ev_ticket ev = t" if "(t, Inr ev) \<in> set os" for t ev
    using strong [OF that] by (auto simp: strong_evidence_def)
  then have keys: "list_all (\<lambda>(t, r). case r of Inl _ \<Rightarrow> True | Inr ev \<Rightarrow> ev_ticket ev = t) os"
    by (auto simp: list_all_iff split: sum.split)
  have "strong_evidence rs deals off (ev_ticket ev) ev" if "ev \<in> set (cl_evidence cl)" for ev
    using collect_evidence [of ev os] strong own that unfolding os(1) by metis
  then show ?thesis
    using collect_members [OF keys] collect_partition [of os] collect_distinct [of os] collect_rejections [of os]
      assms(2) os by (simp flip: set_map)
qed

text \<open>One position, stopped out at its level: ticket 901 is the closing order.\<close>

definition stop_deal :: Deal where
  "stop_deal =
     \<lparr> deal_ticket = 900, deal_order = 901, deal_position_id = 7, deal_time = Aware (hours 1), deal_type = 1,
       deal_entry = 1, deal_symbol = ''BTCUSD'', deal_volume = 1, deal_price = fint 90, deal_profit = - fint 10,
       deal_commission = 0, deal_swap = 0, deal_fee = 0, deal_magic = 0, deal_comment = Some ''[sl 90]'' \<rparr>"

lemma stop_deal_explained:
  "classify_unknown_real_tickets [901] [sample_record 7] [stop_deal] 0 =
     Inr (collect_classification [(901, Inr
       \<lparr> ev_ticket = 901, ev_position_ticket = 7, ev_kind = ''sl'', ev_deal_ticket = 900, ev_order_ticket = 901,
         ev_price = fint 90, ev_reference_price = fint 90, ev_time = Aware (hours 1) \<rparr>)])"
proof -
  have kind: "extract_sl_tp_kind (Some ''[sl 90]'') = Some ''sl''" by code_simp
  have deals: "closing_deals_of [stop_deal] 901 = [stop_deal]"
    by (simp add: closing_deals_of_def stop_deal_def is_closing_entry_def)
  have own: "local_by_ticket [sample_record 7] 7 = Some (sample_record 7)"
    by (simp add: local_by_ticket_def)
  have volume: "volume_matches 1 (sample_record 7)"
    by (simp add: volume_matches_def reference_volume_def sample_record_def submission_record_def volume_tolerance_def)
  have fields: "lr_symbol (sample_record 7) = ''BTCUSD''" "lr_side (sample_record 7) = ''BUY''"
    "lr_requested_sl (sample_record 7) = fint 90" "lr_submitted_at (sample_record 7) = Aware 0"
    by (simp_all add: sample_record_def submission_record_def sample_plan_def side_str_def)
  have price: "price_matches (fint 90) (fint 90)"
    by (simp add: price_matches_def price_abs_tolerance_def le_max_iff_disj)
  show ?thesis
    by (simp add: classify_unknown_real_tickets_def deals explain_one_def)
      (simp add: check_closing_deal_def stop_deal_def own kind volume price fields is_closing_side_def
        deal_type_sell_def requested_level_def Let_def)
qed

theorem artifact_classification_sound_witness:
  "\<exists>cl. classify_unknown_real_tickets [901] [sample_record 7] [stop_deal] 0 = Inr cl \<and>
     cl_explained cl = [901] \<and> strong_evidence [sample_record 7] [stop_deal] 0 901 (hd (cl_evidence cl))"
  using artifact_classification_sound [OF stop_deal_explained] stop_deal_explained by auto

text \<open>
  The classification fails closed and never looks at magic numbers: without a locally open
  position or without deals every ticket stays unexplained, and rewriting the magic number of every
  deal and of every record changes nothing.
\<close>

theorem artifact_fails_closed:
  "(\<exists>cl. classify_unknown_real_tickets unknown [] deals off = Inr cl \<and> cl_unexplained cl = unknown \<and> cl_explained cl = []) \<and>
   (\<exists>cl. classify_unknown_real_tickets unknown rs [] off = Inr cl \<and> cl_unexplained cl = unknown \<and> cl_explained cl = []) \<and>
   classify_unknown_real_tickets unknown (map (\<lambda>r. r\<lparr>lr_magic := m r\<rparr>) rs) (map (\<lambda>d. d\<lparr>deal_magic := n d\<rparr>) deals) off =
     classify_unknown_real_tickets unknown rs deals off"
proof (intro conjI)
  have none: "\<exists>why. explain_one t ds (\<lambda>_. None) off = Inr (Inl why)" for t ds
    by (auto simp: explain_one_def split: list.splits)
  have empty: "\<exists>why. explain_one t [] loc off = Inr (Inl why)" for t loc
    by (simp add: explain_one_def)
  have all: "\<exists>cl. bind_res (traverse (\<lambda>t. bind_res (f t) (\<lambda>r. Inr (t, r))) unknown)
        (\<lambda>os. Inr (collect_classification os)) = Inr cl \<and> cl_unexplained cl = unknown \<and> cl_explained cl = []"
    if f: "\<And>t. \<exists>why. f t = Inr (Inl why)" for f :: "int \<Rightarrow> (fstring + SlTpArtifactEvidence) result"
  proof -
    obtain g where g: "\<And>t. f t = Inr (Inl (g t))" using f by metis
    have "traverse (\<lambda>t. bind_res (f t) (\<lambda>r. Inr (t, r))) unknown = Inr (map (\<lambda>t. (t, Inl (g t))) unknown)"
      by (simp add: g traverse_Inr_map)
    then show ?thesis by (simp add: collect_classification_def comp_def)
  qed
  have "local_by_ticket [] = (\<lambda>_. None)" by (auto simp: local_by_ticket_def)
  then show "\<exists>cl. classify_unknown_real_tickets unknown [] deals off = Inr cl \<and> cl_unexplained cl = unknown \<and> cl_explained cl = []"
    unfolding classify_unknown_real_tickets_def using none by (simp add: all)
  show "\<exists>cl. classify_unknown_real_tickets unknown rs [] off = Inr cl \<and> cl_unexplained cl = unknown \<and> cl_explained cl = []"
    unfolding classify_unknown_real_tickets_def using empty by (intro all) (simp add: closing_deals_of_def)
  have deals: "closing_deals_of (map (\<lambda>d. d\<lparr>deal_magic := n d\<rparr>) deals) t =
      map (\<lambda>d. d\<lparr>deal_magic := n d\<rparr>) (closing_deals_of deals t)" for t
    by (simp add: closing_deals_of_def filter_map comp_def)
  have "map_of (map (\<lambda>r. (lr_ticket r, r\<lparr>lr_magic := m r\<rparr>)) xs) t =
      map_option (\<lambda>r. r\<lparr>lr_magic := m r\<rparr>) (map_of (map (\<lambda>r. (lr_ticket r, r)) xs) t)" for xs t
    by (induction xs) auto
  then have records: "local_by_ticket (map (\<lambda>r. r\<lparr>lr_magic := m r\<rparr>) rs) t =
      map_option (\<lambda>r. r\<lparr>lr_magic := m r\<rparr>) (local_by_ticket rs t)" for t
    by (simp add: local_by_ticket_def rev_map comp_def)
  have "explain_one t (map (\<lambda>d. d\<lparr>deal_magic := n d\<rparr>) ds) (local_by_ticket (map (\<lambda>r. r\<lparr>lr_magic := m r\<rparr>) rs)) off =
      explain_one t ds (local_by_ticket rs) off" for t ds
    by (auto simp: explain_one_def records check_closing_deal_magic split: list.split option.split)
  then show "classify_unknown_real_tickets unknown (map (\<lambda>r. r\<lparr>lr_magic := m r\<rparr>) rs) (map (\<lambda>d. d\<lparr>deal_magic := n d\<rparr>) deals) off =
      classify_unknown_real_tickets unknown rs deals off"
    by (simp add: classify_unknown_real_tickets_def deals)
qed

end
