(* ===== verification/Mcp.thy ===== *)
theory Mcp
  imports Reconcile
begin

text \<open>
  The tool registry and the client of \<^verbatim>\<open>mcp_adapter/\<close>. The server process is not under
  \<^verbatim>\<open>src/\<close>: what it answers to a call is a parameter, with a state of its own of any type.
  The state of a live program keeps a log of the calls that reached it, the local files and the
  number of times the clock was read. Shown: no call passes the gate without classification and
  permission, and a refused call changes nothing. The relations \<open>calls_only\<close> and \<open>same_files\<close>,
  which every later component is checked against, are interpreted here.
\<close>

section \<open>Tool registry\<close>

datatype ToolClass = READ_ONLY | TRADING

record ToolRegistry =
  tr_trading_enabled :: bool
  tr_classification :: "(string \<times> ToolClass) list"

definition tool_registry :: "bool \<Rightarrow> ToolRegistry" where
  "tool_registry trading_enabled = \<lparr> tr_trading_enabled = trading_enabled, tr_classification = [] \<rparr>"

definition classify :: "string \<Rightarrow> ToolClass \<Rightarrow> ToolRegistry \<Rightarrow> ToolRegistry" where
  "classify tool_name tool_class reg =
     reg\<lparr>tr_classification := dict_put tool_name tool_class (tr_classification reg)\<rparr>"

definition classification_of :: "ToolRegistry \<Rightarrow> string \<Rightarrow> ToolClass option" where
  "classification_of reg tool_name = map_of (tr_classification reg) tool_name"

definition authorize_call :: "ToolRegistry \<Rightarrow> string \<Rightarrow> unit result" where
  "authorize_call reg tool_name =
     (case classification_of reg tool_name of
        None \<Rightarrow> Inl ToolNotClassifiedError
      | Some tool_class \<Rightarrow>
          if tool_class = TRADING \<and> \<not> tr_trading_enabled reg then Inl TradingDisabledError else Inr ())"

definition read_only_tools :: "string list" where
  "read_only_tools =
     [''get_account_info'', ''get_deals'', ''get_orders'', ''get_candles_latest'', ''get_symbol_price'',
      ''get_all_symbols'', ''get_symbols'', ''get_all_positions'', ''get_positions_by_symbol'',
      ''get_positions_by_id'', ''get_all_pending_orders'', ''get_pending_orders_by_symbol'',
      ''get_pending_orders_by_id'', ''get_symbol_info'', ''get_positions_with_magic'',
      ''get_pending_orders_with_magic'']"

definition trading_tools :: "string list" where
  "trading_tools =
     [''place_market_order'', ''place_pending_order'', ''modify_position'', ''modify_pending_order'',
      ''close_position'', ''cancel_pending_order'', ''close_all_positions'',
      ''close_all_positions_by_symbol'', ''close_all_profitable_positions'', ''close_all_losing_positions'',
      ''cancel_all_pending_orders'', ''cancel_pending_orders_by_symbol'']"

definition build_metatrader_tool_registry :: "bool \<Rightarrow> ToolRegistry" where
  "build_metatrader_tool_registry trading_enabled =
     fold (\<lambda>name. classify name TRADING) trading_tools
       (fold (\<lambda>name. classify name READ_ONLY) read_only_tools (tool_registry trading_enabled))"

lemma classification_classify [simp]:
  "classification_of (classify n c reg) m = (if m = n then Some c else classification_of reg m)"
  "tr_trading_enabled (classify n c reg) = tr_trading_enabled reg"
  by (simp_all add: classification_of_def classify_def)

lemma classification_fold:
  "classification_of (fold (\<lambda>n. classify n c) ns reg) m = (if m \<in> set ns then Some c else classification_of reg m)"
  "tr_trading_enabled (fold (\<lambda>n. classify n c) ns reg) = tr_trading_enabled reg"
  by (induction ns arbitrary: reg) auto

lemma tools_disjoint: "set read_only_tools \<inter> set trading_tools = {}"
  by code_simp

lemma built_classification:
  "classification_of (build_metatrader_tool_registry b) m =
     (if m \<in> set trading_tools then Some TRADING else if m \<in> set read_only_tools then Some READ_ONLY else None)"
  "tr_trading_enabled (build_metatrader_tool_registry b) = b"
  by (simp_all add: build_metatrader_tool_registry_def classification_fold)
    (simp_all add: tool_registry_def classification_of_def)

lemma registry_gate_reads:
  "name \<in> set read_only_tools \<Longrightarrow> authorize_call (build_metatrader_tool_registry enabled) name = Inr ()"
  using tools_disjoint by (auto simp: authorize_call_def built_classification)

lemma registry_gate_trades:
  "name \<in> set trading_tools \<Longrightarrow>
   authorize_call (build_metatrader_tool_registry enabled) name = (if enabled then Inr () else Inl TradingDisabledError)"
  by (simp add: authorize_call_def built_classification)

text \<open>
  The gate of the real registry: a read-only tool always passes, a trading tool passes exactly
  when trading was enabled, and every other name (in any case, with any suffix) is refused.
\<close>

theorem registry_gate:
  "authorize_call (build_metatrader_tool_registry enabled) name =
     (if name \<in> set read_only_tools then Inr ()
      else if name \<in> set trading_tools then (if enabled then Inr () else Inl TradingDisabledError)
      else Inl ToolNotClassifiedError)"
  using tools_disjoint by (auto simp: authorize_call_def built_classification)

section \<open>The client\<close>

datatype block = Text_block string | Other_block

text \<open>
  What a tool call comes back with: content with the protocol's error flag, no answer in time, or
  an exception of the session.
\<close>

datatype reply = Reply bool "block list" | Timed_out | Raised string

text \<open>
  What the process depends on besides its own state: the server, how it moves on while the client
  sleeps, the instants \<^verbatim>\<open>datetime.now(timezone.utc)\<close> returns one after the other, and the
  configuration of the client and the executor.
\<close>

record 'w env =
  e_registry :: ToolRegistry
  e_timeout :: pyfloat
  e_account_kind :: "string option"
  e_server :: "string \<Rightarrow> (string \<times> json) list \<Rightarrow> 'w \<Rightarrow> reply \<times> 'w"
  e_connect :: "'w \<Rightarrow> exn option \<times> 'w"
  e_sleep :: "pyfloat \<Rightarrow> 'w \<Rightarrow> 'w"
  e_clock :: "nat \<Rightarrow> int"

record 'w live =
  l_server :: 'w
  l_session :: bool
  l_calls :: "(string \<times> (string \<times> json) list) list"
  l_files :: files
  l_clock_reads :: nat

type_synonym ('w, 'a) live_io = "('w live, exn, 'a) io"

definition aenter :: "'w env \<Rightarrow> ('w, unit) live_io" where
  "aenter env = (\<lambda>s. case e_connect env (l_server s) of
     (Some e, w) \<Rightarrow> (Inl e, s\<lparr>l_server := w\<rparr>)
   | (None, w) \<Rightarrow> (Inr (), s\<lparr>l_server := w, l_session := True\<rparr>))"

definition aexit :: "('w, unit) live_io" where
  "aexit = modify_io (\<lambda>s. s\<lparr>l_session := False\<rparr>)"

fun str_join :: "string \<Rightarrow> string list \<Rightarrow> string" where
  "str_join sep [] = []"
| "str_join sep [x] = x"
| "str_join sep (x # xs) = x @ sep @ str_join sep xs"

definition text_of :: "block list \<Rightarrow> string" where
  "text_of blocks =
     str_join [CHR 0x0A] (concat (map (\<lambda>b. case b of Text_block t \<Rightarrow> [t] | Other_block \<Rightarrow> []) blocks))"

definition call_tool :: "'w env \<Rightarrow> string \<Rightarrow> (string \<times> json) list \<Rightarrow> ('w, string) live_io" where
  "call_tool env name arguments = (\<lambda>s.
     if \<not> l_session s then (Inl RuntimeError, s)
     else case authorize_call (e_registry env) name of
         Inl e \<Rightarrow> (Inl e, s)
       | Inr _ \<Rightarrow>
           (case e_server env name arguments (l_server s) of
              (reply, w) \<Rightarrow>
                (case reply of
                   Reply is_error blocks \<Rightarrow> Inr (text_of blocks)
                 | Timed_out \<Rightarrow> Inl (McpCallTimeoutError name (e_timeout env))
                 | Raised msg \<Rightarrow> Inl (Tool_error msg),
                 s\<lparr>l_server := w, l_calls := (name, arguments) # l_calls s\<rparr>)))"

definition now_utc :: "'w env \<Rightarrow> ('w, datetime) live_io" where
  "now_utc env = (\<lambda>s. (Inr (Aware (e_clock env (l_clock_reads s))), s\<lparr>l_clock_reads := l_clock_reads s + 1\<rparr>))"

definition sleep :: "'w env \<Rightarrow> pyfloat \<Rightarrow> ('w, unit) live_io" where
  "sleep env seconds' = modify_io (\<lambda>s. s\<lparr>l_server := e_sleep env seconds' (l_server s)\<rparr>)"

text \<open>The operations of the state store act on the files.\<close>

definition on_files :: "(files, exn, 'a) io \<Rightarrow> ('w, 'a) live_io" where
  "on_files m = (\<lambda>s. case m (l_files s) of (r, fs) \<Rightarrow> (r, s\<lparr>l_files := fs\<rparr>))"

section \<open>Frames\<close>

text \<open>
  Two relations between the state before and after a program: it only made calls to the tools of
  \<open>A\<close>, and it left the files alone.
\<close>

definition calls_only :: "string set \<Rightarrow> 'w live \<Rightarrow> 'w live \<Rightarrow> bool" where
  "calls_only A s t \<longleftrightarrow> (\<exists>new. l_calls t = new @ l_calls s \<and> fst ` set new \<subseteq> A)"

definition same_files :: "'w live \<Rightarrow> 'w live \<Rightarrow> bool" where
  "same_files s t \<longleftrightarrow> l_files t = l_files s"

interpretation calls: effect "calls_only A" for A
proof unfold_locales
  show "calls_only A s s" for s :: "'w live"
    by (auto simp: calls_only_def)
  show "calls_only A s u" if st: "calls_only A s t" and tu: "calls_only A t u" for s t u :: "'w live"
  proof -
    obtain a where "l_calls t = a @ l_calls s" "fst ` set a \<subseteq> A"
      using st by (auto simp: calls_only_def)
    moreover obtain b where "l_calls u = b @ l_calls t" "fst ` set b \<subseteq> A"
      using tu by (auto simp: calls_only_def)
    ultimately show ?thesis unfolding calls_only_def by (intro exI [of _ "b @ a"]) auto
  qed
qed

interpretation files: effect same_files
  by unfold_locales (auto simp: same_files_def)

lemma call_tool_calls: "name \<in> A \<Longrightarrow> keeps (calls_only A) (call_tool env name args)"
  by (auto simp: keeps_def call_tool_def calls_only_def split: sum.splits prod.splits)

lemma now_utc_calls: "keeps (calls_only A) (now_utc env)"
  and sleep_calls: "keeps (calls_only A) (sleep env d)"
  and on_files_calls: "keeps (calls_only A) (on_files m)"
  by (auto simp: keeps_def now_utc_def sleep_def on_files_def calls_only_def io_simps split: prod.splits)

lemma call_tool_files: "keeps same_files (call_tool env name args)"
  and now_utc_files: "keeps same_files (now_utc env)"
  and sleep_files: "keeps same_files (sleep env d)"
  by (auto simp: keeps_def call_tool_def now_utc_def sleep_def same_files_def io_simps
      split: sum.splits prod.splits)

text \<open>
  C37: Nothing reaches the server past the gate: a call that changes the server's state or the log
  was made inside a session, to a tool the registry authorizes; a refused call changes nothing. So
  with trading disabled no trading tool is ever reached.
\<close>

theorem call_tool_gated:
  assumes "call_tool env name args s = (r, t)"
  shows "(t = s \<and> (r = Inl RuntimeError \<or> r = Inl ToolNotClassifiedError \<or> r = Inl TradingDisabledError)) \<or>
    (l_session s \<and> authorize_call (e_registry env) name = Inr () \<and>
     l_calls t = (name, args) # l_calls s \<and> l_files t = l_files s \<and>
     (classification_of (e_registry env) name = Some TRADING \<longrightarrow> tr_trading_enabled (e_registry env)))"
  using assms
  by (auto simp: call_tool_def authorize_call_def split: if_splits option.splits sum.splits prod.splits)

definition silent_env :: "bool \<Rightarrow> unit env" where
  "silent_env enabled =
     \<lparr> e_registry = build_metatrader_tool_registry enabled, e_timeout = fint 30, e_account_kind = Some ''DEMO'',
       e_server = (\<lambda>name args w. (Reply False [Text_block ''''], w)), e_connect = (\<lambda>w. (None, w)),
       e_sleep = (\<lambda>d w. w), e_clock = (\<lambda>n. int n) \<rparr>"

definition fresh_live :: "unit live" where
  "fresh_live = \<lparr> l_server = (), l_session = True, l_calls = [], l_files = [], l_clock_reads = 0 \<rparr>"

theorem call_tool_gated_witness:
  "call_tool (silent_env False) ''close_all_positions'' [] fresh_live = (Inl TradingDisabledError, fresh_live)"
proof -
  have a: "authorize_call (build_metatrader_tool_registry False) ''close_all_positions'' = Inl TradingDisabledError"
    by (simp add: registry_gate_trades trading_tools_def)
  obtain r t where run: "call_tool (silent_env False) ''close_all_positions'' [] fresh_live = (r, t)"
    by fastforce
  then have "t = fresh_live"
    using call_tool_gated [OF run] a by (auto simp: silent_env_def)
  then show ?thesis
    using run a by (auto simp: call_tool_def silent_env_def fresh_live_def)
qed

end
