(* ===== verification/Readers.thy ===== *)
theory Readers
  imports Mcp
begin

text \<open>
  What the adapter reads through the client: the parsers of
  \<^verbatim>\<open>mt5_adapter/metatrader_parsing.py\<close> and \<^verbatim>\<open>metatrader_retcodes.py\<close>, the readers
  \<^verbatim>\<open>McpAccountReader\<close>, \<^verbatim>\<open>McpDealHistoryReader\<close> and \<^verbatim>\<open>McpMarketDataSource\<close>, and the
  demo-account guards of \<^verbatim>\<open>safety.py\<close>.
\<close>

unbundle bit_operations_syntax

section \<open>Parsing\<close>

definition parse_iso_datetime :: "string \<Rightarrow> datetime result" where
  "parse_iso_datetime raw =
     (let txt = strip raw;
          txt = (if ends_with ''Z'' txt then butlast txt @ ''+00:00'' else txt)
      in of_option ValueError (fromisoformat txt))"

definition parse_dataframe_csv :: "string \<Rightarrow> csv_row list result" where
  "parse_dataframe_csv txt =
     (let stripped = strip txt
      in if stripped = [] then Inr [] else of_option Csv_error (dict_reader stripped))"

definition symbol_filling_mode_bits :: "(int \<times> string) list" where
  "symbol_filling_mode_bits = [(1, ''FOK''), (2, ''IOC'')]"

definition parse_symbol_filling_modes :: "int \<Rightarrow> string list" where
  "parse_symbol_filling_modes bitmask =
     (let known_bits = sum_list (map fst symbol_filling_mode_bits);
          modes = map snd (filter (\<lambda>(b, name). bitmask AND b \<noteq> 0) symbol_filling_mode_bits);
          leftover = bitmask AND (NOT known_bits)
      in if leftover \<noteq> 0 then modes @ [''UNKNOWN_BIT_'' @ dec leftover] else modes)"

text \<open>
  No bit of the filling mask is lost: FOK and IOC are reported exactly for bits 0 and 1, and a
  third entry exactly when some other bit is set, naming the value of those bits.
\<close>

theorem filling_modes_decoded:
  "parse_symbol_filling_modes m =
     (if bit m 0 then [''FOK''] else []) @ (if bit m 1 then [''IOC''] else []) @
     (if \<exists>n \<ge> 2. bit m n then [''UNKNOWN_BIT_'' @ dec (m AND NOT (mask 2))] else [])"
proof -
  have b0: "m AND 1 = 0 \<longleftrightarrow> \<not> bit m 0" and b1: "m AND 2 = 0 \<longleftrightarrow> \<not> bit m 1"
    using and_exp_eq_0_iff_not_bit [of m 0] and_exp_eq_0_iff_not_bit [of m 1] by simp_all
  have mask: "(3 :: int) = mask 2" by (simp add: mask_eq_exp_minus_1)
  have rest: "m AND NOT (mask 2) = 0 \<longleftrightarrow> \<not> (\<exists>n \<ge> 2. bit m n)"
    by (auto simp: bit_eq_iff bit_simps not_less)
  have "sum_list (map fst symbol_filling_mode_bits) = mask 2"
    unfolding mask [symmetric] by (simp add: symbol_filling_mode_bits_def)
  moreover have "map snd (filter (\<lambda>(b, name). m AND b \<noteq> 0) symbol_filling_mode_bits) =
      (if bit m 0 then [''FOK''] else []) @ (if bit m 1 then [''IOC''] else [])"
    by (simp add: symbol_filling_mode_bits_def b0 b1)
  ultimately show ?thesis
    by (simp add: parse_symbol_filling_modes_def Let_def rest)
qed

section \<open>Trade responses\<close>

definition trade_retcode_done :: int where
  "trade_retcode_done = 10009"

definition order_send_result_fields :: "string list" where
  "order_send_result_fields =
     [''retcode'', ''deal'', ''order'', ''volume'', ''price'', ''bid'', ''ask'', ''comment'', ''request_id'',
      ''retcode_external'', ''request'']"

record TradeResponse =
  resp_retcode :: "int option"
  resp_raw_data :: "(string \<times> json) list option"
  resp_tool_message :: fstring

definition resp_done :: "TradeResponse \<Rightarrow> bool" where
  "resp_done r \<longleftrightarrow> resp_retcode r = Some trade_retcode_done"

text \<open>The positional or the named form of the broker's answer, as a dict.\<close>

definition trade_data :: "json \<Rightarrow> (string \<times> json) list result" where
  "trade_data data =
     (case data of
        JList xs \<Rightarrow>
          if length xs < length order_send_result_fields then Inl MalformedTradeResponseError
          else Inr (zip order_send_result_fields xs)
      | JObj d \<Rightarrow> Inr d
      | _ \<Rightarrow> Inl MalformedTradeResponseError)"

definition parse_trade_document :: "json \<Rightarrow> TradeResponse result" where
  "parse_trade_document parsed =
     bind_res (get_item parsed ''message'') (\<lambda>message.
     bind_res (get_item parsed ''data'') (\<lambda>data.
       let message = [F_val (case message of None \<Rightarrow> JStr [] | Some m \<Rightarrow> m)]
       in case data of
            None \<Rightarrow> Inr \<lparr> resp_retcode = None, resp_raw_data = None, resp_tool_message = message \<rparr>
          | Some data \<Rightarrow>
              if data = JNull
              then Inr \<lparr> resp_retcode = None, resp_raw_data = None, resp_tool_message = message \<rparr>
              else bind_res (trade_data data) (\<lambda>d.
                case map_of d ''retcode'' of
                  None \<Rightarrow> Inl MalformedTradeResponseError
                | Some rc \<Rightarrow> bind_res (int_of_json rc) (\<lambda>retcode.
                    Inr \<lparr> resp_retcode = Some retcode, resp_raw_data = Some d, resp_tool_message = message \<rparr>))))"

definition parse_trade_response :: "string \<Rightarrow> TradeResponse result" where
  "parse_trade_response raw = bind_res (of_option JSONDecodeError (json_loads raw)) parse_trade_document"

lemma parse_trade_document_done:
  assumes "parse_trade_document j = Inr r" "resp_done r"
  shows "\<exists>d rc. resp_raw_data r = Some d \<and> map_of d ''retcode'' = Some rc \<and> int_of_json rc = Inr 10009"
proof -
  obtain m d where m: "get_item j ''message'' = Inr m" and d: "get_item j ''data'' = Inr d"
    using assms(1) by (auto simp: parse_trade_document_def result_simps)
  note run = assms(1) [unfolded parse_trade_document_def m d bind_res.simps Let_def]
  show ?thesis
  proof (cases d)
    case None
    then show ?thesis using run assms(2) by (auto simp: resp_done_def)
  next
    case (Some x)
    then obtain raw rc n where "map_of raw ''retcode'' = Some rc" "int_of_json rc = Inr n"
        and r: "resp_retcode r = Some n" "resp_raw_data r = Some raw"
      using run assms(2) by (auto simp: resp_done_def result_simps split: if_splits option.splits)
    then show ?thesis using assms(2) by (auto simp: resp_done_def trade_retcode_done_def)
  qed
qed

text \<open>
  Success is read from the broker's retcode alone: rewriting the tool's own error and success
  fields changes nothing of the parsed response, a done response carries data with retcode 10009, and
  an answer without data has no retcode and is not done.
\<close>

theorem trade_response_by_retcode:
  "parse_trade_document (JObj (dict_put ''error'' e (dict_put ''success'' s d))) = parse_trade_document (JObj d) \<and>
   (\<forall>j r. parse_trade_document j = Inr r \<and> resp_done r \<longrightarrow>
      (\<exists>raw rc. resp_raw_data r = Some raw \<and> map_of raw ''retcode'' = Some rc \<and> int_of_json rc = Inr 10009)) \<and>
   (\<exists>r. parse_trade_document (JObj (dict_put ''data'' JNull d)) = Inr r \<and> resp_retcode r = None \<and> \<not> resp_done r)"
proof (intro conjI)
  show "parse_trade_document (JObj (dict_put ''error'' e (dict_put ''success'' s d))) = parse_trade_document (JObj d)"
    by (simp add: parse_trade_document_def get_item_def)
  show "\<forall>j r. parse_trade_document j = Inr r \<and> resp_done r \<longrightarrow>
      (\<exists>raw rc. resp_raw_data r = Some raw \<and> map_of raw ''retcode'' = Some rc \<and> int_of_json rc = Inr 10009)"
    using parse_trade_document_done by blast
  show "\<exists>r. parse_trade_document (JObj (dict_put ''data'' JNull d)) = Inr r \<and> resp_retcode r = None \<and> \<not> resp_done r"
    by (simp add: parse_trade_document_def get_item_def resp_done_def)
qed

definition done_document :: json where
  "done_document = JObj [(''message'', JStr ''ok''), (''data'', JObj [(''retcode'', JInt 10009), (''order'', JInt 5)])]"

theorem trade_response_by_retcode_witness:
  "\<exists>r raw rc. parse_trade_document done_document = Inr r \<and> resp_raw_data r = Some raw \<and>
     map_of raw ''retcode'' = Some rc \<and> int_of_json rc = Inr 10009"
proof -
  have "\<exists>r. parse_trade_document done_document = Inr r \<and> resp_done r"
    by (simp add: parse_trade_document_def done_document_def get_item_def trade_data_def resp_done_def
        trade_retcode_done_def)
  then show ?thesis using trade_response_by_retcode [THEN conjunct2, THEN conjunct1] by blast
qed

section \<open>Cells of a table\<close>

text \<open>A missing column raises KeyError; the missing cell of a short row is no string.\<close>

definition cell :: "csv_row \<Rightarrow> string \<Rightarrow> string option result" where
  "cell row k = of_option KeyError (map_of row k)"

definition str_cell :: "csv_row \<Rightarrow> string \<Rightarrow> string result" where
  "str_cell row k = bind_res (cell row k) (of_option TypeError)"

definition float_cell :: "csv_row \<Rightarrow> string \<Rightarrow> pyfloat result" where
  "float_cell row k = bind_res (str_cell row k) (\<lambda>s. of_option ValueError (float_of_string s))"

definition int_cell :: "csv_row \<Rightarrow> string \<Rightarrow> int result" where
  "int_cell row k = bind_res (float_cell row k) (\<lambda>x. Inr (py_trunc x))"

definition float_item :: "json \<Rightarrow> string \<Rightarrow> pyfloat result" where
  "float_item data k = bind_res (item data k) float_of_json"

definition int_item :: "json \<Rightarrow> string \<Rightarrow> int result" where
  "int_item data k = bind_res (item data k) int_of_json"

definition str_item :: "json \<Rightarrow> string \<Rightarrow> string result" where
  "str_item data k = bind_res (item data k) as_str"

definition loads_io :: "string \<Rightarrow> ('w, json) live_io" where
  "loads_io raw = lift_io (of_option JSONDecodeError (json_loads raw))"

section \<open>Account\<close>

definition side_from_type :: "string \<Rightarrow> Side" where
  "side_from_type raw_type = (if starts_with ''BUY'' (upper (strip raw_type)) then BUY else SELL)"

definition trade_mode_of :: "json option \<Rightarrow> TradeMode" where
  "trade_mode_of account_type =
     (case account_type of
        Some (JStr s) \<Rightarrow>
          let reported = upper (strip s)
          in if reported = ''DEMO'' then DEMO else if reported = ''CONTEST'' then CONTEST else REAL
      | _ \<Rightarrow> REAL)"

definition account_state_of :: "json \<Rightarrow> AccountState result" where
  "account_state_of data =
     bind_res (get_item data ''account_type'') (\<lambda>account_type.
     bind_res (float_item data ''balance'') (\<lambda>balance.
     bind_res (float_item data ''equity'') (\<lambda>equity.
     bind_res (float_item data ''free_margin'') (\<lambda>margin_free.
       Inr \<lparr> acc_balance = balance, acc_equity = equity, acc_margin_free = margin_free,
             acc_trade_mode = trade_mode_of account_type, acc_login = None, acc_server = None \<rparr>))))"

definition mcp_get_account_state :: "'w env \<Rightarrow> ('w, AccountState) live_io" where
  "mcp_get_account_state env =
     bind_io (call_tool env ''get_account_info'' []) (\<lambda>raw.
     bind_io (loads_io raw) (\<lambda>data. lift_io (account_state_of data)))"

definition position_of_row :: "csv_row \<Rightarrow> PositionState result" where
  "position_of_row row =
     bind_res (int_cell row ''id'') (\<lambda>ticket. bind_res (str_cell row ''symbol'') (\<lambda>symbol.
     bind_res (str_cell row ''type'') (\<lambda>type. bind_res (float_cell row ''volume'') (\<lambda>volume.
     bind_res (float_cell row ''open'') (\<lambda>price. bind_res (float_cell row ''profit'') (\<lambda>profit.
     bind_res (int_cell row ''magic'') (\<lambda>magic. bind_res (float_cell row ''stop_loss'') (\<lambda>sl.
     bind_res (float_cell row ''take_profit'') (\<lambda>tp.
       Inr \<lparr> pos_ticket = ticket, pos_symbol = symbol, pos_side = side_from_type type, pos_volume = volume,
             pos_price_open = price, pos_profit = profit, pos_magic = magic, pos_sl = sl, pos_tp = tp \<rparr>)))))))))"

definition order_of_row :: "csv_row \<Rightarrow> OrderState result" where
  "order_of_row row =
     bind_res (int_cell row ''id'') (\<lambda>ticket. bind_res (str_cell row ''symbol'') (\<lambda>symbol.
     bind_res (str_cell row ''type'') (\<lambda>type. bind_res (float_cell row ''volume'') (\<lambda>volume.
     bind_res (float_cell row ''open'') (\<lambda>price. bind_res (int_cell row ''magic'') (\<lambda>magic.
       Inr \<lparr> ord_ticket = ticket, ord_symbol = symbol, ord_side = side_from_type type, ord_volume = volume,
             ord_price = price, ord_magic = magic \<rparr>))))))"

definition symbol_args :: "string option \<Rightarrow> (string \<times> json) list" where
  "symbol_args symbol = (case symbol of None \<Rightarrow> [] | Some s \<Rightarrow> [(''symbol_name'', JStr s)])"

definition by_magic :: "('a \<Rightarrow> int) \<Rightarrow> int option \<Rightarrow> 'a list \<Rightarrow> 'a list" where
  "by_magic f magic xs = (case magic of None \<Rightarrow> xs | Some m \<Rightarrow> filter (\<lambda>x. f x = m) xs)"

text \<open>The rows of a table, each read by \<open>f\<close>.\<close>

definition table_io :: "(csv_row \<Rightarrow> 'a result) \<Rightarrow> string \<Rightarrow> ('w, 'a list) live_io" where
  "table_io f raw = lift_io (bind_res (parse_dataframe_csv raw) (traverse f))"

definition mcp_get_positions :: "'w env \<Rightarrow> string option \<Rightarrow> int option \<Rightarrow> ('w, PositionState list) live_io" where
  "mcp_get_positions env symbol magic =
     bind_io (call_tool env ''get_positions_with_magic'' (symbol_args symbol)) (\<lambda>raw.
     bind_io (table_io position_of_row raw) (\<lambda>positions. return_io (by_magic pos_magic magic positions)))"

definition mcp_get_orders :: "'w env \<Rightarrow> string option \<Rightarrow> int option \<Rightarrow> ('w, OrderState list) live_io" where
  "mcp_get_orders env symbol magic =
     bind_io (call_tool env ''get_pending_orders_with_magic'' (symbol_args symbol)) (\<lambda>raw.
     bind_io (table_io order_of_row raw) (\<lambda>orders. return_io (by_magic ord_magic magic orders)))"

definition mcp_get_connection_state :: "'w env \<Rightarrow> ('w, ConnectionState) live_io" where
  "mcp_get_connection_state env =
     except_io
       (bind_io (call_tool env ''get_account_info'' []) (\<lambda>_.
         return_io \<lparr> cs_connected = True, cs_terminal_build = None,
                     cs_detail = [Lit ''inferred from a successful get_account_info call''] \<rparr>))
       (\<lambda>_. return_io \<lparr> cs_connected = False, cs_terminal_build = None,
                       cs_detail = [Lit ''get_account_info failed: '', F_exn] \<rparr>)"

definition McpAccountReader :: "'w env \<Rightarrow> 'w live AccountReader" where
  "McpAccountReader env =
     \<lparr> get_account_state = mcp_get_account_state env, get_positions = mcp_get_positions env,
       get_orders = mcp_get_orders env, get_connection_state = mcp_get_connection_state env \<rparr>"

section \<open>Deals\<close>

definition parse_deal_time :: "string \<Rightarrow> datetime result" where
  "parse_deal_time raw = bind_res (parse_iso_datetime raw) (\<lambda>d. Inr (case d of Aware t \<Rightarrow> Aware t | Naive t \<Rightarrow> Aware t))"

definition deal_of_row :: "csv_row \<Rightarrow> Deal result" where
  "deal_of_row row =
     bind_res (int_cell row ''ticket'') (\<lambda>ticket. bind_res (int_cell row ''order'') (\<lambda>order.
     bind_res (int_cell row ''position_id'') (\<lambda>position_id.
     bind_res (bind_res (str_cell row ''time'') parse_deal_time) (\<lambda>time.
     bind_res (int_cell row ''type'') (\<lambda>type. bind_res (int_cell row ''entry'') (\<lambda>entry.
     bind_res (str_cell row ''symbol'') (\<lambda>symbol. bind_res (float_cell row ''volume'') (\<lambda>volume.
     bind_res (float_cell row ''price'') (\<lambda>price. bind_res (float_cell row ''profit'') (\<lambda>profit.
     bind_res (float_cell row ''commission'') (\<lambda>commission. bind_res (float_cell row ''swap'') (\<lambda>swap.
     bind_res (float_cell row ''fee'') (\<lambda>fee. bind_res (int_cell row ''magic'') (\<lambda>magic.
     bind_res (cell row ''comment'') (\<lambda>comment.
       Inr \<lparr> deal_ticket = ticket, deal_order = order, deal_position_id = position_id, deal_time = time,
             deal_type = type, deal_entry = entry, deal_symbol = symbol, deal_volume = volume,
             deal_price = price, deal_profit = profit, deal_commission = commission, deal_swap = swap,
             deal_fee = fee, deal_magic = magic, deal_comment = comment \<rparr>)))))))))))))))"

definition opt_arg :: "string \<Rightarrow> string option \<Rightarrow> (string \<times> json) list" where
  "opt_arg k v = (case v of None \<Rightarrow> [] | Some s \<Rightarrow> [(k, JStr s)])"

definition get_deals :: "'w env \<Rightarrow> string option \<Rightarrow> string option \<Rightarrow> string option \<Rightarrow> ('w, Deal list) live_io" where
  "get_deals env from_date to_date symbol =
     bind_io (call_tool env ''get_deals'' (opt_arg ''from_date'' from_date @ opt_arg ''to_date'' to_date @ opt_arg ''symbol'' symbol))
       (table_io deal_of_row)"

section \<open>Market data\<close>

definition bar_of_row :: "string \<Rightarrow> string \<Rightarrow> csv_row \<Rightarrow> MarketBar result" where
  "bar_of_row symbol timeframe row =
     bind_res (bind_res (str_cell row ''time'') parse_iso_datetime) (\<lambda>time.
     bind_res (float_cell row ''open'') (\<lambda>open_price. bind_res (float_cell row ''high'') (\<lambda>high.
     bind_res (float_cell row ''low'') (\<lambda>low. bind_res (float_cell row ''close'') (\<lambda>close_price.
     bind_res (int_cell row ''tick_volume'') (\<lambda>tick_volume. bind_res (int_cell row ''spread'') (\<lambda>spread.
       Inr \<lparr> bar_symbol = symbol, bar_timeframe = timeframe, bar_time = time, bar_open = open_price,
             bar_high = high, bar_low = low, bar_close = close_price, bar_tick_volume = tick_volume,
             bar_spread = spread \<rparr>)))))))"

definition mcp_get_bars :: "'w env \<Rightarrow> string \<Rightarrow> string \<Rightarrow> int \<Rightarrow> ('w, MarketBar list) live_io" where
  "mcp_get_bars env symbol timeframe count =
     bind_io (call_tool env ''get_candles_latest''
       [(''symbol_name'', JStr symbol), (''timeframe'', JStr timeframe), (''count'', JInt count)]) (\<lambda>raw.
     bind_io (table_io (bar_of_row symbol timeframe) raw) (\<lambda>bars. lift_io (sort_by_time bar_time bars)))"

definition tick_of :: "string \<Rightarrow> json \<Rightarrow> Tick result" where
  "tick_of symbol data =
     bind_res (float_item data ''bid'') (\<lambda>bid. bind_res (float_item data ''ask'') (\<lambda>ask.
     bind_res (bind_res (str_item data ''time'') parse_iso_datetime) (\<lambda>time.
       Inr \<lparr> tick_symbol = symbol, tick_bid = bid, tick_ask = ask, tick_time = time \<rparr>)))"

definition mcp_get_tick :: "'w env \<Rightarrow> string \<Rightarrow> ('w, Tick) live_io" where
  "mcp_get_tick env symbol =
     bind_io (call_tool env ''get_symbol_price'' [(''symbol_name'', JStr symbol)]) (\<lambda>raw.
     bind_io (loads_io raw) (\<lambda>data. lift_io (tick_of symbol data)))"

definition symbol_info_of :: "json \<Rightarrow> SymbolInfo result" where
  "symbol_info_of data =
     bind_res (str_item data ''name'') (\<lambda>name. bind_res (int_item data ''digits'') (\<lambda>digits.
     bind_res (float_item data ''point'') (\<lambda>point. bind_res (float_item data ''volume_min'') (\<lambda>vmin.
     bind_res (float_item data ''volume_max'') (\<lambda>vmax. bind_res (float_item data ''volume_step'') (\<lambda>vstep.
     bind_res (int_item data ''trade_stops_level'') (\<lambda>stops. bind_res (int_item data ''trade_freeze_level'') (\<lambda>freeze.
     bind_res (int_item data ''filling_mode'') (\<lambda>filling. bind_res (int_item data ''spread'') (\<lambda>spread.
       Inr \<lparr> si_symbol = name, si_digits = digits, si_point = point, si_volume_min = vmin, si_volume_max = vmax,
             si_volume_step = vstep, si_stops_level = stops, si_freeze_level = freeze,
             si_filling_modes = parse_symbol_filling_modes filling, si_spread = spread \<rparr>))))))))))"

definition mcp_get_symbol_info :: "'w env \<Rightarrow> string \<Rightarrow> ('w, SymbolInfo) live_io" where
  "mcp_get_symbol_info env symbol =
     bind_io (call_tool env ''get_symbol_info'' [(''symbol_name'', JStr symbol)]) (\<lambda>raw.
     bind_io (loads_io raw) (\<lambda>data. lift_io (symbol_info_of data)))"

definition McpMarketDataSource :: "'w env \<Rightarrow> 'w live MarketDataSource" where
  "McpMarketDataSource env =
     \<lparr> get_bars = mcp_get_bars env, get_tick = mcp_get_tick env, get_symbol_info = mcp_get_symbol_info env \<rparr>"

section \<open>Demo guards\<close>

definition require_demo_account :: "'s AccountReader \<Rightarrow> ('s, exn, unit) io" where
  "require_demo_account account_reader =
     bind_io (get_account_state account_reader) (\<lambda>state.
       if acc_trade_mode state \<noteq> DEMO then raise_io NotDemoAccountError else return_io ())"

definition require_demo_account_kind :: "string option \<Rightarrow> unit result" where
  "require_demo_account_kind mt5_account_kind =
     (if mt5_account_kind \<noteq> Some ''DEMO'' then Inl NotDemoAccountError else Inr ())"

section \<open>What the readers do\<close>

text \<open>The tools each reader uses, all of them read-only.\<close>

definition reader_tools :: "string set" where
  "reader_tools = {''get_account_info'', ''get_positions_with_magic'', ''get_pending_orders_with_magic'',
     ''get_deals'', ''get_candles_latest'', ''get_symbol_price'', ''get_symbol_info''}"

lemma reader_tools_read_only: "reader_tools \<subseteq> set read_only_tools"
  by (simp add: reader_tools_def read_only_tools_def)

lemma except_io_keeps [io_rel]:
  assumes "keeps (calls_only A) m" "\<And>e. keeps (calls_only A) (h e)"
  shows "keeps (calls_only A) (except_io m h)"
  unfolding except_io_def using assms by (intro calls.keeps_rules) auto

lemma except_io_files:
  assumes "keeps same_files m" "\<And>e. keeps same_files (h e)"
  shows "keeps same_files (except_io m h)"
  unfolding except_io_def using assms by (intro files.keeps_rules) auto

lemmas reader_defs = mcp_get_account_state_def mcp_get_positions_def mcp_get_orders_def
  mcp_get_connection_state_def get_deals_def mcp_get_bars_def mcp_get_tick_def mcp_get_symbol_info_def
  loads_io_def table_io_def

lemma readers_calls:
  "keeps (calls_only reader_tools) (mcp_get_account_state env)"
  "keeps (calls_only reader_tools) (mcp_get_positions env name_opt magic)"
  "keeps (calls_only reader_tools) (mcp_get_orders env name_opt magic)"
  "keeps (calls_only reader_tools) (mcp_get_connection_state env)"
  "keeps (calls_only reader_tools) (get_deals env a b c)"
  "keeps (calls_only reader_tools) (mcp_get_bars env name tf n)"
  "keeps (calls_only reader_tools) (mcp_get_tick env name)"
  "keeps (calls_only reader_tools) (mcp_get_symbol_info env name)"
  unfolding reader_defs
  by (intro calls.keeps_rules except_io_keeps call_tool_calls; simp add: reader_tools_def)+

lemma readers_files:
  "keeps same_files (mcp_get_account_state env)"
  "keeps same_files (mcp_get_positions env name_opt magic)"
  "keeps same_files (mcp_get_orders env name_opt magic)"
  "keeps same_files (mcp_get_connection_state env)"
  "keeps same_files (get_deals env a b c)"
  "keeps same_files (mcp_get_bars env name tf n)"
  "keeps same_files (mcp_get_tick env name)"
  "keeps same_files (mcp_get_symbol_info env name)"
  unfolding reader_defs
  by (intro files.keeps_rules except_io_files call_tool_files)+

section \<open>Error replies\<close>

text \<open>
  The client drops the protocol's error flag, and a reply of one line is a table without rows:
  when a position query comes back as an error message of one line, the reader reports that the
  account holds no position, with every magic number, instead of raising.
\<close>

theorem error_reply_reads_as_empty:
  assumes "l_session s" "e_registry env = build_metatrader_tool_registry enabled"
    and "CHR 0x0A \<notin> set message" "CHR 0x0D \<notin> set message"
    and "e_server env ''get_positions_with_magic'' (symbol_args symbol) (l_server s) = (Reply True [Text_block message], w)"
  shows "fst (mcp_get_positions env symbol magic s) = Inr []"
proof -
  have "set (strip message) \<subseteq> set message"
    unfolding strip_def by (auto dest!: set_dropWhileD)
  then have "dict_reader (strip message) = Some []"
    using assms(3,4) by (intro dict_reader_one_line) auto
  then have "parse_dataframe_csv message = Inr []"
    by (simp add: parse_dataframe_csv_def Let_def)
  moreover have "authorize_call (e_registry env) ''get_positions_with_magic'' = Inr ()"
    by (simp add: assms(2) registry_gate_reads read_only_tools_def)
  ultimately show ?thesis
    using assms(1,5)
    by (simp add: mcp_get_positions_def table_io_def call_tool_def text_of_def by_magic_def io_simps split: option.split)
qed

definition failing_env :: "unit env" where
  "failing_env = (silent_env True)\<lparr>e_server := \<lambda>name args w. (Reply True [Text_block ''Error: no connection''], w)\<rparr>"

theorem error_reply_reads_as_empty_witness:
  "fst (mcp_get_positions failing_env None (Some 7) fresh_live) = Inr []"
  by (rule error_reply_reads_as_empty [where message = "''Error: no connection''" and enabled = True and w = "()"])
    (simp_all add: failing_env_def silent_env_def fresh_live_def)

end
