(* ===== verification/Backtest_Ledger.thy ===== *)
theory Backtest_Ledger
  imports Domain
begin

text \<open>
  The bookkeeping of the backtest: \<^verbatim>\<open>backtest/ledger.py\<close>. Shown: every ticket ever issued
  is in exactly one of the pending orders, the open positions and the closed trades, in every state
  the operations reach, and a trade stopped out loses exactly one R.
\<close>

section \<open>Ledger\<close>

record OpenPosition =
  bp_ticket :: int
  bp_symbol :: string
  bp_side :: Side
  bp_volume :: pyfloat
  bp_price_open :: pyfloat
  bp_sl :: pyfloat
  bp_tp :: pyfloat
  bp_magic :: int
  bp_comment :: string
  bp_opened_at :: datetime

record PendingOrder =
  po_ticket :: int
  po_symbol :: string
  po_side :: Side
  po_volume :: pyfloat
  po_price :: pyfloat
  po_sl :: pyfloat
  po_tp :: pyfloat
  po_magic :: int
  po_comment :: string
  po_placed_at :: datetime

text \<open>The side is a string: live trades carry the side read from a record's file.\<close>

record ClosedTrade =
  ct_ticket :: int
  ct_symbol :: string
  ct_side :: string
  ct_volume :: pyfloat
  ct_price_open :: pyfloat
  ct_price_close :: pyfloat
  ct_sl :: pyfloat
  ct_tp :: pyfloat
  ct_magic :: int
  ct_comment :: string
  ct_opened_at :: datetime
  ct_closed_at :: datetime
  ct_close_reason :: string
  ct_r_multiple :: pyfloat
  ct_notional_pnl :: pyfloat

record BacktestLedger =
  bl_next_ticket :: int
  bl_open_positions :: "(int \<times> OpenPosition) list"
  bl_pending_orders :: "(int \<times> PendingOrder) list"
  bl_closed_trades :: "ClosedTrade list"

definition empty_ledger :: BacktestLedger where
  "empty_ledger =
     \<lparr> bl_next_ticket = 1, bl_open_positions = [], bl_pending_orders = [], bl_closed_trades = [] \<rparr>"

definition new_ticket :: "BacktestLedger \<Rightarrow> int \<times> BacktestLedger" where
  "new_ticket l = (bl_next_ticket l, l\<lparr>bl_next_ticket := bl_next_ticket l + 1\<rparr>)"

definition add_pending_order ::
  "string \<Rightarrow> Side \<Rightarrow> pyfloat \<Rightarrow> pyfloat \<Rightarrow> pyfloat \<Rightarrow> pyfloat \<Rightarrow> int \<Rightarrow> string \<Rightarrow> datetime \<Rightarrow>
   BacktestLedger \<Rightarrow> int \<times> BacktestLedger" where
  "add_pending_order symbol side volume price sl tp magic comment placed_at l =
     (let (ticket, l) = new_ticket l;
          order = \<lparr> po_ticket = ticket, po_symbol = symbol, po_side = side, po_volume = volume,
                    po_price = price, po_sl = sl, po_tp = tp, po_magic = magic, po_comment = comment,
                    po_placed_at = placed_at \<rparr>
      in (ticket, l\<lparr>bl_pending_orders := dict_put ticket order (bl_pending_orders l)\<rparr>))"

definition add_open_position ::
  "string \<Rightarrow> Side \<Rightarrow> pyfloat \<Rightarrow> pyfloat \<Rightarrow> pyfloat \<Rightarrow> pyfloat \<Rightarrow> int \<Rightarrow> string \<Rightarrow> datetime \<Rightarrow> int option \<Rightarrow>
   BacktestLedger \<Rightarrow> int \<times> BacktestLedger" where
  "add_open_position symbol side volume price_open sl tp magic comment opened_at ticket l =
     (let (ticket, l) = (case ticket of None \<Rightarrow> new_ticket l | Some t \<Rightarrow> (t, l));
          position = \<lparr> bp_ticket = ticket, bp_symbol = symbol, bp_side = side, bp_volume = volume,
                       bp_price_open = price_open, bp_sl = sl, bp_tp = tp, bp_magic = magic,
                       bp_comment = comment, bp_opened_at = opened_at \<rparr>
      in (ticket, l\<lparr>bl_open_positions := dict_put ticket position (bl_open_positions l)\<rparr>))"

definition fill_pending_order :: "int \<Rightarrow> datetime \<Rightarrow> (BacktestLedger, exn, unit) io" where
  "fill_pending_order ticket closed_at = (\<lambda>l.
     case map_of (bl_pending_orders l) ticket of
       None \<Rightarrow> (Inl KeyError, l)
     | Some order \<Rightarrow>
         (Inr (), snd (add_open_position (po_symbol order) (po_side order) (po_volume order) (po_price order)
            (po_sl order) (po_tp order) (po_magic order) (po_comment order) closed_at (Some ticket)
            (l\<lparr>bl_pending_orders := dict_pop ticket (bl_pending_orders l)\<rparr>))))"

definition trade_of :: "OpenPosition \<Rightarrow> int \<Rightarrow> pyfloat \<Rightarrow> string \<Rightarrow> datetime \<Rightarrow> ClosedTrade" where
  "trade_of p ticket price_close reason closed_at =
     (let risk = \<bar>bp_price_open p - bp_sl p\<bar>;
          signed_pnl = (if bp_side p = BUY then price_close - bp_price_open p else bp_price_open p - price_close)
      in \<lparr> ct_ticket = ticket, ct_symbol = bp_symbol p, ct_side = side_str (bp_side p), ct_volume = bp_volume p,
           ct_price_open = bp_price_open p, ct_price_close = price_close, ct_sl = bp_sl p, ct_tp = bp_tp p,
           ct_magic = bp_magic p, ct_comment = bp_comment p, ct_opened_at = bp_opened_at p,
           ct_closed_at = closed_at, ct_close_reason = reason, ct_r_multiple = signed_pnl / risk,
           ct_notional_pnl = signed_pnl * bp_volume p \<rparr>)"

text \<open>The position is removed before its risk is checked: when that raises, it is gone.\<close>

definition ledger_close_position ::
  "int \<Rightarrow> pyfloat \<Rightarrow> string \<Rightarrow> datetime \<Rightarrow> (BacktestLedger, exn, ClosedTrade) io" where
  "ledger_close_position ticket price_close reason closed_at = (\<lambda>l.
     case map_of (bl_open_positions l) ticket of
       None \<Rightarrow> (Inl KeyError, l)
     | Some p \<Rightarrow>
         let l = l\<lparr>bl_open_positions := dict_pop ticket (bl_open_positions l)\<rparr>;
             trade = trade_of p ticket price_close reason closed_at
         in if \<bar>bp_price_open p - bp_sl p\<bar> \<le> 0 then (Inl ValueError, l)
            else (Inr trade, l\<lparr>bl_closed_trades := bl_closed_trades l @ [trade]\<rparr>))"

definition matches :: "string option \<Rightarrow> string \<Rightarrow> int option \<Rightarrow> int \<Rightarrow> bool" where
  "matches symbol s magic m \<longleftrightarrow> (symbol = None \<or> symbol = Some s) \<and> (magic = None \<or> magic = Some m)"

definition positions_for :: "string option \<Rightarrow> int option \<Rightarrow> BacktestLedger \<Rightarrow> OpenPosition list" where
  "positions_for symbol magic l =
     filter (\<lambda>p. matches symbol (bp_symbol p) magic (bp_magic p)) (map snd (bl_open_positions l))"

definition orders_for :: "string option \<Rightarrow> int option \<Rightarrow> BacktestLedger \<Rightarrow> PendingOrder list" where
  "orders_for symbol magic l =
     filter (\<lambda>o'. matches symbol (po_symbol o') magic (po_magic o')) (map snd (bl_pending_orders l))"

section \<open>Tickets\<close>

definition pending_tickets :: "BacktestLedger \<Rightarrow> int set" where
  "pending_tickets l = fst ` set (bl_pending_orders l)"

definition open_tickets :: "BacktestLedger \<Rightarrow> int set" where
  "open_tickets l = fst ` set (bl_open_positions l)"

definition closed_tickets :: "BacktestLedger \<Rightarrow> int set" where
  "closed_tickets l = ct_ticket ` set (bl_closed_trades l)"

text \<open>Keys agree with the tickets they store, and no ticket is in two places.\<close>

definition ledger_ok :: "BacktestLedger \<Rightarrow> bool" where
  "ledger_ok l \<longleftrightarrow>
     distinct (map fst (bl_pending_orders l)) \<and> distinct (map fst (bl_open_positions l)) \<and>
     distinct (map ct_ticket (bl_closed_trades l)) \<and>
     pending_tickets l \<inter> open_tickets l = {} \<and> pending_tickets l \<inter> closed_tickets l = {} \<and>
     open_tickets l \<inter> closed_tickets l = {} \<and>
     (\<forall>(t, o') \<in> set (bl_pending_orders l). po_ticket o' = t) \<and>
     (\<forall>(t, p) \<in> set (bl_open_positions l). bp_ticket p = t) \<and>
     pending_tickets l \<union> open_tickets l \<union> closed_tickets l \<subseteq> {1 ..< bl_next_ticket l} \<and> 1 \<le> bl_next_ticket l"

definition no_ticket_lost :: "BacktestLedger \<Rightarrow> bool" where
  "no_ticket_lost l \<longleftrightarrow> {1 ..< bl_next_ticket l} \<subseteq> pending_tickets l \<union> open_tickets l \<union> closed_tickets l"

lemma empty_ledger_ok: "ledger_ok empty_ledger" "no_ticket_lost empty_ledger"
  by (simp_all add: ledger_ok_def no_ticket_lost_def empty_ledger_def pending_tickets_def open_tickets_def closed_tickets_def)

lemmas ticket_defs = pending_tickets_def open_tickets_def closed_tickets_def

lemma keys_of: "fst ` set (dict_pop k d) = fst ` set d - {k}" by simp

text \<open>What an operation does to the three sets of tickets.\<close>

lemma add_pending_sets:
  assumes "add_pending_order symbol side v p sl tp magic cmt placed l = (t, l')"
  shows "t = bl_next_ticket l" "bl_next_ticket l' = t + 1" "pending_tickets l' = insert t (pending_tickets l)"
    "open_tickets l' = open_tickets l" "closed_tickets l' = closed_tickets l"
    "bl_open_positions l' = bl_open_positions l" "bl_closed_trades l' = bl_closed_trades l"
    "\<exists>o'. bl_pending_orders l' = dict_put t o' (bl_pending_orders l) \<and> po_ticket o' = t"
proof -
  note defs = add_pending_order_def new_ticket_def Let_def ticket_defs
  show "t = bl_next_ticket l" "bl_next_ticket l' = t + 1" "pending_tickets l' = insert t (pending_tickets l)"
    "open_tickets l' = open_tickets l" "closed_tickets l' = closed_tickets l"
    "bl_open_positions l' = bl_open_positions l" "bl_closed_trades l' = bl_closed_trades l"
    using assms by (clarsimp simp: defs)+
  show "\<exists>o'. bl_pending_orders l' = dict_put t o' (bl_pending_orders l) \<and> po_ticket o' = t"
    using assms by (clarsimp simp: defs) (intro exI conjI, rule refl, simp)
qed

lemma add_open_sets:
  assumes "add_open_position symbol side v p sl tp magic cmt opened None l = (t, l')"
  shows "t = bl_next_ticket l" "bl_next_ticket l' = t + 1" "open_tickets l' = insert t (open_tickets l)"
    "pending_tickets l' = pending_tickets l" "closed_tickets l' = closed_tickets l"
    "bl_pending_orders l' = bl_pending_orders l" "bl_closed_trades l' = bl_closed_trades l"
    "\<exists>p'. bl_open_positions l' = dict_put t p' (bl_open_positions l) \<and> bp_ticket p' = t"
proof -
  note defs = add_open_position_def new_ticket_def Let_def ticket_defs
  show "t = bl_next_ticket l" "bl_next_ticket l' = t + 1" "open_tickets l' = insert t (open_tickets l)"
    "pending_tickets l' = pending_tickets l" "closed_tickets l' = closed_tickets l"
    "bl_pending_orders l' = bl_pending_orders l" "bl_closed_trades l' = bl_closed_trades l"
    using assms by (clarsimp simp: defs)+
  show "\<exists>p'. bl_open_positions l' = dict_put t p' (bl_open_positions l) \<and> bp_ticket p' = t"
    using assms by (clarsimp simp: defs) (intro exI conjI, rule refl, simp)
qed

lemma fill_sets:
  assumes "fill_pending_order t filled l = (Inr u, l')"
  shows "t \<in> pending_tickets l" "bl_next_ticket l' = bl_next_ticket l"
    "open_tickets l' = insert t (open_tickets l)" "pending_tickets l' = pending_tickets l - {t}"
    "closed_tickets l' = closed_tickets l" "bl_closed_trades l' = bl_closed_trades l"
    "bl_pending_orders l' = dict_pop t (bl_pending_orders l)"
    "\<exists>p'. bl_open_positions l' = dict_put t p' (bl_open_positions l) \<and> bp_ticket p' = t"
proof -
  obtain o' where o': "map_of (bl_pending_orders l) t = Some o'"
    using assms by (auto simp: fill_pending_order_def split: option.splits)
  then show "t \<in> pending_tickets l"
    by (force simp: ticket_defs dest: map_of_SomeD)
  have l': "l' = snd (add_open_position (po_symbol o') (po_side o') (po_volume o') (po_price o')
            (po_sl o') (po_tp o') (po_magic o') (po_comment o') filled (Some t)
            (l\<lparr>bl_pending_orders := dict_pop t (bl_pending_orders l)\<rparr>))"
    using assms o' by (simp add: fill_pending_order_def)
  show "bl_next_ticket l' = bl_next_ticket l"
    "open_tickets l' = insert t (open_tickets l)" "pending_tickets l' = pending_tickets l - {t}"
    "closed_tickets l' = closed_tickets l" "bl_closed_trades l' = bl_closed_trades l"
    "bl_pending_orders l' = dict_pop t (bl_pending_orders l)"
    by (clarsimp simp: l' add_open_position_def Let_def ticket_defs)+
  show "\<exists>p'. bl_open_positions l' = dict_put t p' (bl_open_positions l) \<and> bp_ticket p' = t"
    by (clarsimp simp: l' add_open_position_def Let_def) (intro exI conjI, rule refl, simp)
qed

lemma close_sets:
  assumes "ledger_close_position t price reason exited l = (Inr trade, l')"
  shows "t \<in> open_tickets l" "bl_next_ticket l' = bl_next_ticket l" "ct_ticket trade = t"
    "open_tickets l' = open_tickets l - {t}" "pending_tickets l' = pending_tickets l"
    "closed_tickets l' = insert t (closed_tickets l)" "bl_closed_trades l' = bl_closed_trades l @ [trade]"
    "bl_pending_orders l' = bl_pending_orders l" "bl_open_positions l' = dict_pop t (bl_open_positions l)"
proof -
  obtain p where p: "map_of (bl_open_positions l) t = Some p" and trade: "trade = trade_of p t price reason exited"
      and l': "l' = l\<lparr>bl_open_positions := dict_pop t (bl_open_positions l), bl_closed_trades := bl_closed_trades l @ [trade]\<rparr>"
    using assms by (auto simp: ledger_close_position_def Let_def split: option.splits if_splits)
  show "t \<in> open_tickets l" using p by (force simp: ticket_defs dest: map_of_SomeD)
  show tick: "ct_ticket trade = t" by (simp add: trade trade_of_def Let_def)
  show "bl_next_ticket l' = bl_next_ticket l" 
    "open_tickets l' = open_tickets l - {t}" "pending_tickets l' = pending_tickets l"
    "closed_tickets l' = insert t (closed_tickets l)" "bl_closed_trades l' = bl_closed_trades l @ [trade]"
    "bl_pending_orders l' = bl_pending_orders l" "bl_open_positions l' = dict_pop t (bl_open_positions l)"
    using tick by (auto simp: l' ticket_defs)
qed

lemma next_fresh:
  assumes "ledger_ok l"
  shows "bl_next_ticket l \<notin> pending_tickets l" "bl_next_ticket l \<notin> open_tickets l"
    "bl_next_ticket l \<notin> closed_tickets l"
proof -
  have "pending_tickets l \<union> open_tickets l \<union> closed_tickets l \<subseteq> {1 ..< bl_next_ticket l}"
    using assms by (simp add: ledger_ok_def)
  then show "bl_next_ticket l \<notin> pending_tickets l" "bl_next_ticket l \<notin> open_tickets l"
    "bl_next_ticket l \<notin> closed_tickets l" by fastforce+
qed

text \<open>The invariant when one ticket moves: the four lists and the three sets afterwards.\<close>

lemma ledger_okI:
  assumes "ledger_ok l" "bl_next_ticket l \<le> bl_next_ticket l'"
    and "distinct (map fst (bl_pending_orders l'))" "distinct (map fst (bl_open_positions l'))"
    and "distinct (map ct_ticket (bl_closed_trades l'))"
    and "pending_tickets l' = P" "open_tickets l' = Q" "closed_tickets l' = R"
    and "P \<inter> Q = {} \<and> P \<inter> R = {} \<and> Q \<inter> R = {}" "P \<union> Q \<union> R \<subseteq> {1 ..< bl_next_ticket l'}"
    and "\<forall>(t, o') \<in> set (bl_pending_orders l'). po_ticket o' = t"
    and "\<forall>(t, p) \<in> set (bl_open_positions l'). bp_ticket p = t"
  shows "ledger_ok l'"
  using assms unfolding ledger_ok_def by (simp only: simp_thms) linarith

lemma tickets_below_Suc: "A \<subseteq> {1 ..< n} \<Longrightarrow> A \<subseteq> {1 ..< n + 1 :: int}"
  by auto

lemma dict_put_keys: "(t', v') \<in> set (dict_put t v d) \<Longrightarrow> (t', v') = (t, v) \<or> (t', v') \<in> set d"
  using set_dict_put [of t v d] by auto

lemma add_pending_ok:
  assumes "ledger_ok l" "add_pending_order symbol side v p sl tp magic cmt placed l = (t, l')"
  shows "ledger_ok l'" "no_ticket_lost l \<Longrightarrow> no_ticket_lost l'"
proof -
  note f = add_pending_sets [OF assms(2)]
  obtain o' where o': "bl_pending_orders l' = dict_put t o' (bl_pending_orders l)" "po_ticket o' = t" using f(8) by blast
  note ok = assms(1) [unfolded ledger_ok_def]
  show "ledger_ok l'"
  proof (rule ledger_okI [OF assms(1) _ _ _ _ f(3-5)])
    show "\<forall>(t, o') \<in> set (bl_pending_orders l'). po_ticket o' = t"
      using ok o' by (auto dest!: dict_put_keys)
  qed (use ok f(1,2,6,7) o'(1) next_fresh [OF assms(1)] in \<open>simp_all add: distinct_dict_put tickets_below_Suc disjoint_iff\<close>)
  show "no_ticket_lost l \<Longrightarrow> no_ticket_lost l'"
    unfolding no_ticket_lost_def f(2-5) f(1) by (auto simp: subset_iff)
qed

lemma add_open_ok:
  assumes "ledger_ok l" "add_open_position symbol side v p sl tp magic cmt opened None l = (t, l')"
  shows "ledger_ok l'" "no_ticket_lost l \<Longrightarrow> no_ticket_lost l'"
proof -
  note f = add_open_sets [OF assms(2)]
  obtain p' where p': "bl_open_positions l' = dict_put t p' (bl_open_positions l)" "bp_ticket p' = t" using f(8) by blast
  note ok = assms(1) [unfolded ledger_ok_def]
  show "ledger_ok l'"
  proof (rule ledger_okI [OF assms(1) _ _ _ _ f(4,3,5)])
    show "\<forall>(t, p) \<in> set (bl_open_positions l'). bp_ticket p = t"
      using ok p' by (auto dest!: dict_put_keys)
  qed (use ok f(1,2,6,7) p'(1) next_fresh [OF assms(1)] in \<open>simp_all add: distinct_dict_put tickets_below_Suc disjoint_iff\<close>)
  show "no_ticket_lost l \<Longrightarrow> no_ticket_lost l'"
    unfolding no_ticket_lost_def f(2-5) f(1) by (auto simp: subset_iff)
qed

lemma fill_ok:
  assumes "ledger_ok l" "fill_pending_order t filled l = (Inr u, l')"
  shows "ledger_ok l'" "no_ticket_lost l \<Longrightarrow> no_ticket_lost l'"
proof -
  note f = fill_sets [OF assms(2)]
  obtain p' where p': "bl_open_positions l' = dict_put t p' (bl_open_positions l)" "bp_ticket p' = t" using f(8) by blast
  note ok = assms(1) [unfolded ledger_ok_def]
  show "ledger_ok l'"
  proof (rule ledger_okI [OF assms(1) _ _ _ _ f(4,3,5)])
    show "\<forall>(t, p) \<in> set (bl_open_positions l'). bp_ticket p = t"
      using ok p' by (auto dest!: dict_put_keys)
    show "\<forall>(t, o') \<in> set (bl_pending_orders l'). po_ticket o' = t"
      using ok f(7) set_dict_pop [of t "bl_pending_orders l"] by auto
  qed (use ok f(1,2,6,7) p'(1) in \<open>auto simp: distinct_dict_put distinct_dict_pop\<close>)
  show "no_ticket_lost l \<Longrightarrow> no_ticket_lost l'"
    using f(1-5) by (auto simp: no_ticket_lost_def)
qed

lemma close_ok:
  assumes "ledger_ok l" "ledger_close_position t price reason exited l = (Inr trade, l')"
  shows "ledger_ok l'" "no_ticket_lost l \<Longrightarrow> no_ticket_lost l'"
proof -
  note f = close_sets [OF assms(2)]
  note ok = assms(1) [unfolded ledger_ok_def]
  have "t \<notin> closed_tickets l" using ok f(1) by auto
  then have trades: "distinct (map ct_ticket (bl_closed_trades l'))"
    using ok f(3,7) by (simp add: closed_tickets_def)
  show "ledger_ok l'"
  proof (rule ledger_okI [OF assms(1) _ _ _ trades f(5,4,6)])
    show "\<forall>(t, p) \<in> set (bl_open_positions l'). bp_ticket p = t"
      using ok f(9) set_dict_pop [of t "bl_open_positions l"] by auto
  qed (use ok f(1,2,8,9) in \<open>auto simp: distinct_dict_pop\<close>)
  show "no_ticket_lost l \<Longrightarrow> no_ticket_lost l'"
    using f(1-6) by (auto simp: no_ticket_lost_def)
qed

text \<open>The ledgers that its operations lead to while none of them raises.\<close>

inductive ledger_reachable :: "BacktestLedger \<Rightarrow> bool" where
  start: "ledger_reachable empty_ledger"
| pending: "ledger_reachable l \<Longrightarrow> add_pending_order symbol side v p sl tp magic cmt placed l = (t, l') \<Longrightarrow> ledger_reachable l'"
| market: "ledger_reachable l \<Longrightarrow> add_open_position symbol side v p sl tp magic cmt opened None l = (t, l') \<Longrightarrow> ledger_reachable l'"
| fill: "ledger_reachable l \<Longrightarrow> fill_pending_order t filled l = (Inr u, l') \<Longrightarrow> ledger_reachable l'"
| close: "ledger_reachable l \<Longrightarrow> ledger_close_position t price reason exited l = (Inr trade, l') \<Longrightarrow> ledger_reachable l'"

lemma reachable_tickets:
  assumes "ledger_reachable l"
  shows "ledger_ok l \<and> pending_tickets l \<union> open_tickets l \<union> closed_tickets l = {1 ..< bl_next_ticket l}"
proof -
  have "ledger_ok l \<and> no_ticket_lost l"
    using assms by induction (auto simp: empty_ledger_ok intro: add_pending_ok add_open_ok fill_ok close_ok)
  then show ?thesis by (auto simp: ledger_ok_def no_ticket_lost_def)
qed

text \<open>
  Every ticket the ledger ever issued is in exactly one place: the pending orders, the open
  positions and the closed trades partition the tickets below the next one, each under its own key.
\<close>

theorem ledger_tickets_conserved:
  assumes "ledger_reachable l"
  shows "ledger_ok l \<and> pending_tickets l \<union> open_tickets l \<union> closed_tickets l = {1 ..< bl_next_ticket l}"
  using assms by (rule reachable_tickets)

definition sample_position :: "BacktestLedger \<Rightarrow> int \<times> BacktestLedger" where
  "sample_position = add_open_position ''BTCUSD'' BUY 1 (fint 100) (fint 90) (fint 120) 71101 ''c'' (Aware 0) None"

theorem ledger_tickets_conserved_witness:
  "ledger_ok (snd (sample_position empty_ledger)) \<and>
   pending_tickets (snd (sample_position empty_ledger)) \<union> open_tickets (snd (sample_position empty_ledger)) \<union>
     closed_tickets (snd (sample_position empty_ledger)) = {1 ..< bl_next_ticket (snd (sample_position empty_ledger))}"
proof (rule ledger_tickets_conserved)
  obtain t l' where run: "sample_position empty_ledger = (t, l')" by fastforce
  then show "ledger_reachable (snd (sample_position empty_ledger))"
    using ledger_reachable.market [OF ledger_reachable.start] by (auto simp: sample_position_def)
qed

text \<open>
  A trade that leaves at its own stop loses exactly one R, in float arithmetic too, whenever the
  stop is on the losing side of the entry; one that leaves on the winning side of the entry gains.
\<close>

theorem stop_exit_loses_one_r:
  assumes "if bp_side p = BUY then bp_sl p < bp_price_open p else bp_price_open p < bp_sl p"
  shows "ct_r_multiple (trade_of p t (bp_sl p) reason exited) = - 1 \<and>
    (0 < ct_r_multiple (trade_of p t price reason exited) \<longleftrightarrow>
       (if bp_side p = BUY then bp_price_open p < price else price < bp_price_open p))"
proof -
  let ?risk = "\<bar>bp_price_open p - bp_sl p\<bar>"
  have risk: "0 < ?risk" using assms by (auto simp: pyfloat_diff_sign split: if_splits)
  have pos: "0 < x / ?risk \<longleftrightarrow> 0 < x" for x
    using risk by (simp add: pyfloat_iffs rat_of_arith zero_less_divide_iff)
  have "bp_sl p - bp_price_open p = - (bp_price_open p - bp_sl p)" by (simp add: pyfloat_minus_diff)
  moreover have "?risk = (if bp_side p = BUY then bp_price_open p - bp_sl p else bp_sl p - bp_price_open p)"
    using assms by (auto simp: pyfloat_abs_cases pyfloat_diff_sign pyfloat_minus_diff split: if_splits)
  ultimately have "(if bp_side p = BUY then bp_sl p - bp_price_open p else bp_price_open p - bp_sl p) = - ?risk"
    by (auto simp: pyfloat_minus_diff)
  then have "ct_r_multiple (trade_of p t (bp_sl p) reason exited) = (- ?risk) / ?risk"
    by (simp add: trade_of_def Let_def)
  then show ?thesis
    using pyfloat_div_minus [of ?risk] risk by (auto simp: trade_of_def Let_def pos pyfloat_diff_sign)
qed

theorem stop_exit_loses_one_r_witness:
  "ct_r_multiple (trade_of \<lparr> bp_ticket = 1, bp_symbol = ''S'', bp_side = BUY, bp_volume = 1, bp_price_open = fint 100,
      bp_sl = fint 90, bp_tp = fint 120, bp_magic = 1, bp_comment = ''c'', bp_opened_at = Aware 0 \<rparr>
    1 (fint 90) ''SL'' (Aware 1)) = - 1"
  using stop_exit_loses_one_r [of "\<lparr> bp_ticket = 1, bp_symbol = ''S'', bp_side = BUY, bp_volume = 1, bp_price_open = fint 100,
      bp_sl = fint 90, bp_tp = fint 120, bp_magic = 1, bp_comment = ''c'', bp_opened_at = Aware 0 \<rparr>"]
  by (simp add: fint_def pyfloat_less_iff)

end
