(* ===== verification/Monitoring.thy ===== *)
theory Monitoring
  imports Reconcile Backtest_Ledger
begin

text \<open>
  What live trades say: \<^verbatim>\<open>monitoring/live_performance.py\<close>. Shown: every closed record ends
  either as a trade or as skipped, in order, on its deals only by position; the offset between the
  broker's clock and UTC is recovered exactly when a majority of the references is within seven and
  a half minutes of it; and correcting by an offset is the same as shifting the deals.
\<close>

section \<open>Joining deals and records\<close>

record SkippedRecord =
  sk_ticket :: int
  sk_reason :: fstring

record LiveTradeJoinResult =
  jr_trades :: "ClosedTrade list"
  jr_skipped :: "SkippedRecord list"

record SlippageResult =
  slip_ticket :: int
  slip_order_type :: string
  slip_price_units :: pyfloat

definition weighted_average_price :: "Deal list \<Rightarrow> pyfloat result" where
  "weighted_average_price ds =
     py_div (py_sum (map (\<lambda>d. deal_price d * deal_volume d) ds)) (py_sum (map deal_volume ds))"

definition deals_of_position :: "Deal list \<Rightarrow> int \<Rightarrow> Deal list" where
  "deals_of_position deals ticket = filter (\<lambda>d. deal_position_id d = ticket) deals"

definition ins_of :: "Deal list \<Rightarrow> Deal list" where
  "ins_of ds = filter (\<lambda>d. deal_entry d = 0 \<or> deal_entry d = 2) ds"

definition outs_of :: "Deal list \<Rightarrow> Deal list" where
  "outs_of ds = filter (\<lambda>d. deal_entry d = 1 \<or> deal_entry d = 2) ds"

definition deal_pnl :: "Deal \<Rightarrow> pyfloat" where
  "deal_pnl d = deal_profit d + deal_commission d + deal_swap d + deal_fee d"

definition skip :: "LocalOrderRecord \<Rightarrow> fstring \<Rightarrow> SkippedRecord + ClosedTrade" where
  "skip r reason = Inl \<lparr> sk_ticket = lr_ticket r, sk_reason = reason \<rparr>"

definition join_trade :: "LocalOrderRecord \<Rightarrow> Deal list \<Rightarrow> pyfloat \<Rightarrow> ClosedTrade result" where
  "join_trade r matched price_open =
     (let ins = ins_of matched; outs = outs_of matched; risk = \<bar>price_open - lr_requested_sl r\<bar>
      in bind_res (weighted_average_price outs) (\<lambda>price_close.
         let signed = (if lr_side r = ''BUY'' then price_close - price_open else price_open - price_close)
         in bind_res (if ins = [] then Inr (lr_submitted_at r) else dt_min (map deal_time ins)) (\<lambda>opened_at.
            bind_res (dt_max (map deal_time outs)) (\<lambda>closed_at.
              Inr \<lparr> ct_ticket = lr_ticket r, ct_symbol = lr_symbol r, ct_side = lr_side r,
                    ct_volume = lr_requested_volume r, ct_price_open = price_open, ct_price_close = price_close,
                    ct_sl = lr_requested_sl r, ct_tp = lr_requested_tp r, ct_magic = lr_magic r,
                    ct_comment = lr_comment r, ct_opened_at = opened_at, ct_closed_at = closed_at,
                    ct_close_reason = ''closed'', ct_r_multiple = signed / risk,
                    ct_notional_pnl = py_sum (map deal_pnl matched) \<rparr>))))"

text \<open>One turn of the loop: the trade of a record, or why it has none.\<close>

definition join_record :: "LocalOrderRecord \<Rightarrow> Deal list \<Rightarrow> (SkippedRecord + ClosedTrade) result" where
  "join_record r matched =
     (let ins = ins_of matched; outs = outs_of matched
      in if outs = [] then Inr (skip r [Lit ''no matching OUT-entry deal found -- cannot determine a real close price''])
         else bind_res (if ins = [] then Inr (lr_executed_price r)
                        else bind_res (weighted_average_price ins) (\<lambda>p. Inr (Some p))) (\<lambda>price_open.
           case price_open of
             None \<Rightarrow> Inr (skip r [Lit ''no IN-entry deal and no locally recorded executed_price -- cannot determine a real open price''])
           | Some p \<Rightarrow>
               if \<bar>p - lr_requested_sl r\<bar> \<le> 0
               then Inr (skip r [Lit ''sl ('', f_flt (lr_requested_sl r), Lit '') equals price_open ('', f_flt p,
                                 Lit '') -- risk-per-trade is zero, r_multiple is undefined''])
               else bind_res (join_trade r matched p) (\<lambda>t. Inr (Inr t))))"

definition build_closed_trades :: "LocalOrderRecord list \<Rightarrow> Deal list \<Rightarrow> LiveTradeJoinResult result" where
  "build_closed_trades closed_records deals =
     bind_res (traverse (\<lambda>r. join_record r (deals_of_position deals (lr_ticket r))) closed_records) (\<lambda>rs.
       Inr \<lparr> jr_trades = concat (map (\<lambda>x. case x of Inl _ \<Rightarrow> [] | Inr t \<Rightarrow> [t]) rs),
             jr_skipped = concat (map (\<lambda>x. case x of Inl s \<Rightarrow> [s] | Inr _ \<Rightarrow> []) rs) \<rparr>)"

definition slippage_of :: "LocalOrderRecord \<Rightarrow> SkippedRecord + SlippageResult" where
  "slippage_of r =
     (if lr_origin r \<noteq> ''system_owned''
      then Inl \<lparr> sk_ticket = lr_ticket r, sk_reason = [Lit ''origin='', F_repr (JStr (lr_origin r)),
             Lit '' -- no real submission, no requested price to compare against''] \<rparr>
      else case (lr_requested_price r, lr_executed_price r) of
          (Some requested, Some executed) \<Rightarrow>
            Inr \<lparr> slip_ticket = lr_ticket r, slip_order_type = lr_order_type r,
                  slip_price_units = (if lr_side r = ''BUY'' then executed - requested else requested - executed) \<rparr>
        | _ \<Rightarrow> Inl \<lparr> sk_ticket = lr_ticket r, sk_reason =
              [Lit ''requested_price or executed_price is None -- order never reached a comparable fill''] \<rparr>)"

definition compute_slippage :: "LocalOrderRecord list \<Rightarrow> SlippageResult list \<times> SkippedRecord list" where
  "compute_slippage records =
     (let rs = map slippage_of records
      in (concat (map (\<lambda>x. case x of Inl _ \<Rightarrow> [] | Inr t \<Rightarrow> [t]) rs),
          concat (map (\<lambda>x. case x of Inl s \<Rightarrow> [s] | Inr _ \<Rightarrow> []) rs)))"

section \<open>The clock of the broker\<close>

text \<open>\<^verbatim>\<open>timedelta\<close> divided by an integer is rounded to a microsecond, ties to even.\<close>

definition median :: "timedelta list \<Rightarrow> timedelta" where
  "median ds =
     (let s = sort ds; n = length ds
      in if n mod 2 = 1 then s ! (n div 2)
         else round_half_even (of_int (s ! (n div 2 - 1) + s ! (n div 2)) / 2))"

definition quarter_hour :: timedelta where
  "quarter_hour = minutes 15"

definition reference_diff :: "Deal list \<Rightarrow> LocalOrderRecord \<Rightarrow> timedelta option result" where
  "reference_diff deals r =
     (if lr_order_type r \<noteq> ''MARKET'' then Inr None
      else let ins = ins_of (deals_of_position deals (lr_ticket r))
           in if ins = [] then Inr None
              else bind_res (dt_min (map deal_time ins)) (\<lambda>t.
                bind_res (of_option TypeError (dt_diff t (lr_submitted_at r))) (\<lambda>d. Inr (Some d))))"

text \<open>\<^verbatim>\<open>timedelta / timedelta\<close> is the quotient rounded to a float once.\<close>

definition rounded_quarters :: "timedelta \<Rightarrow> int" where
  "rounded_quarters d = py_round (flt (of_int d / of_int quarter_hour))"

definition somes :: "'a option list \<Rightarrow> 'a list" where
  "somes xs = concat (map (\<lambda>x. case x of None \<Rightarrow> [] | Some d \<Rightarrow> [d]) xs)"

definition infer_deal_time_offset :: "LocalOrderRecord list \<Rightarrow> Deal list \<Rightarrow> timedelta option result" where
  "infer_deal_time_offset closed_records deals =
     bind_res (traverse (reference_diff deals) closed_records) (\<lambda>rs.
       let raw_diffs = somes rs
       in Inr (if raw_diffs = [] then None else Some (rounded_quarters (median raw_diffs) * quarter_hour)))"

section \<open>The day's result\<close>

text \<open>What one deal adds to the sum: nothing unless its position is trusted and its time in the window.\<close>

definition counted_pnl :: "datetime \<Rightarrow> int set \<Rightarrow> timedelta \<Rightarrow> Deal \<Rightarrow> pyfloat list result" where
  "counted_pnl since trusted_position_ids deal_time_offset d =
     (if deal_position_id d \<in> trusted_position_ids
      then bind_res (of_option TypeError (dt_less (dt_add (deal_time d) (- deal_time_offset)) since))
             (\<lambda>before. Inr (if before then [] else [deal_pnl d]))
      else Inr [])"

definition realized_pnl_since ::
  "Deal list \<Rightarrow> datetime \<Rightarrow> int set \<Rightarrow> timedelta \<Rightarrow> pyfloat result" where
  "realized_pnl_since deals since trusted_position_ids deal_time_offset =
     (if \<not> is_aware since then Inl ValueError
      else bind_res (traverse (counted_pnl since trusted_position_ids deal_time_offset) deals)
             (\<lambda>xss. Inr (py_sum (concat xss))))"

definition compute_daily_loss_decision ::
  "Deal list \<Rightarrow> int set \<Rightarrow> datetime \<Rightarrow> DailyLossLimitConfig \<Rightarrow> timedelta \<Rightarrow> RiskDecision result" where
  "compute_daily_loss_decision deals trusted_position_ids now config deal_time_offset =
     bind_res (daily_reset_boundary now (dl_reset_hour_utc config)) (\<lambda>boundary.
     bind_res (realized_pnl_since deals boundary trusted_position_ids deal_time_offset) (\<lambda>pnl.
       check_daily_loss_limit pnl config))"

section \<open>What the join keeps\<close>

definition trades_in :: "(SkippedRecord + ClosedTrade) list \<Rightarrow> ClosedTrade list" where
  "trades_in rs = concat (map (\<lambda>x. case x of Inl _ \<Rightarrow> [] | Inr t \<Rightarrow> [t]) rs)"

definition skipped_in :: "(SkippedRecord + ClosedTrade) list \<Rightarrow> SkippedRecord list" where
  "skipped_in rs = concat (map (\<lambda>x. case x of Inl s \<Rightarrow> [s] | Inr _ \<Rightarrow> []) rs)"

definition outcome_ticket :: "SkippedRecord + ClosedTrade \<Rightarrow> int" where
  "outcome_ticket x = (case x of Inl s \<Rightarrow> sk_ticket s | Inr t \<Rightarrow> ct_ticket t)"

lemma join_record_cases:
  assumes "join_record r ds = Inr x"
  obtains (skipped) why where "x = skip r why"
  | (joined) p t where "x = Inr t" "outs_of ds \<noteq> []" "0 < \<bar>p - lr_requested_sl r\<bar>" "join_trade r ds p = Inr t"
proof (cases "outs_of ds = []")
  case True
  then show thesis using assms skipped by (auto simp: join_record_def)
next
  case False
  define price where "price = (if ins_of ds = [] then Inr (lr_executed_price r)
      else bind_res (weighted_average_price (ins_of ds)) (\<lambda>p. Inr (Some p)))"
  note run = assms [unfolded join_record_def Let_def if_not_P [OF False] price_def [symmetric]]
  show thesis
  proof (cases price)
    case (Inl e)
    then show thesis using run by simp
  next
    case price: (Inr q)
    show thesis
    proof (cases q)
      case None
      then show thesis using run price skipped by auto
    next
      case (Some p)
      show thesis
      proof (cases "\<bar>p - lr_requested_sl r\<bar> \<le> 0")
        case True
        then show thesis using run price Some skipped by (auto simp del: pyfloat_abs_iffs)
      next
        case le: False
        then obtain t where "join_trade r ds p = Inr t" "x = Inr t"
          using run price Some by (auto simp: result_simps simp del: pyfloat_abs_iffs)
        then show thesis using joined [of t p] False le by simp
      qed
    qed
  qed
qed

lemma join_trade_facts:
  assumes "join_trade r ds p = Inr t"
  shows "ct_ticket t = lr_ticket r" "ct_price_open t = p" "ct_notional_pnl t = py_sum (map deal_pnl ds)"
proof -
  obtain a b c where "weighted_average_price (outs_of ds) = Inr a"
      "(if ins_of ds = [] then Inr (lr_submitted_at r) else dt_min (map deal_time (ins_of ds))) = Inr b"
      "dt_max (map deal_time (outs_of ds)) = Inr c"
    using assms unfolding join_trade_def Let_def bind_res_eq_Inr by blast
  note steps = this
  note run = assms [unfolded join_trade_def Let_def steps bind_res.simps]
  show "ct_ticket t = lr_ticket r" "ct_price_open t = p" "ct_notional_pnl t = py_sum (map deal_pnl ds)"
    using run by auto
qed

lemma join_record_ticket: "join_record r ds = Inr x \<Longrightarrow> outcome_ticket x = lr_ticket r"
  by (erule join_record_cases) (simp_all add: skip_def outcome_ticket_def join_trade_facts)

lemma join_record_trade:
  assumes "join_record r ds = Inr (Inr t)"
  shows "0 < \<bar>ct_price_open t - lr_requested_sl r\<bar>" "ct_notional_pnl t = py_sum (map deal_pnl ds)" "outs_of ds \<noteq> []"
  using assms by (cases rule: join_record_cases; simp add: skip_def join_trade_facts)+

lemma in_outcomes:
  "t \<in> set (trades_in rs) \<longleftrightarrow> Inr t \<in> set rs" "s \<in> set (skipped_in rs) \<longleftrightarrow> Inl s \<in> set rs"
  "length (trades_in rs) + length (skipped_in rs) = length rs"
  by (induction rs) (auto simp: trades_in_def skipped_in_def split: sum.splits)

text \<open>
  Every closed record ends exactly once, as a trade or as skipped, under its own ticket; a trade
  has a closing deal, an R-multiple over a positive risk and the sum of its own deals as result; and
  deals of other positions change nothing.
\<close>

theorem live_join_complete:
  assumes "build_closed_trades closed_records deals = Inr j"
  shows "length (jr_trades j) + length (jr_skipped j) = length closed_records \<and>
    ct_ticket ` set (jr_trades j) \<union> sk_ticket ` set (jr_skipped j) = lr_ticket ` set closed_records \<and>
    (\<forall>t \<in> set (jr_trades j). \<exists>r \<in> set closed_records. ct_ticket t = lr_ticket r \<and>
       0 < \<bar>ct_price_open t - lr_requested_sl r\<bar> \<and>
       ct_notional_pnl t = py_sum (map deal_pnl (deals_of_position deals (lr_ticket r)))) \<and>
    build_closed_trades closed_records (filter (\<lambda>d. deal_position_id d \<in> lr_ticket ` set closed_records) deals) = Inr j"
proof -
  let ?f = "\<lambda>r. join_record r (deals_of_position deals (lr_ticket r))"
  obtain rs where rs: "traverse ?f closed_records = Inr rs" and j: "jr_trades j = trades_in rs" "jr_skipped j = skipped_in rs"
    using assms by (auto simp: build_closed_trades_def trades_in_def skipped_in_def result_simps)
  have all: "list_all2 (\<lambda>r x. ?f r = Inr x) closed_records rs" using rs by (simp add: traverse_Inr_iff)
  then have tickets: "map lr_ticket closed_records = map outcome_ticket rs"
    by (induction rule: list_all2_induct) (auto dest: join_record_ticket)
  have own: "\<exists>r \<in> set closed_records. ?f r = Inr x" if "x \<in> set rs" for x
    using all that by (induction rule: list_all2_induct) auto
  have "outcome_ticket ` set rs = ct_ticket ` set (trades_in rs) \<union> sk_ticket ` set (skipped_in rs)"
  proof -
    have "set rs = Inr ` set (trades_in rs) \<union> Inl ` set (skipped_in rs)"
      by (rule set_eqI, rename_tac x, case_tac x) (auto simp: in_outcomes)
    then show ?thesis by (simp add: image_Un image_image outcome_ticket_def)
  qed
  moreover have "outcome_ticket ` set rs = lr_ticket ` set closed_records"
    using tickets by (metis set_map)
  moreover have "\<exists>r \<in> set closed_records. ct_ticket t = lr_ticket r \<and> 0 < \<bar>ct_price_open t - lr_requested_sl r\<bar> \<and>
      ct_notional_pnl t = py_sum (map deal_pnl (deals_of_position deals (lr_ticket r)))"
    if t: "t \<in> set (trades_in rs)" for t
  proof -
    have "Inr t \<in> set rs" using t by (simp add: in_outcomes)
    then obtain r where r: "r \<in> set closed_records" "?f r = Inr (Inr t)"
      using own by blast
    show ?thesis
      using r(1) join_record_ticket [OF r(2)] join_record_trade [OF r(2)]
      by (intro bexI [OF _ r(1)]) (simp add: outcome_ticket_def)
  qed
  moreover have "traverse (\<lambda>r. join_record r (deals_of_position
        (filter (\<lambda>d. deal_position_id d \<in> lr_ticket ` set closed_records) deals) (lr_ticket r))) closed_records
      = traverse ?f closed_records"
  proof (rule traverse_cong)
    fix r assume "r \<in> set closed_records"
    then have "deals_of_position (filter (\<lambda>d. deal_position_id d \<in> lr_ticket ` set closed_records) deals) (lr_ticket r)
        = deals_of_position deals (lr_ticket r)"
      by (auto simp: deals_of_position_def intro!: filter_cong)
    then show "join_record r (deals_of_position
        (filter (\<lambda>d. deal_position_id d \<in> lr_ticket ` set closed_records) deals) (lr_ticket r)) = ?f r" by simp
  qed
  moreover have "length rs = length closed_records" using rs by (rule traverse_length)
  ultimately show ?thesis
    using assms in_outcomes(3) [of rs] unfolding build_closed_trades_def j by simp
qed

definition sample_join :: "LiveTradeJoinResult" where
  "sample_join = \<lparr> jr_trades = [], jr_skipped = [\<lparr> sk_ticket = 7,
     sk_reason = [Lit ''no matching OUT-entry deal found -- cannot determine a real close price''] \<rparr>] \<rparr>"

theorem live_join_complete_witness:
  "build_closed_trades [sample_record 7] [] = Inr sample_join \<and>
   length (jr_trades sample_join) + length (jr_skipped sample_join) = length [sample_record 7]"
  (is "?run \<and> _")
proof
  show run: ?run
    by (simp add: build_closed_trades_def join_record_def deals_of_position_def outs_of_def skip_def
        sample_join_def sample_record_def submission_record_def)
  show "length (jr_trades sample_join) + length (jr_skipped sample_join) = length [sample_record 7]"
    using live_join_complete [OF run] by blast
qed

section \<open>The offset is recovered\<close>

text \<open>In a sorted list a majority reaches over the middle.\<close>

lemma majority_low:
  fixes s :: "int list"
  assumes "sorted s" "length s < 2 * length (filter (\<lambda>d. a \<le> d) s)" "2 * i + 1 \<ge> length s - 1" "i < length s"
  shows "a \<le> s ! i"
proof (rule ccontr)
  assume "\<not> a \<le> s ! i"
  then have low: "\<not> a \<le> s ! j" if "j \<le> i" for j
    using sorted_nth_mono [OF assms(1) that assms(4)] by simp
  have "filter (\<lambda>d. a \<le> d) (take (Suc i) s) = []"
    using low by (auto simp: filter_empty_conv in_set_conv_nth)
  then have "length (filter (\<lambda>d. a \<le> d) s) \<le> length (drop (Suc i) s)"
    by (metis append_take_drop_id filter_append append_Nil length_filter_le)
  then show False using assms(2-4) by simp
qed

lemma majority_high:
  fixes s :: "int list"
  assumes "sorted s" "length s < 2 * length (filter (\<lambda>d. d \<le> b) s)" "2 * i \<le> length s" "i < length s"
  shows "s ! i \<le> b"
proof (rule ccontr)
  assume "\<not> s ! i \<le> b"
  then have high: "\<not> s ! j \<le> b" if "i \<le> j" "j < length s" for j
    using sorted_nth_mono [OF assms(1) that] by simp
  have "filter (\<lambda>d. d \<le> b) (drop i s) = []"
    using high by (auto simp: filter_empty_conv in_set_conv_nth)
  then have "length (filter (\<lambda>d. d \<le> b) s) \<le> length (take i s)"
    by (metis append_take_drop_id filter_append append_Nil2 length_filter_le)
  then show False using assms(2-4) by simp
qed

lemma median_majority:
  assumes "length ds < 2 * length (filter (\<lambda>d. a \<le> d \<and> d \<le> b) ds)"
  shows "a \<le> median ds \<and> median ds \<le> b"
proof -
  let ?s = "sort ds" let ?n = "length ds"
  have count: "length (filter P ?s) = length (filter P ds)" for P
    by (metis filter_sort length_sort)
  have mono: "length (filter (\<lambda>d. a \<le> d \<and> d \<le> b) ds) \<le> length (filter P ds)"
    if "\<And>d. a \<le> d \<and> d \<le> b \<Longrightarrow> P d" for P
    using that by (induction ds) auto
  have low: "a \<le> ?s ! i" if "2 * i + 1 \<ge> ?n - 1" "i < ?n" for i
    using that assms mono [of "\<lambda>d. a \<le> d"] by (intro majority_low) (auto simp: count)
  have high: "?s ! i \<le> b" if "2 * i \<le> ?n" "i < ?n" for i
    using that assms mono [of "\<lambda>d. d \<le> b"] by (intro majority_high) (auto simp: count)
  have ne: "0 < ?n" using assms by (cases ds) auto
  show ?thesis
  proof (cases "?n mod 2 = 1")
    case True
    then show ?thesis using low [of "?n div 2"] high [of "?n div 2"] ne by (simp add: median_def Let_def)
  next
    case False
    then have "2 \<le> ?n" "2 * (?n div 2) = ?n" using ne by presburger+
    then have l: "a \<le> ?s ! (?n div 2 - 1)" "a \<le> ?s ! (?n div 2)"
        and h: "?s ! (?n div 2 - 1) \<le> b" "?s ! (?n div 2) \<le> b"
      by (intro low high; linarith)+
    let ?m = "of_int (?s ! (?n div 2 - 1) + ?s ! (?n div 2)) / (2 :: rat)"
    have "of_int a \<le> ?m" "?m \<le> of_int b" using l h by (simp_all add: field_simps flip: of_int_add of_int_mult)
    then show ?thesis
      using False round_half_even_mono [of "of_int a" ?m] round_half_even_mono [of ?m "of_int b"]
      by (simp add: median_def Let_def)
  qed
qed

lemma quotient_le:
  fixes a b p q :: int
  assumes "a * q \<le> b * p" "0 < p" "0 < q"
  shows "of_int a / of_int p \<le> (of_int b / of_int q :: rat)"
proof -
  have "(of_int (a * q) :: rat) \<le> of_int (b * p)" using assms(1) by (simp only: of_int_le_iff)
  then show ?thesis using assms(2,3) by (simp add: divide_le_eq le_divide_eq mult.commute)
qed

lemma rounded_quarters_near:
  assumes "\<bar>k\<bar> \<le> 2 ^ 20" "\<bar>d - k * quarter_hour\<bar> < quarter_hour div 2"
  shows "rounded_quarters d = k"
proof -
  have Q: "quarter_hour = 900000000" by (simp add: quarter_hour_def)
  let ?lo = "of_int (k * 2 ^ 30 - (2 ^ 29 - 1)) / (2 :: rat) ^ 30"
  let ?hi = "of_int (k * 2 ^ 30 + (2 ^ 29 - 1)) / (2 :: rat) ^ 30"
  let ?x = "of_int d / (of_int quarter_hour :: rat)"
  have d: "900000000 * k - 449999999 \<le> d" "d \<le> 900000000 * k + 449999999"
    using assms(2) unfolding Q by linarith+
  have P: "(2 :: rat) ^ 30 = of_int (2 ^ 30)" by simp
  have x: "?lo \<le> ?x" "?x \<le> ?hi"
    unfolding Q P using d by (intro quotient_le; simp)+
  have "rat_of (flt ?lo) = ?lo" "rat_of (flt ?hi) = ?hi"
    using assms(1) by (simp_all only: rat_of_simps) (intro rnd_dyadic; simp)+
  then have "?lo \<le> rat_of (flt ?x)" "rat_of (flt ?x) \<le> ?hi"
    using flt_mono [OF x(1)] flt_mono [OF x(2)] by (simp_all only: pyfloat_le_iff)
  then have "round_half_even ?lo \<le> rounded_quarters d" "rounded_quarters d \<le> round_half_even ?hi"
    unfolding rounded_quarters_def py_round_def by (blast intro: round_half_even_mono)+
  moreover have "round_half_even ?lo = k" "round_half_even ?hi = k"
    by (intro round_half_even_unique; simp add: field_simps)+
  ultimately show ?thesis by simp
qed

text \<open>
  The broker's clock offset is recovered exactly: when more than half of the usable references
  (closed MARKET orders with an opening deal) are within seven and a half minutes of \<open>k\<close> quarters of
  an hour, the inferred offset is \<open>k\<close> quarters, whatever the other references say.
\<close>

theorem deal_time_offset_recovered:
  assumes "traverse (reference_diff deals) closed_records = Inr rs"
    and "length (somes rs) < 2 * length (filter (\<lambda>d. \<bar>d - k * quarter_hour\<bar> < quarter_hour div 2) (somes rs))"
    and "\<bar>k\<bar> \<le> 2 ^ 20"
  shows "infer_deal_time_offset closed_records deals = Inr (Some (k * quarter_hour))"
proof -
  have Q: "quarter_hour = 900000000" by (simp add: quarter_hour_def)
  let ?a = "k * quarter_hour - 449999999" let ?b = "k * quarter_hour + 449999999"
  have "(\<lambda>d. \<bar>d - k * quarter_hour\<bar> < quarter_hour div 2) = (\<lambda>d. ?a \<le> d \<and> d \<le> ?b)"
    by (auto simp: Q)
  then have "?a \<le> median (somes rs) \<and> median (somes rs) \<le> ?b"
    using assms(2) by (intro median_majority) simp
  then have "\<bar>median (somes rs) - k * quarter_hour\<bar> < quarter_hour div 2"
    by (auto simp: Q)
  then have "rounded_quarters (median (somes rs)) = k"
    using rounded_quarters_near [OF assms(3)] by blast
  moreover have "somes rs \<noteq> []" using assms(2) by auto
  ultimately show ?thesis
    by (simp add: infer_deal_time_offset_def assms(1))
qed

theorem deal_time_offset_recovered_witness:
  "infer_deal_time_offset [submission_record 5 ''grid'' (sample_plan\<lparr>op_order_type := MARKET\<rparr>) None None None [] (Aware 0) ''OPEN'']
     [stop_deal\<lparr>deal_position_id := 5, deal_entry := 0, deal_time := Aware (minutes 181)\<rparr>] = Inr (Some (12 * quarter_hour))"
proof (rule deal_time_offset_recovered)
  show "traverse (reference_diff [stop_deal\<lparr>deal_position_id := 5, deal_entry := 0, deal_time := Aware (minutes 181)\<rparr>])
      [submission_record 5 ''grid'' (sample_plan\<lparr>op_order_type := MARKET\<rparr>) None None None [] (Aware 0) ''OPEN''] = Inr [Some (minutes 181)]"
    by (simp add: reference_diff_def deals_of_position_def ins_of_def dt_min_def one_kind_def submission_record_def
        sample_plan_def order_type_str_def)
qed (simp_all add: somes_def quarter_hour_def)

text \<open>
  The daily-loss decision rests on trusted positions only: deals of other positions change
  nothing, and correcting for an offset of the broker's clock is the same as shifting every deal.
\<close>

theorem daily_loss_trusted_only:
  "compute_daily_loss_decision deals trusted now config off =
     compute_daily_loss_decision (filter (\<lambda>d. deal_position_id d \<in> trusted) deals) trusted now config off \<and>
   compute_daily_loss_decision deals trusted now config off =
     compute_daily_loss_decision (map (\<lambda>d. d\<lparr>deal_time := dt_add (deal_time d) (- off)\<rparr>) deals) trusted now config 0"
proof -
  have skip: "map_sum id concat (traverse (counted_pnl since trusted off) (filter (\<lambda>d. deal_position_id d \<in> trusted) ds)) =
      map_sum id concat (traverse (counted_pnl since trusted off) ds)" for since off ds
  proof (induction ds)
    case (Cons d ds)
    show ?case
    proof (cases "deal_position_id d \<in> trusted")
      case True
      then show ?thesis
        using Cons by (cases "counted_pnl since trusted off d"; cases "traverse (counted_pnl since trusted off) ds";
          cases "traverse (counted_pnl since trusted off) (filter (\<lambda>d. deal_position_id d \<in> trusted) ds)") simp_all
    next
      case False
      then have "counted_pnl since trusted off d = Inr []" by (simp add: counted_pnl_def)
      then show ?thesis using Cons False by (cases "traverse (counted_pnl since trusted off) ds") simp_all
    qed
  qed simp
  have shift: "traverse (counted_pnl since trusted 0) (map (\<lambda>d. d\<lparr>deal_time := dt_add (deal_time d) (- off)\<rparr>) ds) = traverse (counted_pnl since trusted off) ds" for since off ds
  proof -
    have "dt_add t 0 = t" for t by (cases t) simp_all
    moreover have "deal_pnl (d\<lparr>deal_time := t\<rparr>) = deal_pnl d" for d t by (simp add: deal_pnl_def)
    ultimately have "counted_pnl since trusted 0 (d\<lparr>deal_time := dt_add (deal_time d) (- off)\<rparr>) = counted_pnl since trusted off d" for d
      by (simp add: counted_pnl_def cong: if_cong)
    then show ?thesis by (induction ds) simp_all
  qed
  have pnl: "realized_pnl_since ds since trusted off = (if \<not> is_aware since then Inl ValueError
      else map_sum id (py_sum \<circ> concat) (traverse (counted_pnl since trusted off) ds))" for ds since off
    unfolding realized_pnl_since_def by (cases "traverse (counted_pnl since trusted off) ds") simp_all
  have "map_sum id (py_sum \<circ> concat) x = map_sum id py_sum (map_sum id concat x)" for x :: "exn + pyfloat list list"
    by (cases x) simp_all
  then have "realized_pnl_since (filter (\<lambda>d. deal_position_id d \<in> trusted) deals) since trusted off = realized_pnl_since deals since trusted off"
    "realized_pnl_since (map (\<lambda>d. d\<lparr>deal_time := dt_add (deal_time d) (- off)\<rparr>) deals) since trusted 0 = realized_pnl_since deals since trusted off"
    for since by (simp_all add: pnl skip shift)
  then show ?thesis by (simp add: compute_daily_loss_decision_def)
qed

end
