(* ===== verification/Order_Executor.thy ===== *)
theory Order_Executor
  imports Readers Monitoring
begin

text \<open>
  Live execution: \<^verbatim>\<open>mt5_adapter/mcp_order_executor.py\<close>. Each operation passes the demo gate,
  checks the posture against fresh reads, makes its trading call, decides by the retcode, writes
  the local record and verifies by reading again. Log lines are left out. The executor is written
  over any account reader, as its constructor takes one; what it needs of the reader is the locale
  \<open>quiet_account\<close>, and the reader of the live composition satisfies it.
\<close>

definition no_retcode :: int where
  "no_retcode = - 1"

definition sl_tp_tolerance :: pyfloat where
  "sl_tp_tolerance = flt (1 / 10 ^ 6)"

definition validate_market_sl_tp :: "OrderPlan \<Rightarrow> unit result" where
  "validate_market_sl_tp plan =
     (if op_sl plan \<le> 0 \<or> op_tp plan \<le> 0 then Inl InvalidOrderPlanError
      else case op_price plan of
          None \<Rightarrow> Inl InvalidOrderPlanError
        | Some price \<Rightarrow>
            if op_side plan = BUY
            then (if \<not> (op_sl plan < price \<and> price < op_tp plan) then Inl InvalidOrderPlanError else Inr ())
            else (if \<not> (op_tp plan < price \<and> price < op_sl plan) then Inl InvalidOrderPlanError else Inr ()))"

record PostureCheck =
  pc_posture :: ExecutionPosture
  pc_report :: "ReconciliationReport option"
  pc_error :: "exn option"

section \<open>Gate and posture\<close>

definition executor_gate :: "'w env \<Rightarrow> 'w live AccountReader \<Rightarrow> ('w, unit) live_io" where
  "executor_gate env account =
     bind_io (lift_io (require_demo_account_kind (e_account_kind env))) (\<lambda>_.
       catch_io (require_demo_account account)
         (\<lambda>e. if e = NotDemoAccountError then return_io () else raise_io e))"

definition read_files :: "(files \<Rightarrow> 'a result) \<Rightarrow> ('w, 'a) live_io" where
  "read_files f = on_files (\<lambda>fs. (f fs, fs))"

text \<open>The evidence for the second look: deals of the days around now, the offset of their clock.\<close>

definition gather_evidence ::
  "'w env \<Rightarrow> ReconciliationReport \<Rightarrow> LocalOrderRecord list \<Rightarrow> ('w, SlTpArtifactClassification) live_io" where
  "gather_evidence env report local_open =
     bind_io (read_files State_Store.all_records) (\<lambda>records.
     bind_io (now_utc env) (\<lambda>now.
       let fetch_from = strftime_date (dt_add now (- days 1));
           fetch_to = strftime_date (dt_add now (days 1))
       in bind_io (get_deals env (Some fetch_from) (Some fetch_to) None) (\<lambda>deals.
          bind_io (lift_io (infer_deal_time_offset records deals)) (\<lambda>offset.
            lift_io (classify_unknown_real_tickets (rr_unknown_real report) local_open deals
              (case offset of None \<Rightarrow> 0 | Some d \<Rightarrow> d))))))"

definition auto_close_reason :: "SlTpArtifactEvidence \<Rightarrow> fstring" where
  "auto_close_reason ev =
     [Lit ''auto-reconciled: '', f_str (upper (ev_kind ev)), Lit '' close confirmed via deal='', f_int (ev_deal_ticket ev),
      Lit '' (order='', f_int (ev_order_ticket ev), Lit ''), price='', f_flt (ev_price ev),
      Lit '' matches requested_'', f_str (ev_kind ev), Lit ''='', f_flt (ev_reference_price ev)]"

definition explain_unknown_real ::
  "'w env \<Rightarrow> ReconciliationReport \<Rightarrow> LocalOrderRecord list \<Rightarrow> ('w, ReconciliationReport) live_io" where
  "explain_unknown_real env report local_open =
     except_else_io (gather_evidence env report local_open) (\<lambda>_. return_io report) (\<lambda>classification.
       bind_io (for_io (\<lambda>ev. on_files (record_closed (ev_position_ticket ev) (auto_close_reason ev) (ev_time ev)))
                  (cl_evidence classification)) (\<lambda>_.
         return_io (report\<lparr>rr_unknown_real := cl_unexplained classification\<rparr>)))"

definition posture_check ::
  "ReconciliationReport option \<Rightarrow> exn option \<Rightarrow> ('w, PostureCheck) live_io" where
  "posture_check report error =
     bind_io (lift_io (determine_posture report error)) (\<lambda>posture.
       return_io \<lparr> pc_posture = posture, pc_report = report, pc_error = error \<rparr>)"

definition current_posture :: "'w env \<Rightarrow> 'w live AccountReader \<Rightarrow> ('w, PostureCheck) live_io" where
  "current_posture env account =
     bind_io (try_io (read_files State_Store.all_open)) (\<lambda>loaded. case loaded of
       Inl e \<Rightarrow> if e = StateLoadError then posture_check None (Some e) else raise_io e
     | Inr local_open \<Rightarrow>
         bind_io (get_positions account None None) (\<lambda>positions.
         bind_io (get_orders account None None) (\<lambda>orders.
           let report = reconcile local_open positions orders
           in bind_io (if rr_unknown_real report \<noteq> [] \<and> local_open \<noteq> []
                       then explain_unknown_real env report local_open else return_io report) (\<lambda>report.
                posture_check (Some report) None))))"

section \<open>Verification by reading again\<close>

text \<open>
  The shape of the three verification loops: read, decide or not, sleep half a second except after
  the last attempt. \<open>k\<close> attempts of \<open>n\<close> are left.
\<close>

fun poll ::
  "'w env \<Rightarrow> ('w, 'a list) live_io \<Rightarrow> (nat \<Rightarrow> 'a list \<Rightarrow> (bool \<times> fstring) option) \<Rightarrow> fstring \<Rightarrow> nat \<Rightarrow> nat \<Rightarrow>
   ('w, bool \<times> fstring) live_io" where
  "poll env read decide gave_up n 0 = return_io (False, gave_up)"
| "poll env read decide gave_up n (Suc k) =
     bind_io read (\<lambda>xs. case decide (n - Suc k) xs of
         Some r \<Rightarrow> return_io r
       | None \<Rightarrow>
           bind_io (if k = 0 then return_io () else sleep env (flt (1 / 2))) (\<lambda>_.
             poll env read decide gave_up n k))"

definition attempt_text :: "nat \<Rightarrow> nat \<Rightarrow> fstring" where
  "attempt_text attempt attempts = [Lit ''attempt '', f_int (int attempt + 1), Lit ''/'', f_int (int attempts)]"

definition verify_position_present ::
  "'w env \<Rightarrow> 'w live AccountReader \<Rightarrow> int \<Rightarrow> string \<Rightarrow> nat \<Rightarrow> ('w, bool \<times> fstring) live_io" where
  "verify_position_present env account ticket symbol attempts =
     poll env (get_positions account (Some symbol) None)
       (\<lambda>attempt positions.
          if ticket \<in> pos_ticket ` set positions
          then Some (True, [Lit ''ticket='', f_int ticket, Lit '' confirmed present via get_positions_with_magic (''] @
                 attempt_text attempt attempts @ [Lit '')''])
          else None)
       [Lit ''ticket='', f_int ticket, Lit '' NOT found via get_positions_with_magic after '', f_int (int attempts),
        Lit '' attempts -- submission retcode reported success, but state cannot confirm it'']
       attempts attempts"

definition sl_tp_text :: "pyfloat \<Rightarrow> pyfloat \<Rightarrow> fstring" where
  "sl_tp_text sl tp = [Lit ''sl='', f_flt sl, Lit ''/tp='', f_flt tp]"

definition verify_sl_tp_attached ::
  "'w env \<Rightarrow> 'w live AccountReader \<Rightarrow> int \<Rightarrow> string \<Rightarrow> pyfloat \<Rightarrow> pyfloat \<Rightarrow> nat \<Rightarrow> ('w, bool \<times> fstring) live_io" where
  "verify_sl_tp_attached env account ticket symbol expected_sl expected_tp attempts =
     poll env (get_positions account (Some symbol) None)
       (\<lambda>attempt positions.
          case find (\<lambda>p. pos_ticket p = ticket) positions of
            None \<Rightarrow> None
          | Some p \<Rightarrow>
              if \<bar>pos_sl p - expected_sl\<bar> < sl_tp_tolerance \<and> \<bar>pos_tp p - expected_tp\<bar> < sl_tp_tolerance
              then Some (True, [Lit ''ticket='', f_int ticket, Lit '' confirmed ''] @ sl_tp_text (pos_sl p) (pos_tp p) @
                     [Lit '' match requested ''] @ sl_tp_text expected_sl expected_tp @
                     [Lit '' (''] @ attempt_text attempt attempts @ [Lit '')''])
              else if attempt + 1 = attempts
              then Some (False, [Lit ''ticket='', f_int ticket, Lit '' live ''] @ sl_tp_text (pos_sl p) (pos_tp p) @
                     [Lit '' does not match requested ''] @ sl_tp_text expected_sl expected_tp @
                     [Lit '' after '', f_int (int attempts), Lit '' attempts''])
              else None)
       [Lit ''ticket='', f_int ticket, Lit '' NOT found via get_positions_with_magic after '', f_int (int attempts),
        Lit '' attempts'']
       attempts attempts"

definition verify_present ::
  "'w env \<Rightarrow> 'w live AccountReader \<Rightarrow> int \<Rightarrow> string \<Rightarrow> nat \<Rightarrow> ('w, bool \<times> fstring) live_io" where
  "verify_present env account ticket symbol attempts =
     poll env (get_orders account (Some symbol) None)
       (\<lambda>attempt orders.
          if ticket \<in> ord_ticket ` set orders
          then Some (True, [Lit ''ticket='', f_int ticket, Lit '' confirmed present via get_pending_orders_with_magic (''] @
                 attempt_text attempt attempts @
                 [Lit ''); MT5-reported magic will read 0 (known upstream bug, see docs/mcp_tool_classification.md item 7) -- intended magic recorded separately in local state''])
          else None)
       [Lit ''ticket='', f_int ticket, Lit '' NOT found via get_pending_orders_with_magic after '', f_int (int attempts),
        Lit '' attempts -- submission retcode reported success, but state cannot confirm it'']
       attempts attempts"

section \<open>Submission\<close>

definition loads_response :: "string \<Rightarrow> ('w, TradeResponse) live_io" where
  "loads_response raw = lift_io (parse_trade_response raw)"

text \<open>A number in the answer, or none; Python would carry a value of another type along.\<close>

definition data_float :: "(string \<times> json) list \<Rightarrow> string \<Rightarrow> pyfloat option" where
  "data_float data k = (case map_of data k of Some (JFloat x) \<Rightarrow> Some x | Some (JInt n) \<Rightarrow> Some (fint n) | _ \<Rightarrow> None)"

definition data_int :: "(string \<times> json) list \<Rightarrow> string \<Rightarrow> int option" where
  "data_int data k = (case map_of data k of Some (JInt n) \<Rightarrow> Some n | _ \<Rightarrow> None)"

text \<open>\<^verbatim>\<open>x or None\<close>: 0 is none.\<close>

definition or_none :: "int option \<Rightarrow> int option" where
  "or_none x = (if x = Some 0 then None else x)"

definition response_data :: "TradeResponse \<Rightarrow> (string \<times> json) list result" where
  "response_data r = of_option AssertionError (resp_raw_data r)"

definition order_ticket :: "(string \<times> json) list \<Rightarrow> int result" where
  "order_ticket data = bind_res (of_option KeyError (map_of data ''order'')) int_of_json"

definition retcode_or_none :: "TradeResponse \<Rightarrow> int" where
  "retcode_or_none r = (case resp_retcode r of Some n \<Rightarrow> n | None \<Rightarrow> no_retcode)"

definition not_submitted :: "OrderPlan \<Rightarrow> TradeResponse \<Rightarrow> ExecutionResult" where
  "not_submitted plan r =
     (execution_result (Some plan) False (retcode_or_none r))
       \<lparr>er_broker_comment := resp_tool_message r,
        er_verification_details :=
          (case resp_retcode r of
             None \<Rightarrow> [Lit ''not submitted -- rejected before reaching MT5 (no data returned)'']
           | Some n \<Rightarrow> [Lit ''not submitted -- broker retcode='', f_int n, Lit '', did not confirm execution''])\<rparr>"

definition submitted ::
  "OrderPlan \<Rightarrow> TradeResponse \<Rightarrow> (string \<times> json) list \<Rightarrow> int \<Rightarrow> bool \<Rightarrow> fstring \<Rightarrow> ExecutionResult" where
  "submitted plan r data ticket verified details =
     (execution_result (Some plan) True (retcode_or_none r))
       \<lparr>er_ticket := Some ticket, er_deal := or_none (data_int data ''deal''),
        er_executed_price := data_float data ''price'', er_executed_volume := data_float data ''volume'',
        er_broker_comment := resp_tool_message r, er_verified := verified, er_verification_details := details\<rparr>"

definition record_of_submission ::
  "OrderPlan \<Rightarrow> TradeResponse \<Rightarrow> (string \<times> json) list \<Rightarrow> int \<Rightarrow> datetime \<Rightarrow> string \<Rightarrow> LocalOrderRecord" where
  "record_of_submission plan r data ticket submitted_at status =
     submission_record ticket (strategy_name_for_magic (op_magic plan)) plan (resp_retcode r)
       (data_float data ''price'') (data_float data ''volume'') (resp_tool_message r) submitted_at status"

definition pending_order_args :: "OrderPlan \<Rightarrow> (string \<times> json) list" where
  "pending_order_args plan =
     [(''symbol'', JStr (op_symbol plan)), (''volume'', JFloat (op_volume plan)), (''type'', JStr (side_str (op_side plan))),
      (''price'', json_option JFloat (op_price plan)), (''stop_loss'', JFloat (op_sl plan)),
      (''take_profit'', JFloat (op_tp plan))]"

definition market_order_args :: "OrderPlan \<Rightarrow> (string \<times> json) list" where
  "market_order_args plan =
     [(''symbol'', JStr (op_symbol plan)), (''volume'', JFloat (op_volume plan)), (''type'', JStr (side_str (op_side plan)))]"

definition modify_args :: "int \<Rightarrow> OrderPlan \<Rightarrow> (string \<times> json) list" where
  "modify_args ticket plan =
     [(''id'', JInt ticket), (''stop_loss'', JFloat (op_sl plan)), (''take_profit'', JFloat (op_tp plan))]"

definition submit_limit :: "'w env \<Rightarrow> 'w live AccountReader \<Rightarrow> OrderPlan \<Rightarrow> ('w, ExecutionResult) live_io" where
  "submit_limit env account plan =
     bind_io (call_tool env ''place_pending_order'' (pending_order_args plan)) (\<lambda>raw.
     bind_io (loads_response raw) (\<lambda>response.
       if \<not> resp_done response then return_io (not_submitted plan response)
       else
         bind_io (lift_io (response_data response)) (\<lambda>data.
         bind_io (lift_io (order_ticket data)) (\<lambda>ticket.
         bind_io (now_utc env) (\<lambda>submitted_at.
         bind_io (on_files (record_submission (record_of_submission plan response data ticket submitted_at ''OPEN''))) (\<lambda>_.
         bind_io (verify_present env account ticket (op_symbol plan) 3) (\<lambda>(verified, details).
           return_io (submitted plan response data ticket verified details))))))))"

text \<open>The mandatory second call of a MARKET order: one attempt, confirmed by a read.\<close>

definition attach_sl_tp :: "'w env \<Rightarrow> 'w live AccountReader \<Rightarrow> int \<Rightarrow> OrderPlan \<Rightarrow> ('w, bool \<times> fstring) live_io" where
  "attach_sl_tp env account ticket plan =
     bind_io
       (except_io (call_tool env ''modify_position'' (modify_args ticket plan))
          (\<lambda>e. raise_io (SlTpAttachmentFailedError ticket plan [Lit ''modify_position call raised: '', F_exn] None))) (\<lambda>raw.
     bind_io (loads_response raw) (\<lambda>response.
       if \<not> resp_done response
       then raise_io (SlTpAttachmentFailedError ticket plan
              [Lit ''modify_position not confirmed -- retcode='', f_opt f_int (resp_retcode response),
               Lit '', message='', F_repr (JText (resp_tool_message response))] (resp_retcode response))
       else
         bind_io (verify_sl_tp_attached env account ticket (op_symbol plan) (op_sl plan) (op_tp plan) 3) (\<lambda>(attached, details).
           if \<not> attached
           then raise_io (SlTpAttachmentFailedError ticket plan
                  ([Lit ''modify_position reported retcode='', f_opt f_int (resp_retcode response),
                    Lit '' but a fresh live read disagrees: ''] @ details) (resp_retcode response))
           else return_io (attached, details))))"

text \<open>What follows a confirmed MARKET order: record it as unprotected, look, protect, record that.\<close>

definition after_market ::
  "'w env \<Rightarrow> 'w live AccountReader \<Rightarrow> OrderPlan \<Rightarrow> TradeResponse \<Rightarrow> ('w, ExecutionResult) live_io" where
  "after_market env account plan response =
     bind_io (lift_io (response_data response)) (\<lambda>data.
     bind_io (lift_io (order_ticket data)) (\<lambda>ticket.
     bind_io (now_utc env) (\<lambda>submitted_at.
     bind_io (on_files (record_submission
         (record_of_submission plan response data ticket submitted_at ''OPEN_UNPROTECTED''))) (\<lambda>_.
     bind_io (verify_position_present env account ticket (op_symbol plan) 3) (\<lambda>(verified_open, open_details).
     bind_io (attach_sl_tp env account ticket plan) (\<lambda>(verified_attached, attach_details).
     bind_io (on_files (mark_sl_tp_attached ticket)) (\<lambda>_.
       return_io (submitted plan response data ticket (verified_open \<and> verified_attached)
         (open_details @ [Lit ''; ''] @ attach_details)))))))))"

definition submit_market :: "'w env \<Rightarrow> 'w live AccountReader \<Rightarrow> OrderPlan \<Rightarrow> ('w, ExecutionResult) live_io" where
  "submit_market env account plan =
     bind_io (lift_io (validate_market_sl_tp plan)) (\<lambda>_.
     bind_io (call_tool env ''place_market_order'' (market_order_args plan)) (\<lambda>raw.
     bind_io (loads_response raw) (\<lambda>response.
       if \<not> resp_done response then return_io (not_submitted plan response)
       else after_market env account plan response)))"

text \<open>Both order types are handled: the refusal of any other type cannot be reached.\<close>

definition mcp_submit :: "'w env \<Rightarrow> 'w live AccountReader \<Rightarrow> OrderPlan \<Rightarrow> ('w, ExecutionResult) live_io" where
  "mcp_submit env account plan =
     bind_io (executor_gate env account) (\<lambda>_.
     bind_io (current_posture env account) (\<lambda>check.
       if pc_posture check \<noteq> NORMAL then raise_io ExecutionBlockedError
       else if op_order_type plan = MARKET then submit_market env account plan
       else submit_limit env account plan))"

section \<open>Cancelling and closing\<close>

text \<open>What \<open>cancel\<close> and \<open>close_position\<close> ask of the posture.\<close>

definition require_attributed :: "PostureCheck \<Rightarrow> int \<Rightarrow> unit result" where
  "require_attributed check ticket =
     (if pc_posture check = BLOCKED then Inl ExecutionBlockedError
      else if pc_posture check = MANAGE_ONLY
      then (case pc_report check of
              None \<Rightarrow> Inl AssertionError
            | Some report \<Rightarrow>
                if ticket \<notin> set (rr_matched report) \<and> ticket \<notin> set (rr_local_only report)
                then Inl ExecutionBlockedError else Inr ())
      else Inr ())"

definition not_confirmed :: "int \<Rightarrow> TradeResponse \<Rightarrow> string \<Rightarrow> ExecutionResult" where
  "not_confirmed ticket r what =
     (execution_result None False (retcode_or_none r))
       \<lparr>er_ticket := Some ticket, er_broker_comment := resp_tool_message r,
        er_verification_details := [Lit (what @ '' not confirmed -- retcode=''), f_opt f_int (resp_retcode r)]\<rparr>"

definition confirmed :: "int \<Rightarrow> TradeResponse \<Rightarrow> bool \<Rightarrow> string \<Rightarrow> string \<Rightarrow> ExecutionResult" where
  "confirmed ticket r still_present where_read what =
     (execution_result None True (retcode_or_none r))
       \<lparr>er_ticket := Some ticket, er_broker_comment := resp_tool_message r, er_verified := \<not> still_present,
        er_verification_details :=
          (if \<not> still_present then [Lit ''ticket='', f_int ticket, Lit ('' confirmed absent from live '' @ where_read)]
           else [Lit ''ticket='', f_int ticket, Lit ('' still present in live '' @ where_read @ '' after a confirmed-done '' @ what @ '' retcode'')])\<rparr>"

definition mcp_cancel :: "'w env \<Rightarrow> 'w live AccountReader \<Rightarrow> int \<Rightarrow> ('w, ExecutionResult) live_io" where
  "mcp_cancel env account ticket =
     bind_io (executor_gate env account) (\<lambda>_.
     bind_io (current_posture env account) (\<lambda>check.
     bind_io (lift_io (require_attributed check ticket)) (\<lambda>_.
     bind_io (call_tool env ''cancel_pending_order'' [(''id'', JInt ticket)]) (\<lambda>raw.
     bind_io (loads_response raw) (\<lambda>response.
       if \<not> resp_done response then return_io (not_confirmed ticket response ''cancel'')
       else
         bind_io (get_orders account None None) (\<lambda>orders.
         bind_io (now_utc env) (\<lambda>now.
         bind_io (on_files (record_cancelled ticket [Lit ''cancel confirmed via McpOrderExecutor.cancel()''] now)) (\<lambda>_.
           return_io (confirmed ticket response (ticket \<in> ord_ticket ` set orders) ''orders'' ''cancel'')))))))))"

definition volume_check :: "'w live AccountReader \<Rightarrow> int \<Rightarrow> pyfloat option \<Rightarrow> ('w, unit) live_io" where
  "volume_check account ticket volume =
     (case volume of
        None \<Rightarrow> return_io ()
      | Some v \<Rightarrow>
          bind_io (get_positions account None None) (\<lambda>positions.
            case find (\<lambda>p. pos_ticket p = ticket) positions of
              None \<Rightarrow> raise_io ExecutionBlockedError
            | Some current \<Rightarrow>
                if \<bar>pos_volume current - v\<bar> > flt (1 / 10 ^ 9) then raise_io NotImplementedError else return_io ()))"

definition mcp_close_position ::
  "'w env \<Rightarrow> 'w live AccountReader \<Rightarrow> int \<Rightarrow> pyfloat option \<Rightarrow> ('w, ExecutionResult) live_io" where
  "mcp_close_position env account ticket volume =
     bind_io (executor_gate env account) (\<lambda>_.
     bind_io (current_posture env account) (\<lambda>check.
     bind_io (lift_io (require_attributed check ticket)) (\<lambda>_.
     bind_io (volume_check account ticket volume) (\<lambda>_.
     bind_io (call_tool env ''close_position'' [(''id'', JInt ticket)]) (\<lambda>raw.
     bind_io (loads_response raw) (\<lambda>response.
       if \<not> resp_done response then return_io (not_confirmed ticket response ''close'')
       else
         bind_io (get_positions account None None) (\<lambda>positions.
         bind_io (now_utc env) (\<lambda>now.
         bind_io (on_files (record_closed ticket [Lit ''close confirmed via McpOrderExecutor.close_position()''] now)) (\<lambda>_.
           let data = (case resp_raw_data response of None \<Rightarrow> [] | Some d \<Rightarrow> d)
           in return_io
                ((confirmed ticket response (ticket \<in> pos_ticket ` set positions) ''positions'' ''close'')
                   \<lparr>er_deal := data_int data ''deal'', er_executed_price := data_float data ''price''\<rparr>))))))))))"

definition McpOrderExecutor :: "'w env \<Rightarrow> 'w live AccountReader \<Rightarrow> 'w live OrderExecutor" where
  "McpOrderExecutor env account =
     \<lparr> submit = mcp_submit env account, cancel = mcp_cancel env account,
       close_position = mcp_close_position env account \<rparr>"

section \<open>The trading calls of a run\<close>

definition is_trade :: "string \<times> (string \<times> json) list \<Rightarrow> bool" where
  "is_trade c \<longleftrightarrow> fst c \<in> set trading_tools"

text \<open>\<open>L\<close> are the trading calls made between two states, in the order they were made.\<close>

definition trades_added :: "'w live \<Rightarrow> 'w live \<Rightarrow> (string \<times> (string \<times> json) list) list \<Rightarrow> bool" where
  "trades_added s t L \<longleftrightarrow> (\<exists>new. l_calls t = new @ l_calls s \<and> rev (filter is_trade new) = L)"

lemma trades_refl [simp]: "trades_added s s []"
  by (simp add: trades_added_def)

lemma trades_trans: "trades_added s t L \<Longrightarrow> trades_added t u M \<Longrightarrow> trades_added s u (L @ M)"
  unfolding trades_added_def by (elim exE conjE) (rule_tac x = "newa @ new" in exI, simp)

lemma trades_none: "calls_only reader_tools s t \<Longrightarrow> trades_added s t []"
proof -
  assume "calls_only reader_tools s t"
  then obtain new where new: "l_calls t = new @ l_calls s" "fst ` set new \<subseteq> reader_tools"
    by (auto simp: calls_only_def)
  then have "filter is_trade new = []"
    using tools_disjoint reader_tools_read_only by (auto simp: filter_empty_conv is_trade_def)
  then show ?thesis using new(1) by (auto simp: trades_added_def)
qed

text \<open>Every run of a program, returning or raising, makes one of these sequences of trading calls.\<close>

definition emits :: "(string \<times> (string \<times> json) list) list set \<Rightarrow> ('w, 'a) live_io \<Rightarrow> bool" where
  "emits C m \<longleftrightarrow> (\<forall>s. \<exists>L \<in> C. trades_added s (snd (m s)) L)"

lemma emitsD: "emits C m \<Longrightarrow> m s = (r, t) \<Longrightarrow> \<exists>L \<in> C. trades_added s t L"
  unfolding emits_def by (metis snd_conv)

lemma emits_mono: "emits C m \<Longrightarrow> C \<subseteq> D \<Longrightarrow> emits D m"
  unfolding emits_def by blast

lemma quiet_emits: "keeps (calls_only reader_tools) m \<Longrightarrow> [] \<in> C \<Longrightarrow> emits C m"
  unfolding emits_def keeps_def using trades_none by blast

lemma emits_bind:
  assumes "emits A m" "\<And>x. emits B (f x)" "A \<subseteq> C" "\<And>L M. L \<in> A \<Longrightarrow> M \<in> B \<Longrightarrow> L @ M \<in> C"
  shows "emits C (bind_io m f)"
  unfolding emits_def
proof
  fix s
  obtain r t where run: "bind_io m f s = (r, t)" by fastforce
  then have "\<exists>L \<in> C. trades_added s t L"
  proof (cases rule: bind_ioE)
    case (stop e)
    then show ?thesis using emitsD [OF assms(1)] assms(3) by blast
  next
    case (go x s')
    obtain L where "L \<in> A" "trades_added s s' L" using emitsD [OF assms(1) go(1)] by blast
    moreover obtain M where "M \<in> B" "trades_added s' t M" using emitsD [OF assms(2) go(2)] by blast
    ultimately show ?thesis using assms(4) trades_trans by blast
  qed
  then show "\<exists>L \<in> C. trades_added s (snd (bind_io m f s)) L" by (simp add: run)
qed

lemma emits_quiet_then:
  "keeps (calls_only reader_tools) m \<Longrightarrow> (\<And>x. emits C (f x)) \<Longrightarrow> [] \<in> C \<Longrightarrow> emits C (bind_io m f)"
  by (rule emits_bind [of "{[]}"]) (auto intro: quiet_emits)

lemma emits_then_quiet:
  "emits C m \<Longrightarrow> (\<And>x. keeps (calls_only reader_tools) (f x)) \<Longrightarrow> emits C (bind_io m f)"
  by (rule emits_bind [of C _ "{[]}"]) (auto intro: quiet_emits)

lemma emits_if: "emits C m \<Longrightarrow> emits C n \<Longrightarrow> emits C (if b then m else n)"
  by simp

lemma emits_pair: "(\<And>a b. emits C (f a b)) \<Longrightarrow> emits C (case p of (a, b) \<Rightarrow> f a b)"
  by (cases p) auto

text \<open>A call refused by the gate makes no call; what follows it then does not run.\<close>

lemma call_tool_trades:
  "call_tool env name args s = (r, t) \<Longrightarrow> name \<in> set trading_tools \<Longrightarrow>
   trades_added s t [(name, args)] \<or> (trades_added s t [] \<and> (\<exists>e. r = Inl e))"
  by (auto simp: call_tool_def trades_added_def is_trade_def split: if_splits sum.splits prod.splits)

lemma call_tool_emits: "name \<in> set trading_tools \<Longrightarrow> emits {[], [(name, args)]} (call_tool env name args)"
proof -
  assume name: "name \<in> set trading_tools"
  have "\<exists>L \<in> {[], [(name, args)]}. trades_added s t L" if "call_tool env name args s = (r, t)" for s r t
    using call_tool_trades [OF that name] by blast
  then show ?thesis unfolding emits_def by (metis prod.collapse)
qed

lemma emits_call:
  assumes "name \<in> set trading_tools" "\<And>x. emits B (f x)"
  shows "emits ({[], [(name, args)]} \<union> (\<lambda>L. (name, args) # L) ` B) (bind_io (call_tool env name args) f)"
  unfolding emits_def
proof
  fix s
  let ?C = "{[], [(name, args)]} \<union> (\<lambda>L. (name, args) # L) ` B"
  obtain r t where run: "bind_io (call_tool env name args) f s = (r, t)" by fastforce
  then have "\<exists>L \<in> ?C. trades_added s t L"
  proof (cases rule: bind_ioE)
    case (stop e)
    then show ?thesis using call_tool_trades [OF stop(1) assms(1)] by blast
  next
    case (go x s')
    then have call: "trades_added s s' [(name, args)]" using call_tool_trades [OF go(1) assms(1)] by blast
    obtain L where L: "L \<in> B" "trades_added s' t L" using emitsD [OF assms(2) go(2)] by blast
    show ?thesis
      using trades_trans [OF call L(2)] L(1) by (intro bexI [of _ "(name, args) # L"]) auto
  qed
  then show "\<exists>L \<in> ?C. trades_added s (snd (bind_io (call_tool env name args) f s)) L" by (simp add: run)
qed

lemma except_else_keeps:
  assumes "effect R" "keeps R m" "\<And>e. keeps R (h e)" "\<And>x. keeps R (k x)"
  shows "keeps R (except_else_io m h k)"
  unfolding except_else_io_def
  by (rule effect.keeps_bind [OF assms(1)])
    (auto intro!: effect.keeps_try [OF assms(1)] effect.keeps_pure [OF assms(1)] assms(2-4) split: sum.split)

text \<open>A read of the positions that shows the ticket with both levels.\<close>

definition protected_in :: "OrderPlan \<Rightarrow> int \<Rightarrow> PositionState list \<Rightarrow> bool" where
  "protected_in plan ticket positions \<longleftrightarrow> (\<exists>p \<in> set positions. pos_ticket p = ticket \<and>
     \<bar>pos_sl p - op_sl plan\<bar> < sl_tp_tolerance \<and> \<bar>pos_tp p - op_tp plan\<bar> < sl_tp_tolerance)"

section \<open>An account that only reads\<close>

locale quiet_account =
  fixes account :: "'w live AccountReader"
  assumes state_calls: "keeps (calls_only reader_tools) (get_account_state account)"
    and positions_calls: "keeps (calls_only reader_tools) (get_positions account symbol magic)"
    and orders_calls: "keeps (calls_only reader_tools) (get_orders account symbol magic)"
    and state_files: "keeps same_files (get_account_state account)"
    and positions_files: "keeps same_files (get_positions account symbol magic)"
    and orders_files: "keeps same_files (get_orders account symbol magic)"
begin

lemma gate_calls: "keeps (calls_only reader_tools) (executor_gate env account)"
  and gate_files: "keeps same_files (executor_gate env account)"
  unfolding executor_gate_def require_demo_account_def
  by (intro calls.keeps_rules state_calls) (intro files.keeps_rules state_files)

lemma read_files_calls: "keeps (calls_only A) (read_files f)"
  unfolding read_files_def by (rule on_files_calls)

lemma explain_calls: "keeps (calls_only reader_tools) (explain_unknown_real env report local_open)"
  unfolding explain_unknown_real_def gather_evidence_def Let_def
  by (intro except_else_keeps [OF calls.effect_axioms] calls.keeps_rules read_files_calls now_utc_calls
      readers_calls on_files_calls)

lemma posture_calls: "keeps (calls_only reader_tools) (current_posture env account)"
  unfolding current_posture_def posture_check_def Let_def
  by (intro calls.keeps_rules read_files_calls positions_calls orders_calls explain_calls)

lemma poll_keeps:
  assumes "effect R" "keeps R read" "\<And>d. keeps R (sleep env d)"
  shows "keeps R (poll env read decide gave_up n k)"
proof (induction k)
  case (Suc k)
  then show ?case
    unfolding poll.simps
    by (intro effect.keeps_rules [OF assms(1)] assms(2,3))
qed (simp add: effect.keeps_rules [OF assms(1)])

lemma verify_calls:
  "keeps (calls_only reader_tools) (verify_present env account ticket symbol n)"
  "keeps (calls_only reader_tools) (verify_position_present env account ticket symbol n)"
  "keeps (calls_only reader_tools) (verify_sl_tp_attached env account ticket symbol sl tp n)"
  and verify_files:
  "keeps same_files (verify_present env account ticket symbol n)"
  "keeps same_files (verify_position_present env account ticket symbol n)"
  "keeps same_files (verify_sl_tp_attached env account ticket symbol sl tp n)"
  unfolding verify_present_def verify_position_present_def verify_sl_tp_attached_def
  by (intro poll_keeps calls.effect_axioms positions_calls orders_calls sleep_calls)+
    (intro poll_keeps files.effect_axioms positions_files orders_files sleep_files)+

lemma volume_calls: "keeps (calls_only reader_tools) (volume_check account ticket volume)"
  unfolding volume_check_def by (intro calls.keeps_rules positions_calls)

lemma lift_calls: "keeps (calls_only A) (loads_response raw)"
  unfolding loads_response_def by (intro calls.keeps_rules)

text \<open>The trading calls of the three operations, after the checks.\<close>

lemma submit_limit_emits:
  "emits {[], [(''place_pending_order'', pending_order_args plan)]} (submit_limit env account plan)"
  unfolding submit_limit_def
  by (rule emits_mono [OF emits_call [of _ "{[]}"]])
    (auto simp: trading_tools_def
      intro!: quiet_emits calls.keeps_rules lift_calls now_utc_calls on_files_calls verify_calls)

lemma attach_emits:
  "emits {[], [(''modify_position'', modify_args ticket plan)]} (attach_sl_tp env account ticket plan)"
  unfolding attach_sl_tp_def
proof (rule emits_then_quiet)
  have "snd (except_io m (\<lambda>e. raise_io (g e)) s) = snd (m s)"
    for m :: "('w, string) live_io" and g :: "exn \<Rightarrow> exn" and s
    by (cases "m s") (auto simp: except_io_def io_simps split: sum.split)
  then show "emits {[], [(''modify_position'', modify_args ticket plan)]}
      (except_io (call_tool env ''modify_position'' (modify_args ticket plan))
        (\<lambda>e. raise_io (SlTpAttachmentFailedError ticket plan [Lit ''modify_position call raised: '', F_exn] None)))"
    using call_tool_emits [of "''modify_position''" "modify_args ticket plan" env]
    by (simp add: emits_def trading_tools_def)
qed (intro calls.keeps_rules lift_calls verify_calls)

lemma after_market_emits:
  "emits (insert [] (range (\<lambda>ticket. [(''modify_position'', modify_args ticket plan)])))
     (after_market env account plan response)"
  unfolding after_market_def
  by (intro emits_quiet_then emits_pair calls.keeps_rules now_utc_calls on_files_calls verify_calls
      emits_then_quiet [OF emits_mono [OF attach_emits]]) auto

lemma submit_market_emits:
  "emits ({[], [(''place_market_order'', market_order_args plan)]} \<union>
      range (\<lambda>ticket. [(''place_market_order'', market_order_args plan), (''modify_position'', modify_args ticket plan)]))
     (submit_market env account plan)"
  unfolding submit_market_def
proof (rule emits_quiet_then)
  show "emits ({[], [(''place_market_order'', market_order_args plan)]} \<union>
      range (\<lambda>ticket. [(''place_market_order'', market_order_args plan), (''modify_position'', modify_args ticket plan)]))
     (bind_io (call_tool env ''place_market_order'' (market_order_args plan)) (\<lambda>raw.
       bind_io (loads_response raw) (\<lambda>response.
         if \<not> resp_done response then return_io (not_submitted plan response)
         else after_market env account plan response)))"
  proof (rule emits_mono [OF emits_call])
    show "emits (insert [] (range (\<lambda>ticket. [(''modify_position'', modify_args ticket plan)])))
        (bind_io (loads_response raw) (\<lambda>response.
         if \<not> resp_done response then return_io (not_submitted plan response)
         else after_market env account plan response))" for raw
      by (intro emits_quiet_then emits_if lift_calls after_market_emits quiet_emits calls.keeps_rules) auto
  qed (auto simp: trading_tools_def)
qed (auto intro: calls.keeps_rules)

lemma gate_demo: "executor_gate env account s = (Inr x, t) \<Longrightarrow> e_account_kind env = Some ''DEMO''"
  by (auto simp: executor_gate_def require_demo_account_kind_def io_simps split: if_splits)

lemma submit_trades:
  assumes "mcp_submit env account plan s = (r, t)"
  shows "trades_added s t [] \<or> (e_account_kind env = Some ''DEMO'' \<and>
    (\<exists>s1 s2 check. executor_gate env account s = (Inr (), s1) \<and> current_posture env account s1 = (Inr check, s2) \<and>
       pc_posture check = NORMAL \<and>
       (\<exists>r'. (if op_order_type plan = MARKET then submit_market env account plan s2 else submit_limit env account plan s2) = (r', t) \<and>
         trades_added s s2 [])))"
  using assms unfolding mcp_submit_def
proof (cases rule: bind_ioE)
  case (stop e)
  then show ?thesis using trades_none keepsD [OF gate_calls] by blast
next
  case gate: (go u s1)
  note q1 = trades_none [OF keepsD [OF gate_calls gate(1)]]
  from gate(2) show ?thesis
  proof (cases rule: bind_ioE)
    case (stop e)
    then show ?thesis using trades_trans [OF q1 trades_none [OF keepsD [OF posture_calls stop(1)]]] by simp
  next
    case posture: (go check s2)
    note q2 = trades_trans [OF q1 trades_none [OF keepsD [OF posture_calls posture(1)]]]
    show ?thesis
    proof (cases "pc_posture check = NORMAL")
      case True
      then show ?thesis
        using gate(1) posture q2 gate_demo [OF gate(1)] by (auto split: if_splits)
    next
      case False
      then show ?thesis using posture(2) q2 by (auto simp: io_simps)
    qed
  qed
qed

lemma manage_trades:
  assumes "bind_io (executor_gate env account) (\<lambda>_.
     bind_io (current_posture env account) (\<lambda>check.
     bind_io (lift_io (require_attributed check ticket)) (\<lambda>_. k))) s = (r, t)"
    and "emits {[], [c]} k"
  shows "trades_added s t [] \<or> (e_account_kind env = Some ''DEMO'' \<and> trades_added s t [c] \<and>
    (\<exists>s1 s2 check. current_posture env account s1 = (Inr check, s2) \<and> require_attributed check ticket = Inr ()))"
  using assms(1)
proof (cases rule: bind_ioE)
  case (stop e)
  then show ?thesis using trades_none keepsD [OF gate_calls] by blast
next
  case gate: (go u s1)
  note q1 = trades_none [OF keepsD [OF gate_calls gate(1)]]
  from gate(2) show ?thesis
  proof (cases rule: bind_ioE)
    case (stop e)
    then show ?thesis using trades_trans [OF q1 trades_none [OF keepsD [OF posture_calls stop(1)]]] by simp
  next
    case posture: (go check s2)
    note q2 = trades_trans [OF q1 trades_none [OF keepsD [OF posture_calls posture(1)]]]
    from posture(2) show ?thesis
    proof (cases rule: bind_ioE)
      case (stop e)
      then show ?thesis using q2 by (simp add: io_simps)
    next
      case (go v s3)
      then have "s3 = s2" "require_attributed check ticket = Inr ()" by (simp_all add: io_simps)
      moreover obtain L where "L \<in> {[], [c]}" "trades_added s3 t L" using emitsD [OF assms(2) go(2)] by blast
      ultimately show ?thesis
        using trades_trans [OF q2, of t L] posture(1) gate_demo [OF gate(1)] by auto
    qed
  qed
qed

lemma cancel_trades:
  assumes "mcp_cancel env account ticket s = (r, t)"
  shows "trades_added s t [] \<or>
    (e_account_kind env = Some ''DEMO'' \<and> trades_added s t [(''cancel_pending_order'', [(''id'', JInt ticket)])] \<and>
    (\<exists>s1 s2 check. current_posture env account s1 = (Inr check, s2) \<and> require_attributed check ticket = Inr ()))"
proof (rule manage_trades [OF assms [unfolded mcp_cancel_def]])
  show "emits {[], [(''cancel_pending_order'', [(''id'', JInt ticket)])]}
      (bind_io (call_tool env ''cancel_pending_order'' [(''id'', JInt ticket)]) (\<lambda>raw.
       bind_io (loads_response raw) (\<lambda>response.
       if \<not> resp_done response then return_io (not_confirmed ticket response ''cancel'')
       else
         bind_io (get_orders account None None) (\<lambda>orders.
         bind_io (now_utc env) (\<lambda>now.
         bind_io (on_files (record_cancelled ticket [Lit ''cancel confirmed via McpOrderExecutor.cancel()''] now)) (\<lambda>_.
           return_io (confirmed ticket response (ticket \<in> ord_ticket ` set orders) ''orders'' ''cancel'')))))))"
    by (rule emits_then_quiet [OF call_tool_emits])
      (auto simp: trading_tools_def intro!: calls.keeps_rules lift_calls now_utc_calls on_files_calls orders_calls)
qed

lemma close_trades:
  assumes "mcp_close_position env account ticket volume s = (r, t)"
  shows "trades_added s t [] \<or>
    (e_account_kind env = Some ''DEMO'' \<and> trades_added s t [(''close_position'', [(''id'', JInt ticket)])] \<and>
    (\<exists>s1 s2 check. current_posture env account s1 = (Inr check, s2) \<and> require_attributed check ticket = Inr ()))"
proof (rule manage_trades [OF assms [unfolded mcp_close_position_def]])
  show "emits {[], [(''close_position'', [(''id'', JInt ticket)])]}
     (bind_io (volume_check account ticket volume) (\<lambda>_.
     bind_io (call_tool env ''close_position'' [(''id'', JInt ticket)]) (\<lambda>raw.
     bind_io (loads_response raw) (\<lambda>response.
       if \<not> resp_done response then return_io (not_confirmed ticket response ''close'')
       else
         bind_io (get_positions account None None) (\<lambda>positions.
         bind_io (now_utc env) (\<lambda>now.
         bind_io (on_files (record_closed ticket [Lit ''close confirmed via McpOrderExecutor.close_position()''] now)) (\<lambda>_.
           let data = (case resp_raw_data response of None \<Rightarrow> [] | Some d \<Rightarrow> d)
           in return_io
                ((confirmed ticket response (ticket \<in> pos_ticket ` set positions) ''positions'' ''close'')
                   \<lparr>er_deal := data_int data ''deal'', er_executed_price := data_float data ''price''\<rparr>))))))))"
    unfolding Let_def
    by (rule emits_quiet_then [OF volume_calls emits_then_quiet [OF call_tool_emits]])
      (auto simp: trading_tools_def intro!: calls.keeps_rules lift_calls now_utc_calls on_files_calls positions_calls)
qed

text \<open>What a NORMAL posture says about the account as it was read.\<close>

lemma explain_result:
  assumes "explain_unknown_real env report local_open s = (Inr report', t)"
  shows "report' = report \<or>
    (\<forall>ticket \<in> set (rr_unknown_real report). ticket \<in> set (rr_unknown_real report') \<or>
       (\<exists>deals off ev. strong_evidence local_open deals off ticket ev))"
proof (cases "gather_evidence env report local_open s")
  case (Pair g s1)
  show ?thesis
  proof (cases g)
    case (Inl e)
    then show ?thesis
      using assms Pair by (auto simp: explain_unknown_real_def except_else_io_def io_simps split: if_splits)
  next
    case (Inr cl)
    then have "report' = report\<lparr>rr_unknown_real := cl_unexplained cl\<rparr>"
      using assms Pair by (auto simp: explain_unknown_real_def except_else_io_def io_simps split: prod.splits sum.splits)
    moreover obtain deals off where classified: "classify_unknown_real_tickets (rr_unknown_real report) local_open deals off = Inr cl"
      using Pair Inr unfolding gather_evidence_def Let_def
      by (auto simp: bind_io_Inr lift_io_def)
    have "ticket \<in> set (cl_unexplained cl) \<or> (\<exists>deals off ev. strong_evidence local_open deals off ticket ev)"
      if "ticket \<in> set (rr_unknown_real report)" for ticket
      using classify_explains [OF classified that] by blast
    ultimately show ?thesis by simp
  qed
qed

lemma normal_posture:
  assumes "current_posture env account s = (Inr check, t)" "pc_posture check = NORMAL"
  obtains local_open positions orders s1 s2 where "State_Store.all_open (l_files s) = Inr local_open"
    "get_positions account None None s = (Inr positions, s1)" "get_orders account None None s1 = (Inr orders, s2)"
    "\<And>ticket. ticket \<in> pos_ticket ` set positions \<union> ord_ticket ` set orders \<Longrightarrow>
       ticket \<in> lr_ticket ` set local_open \<or> (\<exists>deals off ev. strong_evidence local_open deals off ticket ev)"
proof -
  have loaded: "try_io (read_files State_Store.all_open) s = (Inr (State_Store.all_open (l_files s)), s)"
    by (simp add: try_io_def read_files_def on_files_def)
  note step = bind_io_go [where m = "try_io (read_files State_Store.all_open)" and s = s, OF loaded]
  note run = assms(1) [unfolded current_posture_def step]
  show thesis
  proof (cases "State_Store.all_open (l_files s)")
    case (Inl e)
    then show thesis
      using run assms(2) by (auto simp: posture_check_def determine_posture_def io_simps split: if_splits)
  next
    case loc: (Inr local_open)
    obtain positions s1 where pos: "get_positions account None None s = (Inr positions, s1)"
        and run1: "bind_io (get_orders account None None) (\<lambda>orders.
           let report = reconcile local_open positions orders
           in bind_io (if rr_unknown_real report \<noteq> [] \<and> local_open \<noteq> []
                       then explain_unknown_real env report local_open else return_io report) (\<lambda>report.
                posture_check (Some report) None)) s1 = (Inr check, t)"
      using run by (auto simp: loc bind_io_Inr)
    obtain orders s2 where ord: "get_orders account None None s1 = (Inr orders, s2)"
        and run2: "bind_io (if rr_unknown_real (reconcile local_open positions orders) \<noteq> [] \<and> local_open \<noteq> []
             then explain_unknown_real env (reconcile local_open positions orders) local_open
             else return_io (reconcile local_open positions orders)) (\<lambda>report. posture_check (Some report) None) s2 = (Inr check, t)"
      using run1 by (auto simp: bind_io_Inr Let_def)
    obtain report s3 where rep: "(if rr_unknown_real (reconcile local_open positions orders) \<noteq> [] \<and> local_open \<noteq> []
             then explain_unknown_real env (reconcile local_open positions orders) local_open
             else return_io (reconcile local_open positions orders)) s2 = (Inr report, s3)"
        and "posture_check (Some report) None s3 = (Inr check, t)"
      using run2 by (auto simp only: bind_io_Inr)
    then have none: "rr_unknown_real report = []"
      using assms(2) by (auto simp: posture_check_def determine_posture_def io_simps split: if_splits)
    have known: "ticket \<in> lr_ticket ` set local_open \<or> (\<exists>deals off ev. strong_evidence local_open deals off ticket ev)"
      if real: "ticket \<in> pos_ticket ` set positions \<union> ord_ticket ` set orders" for ticket
    proof (cases "ticket \<in> set (rr_unknown_real (reconcile local_open positions orders))")
      case True
      then have "explain_unknown_real env (reconcile local_open positions orders) local_open s2 = (Inr report, s3)"
        using rep none by (auto simp: return_io_def split: if_splits)
      then have "report = reconcile local_open positions orders \<or>
          (\<forall>ticket \<in> set (rr_unknown_real (reconcile local_open positions orders)). ticket \<in> set (rr_unknown_real report) \<or>
             (\<exists>deals off ev. strong_evidence local_open deals off ticket ev))"
        by (rule explain_result)
      then have "(\<exists>deals off ev. strong_evidence local_open deals off ticket ev)"
        using True none by (metis empty_iff empty_set)
      then show ?thesis ..
    next
      case False
      then have "ticket \<in> local_tickets local_open"
        using real unfolding reconcile_sets(3) real_tickets_def by blast
      then show ?thesis unfolding local_tickets_def by blast
    qed
    show thesis by (rule that [OF loc pos ord known])
  qed
qed

text \<open>A poll that says yes has read what it says.\<close>

lemma poll_true:
  assumes "poll env read decide gave_up n k s = (Inr (True, d), t)"
  shows "\<exists>xs s1 s2 a. read s1 = (Inr xs, s2) \<and> decide a xs = Some (True, d)"
  using assms
proof (induction k arbitrary: s)
  case (Suc k)
  from Suc.prems show ?case
    unfolding poll.simps
  proof (cases rule: bind_ioE)
    case (go xs s1)
    show ?thesis
    proof (cases "decide (n - Suc k) xs")
      case None
      then show ?thesis using go(2) Suc.IH by (auto simp: bind_io_Inr)
    next
      case (Some r)
      then show ?thesis using go by (auto simp: return_io_def)
    qed
  qed simp
qed (simp add: return_io_def)

lemma attach_confirmed:
  assumes "attach_sl_tp env account ticket plan s = (Inr (a, d), t)"
  shows "a \<and> (\<exists>s1 s2 positions. get_positions account (Some (op_symbol plan)) None s1 = (Inr positions, s2) \<and>
    protected_in plan ticket positions)"
proof -
  obtain s3 where "a" and poll: "verify_sl_tp_attached env account ticket (op_symbol plan) (op_sl plan) (op_tp plan) 3 s3 = (Inr (True, d), t)"
    using assms unfolding attach_sl_tp_def
    by (auto simp: bind_io_Inr return_io_def raise_io_def split: if_splits)
  obtain xs s1 s2 i where read: "get_positions account (Some (op_symbol plan)) None s1 = (Inr xs, s2)"
      and decide: "(case find (\<lambda>p. pos_ticket p = ticket) xs of None \<Rightarrow> None | Some p \<Rightarrow>
         if \<bar>pos_sl p - op_sl plan\<bar> < sl_tp_tolerance \<and> \<bar>pos_tp p - op_tp plan\<bar> < sl_tp_tolerance
         then Some (True, [Lit ''ticket='', f_int ticket, Lit '' confirmed ''] @ sl_tp_text (pos_sl p) (pos_tp p) @
                     [Lit '' match requested ''] @ sl_tp_text (op_sl plan) (op_tp plan) @
                     [Lit '' (''] @ attempt_text i 3 @ [Lit '')''])
         else if i + 1 = 3
         then Some (False, [Lit ''ticket='', f_int ticket, Lit '' live ''] @ sl_tp_text (pos_sl p) (pos_tp p) @
                     [Lit '' does not match requested ''] @ sl_tp_text (op_sl plan) (op_tp plan) @
                     [Lit '' after '', f_int (int 3), Lit '' attempts''])
         else None) = Some (True, d)"
    using poll_true [OF poll [unfolded verify_sl_tp_attached_def]] by blast
  then obtain p where "find (\<lambda>p. pos_ticket p = ticket) xs = Some p"
      "\<bar>pos_sl p - op_sl plan\<bar> < sl_tp_tolerance" "\<bar>pos_tp p - op_tp plan\<bar> < sl_tp_tolerance"
    by (auto split: option.splits if_splits)
  then have "protected_in plan ticket xs"
    unfolding protected_in_def by (blast dest: find_Some_iff')
  then show ?thesis using read \<open>a\<close> by blast
qed

lemma attach_files: "keeps same_files (attach_sl_tp env account ticket plan)"
proof -
  have "keeps same_files (except_io (call_tool env ''modify_position'' args) (\<lambda>e. raise_io (g e)))" for args and g :: "exn \<Rightarrow> exn"
    by (rule except_io_files) (intro call_tool_files files.keeps_rules)+
  then show ?thesis
    unfolding attach_sl_tp_def loads_response_def
    by (intro files.keeps_rules verify_files)
qed

lemma mark_files:
  assumes "mark_sl_tp_attached ticket fs = (x, fs')"
  shows "isl x \<Longrightarrow> fs' = fs"
  using assms by (auto simp: mark_sl_tp_attached_def update_record_def io_simps split: sum.splits option.splits)

lemma on_files_result: "on_files m s = (x, t) \<Longrightarrow> m (l_files s) = (x, l_files t)"
  by (auto simp: on_files_def split: prod.splits)

lemma submitted_fields:
  "er_success (submitted plan response data ticket v d)" "er_ticket (submitted plan response data ticket v d) = Some ticket"
  by (simp_all add: submitted_def execution_result_def)

lemma after_market_files:
  assumes "after_market env account plan response s = (r, t)"
    and "response_data response = Inr data" "order_ticket data = Inr ticket"
  shows "\<exists>submitted_at. let fs = write_one (record_of_submission plan response data ticket submitted_at ''OPEN_UNPROTECTED'') (l_files s)
    in case r of
         Inl e \<Rightarrow> l_files t = fs
       | Inr result \<Rightarrow> mark_sl_tp_attached ticket fs = (Inr (), l_files t) \<and> er_success result \<and> er_ticket result = Some ticket \<and>
           (\<exists>s1 s2 positions. get_positions account (Some (op_symbol plan)) None s1 = (Inr positions, s2) \<and>
              protected_in plan ticket positions)"
proof -
  let ?at = "Aware (e_clock env (l_clock_reads s))"
  let ?stored = "record_of_submission plan response data ticket ?at ''OPEN_UNPROTECTED''"
  let ?fs = "write_one ?stored (l_files s)"
  define s1 where "s1 = s\<lparr>l_clock_reads := l_clock_reads s + 1, l_files := ?fs\<rparr>"
  have files: "l_files s1 = ?fs" by (simp add: s1_def)
  have clock: "now_utc env s = (Inr ?at, s\<lparr>l_clock_reads := l_clock_reads s + 1\<rparr>)"
    by (simp add: now_utc_def)
  have store: "on_files (record_submission ?stored) (s\<lparr>l_clock_reads := l_clock_reads s + 1\<rparr>) = (Inr (), s1)"
    by (simp add: on_files_def record_submission_def modify_io_def s1_def)
  note step1 = bind_io_go [where m = "now_utc env" and s = s, OF clock]
  note step2 = bind_io_go [where m = "on_files (record_submission ?stored)"
      and s = "s\<lparr>l_clock_reads := l_clock_reads s + 1\<rparr>", OF store]
  note run = assms(1) [unfolded after_market_def assms(2,3) bind_io_lift step1 step2]
  show ?thesis
    unfolding Let_def
  proof (rule exI [of _ ?at])
    from run show "case r of Inl e \<Rightarrow> l_files t = ?fs
       | Inr result \<Rightarrow> mark_sl_tp_attached ticket ?fs = (Inr (), l_files t) \<and> er_success result \<and> er_ticket result = Some ticket \<and>
           (\<exists>s1 s2 positions. get_positions account (Some (op_symbol plan)) None s1 = (Inr positions, s2) \<and>
              protected_in plan ticket positions)"
    proof (cases rule: bind_ioE)
      case (stop e)
      then show ?thesis using keepsD [OF verify_files(2) stop(1)] files by (simp add: same_files_def)
    next
      case present: (go x s2)
      obtain vo od where x: "x = (vo, od)" by (cases x)
      have f2: "l_files s2 = ?fs" using keepsD [OF verify_files(2) present(1)] files by (simp add: same_files_def)
      from present(2) show ?thesis
        unfolding x prod.case
      proof (cases rule: bind_ioE)
        case (stop e)
        then show ?thesis using keepsD [OF attach_files stop(1)] f2 by (simp add: same_files_def)
      next
        case attach: (go y s3)
        obtain va ad where y: "y = (va, ad)" by (cases y)
        have f3: "l_files s3 = ?fs" using keepsD [OF attach_files attach(1)] f2 by (simp add: same_files_def)
        from attach(2) show ?thesis
          unfolding y prod.case
        proof (cases rule: bind_ioE)
          case (stop e)
          then have "mark_sl_tp_attached ticket ?fs = (Inl e, l_files t)"
            using on_files_result [OF stop(1)] f3 by simp
          then have "l_files t = ?fs" by (rule mark_files) simp
          then show ?thesis using stop(2) by simp
        next
          case (go u s4)
          then have "mark_sl_tp_attached ticket ?fs = (Inr (), l_files s4)"
            using on_files_result [OF go(1)] f3 by simp
          moreover have "Inr (submitted plan response data ticket (vo \<and> va) (od @ [Lit ''; ''] @ ad)) = r" "s4 = t"
            using go(2) unfolding return_io_def by simp_all
          moreover have "\<exists>s1 s2 positions. get_positions account (Some (op_symbol plan)) None s1 = (Inr positions, s2) \<and>
              protected_in plan ticket positions"
            using attach_confirmed [OF attach(1) [unfolded y]] by (rule conjunct2)
          moreover note submitted_fields [of plan response data ticket "vo \<and> va" "od @ [Lit ''; ''] @ ad"]
          ultimately show ?thesis by (elim subst) (simp only: sum.case simp_thms)
        qed
      qed
    qed
  qed
qed

end

interpretation mcp: quiet_account "McpAccountReader env" for env
  by unfold_locales (simp_all add: McpAccountReader_def readers_calls readers_files)

section \<open>Safety of the live executor\<close>

text \<open>What one submission may send.\<close>

definition submission_calls :: "OrderPlan \<Rightarrow> (string \<times> (string \<times> json) list) list set" where
  "submission_calls plan =
     (if op_order_type plan = MARKET
      then insert [(''place_market_order'', market_order_args plan)]
        (range (\<lambda>ticket. [(''place_market_order'', market_order_args plan), (''modify_position'', modify_args ticket plan)]))
      else {[(''place_pending_order'', pending_order_args plan)]})"

text \<open>Every position and order just read is known locally or explained by the full evidence.\<close>

definition attributed :: "files \<Rightarrow> PositionState list \<Rightarrow> OrderState list \<Rightarrow> bool" where
  "attributed fs positions orders \<longleftrightarrow>
     (\<exists>local_open. State_Store.all_open fs = Inr local_open \<and>
        (\<forall>ticket \<in> pos_ticket ` set positions \<union> ord_ticket ` set orders.
           ticket \<in> lr_ticket ` set local_open \<or> (\<exists>deals off ev. strong_evidence local_open deals off ticket ev)))"

lemma submission_cases:
  assumes "mcp_submit env (McpAccountReader env) plan s = (r, t)"
  shows "trades_added s t [] \<or>
    (\<exists>L \<in> submission_calls plan. trades_added s t L) \<and> e_account_kind env = Some ''DEMO'' \<and>
    (\<exists>s1 s2 s3 positions orders. mcp_get_positions env None None s1 = (Inr positions, s2) \<and>
       mcp_get_orders env None None s2 = (Inr orders, s3) \<and> l_files s1 = l_files s \<and> attributed (l_files s) positions orders)"
  using mcp.submit_trades [OF assms]
proof (elim disjE conjE exE)
  fix s1 s2 check r'
  assume demo: "e_account_kind env = Some ''DEMO''"
    and gate: "executor_gate env (McpAccountReader env) s = (Inr (), s1)"
    and posture: "current_posture env (McpAccountReader env) s1 = (Inr check, s2)" "pc_posture check = NORMAL"
    and run: "(if op_order_type plan = MARKET then submit_market env (McpAccountReader env) plan s2
      else submit_limit env (McpAccountReader env) plan s2) = (r', t)"
    and quiet: "trades_added s s2 []"
  have sends: "emits (insert [] (submission_calls plan))
      (if op_order_type plan = MARKET then submit_market env (McpAccountReader env) plan else submit_limit env (McpAccountReader env) plan)"
  proof (cases "op_order_type plan = MARKET")
    case True
    show ?thesis
      unfolding if_P [OF True] by (rule emits_mono [OF mcp.submit_market_emits]) (use True in \<open>auto simp: submission_calls_def\<close>)
  next
    case False
    show ?thesis
      unfolding if_not_P [OF False] by (rule emits_mono [OF mcp.submit_limit_emits]) (use False in \<open>auto simp: submission_calls_def\<close>)
  qed
  have "(if op_order_type plan = MARKET then submit_market env (McpAccountReader env) plan
      else submit_limit env (McpAccountReader env) plan) s2 = (r', t)" using run unfolding if_distribR .
  then obtain L where L: "L \<in> insert [] (submission_calls plan)" "trades_added s2 t L"
    using emitsD [OF sends] by blast
  have files: "l_files s1 = l_files s" using keepsD [OF mcp.gate_files gate] by (simp add: same_files_def)
  obtain local_open positions orders s3 s4 where known: "State_Store.all_open (l_files s1) = Inr local_open"
      "get_positions (McpAccountReader env) None None s1 = (Inr positions, s3)"
      "get_orders (McpAccountReader env) None None s3 = (Inr orders, s4)"
      "\<And>ticket. ticket \<in> pos_ticket ` set positions \<union> ord_ticket ` set orders \<Longrightarrow>
         ticket \<in> lr_ticket ` set local_open \<or> (\<exists>deals off ev. strong_evidence local_open deals off ticket ev)"
    by (rule mcp.normal_posture [OF posture]) (rule that)
  have known_all: "attributed (l_files s) positions orders"
    unfolding attributed_def using known(1,4) files by (intro exI [of _ local_open] conjI ballI) simp_all
  have reads: "mcp_get_positions env None None s1 = (Inr positions, s3)" "mcp_get_orders env None None s3 = (Inr orders, s4)"
    using known(2,3) by (simp_all add: McpAccountReader_def)
  have sent: "trades_added s t L" using trades_trans [OF quiet L(2)] by simp
  show ?thesis
  proof (cases "L = []")
    case False
    then have "L \<in> submission_calls plan" using L(1) by simp
    then show ?thesis
      by (intro disjI2 conjI exI) (rule bexI, rule sent, assumption, rule demo, rule reads, rule reads, rule files, rule known_all)
  qed (use sent in simp)
qed simp

lemma submission_sends: "emits (insert [] (submission_calls plan)) (mcp_submit env (McpAccountReader env) plan)"
  unfolding emits_def using submission_cases by (metis insertCI prod.collapse)


definition real_env :: "unit env" where
  "real_env = (silent_env True)\<lparr>e_account_kind := Some ''REAL''\<rparr>"




text \<open>
  C3: A confirmed MARKET position is never lost: once the broker's answer is done and names a
  ticket, its record is in the store whatever happens afterwards; it is marked protected exactly on
  success, after a fresh read of the position showed both levels; on every error it stays
  OPEN_UNPROTECTED.
\<close>

theorem market_position_recorded:
  assumes "after_market env (McpAccountReader env) plan response s = (r, t)"
    and "resp_raw_data response = Some data" "order_ticket data = Inr ticket"
  shows "\<exists>record. lr_ticket record = ticket \<and> lr_status record = ''OPEN_UNPROTECTED'' \<and>
    lr_requested_sl record = op_sl plan \<and> lr_requested_tp record = op_tp plan \<and>
    (case r of
       Inl e \<Rightarrow> l_files t = write_one record (l_files s)
     | Inr result \<Rightarrow> mark_sl_tp_attached ticket (write_one record (l_files s)) = (Inr (), l_files t) \<and>
         er_success result \<and> er_ticket result = Some ticket \<and>
         (\<exists>s1 s2 positions. mcp_get_positions env (Some (op_symbol plan)) None s1 = (Inr positions, s2) \<and>
            protected_in plan ticket positions))"
proof -
  have data: "response_data response = Inr data" using assms(2) by (simp add: response_data_def)
  obtain submitted_at where "case r of
         Inl e \<Rightarrow> l_files t = write_one (record_of_submission plan response data ticket submitted_at ''OPEN_UNPROTECTED'') (l_files s)
       | Inr result \<Rightarrow> mark_sl_tp_attached ticket (write_one (record_of_submission plan response data ticket submitted_at ''OPEN_UNPROTECTED'') (l_files s)) = (Inr (), l_files t) \<and> er_success result \<and> er_ticket result = Some ticket \<and>
           (\<exists>s1 s2 positions. get_positions (McpAccountReader env) (Some (op_symbol plan)) None s1 = (Inr positions, s2) \<and>
              protected_in plan ticket positions)"
    using mcp.after_market_files [OF assms(1) data assms(3)] unfolding Let_def by blast
  then show ?thesis
    by (intro exI [of _ "record_of_submission plan response data ticket submitted_at ''OPEN_UNPROTECTED''"])
      (cases r; simp add: record_of_submission_def submission_record_def McpAccountReader_def)
qed

definition done_response :: TradeResponse where
  "done_response =
     \<lparr> resp_retcode = Some 10009, resp_raw_data = Some [(''retcode'', JInt 10009), (''order'', JInt 5)], resp_tool_message = [] \<rparr>"

theorem market_position_recorded_witness:
  "\<exists>r t. after_market (silent_env True) (McpAccountReader (silent_env True)) sample_plan done_response fresh_live = (r, t) \<and>
     (\<exists>record. lr_ticket record = 5 \<and> lr_status record = ''OPEN_UNPROTECTED'' \<and>
        (\<forall>e. r = Inl e \<longrightarrow> l_files t = write_one record (l_files fresh_live)))"
proof -
  obtain r t where run: "after_market (silent_env True) (McpAccountReader (silent_env True)) sample_plan done_response fresh_live = (r, t)"
    by fastforce
  have "order_ticket [(''retcode'', JInt 10009), (''order'', JInt 5)] = Inr 5" by (simp add: order_ticket_def)
  moreover have "resp_raw_data done_response = Some [(''retcode'', JInt 10009), (''order'', JInt 5)]"
    by (simp add: done_response_def)
  ultimately obtain entry where "lr_ticket entry = 5" "lr_status entry = ''OPEN_UNPROTECTED''"
      "case r of Inl e \<Rightarrow> l_files t = write_one entry (l_files fresh_live) | Inr result \<Rightarrow> True"
    using market_position_recorded [OF run] by (cases r) fastforce+
  then have "lr_ticket entry = 5 \<and> lr_status entry = ''OPEN_UNPROTECTED'' \<and>
      (\<forall>e. r = Inl e \<longrightarrow> l_files t = write_one entry (l_files fresh_live))" by (cases r) auto
  then show ?thesis using run by blast
qed

text \<open>
  The attachment errors are not all of the one class that names the ticket: an answer to
  \<^verbatim>\<open>modify_position\<close> that is not JSON leaves as a parse error.
\<close>

lemma unparsable_attachment_unlabelled:
  assumes "call_tool env ''modify_position'' (modify_args ticket plan) s = (Inr raw, t)" "json_loads raw = None"
  shows "attach_sl_tp env account ticket plan s = (Inl JSONDecodeError, t)"
  using assms by (simp add: attach_sl_tp_def except_io_def loads_response_def parse_trade_response_def io_simps)

end
