(* ===== verification/Pipeline.thy ===== *)
theory Pipeline
  imports State_Store
begin

text \<open>
  One evaluation cycle per strategy and the stop decision of the loop:
  \<^verbatim>\<open>pipeline/grid_cycle.py\<close>, \<^verbatim>\<open>pipeline/runner_cycle.py\<close> and
  \<^verbatim>\<open>pipeline/loop_control.py\<close>. The cycles are written over the three protocols and an
  optional listing of the open records, as in the source, so the live adapters, the backtest ones
  and the dry run all instantiate the same definitions. Log lines are left out.
\<close>

section \<open>Reading the exposure\<close>

text \<open>
  Positions and orders of one strategy: by the broker's magic number, or by the tickets the local
  records give that magic.
\<close>

definition own_exposure ::
  "'s AccountReader \<Rightarrow> ('s, exn, LocalOrderRecord list) io option \<Rightarrow> string \<Rightarrow> int \<Rightarrow>
   ('s, exn, PositionState list \<times> OrderState list) io" where
  "own_exposure account state_store symbol magic =
     (case state_store of
        None \<Rightarrow>
          bind_io (get_positions account (Some symbol) (Some magic)) (\<lambda>positions.
          bind_io (get_orders account (Some symbol) (Some magic)) (\<lambda>pending_orders.
            return_io (positions, pending_orders)))
      | Some open_records \<Rightarrow>
          bind_io open_records (\<lambda>records.
            let local_tickets = set (map lr_ticket (filter (\<lambda>r. lr_magic r = magic) records))
            in bind_io (get_positions account (Some symbol) None) (\<lambda>all_positions.
               bind_io (get_orders account (Some symbol) None) (\<lambda>all_orders.
                 return_io (filter (\<lambda>p. pos_ticket p \<in> local_tickets) all_positions,
                            filter (\<lambda>o'. ord_ticket o' \<in> local_tickets) all_orders)))))"

definition open_lots_of :: "PositionState list \<Rightarrow> pyfloat" where
  "open_lots_of positions = py_sum (map pos_volume positions)"

definition pending_lots_of :: "OrderState list \<Rightarrow> pyfloat" where
  "pending_lots_of orders = py_sum (map ord_volume orders)"

section \<open>Grid cycle\<close>

text \<open>The stop and target of a grid order, around its own price.\<close>

definition grid_stops :: "GridLevels \<Rightarrow> SymbolInfo \<Rightarrow> Side \<Rightarrow> pyfloat \<Rightarrow> pyfloat \<times> pyfloat" where
  "grid_stops levels symbol_info side price =
     (if side = BUY
      then (py_round_digits (price - gl_sl_price levels) (si_digits symbol_info),
            py_round_digits (price + gl_tp_price levels) (si_digits symbol_info))
      else (py_round_digits (price + gl_sl_price levels) (si_digits symbol_info),
            py_round_digits (price - gl_tp_price levels) (si_digits symbol_info)))"

text \<open>One side of a cycle up to the submission: a plan, or none for a routine rejection.\<close>

definition grid_side_plan ::
  "GridLevels \<Rightarrow> SymbolInfo \<Rightarrow> Tick \<Rightarrow> MoneyConfig \<Rightarrow> ExposureCaps \<Rightarrow> int \<Rightarrow> pyfloat \<Rightarrow> OrderState list \<Rightarrow>
   TradeIntent \<Rightarrow> OrderPlan option result" where
  "grid_side_plan levels symbol_info tick money_config caps magic open_lots pending_orders intent =
     (let lot_decision = decide_lot money_config
            (no_lot_inputs\<lparr>li_atr := Some (gl_atr levels), li_step := Some (gl_step_price levels)\<rparr>);
          sized = to_sized_intent intent lot_decision;
          exposure_decision = check_exposure_cap open_lots (pending_lots_of pending_orders) (szi_volume sized) caps
      in bind_res (of_option TypeError (ti_reference_price intent)) (\<lambda>reference_price.
         let duplicate_decision =
               check_duplicate_order pending_orders (ti_side intent) reference_price (si_point symbol_info) default_tol_ticks
         in bind_res (combine [exposure_decision, duplicate_decision]) (\<lambda>combined.
            if \<not> rd_approved combined then Inr None
            else bind_res (build_order_plan sized combined symbol_info tick magic
                     (Some (''grid_'' @ lower (side_str (ti_side intent)))) default_deviation 0 0) (\<lambda>plan.
              case plan of
                None \<Rightarrow> Inr None
              | Some plan \<Rightarrow> bind_res (of_option TypeError (op_price plan)) (\<lambda>price.
                  let (sl, tp) = grid_stops levels symbol_info (ti_side intent) price
                  in Inr (Some (plan\<lparr>op_sl := sl, op_tp := tp\<rparr>)))))))"

text \<open>
  The loop over the two sides: what a submission returns or raises is collected, and the other
  side is attempted all the same.
\<close>

fun grid_sides ::
  "(TradeIntent \<Rightarrow> OrderPlan option result) \<Rightarrow> 's OrderExecutor \<Rightarrow> TradeIntent list \<Rightarrow>
   ExecutionResult list \<Rightarrow> (Side \<times> exn) list \<Rightarrow> ('s, exn, ExecutionResult list \<times> (Side \<times> exn) list) io" where
  "grid_sides plan_of executor [] results errors = return_io (results, errors)"
| "grid_sides plan_of executor (intent # intents) results errors =
     bind_io (lift_io (plan_of intent)) (\<lambda>plan. case plan of
       None \<Rightarrow> grid_sides plan_of executor intents results errors
     | Some plan \<Rightarrow>
         except_else_io (submit executor plan)
           (\<lambda>exc. grid_sides plan_of executor intents results (errors @ [(ti_side intent, exc)]))
           (\<lambda>result. grid_sides plan_of executor intents (results @ [result]) errors))"

definition regime_skips :: "GridStrategyConfig \<Rightarrow> MarketBar list \<Rightarrow> bool result" where
  "regime_skips grid_config bars =
     (case gc_max_entry_efficiency_ratio grid_config of
        None \<Rightarrow> Inr False
      | Some m \<Rightarrow> bind_res (efficiency_ratio bars (gc_efficiency_ratio_period grid_config)) (\<lambda>er. Inr (er \<ge> m)))"

definition run_grid_cycle ::
  "'s MarketDataSource \<Rightarrow> 's AccountReader \<Rightarrow> 's OrderExecutor \<Rightarrow> string \<Rightarrow> string \<Rightarrow> int \<Rightarrow> GridStrategyConfig \<Rightarrow>
   MoneyConfig \<Rightarrow> ExposureCaps \<Rightarrow> int \<Rightarrow> ('s, exn, LocalOrderRecord list) io option \<Rightarrow>
   ('s, exn, ExecutionResult list) io" where
  "run_grid_cycle market_data account executor symbol timeframe bars_count grid_config money_config caps magic state_store =
     bind_io (get_bars market_data symbol timeframe bars_count) (\<lambda>bars.
     bind_io (lift_io (regime_skips grid_config bars)) (\<lambda>skip_cycle.
       if skip_cycle then return_io []
       else
         bind_io (get_symbol_info market_data symbol) (\<lambda>symbol_info.
         bind_io (get_tick market_data symbol) (\<lambda>tick.
         bind_io (own_exposure account state_store symbol magic) (\<lambda>(positions, pending_orders).
         bind_io (lift_io (compute_grid_levels bars (si_point symbol_info) grid_config)) (\<lambda>levels.
           let (buy_intent, sell_intent) = grid_levels_to_trade_intents levels ''grid''
           in bind_io (grid_sides
                  (grid_side_plan levels symbol_info tick money_config caps magic (open_lots_of positions) pending_orders)
                  executor [buy_intent, sell_intent] [] []) (\<lambda>(results, errors).
                if errors \<noteq> [] then raise_io (GridCycleError results errors) else return_io results)))))))"

section \<open>Runner cycle\<close>

definition runner_stops :: "SymbolInfo \<Rightarrow> Side \<Rightarrow> pyfloat \<Rightarrow> pyfloat \<Rightarrow> pyfloat \<Rightarrow> pyfloat \<times> pyfloat" where
  "runner_stops symbol_info side reference_price sl_distance tp_distance =
     (if side = BUY
      then (py_round_digits (reference_price - sl_distance) (si_digits symbol_info),
            py_round_digits (reference_price + tp_distance) (si_digits symbol_info))
      else (py_round_digits (reference_price + sl_distance) (si_digits symbol_info),
            py_round_digits (reference_price - tp_distance) (si_digits symbol_info)))"

definition runner_plan ::
  "MarketBar list \<Rightarrow> SymbolInfo \<Rightarrow> Tick \<Rightarrow> RunnerStrategyConfig \<Rightarrow> MoneyConfig \<Rightarrow> ExposureCaps \<Rightarrow> int \<Rightarrow>
   PositionState list \<Rightarrow> OrderState list \<Rightarrow> TradeIntent \<Rightarrow> OrderPlan option result" where
  "runner_plan bars symbol_info tick runner_config money_config caps magic positions pending_orders intent =
     (let sized = to_sized_intent intent (decide_lot money_config no_lot_inputs);
          exposure_decision = check_exposure_cap (open_lots_of positions) (pending_lots_of pending_orders) (szi_volume sized) caps;
          position_limit_decision = check_position_limit positions (rc_max_concurrent_positions runner_config)
      in bind_res (combine [exposure_decision, position_limit_decision]) (\<lambda>combined.
         if \<not> rd_approved combined then Inr None
         else bind_res (compute_stop_distances bars (si_point symbol_info) runner_config) (\<lambda>(sl_distance, tp_distance).
           let reference_price = (if ti_side intent = BUY then tick_ask tick else tick_bid tick);
               (sl, tp) = runner_stops symbol_info (ti_side intent) reference_price sl_distance tp_distance
           in build_order_plan sized combined symbol_info tick magic (Some ''runner'') default_deviation sl tp)))"

definition run_runner_cycle ::
  "'s MarketDataSource \<Rightarrow> 's AccountReader \<Rightarrow> 's OrderExecutor \<Rightarrow> string \<Rightarrow> string \<Rightarrow> int \<Rightarrow> RunnerStrategyConfig \<Rightarrow>
   MoneyConfig \<Rightarrow> ExposureCaps \<Rightarrow> int \<Rightarrow> ('s, exn, LocalOrderRecord list) io option \<Rightarrow>
   ('s, exn, ExecutionResult option) io" where
  "run_runner_cycle market_data account executor symbol timeframe bars_count runner_config money_config caps magic state_store =
     bind_io (get_bars market_data symbol timeframe bars_count) (\<lambda>bars.
     bind_io (lift_io (runner_signal bars runner_config)) (\<lambda>signal.
       case signal_to_trade_intent signal of
         None \<Rightarrow> return_io None
       | Some intent \<Rightarrow>
           bind_io (get_symbol_info market_data symbol) (\<lambda>symbol_info.
           bind_io (get_tick market_data symbol) (\<lambda>tick.
           bind_io (own_exposure account state_store symbol magic) (\<lambda>(positions, pending_orders).
           bind_io (lift_io (runner_plan bars symbol_info tick runner_config money_config caps magic
                       positions pending_orders intent)) (\<lambda>plan.
             case plan of
               None \<Rightarrow> return_io None
             | Some plan \<Rightarrow> bind_io (submit executor plan) (\<lambda>result. return_io (Some result))))))))"

section \<open>Stopping the loop\<close>

record LoopLimits =
  ll_max_cycles :: int
  ll_max_runtime_seconds :: pyfloat
  ll_cycle_interval_seconds :: pyfloat
  ll_poll_interval_seconds :: pyfloat

definition should_stop ::
  "int \<Rightarrow> pyfloat \<Rightarrow> bool \<Rightarrow> LoopLimits \<Rightarrow> RiskDecision option \<Rightarrow> fstring option" where
  "should_stop cycle_num elapsed_seconds stop_file_exists limits daily_loss_decision =
     (if stop_file_exists then Some [Lit ''stop file present'']
      else if (case daily_loss_decision of None \<Rightarrow> False | Some d \<Rightarrow> \<not> rd_approved d)
      then (let reasons = (case daily_loss_decision of None \<Rightarrow> [] | Some d \<Rightarrow> rd_reasons d);
                joined = f_join ''; '' reasons;
                detail = (if joined = [] then [Lit ''no reason given''] else joined)
            in Some ([Lit ''daily loss limit breached (''] @ detail @ [Lit '')'']))
      else if cycle_num \<ge> ll_max_cycles limits
      then Some [Lit ''max cycles ('', f_int (ll_max_cycles limits), Lit '') reached'']
      else if elapsed_seconds \<ge> ll_max_runtime_seconds limits
      then Some [Lit ''max runtime ('', F_fix 0 (ll_max_runtime_seconds limits), Lit ''s) reached'']
      else None)"

section \<open>What a cycle submits\<close>

text \<open>
  The specification of the loop over the sides: plan everything and submit each plan in turn,
  keeping every outcome.
\<close>

fun attempt_all :: "'s OrderExecutor \<Rightarrow> (Side \<times> OrderPlan) list \<Rightarrow> ('s, exn, (Side \<times> (exn + ExecutionResult)) list) io" where
  "attempt_all executor [] = return_io []"
| "attempt_all executor ((side, plan) # plans) =
     bind_io (try_io (submit executor plan)) (\<lambda>outcome.
     if (case outcome of Inl e \<Rightarrow> \<not> is_Exception e | Inr _ \<Rightarrow> False) then raise_io (projl outcome)
     else bind_io (attempt_all executor plans) (\<lambda>outcomes. return_io ((side, outcome) # outcomes)))"

definition results_of :: "(Side \<times> (exn + ExecutionResult)) list \<Rightarrow> ExecutionResult list" where
  "results_of outcomes = concat (map (\<lambda>(_, x). case x of Inl _ \<Rightarrow> [] | Inr r \<Rightarrow> [r]) outcomes)"

definition errors_of :: "(Side \<times> (exn + ExecutionResult)) list \<Rightarrow> (Side \<times> exn) list" where
  "errors_of outcomes = concat (map (\<lambda>(side, x). case x of Inl e \<Rightarrow> [(side, e)] | Inr _ \<Rightarrow> []) outcomes)"

lemma outcome_simps [simp]:
  "results_of [] = []" "errors_of [] = []"
  "results_of ((side, Inl e) # xs) = results_of xs" "results_of ((side, Inr r) # xs) = r # results_of xs"
  "errors_of ((side, Inl e) # xs) = (side, e) # errors_of xs" "errors_of ((side, Inr r) # xs) = errors_of xs"
  by (simp_all add: results_of_def errors_of_def)

lemma outcomes_counted: "length (results_of xs) + length (errors_of xs) = length xs"
  by (induction xs) (auto simp: results_of_def errors_of_def split: sum.split)

definition sides_plans :: "(TradeIntent \<Rightarrow> OrderPlan option result) \<Rightarrow> TradeIntent list \<Rightarrow> (Side \<times> OrderPlan) list result" where
  "sides_plans plan_of intents =
     bind_res (traverse (\<lambda>i. bind_res (plan_of i) (\<lambda>p. Inr (map_option (\<lambda>p. (ti_side i, p)) p))) intents)
       (\<lambda>ps. Inr (concat (map (\<lambda>p. case p of None \<Rightarrow> [] | Some x \<Rightarrow> [x]) ps)))"

lemma sides_plans_Cons:
  "sides_plans plan_of (i # rest) =
     bind_res (plan_of i) (\<lambda>p. bind_res (sides_plans plan_of rest) (\<lambda>ps.
       Inr (case p of None \<Rightarrow> ps | Some p \<Rightarrow> (ti_side i, p) # ps)))"
  unfolding sides_plans_def traverse.simps
  by (cases "plan_of i"; cases "traverse (\<lambda>i. bind_res (plan_of i) (\<lambda>p. Inr (map_option (\<lambda>p. (ti_side i, p)) p))) rest")
    (auto split: option.split)

lemma grid_sides_attempts:
  assumes "sides_plans plan_of intents = Inr plans"
  shows "grid_sides plan_of executor intents results errors =
    bind_io (attempt_all executor plans) (\<lambda>xs. return_io (results @ results_of xs, errors @ errors_of xs))"
  using assms
proof (induction intents arbitrary: plans results errors)
  case (Cons i rest)
  from Cons.prems obtain p ps where p: "plan_of i = Inr p" and ps: "sides_plans plan_of rest = Inr ps"
      and plans: "plans = (case p of None \<Rightarrow> ps | Some p \<Rightarrow> (ti_side i, p) # ps)"
    unfolding sides_plans_Cons bind_res_eq_Inr by blast
  note IH = Cons.IH [OF ps]
  show ?case
  proof (cases p)
    case None
    then show ?thesis by (simp add: p plans IH)
  next
    case (Some plan)
    show ?thesis
    proof
      fix s
      obtain x t where run: "submit executor plan s = (x, t)" by fastforce
      show "grid_sides plan_of executor (i # rest) results errors s =
          bind_io (attempt_all executor plans) (\<lambda>xs. return_io (results @ results_of xs, errors @ errors_of xs)) s"
        by (cases x) (simp_all add: p plans Some IH except_else_io_def io_simps run split: prod.split sum.split)
    qed
  qed
qed (simp add: sides_plans_def)

definition limit_intent :: "TradeIntent \<Rightarrow> bool" where
  "limit_intent i \<longleftrightarrow> ti_desired_order_type i = LIMIT \<and> ti_reference_price i \<noteq> None"

lemma grid_intents:
  assumes "grid_levels_to_trade_intents levels name = (b, a)"
  shows "limit_intent b" "limit_intent a" "ti_side b = BUY" "ti_side a = SELL"
    "ti_reference_price b = Some (gl_buy_price levels)" "ti_reference_price a = Some (gl_sell_price levels)"
    "ti_symbol b = gl_symbol levels" "ti_symbol a = gl_symbol levels"
  using assms by (auto simp: grid_levels_to_trade_intents_def limit_intent_def)

definition grid_volume :: "MoneyConfig \<Rightarrow> GridLevels \<Rightarrow> pyfloat" where
  "grid_volume money_config levels =
     ld_lot (decide_lot money_config (no_lot_inputs\<lparr>li_atr := Some (gl_atr levels), li_step := Some (gl_step_price levels)\<rparr>))"

definition grid_plan :: "GridLevels \<Rightarrow> SymbolInfo \<Rightarrow> MoneyConfig \<Rightarrow> int \<Rightarrow> TradeIntent \<Rightarrow> pyfloat \<Rightarrow> OrderPlan" where
  "grid_plan levels si mc magic i p =
     \<lparr> op_symbol = ti_symbol i, op_order_type = LIMIT, op_side = ti_side i,
       op_volume = clamp_volume (grid_volume mc levels) si, op_price = Some p,
       op_sl = fst (grid_stops levels si (ti_side i) p), op_tp = snd (grid_stops levels si (ti_side i) p),
       op_deviation = default_deviation, op_magic = magic,
       op_comment = ''grid_'' @ lower (side_str (ti_side i)), op_filling_mode = None, op_expiry = None \<rparr>"

definition grid_guards :: "GridLevels \<Rightarrow> SymbolInfo \<Rightarrow> MoneyConfig \<Rightarrow> ExposureCaps \<Rightarrow> pyfloat \<Rightarrow> OrderState list \<Rightarrow> Side \<Rightarrow> pyfloat \<Rightarrow> bool" where
  "grid_guards levels si mc caps open_lots orders side r \<longleftrightarrow>
     rd_approved (check_exposure_cap open_lots (pending_lots_of orders) (grid_volume mc levels) caps) \<and>
     rd_approved (check_duplicate_order orders side r (si_point si) default_tol_ticks)"

text \<open>A side in closed form: the guards, the normalised price, the plan around it.\<close>

lemma grid_side_plan_eq:
  assumes "limit_intent i" "ti_reference_price i = Some r"
  shows "grid_side_plan levels si tick mc caps magic open_lots orders i =
    (if grid_guards levels si mc caps open_lots orders (ti_side i) r
     then bind_res (normalize_limit_price r (if ti_side i = BUY then BUY_LIMIT else SELL_LIMIT) si tick)
            (\<lambda>p. Inr (map_option (grid_plan levels si mc magic i) p))
     else Inr None)"
proof (cases "normalize_limit_price r (if ti_side i = BUY then BUY_LIMIT else SELL_LIMIT) si tick")
  case (Inl e)
  then show ?thesis
    using assms unfolding grid_side_plan_def Let_def grid_guards_def
    by (simp add: combine_pair to_sized_intent_def build_order_plan_def limit_intent_def grid_volume_def)
next
  case (Inr q)
  then show ?thesis
    using assms unfolding grid_side_plan_def Let_def grid_guards_def
    by (cases q) (simp_all add: combine_pair to_sized_intent_def build_order_plan_def limit_intent_def
        grid_volume_def grid_plan_def split_beta)
qed

lemma normalize_raises_iff: "(\<exists>e. normalize_limit_price p side si tick = Inl e) \<longleftrightarrow> si_point si = 0"
  by (cases side) (auto simp: normalize_limit_price_def snap_def py_div_def Let_def)

text \<open>A side fails to be planned only for a tick size of 0, and then so does the other one.\<close>

lemma grid_side_plan_raises:
  assumes "limit_intent i" "grid_side_plan levels si tick mc caps magic open_lots orders i = Inl e"
  shows "si_point si = 0"
proof -
  obtain r where "ti_reference_price i = Some r" using assms(1) by (auto simp: limit_intent_def)
  then show ?thesis
    using assms(2) normalize_raises_iff [of r _ si tick]
    by (auto simp: grid_side_plan_eq [OF assms(1)] result_simps split: if_split_asm)
qed

lemma grid_side_plan_Some:
  assumes "limit_intent i" "grid_side_plan levels si tick mc caps magic open_lots orders i = Inr (Some plan)"
  obtains r p where "ti_reference_price i = Some r" "grid_guards levels si mc caps open_lots orders (ti_side i) r"
    "normalize_limit_price r (if ti_side i = BUY then BUY_LIMIT else SELL_LIMIT) si tick = Inr (Some p)"
    "plan = grid_plan levels si mc magic i p" "si_point si \<noteq> 0"
proof -
  obtain r where r: "ti_reference_price i = Some r" using assms(1) by (auto simp: limit_intent_def)
  have guards: "grid_guards levels si mc caps open_lots orders (ti_side i) r"
    using assms(2) by (simp add: grid_side_plan_eq [OF assms(1) r] split: if_split_asm)
  then obtain q where q: "normalize_limit_price r (if ti_side i = BUY then BUY_LIMIT else SELL_LIMIT) si tick = Inr q"
      "map_option (grid_plan levels si mc magic i) q = Some plan"
    using assms(2) unfolding grid_side_plan_eq [OF assms(1) r] by (auto simp: bind_res_eq_Inr simp del: map_option_eq_Some)
  then obtain p where "q = Some p" "plan = grid_plan levels si mc magic i p" by (cases q) auto
  moreover have "si_point si \<noteq> 0" using normalize_raises_iff [THEN iffD2] q(1) by (metis sum.distinct(1))
  ultimately show ?thesis using that r guards q(1) by blast
qed

lemma grid_stops_bracket:
  assumes "0 \<le> gl_sl_price levels" "0 \<le> gl_tp_price levels" "grid_stops levels si side p = (sl, tp)"
  shows "if side = BUY then sl \<le> py_round_digits p (si_digits si) \<and> py_round_digits p (si_digits si) \<le> tp
    else tp \<le> py_round_digits p (si_digits si) \<and> py_round_digits p (si_digits si) \<le> sl"
  using assms by (auto simp: grid_stops_def pyfloat_le_add pyfloat_diff_le intro!: py_round_digits_mono split: if_splits)


definition lone_levels :: GridLevels where
  "lone_levels = grid_levels_of (sample_bar 0 100) (fint 100) 0 (fint 10) (fint 10) (fint 10)"

definition no_caps :: ExposureCaps where
  "no_caps = \<lparr> caps_max_open_lots = None, caps_budget_max_lots = None \<rparr>"

lemma snap_fint: "\<bar>n\<bar> \<le> 2 ^ 53 \<Longrightarrow> snap 1 (fint n) = Inr (fint n)"
  by (simp add: snap_def py_div_def py_round_fint)

lemma lone_levels_prices: "gl_buy_price lone_levels = fint 90" "gl_sell_price lone_levels = fint 110"
  "0 \<le> gl_sl_price lone_levels" "0 \<le> gl_tp_price lone_levels"
  by (simp_all add: lone_levels_def grid_levels_of_def pyfloat_eq_iff rat_of_arith fint_def)

lemma lone_normalize:
  "normalize_limit_price (fint 90) BUY_LIMIT unit_symbol round_tick = Inr (Some (fint 90))"
  "normalize_limit_price (fint 110) SELL_LIMIT unit_symbol round_tick = Inr (Some (fint 110))"
proof -
  have unit: "si_point unit_symbol = 1" by (simp add: unit_symbol_def)
  show "normalize_limit_price (fint 90) BUY_LIMIT unit_symbol round_tick = Inr (Some (fint 90))"
    by (rule normalize_far) (simp add: unit snap_fint,
      simp add: beyond_gap_def min_gap_def unit_symbol_def round_tick_def pyfloat_less_iff rat_of_arith fint_def)
  show "normalize_limit_price (fint 110) SELL_LIMIT unit_symbol round_tick = Inr (Some (fint 110))"
    by (rule normalize_far) (simp add: unit snap_fint,
      simp add: beyond_gap_def min_gap_def unit_symbol_def round_tick_def pyfloat_less_iff rat_of_arith fint_def)
qed

lemma lone_guards: "grid_guards levels si mc no_caps open_lots [] side r"
  by (simp add: grid_guards_def check_exposure_cap_iff check_duplicate_order_iff over_cap_def no_caps_def)

definition lone_buy :: TradeIntent where "lone_buy = fst (grid_levels_to_trade_intents lone_levels ''grid'')"
definition lone_sell :: TradeIntent where "lone_sell = snd (grid_levels_to_trade_intents lone_levels ''grid'')"

lemma lone_intents: "grid_levels_to_trade_intents lone_levels ''grid'' = (lone_buy, lone_sell)"
  by (simp add: lone_buy_def lone_sell_def)

lemma lone_plans:
  "grid_side_plan lone_levels unit_symbol round_tick default_money_config no_caps 7 0 [] lone_buy =
     Inr (Some (grid_plan lone_levels unit_symbol default_money_config 7 lone_buy (fint 90)))"
  "grid_side_plan lone_levels unit_symbol round_tick default_money_config no_caps 7 0 [] lone_sell =
     Inr (Some (grid_plan lone_levels unit_symbol default_money_config 7 lone_sell (fint 110)))"
proof -
  note intents = grid_intents [OF lone_intents]
  show "grid_side_plan lone_levels unit_symbol round_tick default_money_config no_caps 7 0 [] lone_buy =
     Inr (Some (grid_plan lone_levels unit_symbol default_money_config 7 lone_buy (fint 90)))"
    using grid_side_plan_eq [OF intents(1,5)] by (simp add: intents lone_levels_prices lone_guards lone_normalize)
  show "grid_side_plan lone_levels unit_symbol round_tick default_money_config no_caps 7 0 [] lone_sell =
     Inr (Some (grid_plan lone_levels unit_symbol default_money_config 7 lone_sell (fint 110)))"
    using grid_side_plan_eq [OF intents(2,6)] by (simp add: intents lone_levels_prices lone_guards lone_normalize)
qed


section \<open>Whatever a submission does\<close>

text \<open>Adapters whose reads only move the state along a relation.\<close>

locale quiet_reads = effect R for R :: "'s \<Rightarrow> 's \<Rightarrow> bool" +
  fixes market_data :: "'s MarketDataSource" and account :: "'s AccountReader"
    and state_store :: "('s, exn, LocalOrderRecord list) io option"
  assumes quiet_bars: "keeps R (get_bars market_data symbol timeframe n)"
    and quiet_tick: "keeps R (get_tick market_data symbol)"
    and quiet_info: "keeps R (get_symbol_info market_data symbol)"
    and quiet_positions: "keeps R (get_positions account s m)"
    and quiet_orders: "keeps R (get_orders account s m)"
    and quiet_records: "state_store = Some records \<Longrightarrow> keeps R records"
begin

lemma quiet_exposure: "keeps R (own_exposure account state_store symbol magic)"
proof (cases state_store)
  case None
  then show ?thesis unfolding own_exposure_def by (auto intro!: keeps_rules quiet_positions quiet_orders)
next
  case (Some records)
  then show ?thesis
    unfolding own_exposure_def Let_def
    by (auto intro!: keeps_rules quiet_positions quiet_orders quiet_records)
qed

end

lemma grid_sides_pair:
  assumes "grid_levels_to_trade_intents levels name = (buy, sell)"
    and "grid_sides (grid_side_plan levels si tick mc caps magic open_lots orders) executor [buy, sell] [] [] s = (r, t)"
  shows "s = t \<and> (r = Inr ([], []) \<or> (\<exists>e. r = Inl e)) \<or>
    (\<exists>plans. plans \<noteq> [] \<and> sides_plans (grid_side_plan levels si tick mc caps magic open_lots orders) [buy, sell] = Inr plans \<and>
       bind_io (attempt_all executor plans) (\<lambda>xs. return_io (results_of xs, errors_of xs)) s = (r, t))"
proof -
  let ?plan = "grid_side_plan levels si tick mc caps magic open_lots orders"
  note intents = grid_intents [OF assms(1)]
  show ?thesis
  proof (cases "sides_plans ?plan [buy, sell]")
    case (Inr plans)
    from grid_sides_attempts [OF Inr, of executor "[]" "[]"] assms(2)
    have run: "bind_io (attempt_all executor plans) (\<lambda>xs. return_io (results_of xs, errors_of xs)) s = (r, t)" by simp
    show ?thesis
    proof (cases plans)
      case Nil
      then have "s = t" "r = Inr ([], [])" using run by (simp_all add: io_simps)
      then show ?thesis by blast
    next
      case (Cons p ps)
      then show ?thesis using run Inr by blast
    qed
  next
    case (Inl e)
    have "\<not> (\<exists>p. ?plan buy = Inr (Some p))"
    proof
      assume "\<exists>p. ?plan buy = Inr (Some p)"
      then obtain p where p: "?plan buy = Inr (Some p)" by blast
      then have "si_point si \<noteq> 0" using grid_side_plan_Some [OF intents(1)] by metis
      then obtain q where "?plan sell = Inr q" using grid_side_plan_raises [OF intents(2)] by (metis sum.exhaust)
      with p Inl show False by (simp add: sides_plans_Cons sides_plans_def)
    qed
    then show ?thesis
      using Inl assms(2) by (cases "?plan buy"; cases "?plan sell")
        (auto simp: sides_plans_Cons sides_plans_def io_simps split: option.splits)
  qed
qed

text \<open>How a cycle ends once plans were handed to the executor.\<close>

definition reported :: "OrderPlan list \<Rightarrow> exn + (Side \<times> (exn + ExecutionResult)) list \<Rightarrow> exn + ExecutionResult list \<Rightarrow> bool" where
  "reported plans outcomes r \<longleftrightarrow>
     (case outcomes of
        Inl e \<Rightarrow> e = KeyboardInterrupt \<and> r = Inl e
      | Inr xs \<Rightarrow> length (results_of xs) + length (errors_of xs) = length plans \<and>
          r = (if errors_of xs = [] then Inr (results_of xs) else Inl (GridCycleError (results_of xs) (errors_of xs))))"

lemma attempt_all_step:
  assumes "submit executor plan s = (x, u)"
  shows "attempt_all executor ((side, plan) # plans) s =
    (if (case x of Inl e \<Rightarrow> \<not> is_Exception e | Inr _ \<Rightarrow> False) then (Inl (projl x), u)
     else bind_io (attempt_all executor plans) (\<lambda>xs. return_io ((side, x) # xs)) u)"
  unfolding attempt_all.simps
  by (subst bind_io_go [where x = x and s' = u]) (simp_all add: try_io_def assms raise_io_def)

lemma attempt_all_ends:
  "attempt_all executor plans s = (Inr xs, t) \<Longrightarrow> length xs = length plans"
  "attempt_all executor plans s = (Inl e, t) \<Longrightarrow> e = KeyboardInterrupt"
proof (induction plans arbitrary: s xs)
  case (Cons p plans)
  obtain side plan where p: "p = (side, plan)" by fastforce
  { case 1
    obtain x u where run: "submit executor plan s = (x, u)" by fastforce
    from 1 show ?case using Cons.IH(1)
      by (auto simp: p attempt_all_step [OF run] bind_io_Inr return_io_def simp del: attempt_all.simps split: if_split_asm) }
  { case 2
    obtain x u where run: "submit executor plan s = (x, u)" by fastforce
    from 2 show ?case using Cons.IH(2)
      by (auto simp: p attempt_all_step [OF run] bind_io_Inl return_io_def is_Exception_def simp del: attempt_all.simps
        split: if_split_asm sum.split_asm) }
qed (simp_all add: return_io_def)

lemma reported_attempts:
  assumes "bind_io (attempt_all executor plans) (\<lambda>xs. return_io (results_of xs, errors_of xs)) s = (q, t)"
    and "bind_io (\<lambda>_. (q, t)) (\<lambda>(results, errors).
           if errors \<noteq> [] then raise_io (GridCycleError results errors) else return_io results) s = (r, t')"
  shows "t' = t \<and> (\<exists>outcomes. attempt_all executor plans s = (outcomes, t) \<and> reported (map snd plans) outcomes r)"
proof -
  obtain outcomes u where run: "attempt_all executor plans s = (outcomes, u)" by fastforce
  show ?thesis
  proof (cases outcomes)
    case (Inl e)
    then have "q = Inl e" "u = t" using assms(1) run by (simp_all add: bind_io_def)
    moreover have "e = KeyboardInterrupt" using attempt_all_ends(2) run Inl by metis
    ultimately show ?thesis using assms(2) run Inl by (simp add: bind_io_def reported_def)
  next
    case (Inr xs)
    then have "q = Inr (results_of xs, errors_of xs)" "u = t" using assms(1) run by (simp_all add: io_simps)
    moreover have "length xs = length plans" using attempt_all_ends(1) run Inr by metis
    ultimately show ?thesis
      using assms(2) run Inr outcomes_counted [of xs] by (auto simp: io_simps reported_def split: if_split_asm)
  qed
qed

lemma grid_submission:
  assumes "grid_levels_to_trade_intents levels name = (buy, sell)"
    and run: "bind_io (grid_sides (grid_side_plan levels si tick mc caps magic open_lots orders) executor [buy, sell] [] [])
      (\<lambda>(results, errors). if errors \<noteq> [] then raise_io (GridCycleError results errors) else return_io results) s = (r, t)"
  shows "s = t \<and> (r = Inr [] \<or> (\<exists>e. r = Inl e)) \<or>
    (\<exists>plans outcomes. plans \<noteq> [] \<and>
       sides_plans (grid_side_plan levels si tick mc caps magic open_lots orders) [buy, sell] = Inr plans \<and>
       attempt_all executor plans s = (outcomes, t) \<and> reported (map snd plans) outcomes r)"
proof -
  obtain q u where sides: "grid_sides (grid_side_plan levels si tick mc caps magic open_lots orders) executor [buy, sell] [] [] s = (q, u)"
    by fastforce
  then have rest: "bind_io (\<lambda>_. (q, u)) (\<lambda>(results, errors).
      if errors \<noteq> [] then raise_io (GridCycleError results errors) else return_io results) s = (r, t)"
    using run by (simp add: bind_io_def)
  from grid_sides_pair [OF assms(1) sides] show ?thesis
  proof (elim disjE conjE exE)
    fix plans
    assume "plans \<noteq> []" "sides_plans (grid_side_plan levels si tick mc caps magic open_lots orders) [buy, sell] = Inr plans"
      "bind_io (attempt_all executor plans) (\<lambda>xs. return_io (results_of xs, errors_of xs)) s = (q, u)"
    then show ?thesis using reported_attempts [OF _ rest] by blast
  qed (use rest in \<open>auto simp: io_simps\<close>)
qed

context quiet_reads
begin

lemma read_on:
  assumes "bind_io m f s' = (r, t)" "R s s'" "keeps R m" "\<not> (R s t \<and> (\<exists>e. r = Inl e))"
  shows "\<exists>x u. R s u \<and> f x u = (r, t)"
  using assms(1)
proof (cases rule: bind_ioE)
  case (stop e)
  then show ?thesis using assms(4) trans [OF assms(2) keepsD [OF assms(3)]] by blast
next
  case (go x u)
  then show ?thesis using trans [OF assms(2) keepsD [OF assms(3)]] by blast
qed

lemma lift_on:
  assumes "bind_io (lift_io q) f s' = (r, t)" "R s s'" "\<not> (R s t \<and> (\<exists>e. r = Inl e))"
  shows "\<exists>x. q = Inr x \<and> f x s' = (r, t)"
  using assms by (cases q) (auto simp: raise_io_def)

lemma grid_cycle_cases:
  assumes "run_grid_cycle market_data account executor symbol timeframe n gc mc caps magic state_store s = (r, t)"
    and more: "\<not> (R s t \<and> (r = Inr [] \<or> (\<exists>e. r = Inl e)))"
  shows "\<exists>bars si tick positions orders levels buy sell plans outcomes u.
       plans \<noteq> [] \<and> compute_grid_levels bars (si_point si) gc = Inr levels \<and>
       regime_skips gc bars = Inr False \<and> grid_levels_to_trade_intents levels ''grid'' = (buy, sell) \<and>
       sides_plans (grid_side_plan levels si tick mc caps magic (open_lots_of positions) orders) [buy, sell] = Inr plans \<and>
       attempt_all executor plans u = (outcomes, t) \<and> reported (map snd plans) outcomes r \<and> R s u"
proof -
  have on: "\<not> (R s t \<and> (\<exists>e. r = Inl e))" using more by blast
  have skips: False if "R s u" "return_io [] u = (r, t)" for u using more that by (auto simp: return_io_def)
  show ?thesis
    using assms(1) unfolding run_grid_cycle_def
    apply -
    apply (drule read_on [OF _ refl quiet_bars on], elim exE conjE)
    apply (drule lift_on [OF _ _ on], assumption, elim exE conjE)
    apply (simp only: split: if_split_asm)
     apply (blast dest: skips)
    apply (drule read_on [OF _ _ quiet_info on], assumption, elim exE conjE)
    apply (drule read_on [OF _ _ quiet_tick on], assumption, elim exE conjE)
    apply (drule read_on [OF _ _ quiet_exposure on], assumption, elim exE conjE)
    apply (simp only: split: prod.split_asm)
    apply (drule lift_on [OF _ _ on], assumption, elim exE conjE)
    apply (simp only: Let_def split: prod.split_asm)
    apply (frule (1) grid_submission)
    apply (erule disjE)
     apply (use more in blast)
    apply (elim exE conjE)
    apply (intro exI conjI; assumption)
    done
qed

end


text \<open>A buy that raises and a sell that is placed, over adapters that log the plans.\<close>

definition lone_market :: "OrderPlan list MarketDataSource" where
  "lone_market =
     \<lparr> get_bars = (\<lambda>symbol timeframe n. return_io [sample_bar 0 100]), get_tick = (\<lambda>symbol. return_io round_tick),
       get_symbol_info = (\<lambda>symbol. return_io unit_symbol) \<rparr>"

definition lone_account :: "OrderPlan list AccountReader" where
  "lone_account =
     \<lparr> get_account_state = raise_io RuntimeError, get_positions = (\<lambda>s m. return_io []),
       get_orders = (\<lambda>s m. return_io []), get_connection_state = raise_io RuntimeError \<rparr>"

definition lone_result :: "OrderPlan \<Rightarrow> ExecutionResult" where
  "lone_result plan = execution_result (Some plan) True 10009"

definition buy_fails :: "OrderPlan list OrderExecutor" where
  "buy_fails =
     \<lparr> submit = (\<lambda>plan log. (if op_side plan = BUY then Inl RuntimeError else Inr (lone_result plan), log @ [plan])),
       cancel = (\<lambda>t. raise_io RuntimeError), close_position = (\<lambda>t v. raise_io RuntimeError) \<rparr>"

lemma lone_quiet: "quiet_reads (=) lone_market lone_account None"
  by unfold_locales (simp_all add: lone_market_def lone_account_def keeps_def return_io_def)

definition lone_cycle :: "(OrderPlan list, exn, ExecutionResult list) io" where
  "lone_cycle = run_grid_cycle lone_market lone_account buy_fails ''S'' ''M1'' 1 default_grid_config
     default_money_config no_caps 7 None"

lemma lone_cycle_run:
  "lone_cycle [] = (Inl (GridCycleError
      [lone_result (grid_plan lone_levels unit_symbol default_money_config 7 lone_sell (fint 110))] [(BUY, RuntimeError)]),
    [grid_plan lone_levels unit_symbol default_money_config 7 lone_buy (fint 90),
     grid_plan lone_levels unit_symbol default_money_config 7 lone_sell (fint 110)])"
proof -
  have levels: "compute_grid_levels [sample_bar 0 100] (si_point unit_symbol) default_grid_config = Inr lone_levels"
    using one_bar_levels by (simp add: unit_symbol_def lone_levels_def)
  have sides: "op_side (grid_plan l si mc m i p) = ti_side i" for l si mc m i p by (simp add: grid_plan_def)
  have "regime_skips default_grid_config bars = Inr False" for bars
    by (simp add: regime_skips_def default_grid_config_def)
  moreover have "open_lots_of [] = 0" by (simp add: open_lots_of_def)
  ultimately show ?thesis
    unfolding lone_cycle_def run_grid_cycle_def own_exposure_def lone_market_def lone_account_def
    by (simp add: levels lone_intents lone_plans buy_fails_def except_else_io_def io_simps sides
        grid_intents [OF lone_intents] is_Exception_def)
qed


text \<open>
  The exposure guard sees the sized volume; the plan is then raised to the broker's smallest one,
  so a plan can exceed the cap it was approved under.
\<close>

lemma plan_may_exceed_cap:
  assumes "caps = \<lparr> caps_max_open_lots = Some (flt (1 / 2)), caps_budget_max_lots = None \<rparr>"
  shows "\<exists>plan. grid_side_plan lone_levels unit_symbol round_tick default_money_config caps 7 0 [] lone_buy = Inr (Some plan) \<and>
    over_cap (op_volume plan) (caps_max_open_lots caps)"
proof -
  note intents = grid_intents [OF lone_intents]
  have "lot_mode default_money_config = ''fixed''"
    by (simp add: lot_mode_def default_money_config_def) code_simp
  then have volume: "grid_volume default_money_config lone_levels = flt (1 / 100)"
    by (simp add: grid_volume_def decide_lot_lot) (simp add: default_money_config_def)
  have "grid_guards lone_levels unit_symbol default_money_config caps 0 [] BUY (fint 90)"
    by (simp add: grid_guards_def volume check_exposure_cap_iff check_duplicate_order_iff over_cap_def assms(1)
        pending_lots_of_def flt_mono not_less)
  then have plan: "grid_side_plan lone_levels unit_symbol round_tick default_money_config caps 7 0 [] lone_buy =
      Inr (Some (grid_plan lone_levels unit_symbol default_money_config 7 lone_buy (fint 90)))"
    using grid_side_plan_eq [OF intents(1,5)] by (simp add: intents lone_levels_prices lone_normalize)
  have "flt (1 / 2) < 1" using rnd_dyadic [of 1 1] by (simp add: pyfloat_less_iff)
  also have "1 \<le> clamp_volume v unit_symbol" for v
    using py_round_digits_int [of 1] py_round_digits_mono [of 1 "max 1 x" 8 for x]
    by (simp add: clamp_volume_def Let_def unit_symbol_def)
  finally show ?thesis
    using plan by (simp add: grid_plan_def over_cap_def assms(1))
qed

section \<open>Guards of the runner\<close>

lemma runner_stops_bracket:
  assumes "0 \<le> sl_distance" "0 \<le> tp_distance" "runner_stops si side p sl_distance tp_distance = (sl, tp)"
  shows "if side = BUY then sl \<le> py_round_digits p (si_digits si) \<and> py_round_digits p (si_digits si) \<le> tp
    else tp \<le> py_round_digits p (si_digits si) \<and> py_round_digits p (si_digits si) \<le> sl"
  using assms by (auto simp: runner_stops_def pyfloat_le_add pyfloat_diff_le intro!: py_round_digits_mono split: if_splits)

definition runner_volume :: "MoneyConfig \<Rightarrow> pyfloat" where
  "runner_volume money_config = ld_lot (decide_lot money_config no_lot_inputs)"

definition runner_guards :: "MoneyConfig \<Rightarrow> ExposureCaps \<Rightarrow> RunnerStrategyConfig \<Rightarrow> PositionState list \<Rightarrow> OrderState list \<Rightarrow> bool" where
  "runner_guards mc caps rc positions orders \<longleftrightarrow>
     rd_approved (check_exposure_cap (open_lots_of positions) (pending_lots_of orders) (runner_volume mc) caps) \<and>
     rd_approved (check_position_limit positions (rc_max_concurrent_positions rc))"

definition market_price :: "Tick \<Rightarrow> Side \<Rightarrow> pyfloat" where
  "market_price tick side = (if side = BUY then tick_ask tick else tick_bid tick)"

lemma runner_plan_eq:
  assumes "ti_desired_order_type i = MARKET" "ti_reference_price i = None"
  shows "runner_plan bars si tick rc mc caps magic positions orders i =
    (if runner_guards mc caps rc positions orders
     then bind_res (compute_stop_distances bars (si_point si) rc) (\<lambda>(sl_distance, tp_distance).
       let (sl, tp) = runner_stops si (ti_side i) (market_price tick (ti_side i)) sl_distance tp_distance
       in Inr (Some \<lparr> op_symbol = ti_symbol i, op_order_type = MARKET, op_side = ti_side i,
            op_volume = clamp_volume (runner_volume mc) si, op_price = Some (market_price tick (ti_side i)),
            op_sl = sl, op_tp = tp, op_deviation = default_deviation, op_magic = magic, op_comment = ''runner'',
            op_filling_mode = None, op_expiry = None \<rparr>))
     else Inr None)"
proof -
  have "build_order_plan (to_sized_intent i (decide_lot mc no_lot_inputs)) d si tick magic (Some ''runner'') default_deviation sl tp =
      Inr (Some \<lparr> op_symbol = ti_symbol i, op_order_type = MARKET, op_side = ti_side i,
            op_volume = clamp_volume (runner_volume mc) si, op_price = Some (market_price tick (ti_side i)),
            op_sl = sl, op_tp = tp, op_deviation = default_deviation, op_magic = magic, op_comment = ''runner'',
            op_filling_mode = None, op_expiry = None \<rparr>)" if "rd_approved d" for d sl tp
    using assms that by (simp add: build_order_plan_def to_sized_intent_def runner_volume_def market_price_def)
  then show ?thesis
    unfolding runner_plan_def Let_def runner_guards_def combine_pair
    by (auto simp: to_sized_intent_def runner_volume_def market_price_def split: prod.split intro!: arg_cong [of _ _ "bind_res _"])
qed

context quiet_reads
begin

lemma runner_keeps:
  assumes "\<And>plan. keeps R (submit executor plan)"
  shows "keeps R (run_runner_cycle market_data account executor symbol timeframe n rc mc caps magic state_store)"
  unfolding run_runner_cycle_def by (intro keeps_rules quiet_bars quiet_info quiet_tick quiet_exposure assms)

lemma sides_keep:
  assumes "\<And>plan. keeps R (submit executor plan)"
  shows "keeps R (grid_sides plan_of executor intents results errors)"
  by (induction intents arbitrary: results errors) (auto simp: except_else_io_def intro!: keeps_rules assms)

lemma grid_keeps:
  assumes "\<And>plan. keeps R (submit executor plan)"
  shows "keeps R (run_grid_cycle market_data account executor symbol timeframe n gc mc caps magic state_store)"
  unfolding run_grid_cycle_def Let_def
  by (intro keeps_rules quiet_bars quiet_info quiet_tick quiet_exposure sides_keep assms)

lemma runner_cycle_cases:
  assumes "run_runner_cycle market_data account executor symbol timeframe n rc mc caps magic state_store s = (r, t)"
    and more: "\<not> (R s t \<and> (r = Inr None \<or> (\<exists>e. r = Inl e)))"
  shows "\<exists>bars signal i si tick positions orders plan u.
    runner_signal bars rc = Inr signal \<and> signal_to_trade_intent signal = Some i \<and>
    runner_plan bars si tick rc mc caps magic positions orders i = Inr (Some plan) \<and>
    bind_io (submit executor plan) (\<lambda>result. return_io (Some result)) u = (r, t) \<and> R s u"
proof -
  have on: "\<not> (R s t \<and> (\<exists>e. r = Inl e))" using more by blast
  have skips: False if "R s u" "return_io None u = (r, t)" for u using more that by (auto simp: return_io_def)
  show ?thesis
    using assms(1) unfolding run_runner_cycle_def
    apply -
    apply (drule read_on [OF _ refl quiet_bars on], elim exE conjE)
    apply (drule lift_on [OF _ _ on], assumption, elim exE conjE)
    apply (simp only: split: option.split_asm)
     apply (blast dest: skips)
    apply (drule read_on [OF _ _ quiet_info on], assumption, elim exE conjE)
    apply (drule read_on [OF _ _ quiet_tick on], assumption, elim exE conjE)
    apply (drule read_on [OF _ _ quiet_exposure on], assumption, elim exE conjE)
    apply (simp only: split: prod.split_asm)
    apply (drule lift_on [OF _ _ on], assumption, elim exE conjE)
    apply (simp only: split: option.split_asm)
     apply (blast dest: skips)
    apply (intro exI conjI; assumption)
    done
qed

end


text \<open>A rise on the last of seven bars, with the shortest averages.\<close>

definition rising :: "MarketBar list" where
  "rising = [sample_bar 0 0, sample_bar 1 0, sample_bar 2 0, sample_bar 3 0, sample_bar 4 0, sample_bar 5 0, sample_bar 6 1]"

definition short_config :: RunnerStrategyConfig where
  "short_config = default_runner_config\<lparr>rc_fast := 1, rc_slow := 2, rc_min_bars_floor := 7\<rparr>"

definition rising_market :: "OrderPlan list MarketDataSource" where
  "rising_market = lone_market\<lparr>get_bars := (\<lambda>symbol timeframe n. return_io rising)\<rparr>"

lemma rising_macd: "\<exists>v. macd (map bar_close rising) 1 2 = Inr v \<and> 0 < v"
proof -
  let ?alpha = "flt 2 / (fint 2 + 1)"
  have closes: "map bar_close rising = [0, 0, 0, 0, 0, 0, 1]"
    by (simp add: rising_def sample_bar_def)
  have window: "py_from [0, 0, 0, 0, 0, 0, 1] (- 2) = [0, 1 :: pyfloat]" by (simp add: py_from_def)
  have "rnd (2 / 3) \<le> rnd (of_int 3 / 2 ^ 2)" by (rule rnd_mono) simp
  then have "rnd (2 / 3) < 1" using rnd_dyadic [of 3 2] by simp
  moreover have "rat_of ?alpha = rnd (2 / 3)" by (simp add: rat_of_arith fint_def)
  ultimately have "?alpha < 1" by (simp add: pyfloat_less_iff)
  moreover have "1 * ?alpha + 0 * (1 - ?alpha) = ?alpha"
    by (simp add: pyfloat_eq_iff rat_of_arith)
  moreover have "ema [0, 1] 1 = Inr 1" using ema_period_one [of "[0, 1]"] by simp
  moreover have "ema [0, 1] 2 = Inr (1 * ?alpha + 0 * (1 - ?alpha))" by (simp add: ema_def Let_def)
  ultimately have "macd (map bar_close rising) 1 2 = Inr (1 - ?alpha)" "0 < 1 - ?alpha"
    by (simp_all add: macd_def closes window pyfloat_diff_sign)
  then show ?thesis by blast
qed

lemma rising_plans:
  obtains signal i where "runner_signal rising short_config = Inr signal" "signal_to_trade_intent signal = Some i"
    "\<forall>tick magic. \<exists>plan. runner_plan rising unit_symbol tick short_config default_money_config no_caps magic [] [] i = Inr (Some plan) \<and>
       op_side plan = BUY \<and> op_order_type plan = MARKET"
proof -
  obtain signal where signal: "runner_signal rising short_config = Inr signal" "sig_direction signal = LONG"
    using rising_macd by (auto simp: runner_signal_def short_config_def default_runner_config_def min_required_bars_def
        rising_def direction_of_def)
  then obtain i where i: "signal_to_trade_intent signal = Some i" "ti_side i = BUY"
    by (auto simp: signal_to_trade_intent_def)
  note intent = signal_to_trade_intent_Some [OF i(1)]
  have "atr rising (rc_atr_period short_config) = Inr 0"
    by (simp add: atr_def rising_def short_config_def default_runner_config_def)
  then obtain d where "compute_stop_distances rising (si_point unit_symbol) short_config = Inr d"
    by (simp add: compute_stop_distances_def rising_def Let_def)
  moreover have "runner_guards default_money_config no_caps short_config [] []"
    by (simp add: runner_guards_def check_exposure_cap_iff over_cap_def no_caps_def check_position_limit_def
        short_config_def default_runner_config_def)
  ultimately have "\<exists>plan. runner_plan rising unit_symbol tick short_config default_money_config no_caps magic [] [] i = Inr (Some plan) \<and>
       op_side plan = BUY \<and> op_order_type plan = MARKET" for tick magic
    using intent i(2) by (auto simp: runner_plan_eq Let_def split_beta)
  then show ?thesis using that signal(1) i(1) by blast
qed


section \<open>Stopping\<close>

definition breached :: "RiskDecision option \<Rightarrow> bool" where
  "breached d \<longleftrightarrow> (case d of None \<Rightarrow> False | Some d \<Rightarrow> \<not> rd_approved d)"

text \<open>
  The loop goes on exactly when nothing stops it (no stop file, no breached daily limit, cycles
  and time left), and the reason follows the precedence: the stop file whatever else holds, then
  the daily loss over both ceilings, then the cycles over the time.
\<close>

theorem should_stop_precedence:
  "(should_stop k elapsed stop limits d = None \<longleftrightarrow>
      \<not> stop \<and> \<not> breached d \<and> k < ll_max_cycles limits \<and> elapsed < ll_max_runtime_seconds limits) \<and>
   (stop \<longrightarrow> should_stop k elapsed stop limits d = Some [Lit ''stop file present'']) \<and>
   (\<not> stop \<and> breached d \<longrightarrow> (\<exists>detail. detail \<noteq> [] \<and>
      should_stop k elapsed stop limits d = Some ([Lit ''daily loss limit breached (''] @ detail @ [Lit '')'']))) \<and>
   (\<not> stop \<and> \<not> breached d \<and> ll_max_cycles limits \<le> k \<longrightarrow>
      should_stop k elapsed stop limits d = Some [Lit ''max cycles ('', f_int (ll_max_cycles limits), Lit '') reached''])"
  by (auto simp: should_stop_def breached_def Let_def not_le not_less split: option.splits)

theorem should_stop_precedence_witness:
  "should_stop 9 0 True \<lparr> ll_max_cycles = 5, ll_max_runtime_seconds = 1, ll_cycle_interval_seconds = 1, ll_poll_interval_seconds = 1 \<rparr> None
     = Some [Lit ''stop file present'']"
  using should_stop_precedence [where stop = True] by blast

section \<open>Two runs\<close>

text \<open>
  Two programs agree from the states of \<open>P\<close>: they do the same there, and stay within \<open>P\<close>. With
  equal programs this says that \<open>P\<close> is an invariant.
\<close>

definition agree :: "('s \<Rightarrow> bool) \<Rightarrow> ('s, 'e, 'a) io \<Rightarrow> ('s, 'e, 'a) io \<Rightarrow> bool" where
  "agree P m m' \<longleftrightarrow> (\<forall>s. P s \<longrightarrow> m s = m' s \<and> P (snd (m s)))"

named_theorems agree_rules \<open>composition of agreeing programs\<close>

lemma agreeD: "agree P m m' \<Longrightarrow> P s \<Longrightarrow> m s = m' s" "agree P m m' \<Longrightarrow> P s \<Longrightarrow> m s = (r, t) \<Longrightarrow> P t"
  unfolding agree_def by simp (metis snd_conv)

lemma agree_pure [agree_rules]:
  "agree P (return_io x) (return_io x)" "agree P (raise_io e) (raise_io e)" "agree P (lift_io r) (lift_io r)"
  "agree P (get_io f) (get_io f)"
  by (simp_all add: agree_def io_simps)

lemma agree_bind [agree_rules]:
  assumes "agree P m m'" "\<And>x. agree P (f x) (f' x)"
  shows "agree P (bind_io m f) (bind_io m' f')"
  unfolding agree_def
proof (intro allI impI)
  fix s
  assume s: "P s"
  obtain r t where run: "m s = (r, t)" by fastforce
  then have "m' s = (r, t)" "P t" using agreeD [OF assms(1) s] by simp_all
  moreover have "f x t = f' x t" "P (snd (f' x t))" for x
    using assms(2) \<open>P t\<close> unfolding agree_def by metis+
  ultimately show "bind_io m f s = bind_io m' f' s \<and> P (snd (bind_io m f s))"
    using run by (cases r) (simp_all add: bind_io_def)
qed

lemma agree_cases [agree_rules]:
  "agree P m m' \<Longrightarrow> agree P n n' \<Longrightarrow> agree P (if b then m else n) (if b then m' else n')"
  "agree P m m' \<Longrightarrow> (\<And>x. agree P (f x) (f' x)) \<Longrightarrow>
     agree P (case v of None \<Rightarrow> m | Some x \<Rightarrow> f x) (case v of None \<Rightarrow> m' | Some x \<Rightarrow> f' x)"
  "(\<And>e. agree P (g e) (g' e)) \<Longrightarrow> (\<And>x. agree P (h x) (h' x)) \<Longrightarrow>
     agree P (case w of Inl e \<Rightarrow> g e | Inr x \<Rightarrow> h x) (case w of Inl e \<Rightarrow> g' e | Inr x \<Rightarrow> h' x)"
  "(\<And>a b. agree P (k a b) (k' a b)) \<Longrightarrow> agree P (case p of (a, b) \<Rightarrow> k a b) (case p of (a, b) \<Rightarrow> k' a b)"
  by (simp_all split: option.split sum.split prod.split)

lemma agree_try [agree_rules]: "agree P m m' \<Longrightarrow> agree P (try_io m) (try_io m')"
  unfolding agree_def try_io_def split_beta by (metis snd_conv)

lemma agree_for [agree_rules]: "(\<And>x. x \<in> set xs \<Longrightarrow> agree P (f x) (f' x)) \<Longrightarrow> agree P (for_io f xs) (for_io f' xs)"
  by (induction xs) (auto intro: agree_rules)

text \<open>Adapters that answer alike.\<close>

locale twin_adapters =
  fixes P :: "'s \<Rightarrow> bool" and md md' :: "'s MarketDataSource" and acc acc' :: "'s AccountReader"
    and ex ex' :: "'s OrderExecutor"
  assumes bars: "agree P (get_bars md symbol timeframe n) (get_bars md' symbol timeframe n)"
    and tick: "agree P (get_tick md symbol) (get_tick md' symbol)"
    and info: "agree P (get_symbol_info md symbol) (get_symbol_info md' symbol)"
    and positions: "agree P (get_positions acc s m) (get_positions acc' s m)"
    and orders: "agree P (get_orders acc s m) (get_orders acc' s m)"
    and submits: "agree P (submit ex plan) (submit ex' plan)"
begin

lemma exposure_agrees: "agree P (own_exposure acc None symbol magic) (own_exposure acc' None symbol magic)"
  unfolding own_exposure_def by (auto intro!: agree_rules positions orders)

lemma sides_agree: "agree P (grid_sides plan_of ex intents results errors) (grid_sides plan_of ex' intents results errors)"
  by (induction intents arbitrary: results errors) (auto simp: except_else_io_def intro!: agree_rules submits)

lemma grid_agrees:
  "agree P (run_grid_cycle md acc ex symbol timeframe n gc mc caps magic None)
           (run_grid_cycle md' acc' ex' symbol timeframe n gc mc caps magic None)"
  unfolding run_grid_cycle_def Let_def
  by (intro agree_rules bars info tick exposure_agrees sides_agree)

lemma runner_agrees:
  "agree P (run_runner_cycle md acc ex symbol timeframe n rc mc caps magic None)
           (run_runner_cycle md' acc' ex' symbol timeframe n rc mc caps magic None)"
  unfolding run_runner_cycle_def by (intro agree_rules bars info tick exposure_agrees submits)

end

end
