(* ===== verification/Live_Loop.thy ===== *)
theory Live_Loop
  imports Order_Executor Pipeline
begin

text \<open>
  The composition of the live system: \<^verbatim>\<open>config/settings.py\<close>,
  \<^verbatim>\<open>execution/composition.py\<close> and the bounded loop of
  \<^verbatim>\<open>scripts/run_demo_execution_pipeline_loop.py\<close>. Shown: a session opens only in the one
  trading mode and for a DEMO account, the two strategies of a cycle are isolated from each other,
  the daily loss gate fails closed, and the loop ends after at most the configured cycles.
\<close>

section \<open>Settings\<close>

datatype ExecutionMode = Mode_READ_ONLY | Mode_MOCK | Mode_DRY_RUN | Mode_SHADOW | Mode_DEMO_EXECUTION

definition mode_value :: "ExecutionMode \<Rightarrow> string" where
  "mode_value m =
     (case m of Mode_READ_ONLY \<Rightarrow> ''READ_ONLY'' | Mode_MOCK \<Rightarrow> ''MOCK'' | Mode_DRY_RUN \<Rightarrow> ''DRY_RUN''
      | Mode_SHADOW \<Rightarrow> ''SHADOW'' | Mode_DEMO_EXECUTION \<Rightarrow> ''DEMO_EXECUTION'')"

definition modes :: "ExecutionMode list" where
  "modes = [Mode_READ_ONLY, Mode_MOCK, Mode_DRY_RUN, Mode_SHADOW, Mode_DEMO_EXECUTION]"

definition mode_of_string :: "string \<Rightarrow> ExecutionMode option" where
  "mode_of_string s = find (\<lambda>m. mode_value m = s) modes"

definition trading_capable_modes :: "ExecutionMode set" where
  "trading_capable_modes = {Mode_DEMO_EXECUTION}"

record Settings =
  st_mode :: ExecutionMode
  st_mt5_demo_login :: "int option"
  st_mt5_demo_password :: "string option"
  st_mt5_demo_server :: "string option"
  st_mt5_account_kind :: "string option"
  st_mcp_server_command :: "string option"
  st_log_level :: string

definition st_trading_enabled :: "Settings \<Rightarrow> bool" where
  "st_trading_enabled settings \<longleftrightarrow> st_mode settings \<in> trading_capable_modes"

text \<open>\<^verbatim>\<open>source.get(k) or None\<close>: an empty value counts as missing.\<close>

definition nonempty :: "string option \<Rightarrow> string option" where
  "nonempty v = (case v of Some s \<Rightarrow> if s = [] then None else Some s | None \<Rightarrow> None)"

definition load_settings :: "(string \<times> string) list \<Rightarrow> Settings result" where
  "load_settings source =
     (let mode_raw = (case map_of source ''MT5_MCP_MODE'' of Some s \<Rightarrow> s | None \<Rightarrow> mode_value Mode_MOCK)
      in bind_res (of_option SettingsError (mode_of_string mode_raw)) (\<lambda>mode.
         bind_res (case nonempty (map_of source ''MT5_DEMO_LOGIN'') of
                     None \<Rightarrow> Inr None
                   | Some s \<Rightarrow> bind_res (of_option SettingsError (int_of_string s)) (\<lambda>n. Inr (Some n))) (\<lambda>login.
           Inr \<lparr> st_mode = mode, st_mt5_demo_login = login,
                 st_mt5_demo_password = nonempty (map_of source ''MT5_DEMO_PASSWORD''),
                 st_mt5_demo_server = nonempty (map_of source ''MT5_DEMO_SERVER''),
                 st_mt5_account_kind = nonempty (map_of source ''MT5_ACCOUNT_KIND''),
                 st_mcp_server_command = nonempty (map_of source ''MCP_SERVER_COMMAND''),
                 st_log_level = (case map_of source ''LOG_LEVEL'' of Some s \<Rightarrow> s | None \<Rightarrow> ''INFO'') \<rparr>)))"

lemma mode_of_string_iff: "mode_of_string s = Some m \<longleftrightarrow> s = mode_value m"
  by (cases m) (auto simp: mode_of_string_def modes_def mode_value_def split: if_split_asm)

text \<open>
  Trading is never a default: settings that load enable it exactly when the environment names
  DEMO_EXECUTION as the mode, and an unknown mode or a login that is no number is refused.
\<close>

theorem trading_is_opt_in:
  "(\<forall>settings. load_settings source = Inr settings \<longrightarrow>
      (st_trading_enabled settings \<longleftrightarrow> map_of source ''MT5_MCP_MODE'' = Some ''DEMO_EXECUTION'')) \<and>
   (\<forall>e. load_settings source = Inl e \<longleftrightarrow> e = SettingsError \<and>
      ((\<exists>s. map_of source ''MT5_MCP_MODE'' = Some s \<and> (\<forall>m. s \<noteq> mode_value m)) \<or>
       (\<exists>s. map_of source ''MT5_DEMO_LOGIN'' = Some s \<and> s \<noteq> [] \<and> int_of_string s = None)))"
proof -
  define raw where "raw = (case map_of source ''MT5_MCP_MODE'' of Some s \<Rightarrow> s | None \<Rightarrow> mode_value Mode_MOCK)"
  define login where "login = nonempty (map_of source ''MT5_DEMO_LOGIN'')"
  have none: "mode_of_string s = None \<longleftrightarrow> (\<forall>m. s \<noteq> mode_value m)" for s
    using mode_of_string_iff [of s] by (metis option.distinct(1) option.exhaust)
  have unknown: "(\<exists>s. map_of source ''MT5_MCP_MODE'' = Some s \<and> (\<forall>m. s \<noteq> mode_value m)) \<longleftrightarrow> mode_of_string raw = None"
    by (auto simp: none raw_def split: option.split)
  have no_number: "(\<exists>s. map_of source ''MT5_DEMO_LOGIN'' = Some s \<and> s \<noteq> [] \<and> int_of_string s = None) \<longleftrightarrow>
      (\<exists>s. login = Some s \<and> int_of_string s = None)"
    by (auto simp: login_def nonempty_def split: option.split)
  have enabled: "m = Mode_DEMO_EXECUTION \<longleftrightarrow> map_of source ''MT5_MCP_MODE'' = Some ''DEMO_EXECUTION''"
    if "mode_of_string raw = Some m" for m
    using that unfolding mode_of_string_iff raw_def by (cases m) (auto simp: mode_value_def split: option.split_asm)
  show ?thesis
  proof (cases "mode_of_string raw")
    case None
    then show ?thesis
      unfolding load_settings_def Let_def unknown no_number raw_def [symmetric] login_def [symmetric] by auto
  next
    case (Some m)
    have mode: "st_trading_enabled settings \<longleftrightarrow> map_of source ''MT5_MCP_MODE'' = Some ''DEMO_EXECUTION''"
      if "st_mode settings = m" for settings
      using that enabled [OF Some] by (simp add: st_trading_enabled_def trading_capable_modes_def)
    have known: "load_settings source = bind_res (case login of None \<Rightarrow> Inr None
         | Some s \<Rightarrow> bind_res (of_option SettingsError (int_of_string s)) (\<lambda>n. Inr (Some n))) (\<lambda>n.
           Inr (the (map_option (\<lambda>m. \<lparr> st_mode = m, st_mt5_demo_login = n,
                 st_mt5_demo_password = nonempty (map_of source ''MT5_DEMO_PASSWORD''),
                 st_mt5_demo_server = nonempty (map_of source ''MT5_DEMO_SERVER''),
                 st_mt5_account_kind = nonempty (map_of source ''MT5_ACCOUNT_KIND''),
                 st_mcp_server_command = nonempty (map_of source ''MCP_SERVER_COMMAND''),
                 st_log_level = (case map_of source ''LOG_LEVEL'' of Some s \<Rightarrow> s | None \<Rightarrow> ''INFO'') \<rparr>) (Some m))))"
      unfolding load_settings_def Let_def raw_def [symmetric] login_def [symmetric] Some by simp
    show ?thesis
    proof (cases login)
      case None
      then show ?thesis unfolding unknown no_number known using Some by (auto simp: mode)
    next
      case (Some s)
      then show ?thesis
        unfolding unknown no_number known using \<open>mode_of_string raw = Some m\<close>
        by (cases "int_of_string s") (auto simp: mode)
    qed
  qed
qed

theorem trading_is_opt_in_witness:
  "load_settings [(''MT5_MCP_MODE'', ''LIVE'')] = Inl SettingsError \<and>
   \<not> st_trading_enabled (projr (load_settings []))"
proof -
  have unknown: "\<forall>m. ''LIVE'' \<noteq> mode_value m" by (auto simp: mode_value_def split: ExecutionMode.split)
  have refused: "load_settings [(''MT5_MCP_MODE'', ''LIVE'')] = Inl SettingsError"
    using trading_is_opt_in [of "[(''MT5_MCP_MODE'', ''LIVE'')]"] unknown by simp
  obtain settings where loaded: "load_settings [] = Inr settings"
    using trading_is_opt_in [of "[]"] by (cases "load_settings []") auto
  then have "\<not> st_trading_enabled settings" using trading_is_opt_in [of "[]"] by simp
  with refused loaded show ?thesis by simp
qed

section \<open>Session\<close>

text \<open>\<^verbatim>\<open>async with McpClient(...)\<close>: the exit runs whatever the body does.\<close>

definition with_client :: "'w env \<Rightarrow> ('w, 'a) live_io \<Rightarrow> ('w, 'a) live_io" where
  "with_client env body =
     bind_io (aenter env) (\<lambda>_. bind_io (try_io body) (\<lambda>r. bind_io aexit (\<lambda>_. lift_io r)))"

text \<open>The environment of the session: the trading registry, and the account kind of the settings.\<close>

definition session_env :: "'w env \<Rightarrow> Settings \<Rightarrow> 'w env" where
  "session_env env settings =
     env\<lparr>e_registry := build_metatrader_tool_registry True, e_account_kind := st_mt5_account_kind settings\<rparr>"

definition demo_execution_session ::
  "'w env \<Rightarrow> Settings \<Rightarrow> ('w env \<Rightarrow> ('w, 'a) live_io) \<Rightarrow> ('w, 'a) live_io" where
  "demo_execution_session env settings body =
     (if st_mode settings \<noteq> Mode_DEMO_EXECUTION then raise_io RuntimeError
      else if \<not> st_trading_enabled settings then raise_io RuntimeError
      else bind_io (lift_io (require_demo_account_kind (st_mt5_account_kind settings))) (\<lambda>_.
        let env = session_env env settings
        in with_client env
             (bind_io (catch_io (require_demo_account (McpAccountReader env))
                (\<lambda>e. if e = NotDemoAccountError then return_io () else raise_io e))
                (\<lambda>_. body env))))"

section \<open>One cycle\<close>

definition script_caps :: ExposureCaps where
  "script_caps = \<lparr> caps_max_open_lots = Some (flt (6 / 100)), caps_budget_max_lots = Some (flt (6 / 100)) \<rparr>"

definition grid_magic :: int where "grid_magic = 71101"
definition runner_magic :: int where "runner_magic = 72101"

text \<open>A strategy's cycle counts as completed unless it raises; \<^verbatim>\<open>GridCycleError\<close> is one way.\<close>

definition completes :: "('s, exn, 'a) io \<Rightarrow> ('s, exn, bool) io" where
  "completes m = except_else_io m (\<lambda>_. return_io False) (\<lambda>_. return_io True)"

definition script_grid_cycle ::
  "'s MarketDataSource \<Rightarrow> 's AccountReader \<Rightarrow> 's OrderExecutor \<Rightarrow> ('s, exn, LocalOrderRecord list) io \<Rightarrow>
   ('s, exn, ExecutionResult list) io" where
  "script_grid_cycle market_data account executor state_store =
     run_grid_cycle market_data account executor ''BTCUSD'' ''M1'' 100 default_grid_config default_money_config
       script_caps grid_magic (Some state_store)"

definition script_runner_cycle ::
  "'s MarketDataSource \<Rightarrow> 's AccountReader \<Rightarrow> 's OrderExecutor \<Rightarrow> ('s, exn, LocalOrderRecord list) io \<Rightarrow>
   ('s, exn, ExecutionResult option) io" where
  "script_runner_cycle market_data account executor state_store =
     run_runner_cycle market_data account executor ''BTCUSD'' ''M1'' 100 default_runner_config default_money_config
       script_caps runner_magic (Some state_store)"

definition run_one_cycle ::
  "'s MarketDataSource \<Rightarrow> 's AccountReader \<Rightarrow> 's OrderExecutor \<Rightarrow> ('s, exn, LocalOrderRecord list) io \<Rightarrow>
   ('s, exn, bool) io" where
  "run_one_cycle market_data account executor state_store =
     bind_io (completes (script_grid_cycle market_data account executor state_store)) (\<lambda>grid_ok.
     bind_io (completes (script_runner_cycle market_data account executor state_store)) (\<lambda>runner_ok.
       return_io (grid_ok \<and> runner_ok)))"

section \<open>Daily loss\<close>

definition live_daily_loss_decision :: "'w env \<Rightarrow> DailyLossLimitConfig \<Rightarrow> ('w, RiskDecision) live_io" where
  "live_daily_loss_decision env config =
     (case dl_max_daily_loss config of
        None \<Rightarrow> lift_io (check_daily_loss_limit 0 config)
      | Some _ \<Rightarrow>
          bind_io (now_utc env) (\<lambda>now.
          bind_io (lift_io (daily_reset_boundary now (dl_reset_hour_utc config))) (\<lambda>boundary.
            let fetch_from = strftime_date (dt_add boundary (- days 1));
                fetch_to = strftime_date (dt_add now (days 1))
            in bind_io (get_deals env (Some fetch_from) (Some fetch_to) None) (\<lambda>deals.
               bind_io (read_files State_Store.all_records) (\<lambda>all_records.
               bind_io (lift_io (infer_deal_time_offset all_records deals)) (\<lambda>offset.
                 lift_io (compute_daily_loss_decision deals (set (map lr_ticket all_records)) now config
                   (case offset of None \<Rightarrow> 0 | Some d \<Rightarrow> d))))))))"

definition daily_loss_decision_for_cycle :: "'w env \<Rightarrow> DailyLossLimitConfig \<Rightarrow> ('w, RiskDecision) live_io" where
  "daily_loss_decision_for_cycle env config =
     except_io (live_daily_loss_decision env config) (\<lambda>exc.
       return_io (reject [[Lit ''could not compute daily-loss decision, failing closed: '', F_exn]]
         (Some ''daily_loss_computation_error'')))"

section \<open>Waiting and looping\<close>

text \<open>
  What the loop sees besides the server: the monotonic clock and the stop file, which may change
  between any two looks.
\<close>

record 'w surroundings =
  su_env :: "'w env"
  su_monotonic :: "'w \<Rightarrow> nat \<Rightarrow> pyfloat"
  su_stop_file :: "'w \<Rightarrow> nat \<Rightarrow> bool"

definition look :: "('w \<Rightarrow> nat \<Rightarrow> 'a) \<Rightarrow> ('w, 'a) live_io" where
  "look f = (\<lambda>s. (Inr (f (l_server s) (l_clock_reads s)), s\<lparr>l_clock_reads := l_clock_reads s + 1\<rparr>))"

definition stop_reason ::
  "'w surroundings \<Rightarrow> LoopLimits \<Rightarrow> pyfloat \<Rightarrow> int \<Rightarrow> RiskDecision option \<Rightarrow> ('w, fstring option) live_io" where
  "stop_reason su limits start_time cycle_num daily_loss_decision =
     bind_io (look (su_monotonic su)) (\<lambda>t.
     bind_io (look (su_stop_file su)) (\<lambda>stop_file_exists.
       return_io (should_stop cycle_num (t - start_time) stop_file_exists limits daily_loss_decision)))"

text \<open>
  The polled wait. Steps of a float need not reach the interval, so the loop runs on fuel, and
  \<open>None\<close> says that it ran out.
\<close>

fun wait_loop ::
  "nat \<Rightarrow> 'w surroundings \<Rightarrow> LoopLimits \<Rightarrow> pyfloat \<Rightarrow> int \<Rightarrow> RiskDecision option \<Rightarrow> pyfloat \<Rightarrow> ('w, bool option) live_io" where
  "wait_loop 0 su limits start_time cycle_num d waited = return_io None"
| "wait_loop (Suc fuel) su limits start_time cycle_num d waited =
     (if waited < ll_cycle_interval_seconds limits then
        bind_io (stop_reason su limits start_time cycle_num d) (\<lambda>reason.
          if reason \<noteq> None then return_io (Some True)
          else
            let step = min (ll_poll_interval_seconds limits) (ll_cycle_interval_seconds limits - waited)
            in bind_io (sleep (su_env su) step) (\<lambda>_.
                 wait_loop fuel su limits start_time cycle_num d (waited + step)))
      else return_io (Some False))"

definition wait_for_next_cycle ::
  "nat \<Rightarrow> 'w surroundings \<Rightarrow> LoopLimits \<Rightarrow> pyfloat \<Rightarrow> int \<Rightarrow> RiskDecision option \<Rightarrow> ('w, bool option) live_io" where
  "wait_for_next_cycle fuel su limits start_time cycle_num d = wait_loop fuel su limits start_time cycle_num d 0"

text \<open>
  The \<^verbatim>\<open>while True\<close>, from \<open>cycle_num\<close> completed cycles: the number of cycles run when it
  is over, or \<open>None\<close> when a wait ran out of fuel.
\<close>

function pipeline_loop ::
  "nat \<Rightarrow> 'w surroundings \<Rightarrow> LoopLimits \<Rightarrow> DailyLossLimitConfig \<Rightarrow> ('w, bool) live_io \<Rightarrow> pyfloat \<Rightarrow> int \<Rightarrow>
   ('w, int option) live_io" where
  "pipeline_loop fuel su limits config cycle start_time cycle_num =
     bind_io (daily_loss_decision_for_cycle (su_env su) config) (\<lambda>d.
     bind_io (look (su_monotonic su)) (\<lambda>t.
     bind_io (look (su_stop_file su)) (\<lambda>stop_file_exists.
       case should_stop cycle_num (t - start_time) stop_file_exists limits (Some d) of
         Some reason \<Rightarrow> return_io (Some cycle_num)
       | None \<Rightarrow>
           bind_io cycle (\<lambda>ok.
             if \<not> ok then return_io (Some (cycle_num + 1))
             else bind_io (wait_for_next_cycle fuel su limits start_time (cycle_num + 1) (Some d)) (\<lambda>stopped.
               case stopped of
                 None \<Rightarrow> return_io None
               | Some True \<Rightarrow> return_io (Some (cycle_num + 1))
               | Some False \<Rightarrow> pipeline_loop fuel su limits config cycle start_time (cycle_num + 1))))))"
  by pat_completeness auto
termination
  by (relation "measure (\<lambda>(_, _, limits, _, _, _, k). nat (ll_max_cycles limits - k))")
    (auto simp: should_stop_def Let_def split: if_split_asm)

definition script_limits :: LoopLimits where
  "script_limits = \<lparr> ll_max_cycles = 30, ll_max_runtime_seconds = fint 180 * fint 60,
     ll_cycle_interval_seconds = fint 300, ll_poll_interval_seconds = fint 5 \<rparr>"

definition script_daily_loss_config :: DailyLossLimitConfig where
  "script_daily_loss_config = \<lparr> dl_max_daily_loss = Some (fint 50), dl_reset_hour_utc = 0 \<rparr>"

definition live_cycle :: "'w env \<Rightarrow> ('w, bool) live_io" where
  "live_cycle env =
     run_one_cycle (McpMarketDataSource env) (McpAccountReader env) (McpOrderExecutor env (McpAccountReader env))
       (read_files State_Store.all_open)"

text \<open>The session and the loop; \<open>None\<close> is an interrupted run.\<close>

definition loop_main :: "nat \<Rightarrow> 'w surroundings \<Rightarrow> (string \<times> string) list \<Rightarrow> ('w, int option option) live_io" where
  "loop_main fuel su source =
     bind_io (lift_io (load_settings source)) (\<lambda>settings.
     bind_io (look (su_monotonic su)) (\<lambda>start_time.
       catch_io
         (bind_io (demo_execution_session (su_env su) (settings\<lparr>st_mode := Mode_DEMO_EXECUTION\<rparr>) (\<lambda>env.
            pipeline_loop fuel (su\<lparr>su_env := env\<rparr>) script_limits script_daily_loss_config (live_cycle env) start_time 0))
            (\<lambda>k. return_io (Some k)))
         (\<lambda>e. if e = KeyboardInterrupt then return_io None else raise_io e)))"

section \<open>What the composition guarantees\<close>

text \<open>
  C2: A session that could trade opens only in the one trading-capable mode and for the account
  kind DEMO: in every other case it is refused before anything is touched, the body never runs. And
  no session outlives its body, however that ends.
\<close>

theorem session_guarded:
  assumes "demo_execution_session env settings body s = (r, t)"
  shows "(st_mode settings \<noteq> Mode_DEMO_EXECUTION \<or> st_mt5_account_kind settings \<noteq> Some ''DEMO'' \<longrightarrow>
      t = s \<and> (r = Inl RuntimeError \<or> r = Inl NotDemoAccountError)) \<and>
    (\<not> l_session s \<longrightarrow> \<not> l_session t)"
proof (cases "st_mode settings \<noteq> Mode_DEMO_EXECUTION \<or> st_mt5_account_kind settings \<noteq> Some ''DEMO''")
  case True
  then show ?thesis
    using assms by (auto simp: demo_execution_session_def require_demo_account_kind_def raise_io_def split: if_split_asm)
next
  case False
  then obtain m where run: "with_client (session_env env settings) m s = (r, t)"
    using assms by (simp add: demo_execution_session_def require_demo_account_kind_def st_trading_enabled_def
        trading_capable_modes_def Let_def)
  have "\<not> l_session t" if "\<not> l_session s"
    using run that unfolding with_client_def aenter_def aexit_def
    by (auto simp: io_simps split: prod.splits option.splits sum.splits)
  then show ?thesis using False by blast
qed

definition real_settings :: Settings where
  "real_settings = \<lparr> st_mode = Mode_DEMO_EXECUTION, st_mt5_demo_login = None, st_mt5_demo_password = None,
     st_mt5_demo_server = None, st_mt5_account_kind = Some ''REAL'', st_mcp_server_command = None, st_log_level = ''INFO'' \<rparr>"

theorem session_guarded_witness:
  "snd (demo_execution_session (silent_env True) real_settings (\<lambda>env. call_tool env ''close_position'' []) fresh_live) = fresh_live"
  using session_guarded [of "silent_env True" real_settings "\<lambda>env. call_tool env ''close_position'' []" fresh_live]
  by (simp add: real_settings_def split_paired_all) (metis prod.collapse)

text \<open>
  The two strategies of a cycle are isolated: the runner's cycle runs in whatever state the
  grid's one left, whether that returned or raised, and the cycle counts as good exactly when both
  returned. Only an exception that is no \<open>Exception\<close> gets through.
\<close>

theorem cycles_isolated:
  assumes "script_grid_cycle market_data account executor state_store s = (g, s1)"
    and "script_runner_cycle market_data account executor state_store s1 = (r, s2)"
  shows "run_one_cycle market_data account executor state_store s =
    (if g = Inl KeyboardInterrupt then (Inl KeyboardInterrupt, s1)
     else if r = Inl KeyboardInterrupt then (Inl KeyboardInterrupt, s2)
     else (Inr (\<not> isl g \<and> \<not> isl r), s2))"
proof -
  have ends: "completes m s = (case m s of
      (Inl e, t) \<Rightarrow> (if e = KeyboardInterrupt then Inl e else Inr False, t) | (Inr _, t) \<Rightarrow> (Inr True, t))"
    for m :: "('a, exn, 'b) io" and s
    by (simp add: completes_def except_else_io_def io_simps is_Exception_def split: prod.split sum.split)
  show ?thesis
    using assms by (cases g; cases r) (auto simp: run_one_cycle_def io_simps ends)
qed

text \<open>Without a session the grid's cycle raises, and the runner's still runs.\<close>

definition no_session :: "unit live" where
  "no_session = fresh_live\<lparr>l_session := False\<rparr>"

lemma call_no_session: "call_tool env tool args no_session = (Inl RuntimeError, no_session)"
  by (simp add: call_tool_def no_session_def)

theorem cycles_isolated_witness:
  "live_cycle (silent_env True) no_session = (Inr False, no_session)"
proof -
  let ?env = "silent_env True"
  have bars: "get_bars (McpMarketDataSource ?env) symbol timeframe n no_session = (Inl RuntimeError, no_session)" for symbol timeframe n
    by (simp add: McpMarketDataSource_def mcp_get_bars_def bind_io_def call_no_session)
  have "script_grid_cycle (McpMarketDataSource ?env) (McpAccountReader ?env) (McpOrderExecutor ?env (McpAccountReader ?env))
      (read_files State_Store.all_open) no_session = (Inl RuntimeError, no_session)"
    "script_runner_cycle (McpMarketDataSource ?env) (McpAccountReader ?env) (McpOrderExecutor ?env (McpAccountReader ?env))
      (read_files State_Store.all_open) no_session = (Inl RuntimeError, no_session)"
    unfolding script_grid_cycle_def script_runner_cycle_def run_grid_cycle_def run_runner_cycle_def
    by (simp_all only: bind_io_def bars prod.case sum.case)
  from cycles_isolated [OF this] show ?thesis by (simp add: live_cycle_def)
qed

text \<open>
  C7: The daily loss gate fails closed: when its decision cannot be computed, or rejects, the loop
  ends before the next cycle, having done nothing after the computation but look at the clock and
  the stop file.
\<close>

theorem daily_gate_fails_closed:
  assumes "live_daily_loss_decision (su_env su) config s = (r, t)"
    and "(\<exists>e. r = Inl e \<and> is_Exception e) \<or> (\<exists>d. r = Inr d \<and> \<not> rd_approved d)"
  shows "pipeline_loop fuel su limits config cycle start_time k s =
    (Inr (Some k), t\<lparr>l_clock_reads := l_clock_reads t + 2\<rparr>)"
proof -
  obtain d where d: "daily_loss_decision_for_cycle (su_env su) config s = (Inr d, t)" "\<not> rd_approved d"
    using assms by (auto simp: daily_loss_decision_for_cycle_def except_io_def catch_io_def return_io_def)
  have none: "(should_stop k elapsed stop limits (Some d) = None) = False" for elapsed stop
    using d(2) by (simp add: should_stop_def Let_def)
  show ?thesis
    by (subst pipeline_loop.simps) (simp add: bind_io_def d(1) look_def return_io_def none del: not_None_eq split: option.split)
qed

definition lone_surroundings :: "unit surroundings" where
  "lone_surroundings = \<lparr> su_env = silent_env True, su_monotonic = (\<lambda>w n. fint (int n)), su_stop_file = (\<lambda>w n. False) \<rparr>"

text \<open>Outside a session the deals cannot be read, and not one cycle runs.\<close>

theorem daily_gate_fails_closed_witness:
  "\<exists>t. pipeline_loop 61 lone_surroundings script_limits script_daily_loss_config (live_cycle (silent_env True)) 0 0 no_session =
     (Inr (Some 0), t) \<and> l_calls t = l_calls no_session"
proof -
  let ?env = "su_env lone_surroundings" and ?s = "no_session\<lparr>l_clock_reads := 1\<rparr>"
  have refused: "get_deals ?env a b c ?s = (Inl RuntimeError, ?s)" for a b c
    by (simp add: get_deals_def call_tool_def no_session_def bind_io_def)
  have now: "now_utc ?env no_session = (Inr (Aware (e_clock ?env 0)), ?s)"
    by (simp add: now_utc_def no_session_def fresh_live_def)
  obtain boundary where boundary: "daily_reset_boundary (Aware (e_clock ?env 0)) (dl_reset_hour_utc script_daily_loss_config) = Inr boundary"
    by (simp add: daily_reset_boundary_def script_daily_loss_config_def Let_def)
  have limit: "dl_max_daily_loss script_daily_loss_config = Some (fint 50)" by (simp add: script_daily_loss_config_def)
  have run: "live_daily_loss_decision ?env script_daily_loss_config no_session = (Inl RuntimeError, ?s)"
    unfolding live_daily_loss_decision_def limit option.case bind_io_go [where m = "now_utc ?env", OF now] boundary bind_io_lift Let_def
    by (rule bind_io_stop) (rule refused)
  show ?thesis
    using daily_gate_fails_closed [OF run, of 61 script_limits "live_cycle (silent_env True)" 0 0]
    by (simp add: is_Exception_def no_session_def)
qed

text \<open>\<open>m\<close> raises nothing but what no handler of the program catches.\<close>

definition interrupts_only :: "('s, exn, 'a) io \<Rightarrow> bool" where
  "interrupts_only m \<longleftrightarrow> (\<forall>s e t. m s = (Inl e, t) \<longrightarrow> e = KeyboardInterrupt)"

lemma interrupts_bind: "interrupts_only m \<Longrightarrow> (\<And>x. interrupts_only (f x)) \<Longrightarrow> interrupts_only (bind_io m f)"
  unfolding interrupts_only_def bind_io_Inl by blast

lemma interrupts_pure: "interrupts_only (return_io x)" "interrupts_only (look f)" "interrupts_only (modify_io g)"
  by (simp_all add: interrupts_only_def return_io_def look_def modify_io_def)

lemma interrupts_completes: "interrupts_only (completes m)"
  by (auto simp: interrupts_only_def completes_def except_else_io_def io_simps is_Exception_def
      split: prod.splits sum.splits if_split_asm)

lemma interrupts_daily: "interrupts_only (daily_loss_decision_for_cycle env config)"
  by (auto simp: interrupts_only_def daily_loss_decision_for_cycle_def except_io_def io_simps is_Exception_def
      split: prod.splits sum.splits if_split_asm)

lemma interrupts_cycle: "interrupts_only (run_one_cycle market_data account executor state_store)"
  unfolding run_one_cycle_def by (intro interrupts_bind interrupts_completes interrupts_pure)

lemma fint_add: "\<bar>m\<bar> \<le> 2 ^ 53 \<Longrightarrow> \<bar>n\<bar> \<le> 2 ^ 53 \<Longrightarrow> \<bar>m + n\<bar> \<le> 2 ^ 53 \<Longrightarrow> fint m + fint n = fint (m + n)"
  and fint_diff: "\<bar>m\<bar> \<le> 2 ^ 53 \<Longrightarrow> \<bar>n\<bar> \<le> 2 ^ 53 \<Longrightarrow> \<bar>m - n\<bar> \<le> 2 ^ 53 \<Longrightarrow> fint m - fint n = fint (m - n)"
  and fint_less: "\<bar>m\<bar> \<le> 2 ^ 53 \<Longrightarrow> \<bar>n\<bar> \<le> 2 ^ 53 \<Longrightarrow> fint m < fint n \<longleftrightarrow> m < n"
  using is_flt_of_int [of m] is_flt_of_int [of n]
  by (simp_all add: pyfloat_eq_iff pyfloat_less_iff rat_of_arith fint_def rnd_id)

text \<open>The wait of the script takes at most 60 steps of 5 seconds.\<close>

lemma wait_returns:
  assumes "0 \<le> j" "j \<le> 60" "60 < int fuel + j"
    and "wait_loop fuel su script_limits start_time k d (fint (5 * j)) s = (r, t)"
  shows "\<exists>b. r = Inr (Some b)"
  using assms
proof (induction fuel arbitrary: j s)
  case (Suc fuel)
  have interval: "ll_cycle_interval_seconds script_limits = fint 300" "ll_poll_interval_seconds script_limits = fint 5"
    by (simp_all add: script_limits_def)
  show ?case
  proof (cases "j < 60")
    case True
    have more: "fint (5 * j) < fint 300" using True Suc.prems by (simp add: fint_less)
    have "\<not> fint (300 - 5 * j) < fint 5" using True Suc.prems by (simp add: fint_less)
    moreover have "fint 300 - fint (5 * j) = fint (300 - 5 * j)" using True Suc.prems by (simp add: fint_diff)
    ultimately have step: "min (fint 5) (fint 300 - fint (5 * j)) = fint 5" by (simp add: min_def not_less)
    have sum: "fint (5 * j) + fint 5 = fint (5 * (j + 1))"
      using fint_add [of "5 * j" 5] True Suc.prems by (simp add: algebra_simps)
    have step: "wait_loop (Suc fuel) su script_limits start_time k d (fint (5 * j)) =
      bind_io (stop_reason su script_limits start_time k d) (\<lambda>reason.
        if reason \<noteq> None then return_io (Some True)
        else bind_io (sleep (su_env su) (fint 5)) (\<lambda>_. wait_loop fuel su script_limits start_time k d (fint (5 * (j + 1)))))"
      by (simp only: wait_loop.simps interval Let_def more if_True step sum)
    from Suc.prems(4) [unfolded step] show ?thesis
    proof (cases rule: bind_ioE)
      case (stop e)
      then show ?thesis by (simp add: stop_reason_def look_def bind_io_def return_io_def)
    next
      case (go reason u)
      show ?thesis
      proof (cases "reason = None")
        case True
        then obtain v where "wait_loop fuel su script_limits start_time k d (fint (5 * (j + 1))) v = (r, t)"
          using go(2) by (simp add: sleep_def modify_io_def bind_io_def)
        then show ?thesis using Suc.IH [of "j + 1" v] Suc.prems \<open>j < 60\<close> by auto
      qed (use go(2) in \<open>auto simp: return_io_def\<close>)
    qed
  next
    case False
    then have "j = 60" using Suc.prems by simp
    then have "\<not> fint (5 * j) < fint 300" by simp
    then show ?thesis using Suc.prems(4) by (auto simp: interval return_io_def)
  qed
qed simp

lemma bind_look: "bind_io (look f) g s = g (f (l_server s) (l_clock_reads s)) (s\<lparr>l_clock_reads := l_clock_reads s + 1\<rparr>)"
  by (simp add: bind_io_def look_def)

lemma loop_step:
  assumes "pipeline_loop fuel su limits config cycle start_time k s = (r, t)" "interrupts_only cycle"
  obtains "r = Inl KeyboardInterrupt" | "r = Inr (Some k)"
    | ok d u v where "k < ll_max_cycles limits" "cycle u = (Inr ok, v)"
      "(if \<not> ok then return_io (Some (k + 1))
        else bind_io (wait_for_next_cycle fuel su limits start_time (k + 1) (Some d)) (\<lambda>stopped.
          case stopped of
            None \<Rightarrow> return_io None
          | Some True \<Rightarrow> return_io (Some (k + 1))
          | Some False \<Rightarrow> pipeline_loop fuel su limits config cycle start_time (k + 1))) v = (r, t)"
proof -
  note run = assms(1) [unfolded pipeline_loop.simps [of fuel su limits config cycle start_time k]]
  from run show thesis
  proof (cases rule: bind_ioE)
    case (stop e)
    then show thesis using that(1) interrupts_daily [of "su_env su" config] unfolding interrupts_only_def by blast
  next
    case (go d u)
    let ?u = "u\<lparr>l_clock_reads := l_clock_reads u + 2\<rparr>"
      and ?elapsed = "su_monotonic su (l_server u) (l_clock_reads u) - start_time"
      and ?stop = "su_stop_file su (l_server u) (l_clock_reads u + 1)"
    show thesis
    proof (cases "should_stop k ?elapsed ?stop limits (Some d)")
      case (Some reason)
      then have "r = Inr (Some k)" using go(2) by (simp add: bind_look return_io_def del: pipeline_loop.simps)
      then show thesis by (rule that(2))
    next
      case None
      then have less: "k < ll_max_cycles limits" by (simp add: should_stop_def Let_def split: if_split_asm)
      have "bind_io cycle (\<lambda>ok.
             if \<not> ok then return_io (Some (k + 1))
             else bind_io (wait_for_next_cycle fuel su limits start_time (k + 1) (Some d)) (\<lambda>stopped.
               case stopped of
                 None \<Rightarrow> return_io None
               | Some True \<Rightarrow> return_io (Some (k + 1))
               | Some False \<Rightarrow> pipeline_loop fuel su limits config cycle start_time (k + 1))) ?u = (r, t)"
        using go(2) None by (simp add: bind_look del: pipeline_loop.simps)
      then show thesis
      proof (cases rule: bind_ioE)
        case (stop e)
        then show thesis using that(1) assms(2) unfolding interrupts_only_def by blast
      next
        case (go ok v)
        then show thesis by (rule that(3) [OF less])
      qed
    qed
  qed
qed

lemma wait_next_returns:
  assumes "61 \<le> fuel" "wait_for_next_cycle fuel su script_limits start_time k d s = (r, t)"
  shows "\<exists>b. r = Inr (Some b)"
  using wait_returns [of 0 fuel su start_time k d s r t] assms by (simp add: wait_for_next_cycle_def)

lemma loop_returns:
  assumes "pipeline_loop fuel su script_limits config cycle start_time k s = (r, t)"
    and "61 \<le> fuel" "k \<le> 30" "interrupts_only cycle"
  shows "r = Inl KeyboardInterrupt \<or> (\<exists>n. r = Inr (Some n) \<and> k \<le> n \<and> n \<le> 30)"
  using assms
proof (induction "nat (30 - k)" arbitrary: k s rule: less_induct)
  case less
  have max: "ll_max_cycles script_limits = 30" by (simp add: script_limits_def)
  show ?case
  proof (cases rule: loop_step [OF less.prems(1) less.prems(4)])
    case (3 ok d u v)
    then have k: "k < 30" by (simp add: max)
    show ?thesis
    proof (cases ok)
      case False
      then have "r = Inr (Some (k + 1))" using 3(3) by (simp add: return_io_def)
      then show ?thesis using k by simp
    next
      case True
      obtain w x where w: "wait_for_next_cycle fuel su script_limits start_time (k + 1) (Some d) v = (w, x)" by fastforce
      obtain b where b: "w = Inr (Some b)" using wait_next_returns [OF less.prems(2) w] by blast
      show ?thesis
      proof (cases b)
        case True
        then have "r = Inr (Some (k + 1))"
          using 3(3) \<open>ok\<close> w b by (simp add: bind_io_def return_io_def del: pipeline_loop.simps)
        then show ?thesis using k by simp
      next
        case False
        then have "pipeline_loop fuel su script_limits config cycle start_time (k + 1) x = (r, t)"
          using 3(3) \<open>ok\<close> w b by (simp add: bind_io_def del: pipeline_loop.simps)
        then show ?thesis
          using less.hyps [of "k + 1" x] less.prems(2,4) k by fastforce
      qed
    qed
  qed (use less.prems in auto)
qed

text \<open>
  C9: The autonomous loop ends: with its limits, 61 steps of every wait are enough, whatever clock,
  stop file and server do, and it reports at most 30 cycles. Nothing but an interrupt gets out of
  it, no failing read, submission or computation.
\<close>

theorem loop_ends:
  assumes "pipeline_loop fuel su script_limits config (live_cycle env) start_time 0 s = (r, t)" "61 \<le> fuel"
  shows "r = Inl KeyboardInterrupt \<or> (\<exists>n. r = Inr (Some n) \<and> 0 \<le> n \<and> n \<le> 30)"
  using loop_returns [OF assms] interrupts_cycle by (auto simp: live_cycle_def)

theorem loop_ends_witness:
  "\<exists>r t. pipeline_loop 61 lone_surroundings script_limits script_daily_loss_config (live_cycle (silent_env True)) 0 0 fresh_live = (r, t) \<and>
     (r = Inl KeyboardInterrupt \<or> (\<exists>n. r = Inr (Some n) \<and> n \<le> 30))"
proof -
  obtain r t where run: "pipeline_loop 61 lone_surroundings script_limits script_daily_loss_config (live_cycle (silent_env True)) 0 0 fresh_live = (r, t)"
    by fastforce
  then show ?thesis using loop_ends [OF run] by auto
qed

section \<open>How much a run can send\<close>

definition sends_at_most :: "nat \<Rightarrow> ('w, 'a) live_io \<Rightarrow> bool" where
  "sends_at_most n m \<longleftrightarrow> emits {L. length L \<le> n} m"

lemma sends_mono: "sends_at_most m p \<Longrightarrow> m \<le> n \<Longrightarrow> sends_at_most n p"
  unfolding sends_at_most_def by (rule emits_mono) auto

lemma sends_quiet: "keeps (calls_only reader_tools) m \<Longrightarrow> sends_at_most n m"
  unfolding sends_at_most_def by (rule quiet_emits) simp_all

lemma sends_bind: "sends_at_most m p \<Longrightarrow> (\<And>x. sends_at_most n (f x)) \<Longrightarrow> sends_at_most (m + n) (bind_io p f)"
  unfolding sends_at_most_def by (rule emits_bind) auto

lemma sends_quiet_then:
  "keeps (calls_only reader_tools) p \<Longrightarrow> (\<And>x. sends_at_most n (f x)) \<Longrightarrow> sends_at_most n (bind_io p f)"
  using sends_bind [OF sends_quiet [where n = 0], of p n f] by simp

lemma sends_lift: "(\<And>x. r = Inr x \<Longrightarrow> sends_at_most n (f x)) \<Longrightarrow> sends_at_most n (bind_io (lift_io r) f)"
  by (cases r) (auto intro: sends_quiet calls.keeps_pure)

lemma sends_then_quiet:
  "sends_at_most n p \<Longrightarrow> (\<And>x. keeps (calls_only reader_tools) (f x)) \<Longrightarrow> sends_at_most n (bind_io p f)"
  using sends_bind [OF _ sends_quiet [where n = 0], of n p f] by simp

lemma sends_try: "sends_at_most n p \<Longrightarrow> sends_at_most n (try_io p)"
  by (simp add: sends_at_most_def emits_def try_io_def split_beta)

lemma sends_if: "sends_at_most n p \<Longrightarrow> sends_at_most n q \<Longrightarrow> sends_at_most n (if b then p else q)"
  by simp

lemma sends_pair: "(\<And>a b. p = (a, b) \<Longrightarrow> sends_at_most n (f a b)) \<Longrightarrow> sends_at_most n (case p of (a, b) \<Rightarrow> f a b)"
  by (cases p) simp

lemma sends_option:
  "sends_at_most n p \<Longrightarrow> (\<And>x. sends_at_most n (f x)) \<Longrightarrow> sends_at_most n (case v of None \<Rightarrow> p | Some x \<Rightarrow> f x)"
  by (cases v) simp_all

lemma sends_submit:
  "sends_at_most (if op_order_type plan = LIMIT then 1 else 2) (submit (McpOrderExecutor env (McpAccountReader env)) plan)"
proof -
  have "insert [] (submission_calls plan) \<subseteq> {L. length L \<le> (if op_order_type plan = LIMIT then 1 else 2)}"
    by (cases "op_order_type plan") (auto simp: submission_calls_def)
  then show ?thesis
    unfolding sends_at_most_def McpOrderExecutor_def by (simp add: emits_mono [OF submission_sends])
qed

interpretation live: quiet_reads "calls_only reader_tools" "McpMarketDataSource env" "McpAccountReader env"
  "Some (read_files State_Store.all_open)" for env
  by unfold_locales
    (simp_all add: McpMarketDataSource_def McpAccountReader_def readers_calls, simp add: read_files_def on_files_calls)

abbreviation live_executor :: "'w env \<Rightarrow> 'w live OrderExecutor" where
  "live_executor env \<equiv> McpOrderExecutor env (McpAccountReader env)"

lemma sides_send:
  assumes "\<And>i plan. i \<in> set intents \<Longrightarrow> plan_of i = Inr (Some plan) \<Longrightarrow> op_order_type plan = LIMIT"
  shows "sends_at_most (length intents) (grid_sides plan_of (live_executor env) intents results errors)"
  using assms
proof (induction intents arbitrary: results errors)
  case Nil
  show ?case by (simp add: sends_quiet calls.keeps_pure)
next
  case (Cons i intents)
  have rest: "sends_at_most (length intents) (grid_sides plan_of (live_executor env) intents results errors)" for results errors
    by (rule Cons.IH) (rule Cons.prems, simp_all)
  show ?case
  proof (simp only: grid_sides.simps length_Cons, rule sends_lift)
    fix p
    assume p: "plan_of i = Inr p"
    show "sends_at_most (Suc (length intents)) (case p of None \<Rightarrow> grid_sides plan_of (live_executor env) intents results errors
       | Some plan \<Rightarrow> except_else_io (submit (live_executor env) plan)
           (\<lambda>exc. grid_sides plan_of (live_executor env) intents results (errors @ [(ti_side i, exc)]))
           (\<lambda>result. grid_sides plan_of (live_executor env) intents (results @ [result]) errors))"
    proof (cases p)
      case None
      then show ?thesis using sends_mono [OF rest] by simp
    next
      case (Some plan)
      have "sends_at_most 1 (try_io (submit (live_executor env) plan))"
        using sends_submit [of plan env] Cons.prems [of i plan] p Some by (simp add: sends_try)
      then have "sends_at_most (1 + length intents) (except_else_io (submit (live_executor env) plan)
           (\<lambda>exc. grid_sides plan_of (live_executor env) intents results (errors @ [(ti_side i, exc)]))
           (\<lambda>result. grid_sides plan_of (live_executor env) intents (results @ [result]) errors))"
        unfolding except_else_io_def
        by (rule sends_bind) (auto split: sum.split intro: rest sends_quiet calls.keeps_pure)
      then show ?thesis by (simp add: Some)
    qed
  qed
qed

lemma grid_cycle_sends:
  "sends_at_most 2 (run_grid_cycle (McpMarketDataSource env) (McpAccountReader env) (live_executor env)
     symbol timeframe n gc mc caps magic (Some (read_files State_Store.all_open)))"
proof -
  have sides: "sends_at_most 2 (bind_io (grid_sides (grid_side_plan levels si tick mc caps magic open_lots orders)
       (live_executor env) [buy, sell] [] []) (\<lambda>(results, errors).
         if errors \<noteq> [] then raise_io (GridCycleError results errors) else return_io results))"
    if "grid_levels_to_trade_intents levels ''grid'' = (buy, sell)" for levels si tick open_lots orders buy sell
  proof (rule sends_then_quiet)
    note intents = grid_intents [OF that]
    have "sends_at_most (length [buy, sell]) (grid_sides (grid_side_plan levels si tick mc caps magic open_lots orders)
       (live_executor env) [buy, sell] [] [])"
    proof (rule sides_send)
      fix i plan
      assume "i \<in> set [buy, sell]" and plan: "grid_side_plan levels si tick mc caps magic open_lots orders i = Inr (Some plan)"
      then have "limit_intent i" using intents by auto
      then obtain p where "plan = grid_plan levels si mc magic i p" by (rule grid_side_plan_Some [OF _ plan])
      then show "op_order_type plan = LIMIT" by (simp add: grid_plan_def)
    qed
    then show "sends_at_most 2 (grid_sides (grid_side_plan levels si tick mc caps magic open_lots orders)
       (live_executor env) [buy, sell] [] [])" by (simp add: numeral_2_eq_2 del: grid_sides.simps)
    show "keeps (calls_only reader_tools) (case x of (results, errors) \<Rightarrow>
        if errors \<noteq> [] then raise_io (GridCycleError results errors) else return_io results)" for x :: "ExecutionResult list \<times> (Side \<times> exn) list"
      by (intro calls.keeps_rules)
  qed
  show ?thesis
    unfolding run_grid_cycle_def Let_def
    by (intro sides sends_quiet_then sends_if sends_pair live.quiet_bars live.quiet_info live.quiet_tick live.quiet_exposure
        calls.keeps_pure sends_quiet [OF calls.keeps_pure(1)])
qed

lemma runner_cycle_sends:
  "sends_at_most 2 (run_runner_cycle (McpMarketDataSource env) (McpAccountReader env) (live_executor env)
     symbol timeframe n rc mc caps magic (Some (read_files State_Store.all_open)))"
proof -
  have sent: "sends_at_most 2 (bind_io (submit (live_executor env) plan) (\<lambda>result. return_io (Some result)))" for plan
    by (rule sends_then_quiet [OF sends_mono [OF sends_submit]]) (simp_all add: calls.keeps_pure)
  have quiet: "sends_at_most 2 (return_io x)" for x :: "ExecutionResult option" by (rule sends_quiet [OF calls.keeps_pure(1)])
  show ?thesis
    unfolding run_runner_cycle_def
    by (intro sent sends_quiet_then sends_pair sends_option live.quiet_bars live.quiet_info live.quiet_tick
        live.quiet_exposure calls.keeps_pure quiet)
qed

lemma sends_completes: "sends_at_most n m \<Longrightarrow> sends_at_most n (completes m)"
  unfolding completes_def except_else_io_def
  by (rule sends_then_quiet [OF sends_try]) (auto split: sum.split intro!: calls.keeps_rules)

lemma live_cycle_sends: "sends_at_most 4 (live_cycle env)"
proof -
  have "sends_at_most (2 + (2 + 0)) (live_cycle env)"
    unfolding live_cycle_def run_one_cycle_def script_grid_cycle_def script_runner_cycle_def
    by (intro sends_bind sends_completes grid_cycle_sends runner_cycle_sends sends_quiet [OF calls.keeps_pure(1)])
  then show ?thesis by simp
qed

lemma daily_quiet: "keeps (calls_only reader_tools) (daily_loss_decision_for_cycle env config)"
  unfolding daily_loss_decision_for_cycle_def live_daily_loss_decision_def Let_def
  by (intro except_io_keeps calls.keeps_rules now_utc_calls readers_calls, (simp add: read_files_def on_files_calls)?)

lemma look_quiet: "keeps (calls_only A) (look f)"
  by (simp add: keeps_def look_def calls_only_def)

lemma stop_reason_quiet: "keeps (calls_only A) (stop_reason su limits start_time k d)"
  unfolding stop_reason_def by (intro calls.keeps_rules look_quiet)

lemma wait_quiet: "keeps (calls_only A) (wait_loop fuel su limits start_time k d waited)"
  by (induction fuel arbitrary: waited)
    (auto simp: Let_def intro!: calls.keeps_rules stop_reason_quiet sleep_calls)

lemma loop_sends:
  assumes "sends_at_most c cycle"
  shows "sends_at_most (c * nat (ll_max_cycles limits - k)) (pipeline_loop fuel su limits config cycle start_time k)"
proof (induction "nat (ll_max_cycles limits - k)" arbitrary: k rule: less_induct)
  case less
  let ?n = "c * nat (ll_max_cycles limits - k)"
  have return: "sends_at_most ?n (return_io x)" for x :: "int option" by (rule sends_quiet [OF calls.keeps_pure(1)])
  have round: "sends_at_most ?n (case should_stop k elapsed stop limits (Some d) of
       Some reason \<Rightarrow> return_io (Some k)
     | None \<Rightarrow> bind_io cycle (\<lambda>ok.
         if \<not> ok then return_io (Some (k + 1))
         else bind_io (wait_for_next_cycle fuel su limits start_time (k + 1) (Some d)) (\<lambda>stopped.
           case stopped of
             None \<Rightarrow> return_io None
           | Some True \<Rightarrow> return_io (Some (k + 1))
           | Some False \<Rightarrow> pipeline_loop fuel su limits config cycle start_time (k + 1))))" for elapsed stop d
  proof (cases "should_stop k elapsed stop limits (Some d)")
    case None
    then have "k < ll_max_cycles limits" by (simp add: should_stop_def Let_def split: if_split_asm)
    then have "nat (ll_max_cycles limits - k) = Suc (nat (ll_max_cycles limits - (k + 1)))" by simp
    then have n: "?n = c + c * nat (ll_max_cycles limits - (k + 1))" and less': "nat (ll_max_cycles limits - (k + 1)) < nat (ll_max_cycles limits - k)"
      by simp_all
    have again: "sends_at_most (c * nat (ll_max_cycles limits - (k + 1))) (case stopped of
             None \<Rightarrow> return_io None
           | Some True \<Rightarrow> return_io (Some (k + 1))
           | Some False \<Rightarrow> pipeline_loop fuel su limits config cycle start_time (k + 1))" for stopped
      using less.hyps [OF less'] by (auto simp del: pipeline_loop.simps split: option.split bool.split intro: sends_quiet calls.keeps_pure)
    show ?thesis
      unfolding None option.case n wait_for_next_cycle_def
      by (intro sends_bind [OF assms] sends_if sends_quiet_then wait_quiet again sends_quiet [OF calls.keeps_pure(1)])
  qed (simp add: return)
  show ?case
    unfolding pipeline_loop.simps [of fuel su limits config cycle start_time k]
    by (intro sends_quiet_then daily_quiet look_quiet round)
qed

text \<open>
  C8: An unattended run is bounded in what it can do to the account: whatever the server, the clock
  and the files do, it makes at most four trading calls per cycle it may run, so 120 with the
  script's 30 cycles.
\<close>

theorem run_sends_bounded:
  assumes "pipeline_loop fuel su limits config (live_cycle env) start_time 0 s = (r, t)"
  shows "\<exists>L. trades_added s t L \<and> length L \<le> 4 * nat (ll_max_cycles limits) \<and>
    (limits = script_limits \<longrightarrow> length L \<le> 120)"
proof -
  have bound: "sends_at_most (4 * nat (ll_max_cycles limits - 0)) (pipeline_loop fuel su limits config (live_cycle env) start_time 0)"
    by (rule loop_sends [OF live_cycle_sends])
  then obtain L where "trades_added s t L" "length L \<le> 4 * nat (ll_max_cycles limits - 0)"
    using emitsD [OF bound [unfolded sends_at_most_def] assms] by blast
  then show ?thesis by (intro exI [of _ L]) (auto simp: script_limits_def)
qed

theorem run_sends_bounded_witness:
  "\<exists>r t L. pipeline_loop 61 lone_surroundings script_limits script_daily_loss_config (live_cycle (silent_env True)) 0 0 fresh_live = (r, t) \<and>
     trades_added fresh_live t L \<and> length L \<le> 120"
proof -
  obtain r t where run: "pipeline_loop 61 lone_surroundings script_limits script_daily_loss_config (live_cycle (silent_env True)) 0 0 fresh_live = (r, t)"
    by fastforce
  then show ?thesis using run_sends_bounded [OF run] by blast
qed

end
