(* ===== verification/Record_Types.thy ===== *)
theory Record_Types
  imports Live_Loop
begin

text \<open>
  The literal types of \<^verbatim>\<open>state/models.py\<close> are not checked when a record is read back.
  Shown here: they hold all the same, because every operation of the program that writes a record
  keeps them, from the store up to the whole autonomous run.
\<close>

section \<open>Well typed records\<close>

text \<open>\<^verbatim>\<open>OrderRecordStatus\<close>, \<^verbatim>\<open>OrderRecordOrigin\<close> and what the two ends of a life have to say.\<close>

definition order_record_status :: "string list" where
  "order_record_status = [''OPEN'', ''OPEN_UNPROTECTED'', ''CANCELLED'', ''CLOSED'']"

definition order_record_origin :: "string list" where
  "order_record_origin = [''system_owned'', ''manual_adoption'']"

definition well_typed :: "LocalOrderRecord \<Rightarrow> bool" where
  "well_typed r \<longleftrightarrow> lr_status r \<in> set order_record_status \<and> lr_origin r \<in> set order_record_origin \<and>
     lr_side r \<in> range side_str \<and> lr_order_type r \<in> insert ''EXTERNAL_POSITION'' (range order_type_str) \<and>
     (\<not> is_open r \<longrightarrow> lr_closed_at r \<noteq> None \<and> lr_closed_reason r \<noteq> None)"

text \<open>Every file that reads as a record reads as a well typed one.\<close>

definition typed_files :: "files \<Rightarrow> bool" where
  "typed_files fs \<longleftrightarrow> (\<forall>name c r. map_of fs name = Some c \<and> read_record_file name c = Inr r \<longrightarrow> well_typed r)"

lemma typed_files_empty: "typed_files []"
  by (simp add: typed_files_def)

lemma load_one_typed: "typed_files fs \<Longrightarrow> load_one t fs = Inr (Some r) \<Longrightarrow> well_typed r"
  by (auto simp: typed_files_def load_one_def result_simps split: option.splits sum.splits)

text \<open>What is read from a written record agrees with it, even where its times cannot be read.\<close>

lemma parse_dt_none: "parse_dt (json_option json_time x) = Inr y \<Longrightarrow> y = None \<longleftrightarrow> x = None"
  by (cases x) (auto simp: json_option_def parse_dt_def json_time_def isoformat_nonempty result_simps split: sum.splits)

lemma read_typed:
  assumes "well_typed r" "read_record_file name (Doc (payload r)) = Inr r'"
  shows "well_typed r'"
proof -
  have opts: "as_option as_float (json_option JFloat x) = Inr x" "as_option as_str (json_option JStr y) = Inr y"
    "as_option as_int (json_option JInt z) = Inr z" "as_option as_text (json_option JText w) = Inr w" for x y z w
    by (rule json_option_inverse, simp)+
  obtain t where read: "deserialize t (payload r) = Inr r'"
    using assms(2) by (auto simp: read_record_file_def read_record_def json_of_content_def result_simps split: sum.splits if_splits)
  then obtain expiry submitted closed where times: "parse_dt (json_option json_time (lr_requested_expiry r)) = Inr expiry"
      "time_of_json (json_time (lr_submitted_at r)) = Inr submitted"
      "parse_dt (json_option json_time (lr_closed_at r)) = Inr closed"
    unfolding deserialize_def payload_def serialize_def
    by (auto simp: field_def item_def opts result_simps)
  have "lr_status r' = lr_status r \<and> lr_origin r' = lr_origin r \<and> lr_side r' = lr_side r \<and>
      lr_order_type r' = lr_order_type r \<and> lr_closed_at r' = closed \<and> lr_closed_reason r' = lr_closed_reason r"
    using read unfolding deserialize_def payload_def serialize_def
    by (auto simp: field_def item_def opts times origin_of_def get_item_def)
  with parse_dt_none [OF times(3)] assms(1) show ?thesis by (simp add: well_typed_def is_open_def)
qed

lemma typed_write:
  assumes "typed_files fs" "well_typed r"
  shows "typed_files (write_one r fs)"
  using assms read_typed [OF assms(2)]
  by (auto simp: typed_files_def map_of_write_one split: if_split_asm)

section \<open>The operations of the store\<close>

definition keeps_typed :: "files \<Rightarrow> files \<Rightarrow> bool" where
  "keeps_typed fs fs' \<longleftrightarrow> (typed_files fs \<longrightarrow> typed_files fs')"

lemma submission_typed:
  "status \<in> {''OPEN'', ''OPEN_UNPROTECTED''} \<Longrightarrow> well_typed (record_of_submission plan r data ticket at' status)"
  by (auto simp: well_typed_def record_of_submission_def submission_record_def is_open_def
      order_record_status_def order_record_origin_def)

lemma update_typed:
  assumes "\<And>r. well_typed r \<Longrightarrow> well_typed (f r)"
  shows "keeps keeps_typed (update_record ticket f)"
proof -
  have "typed_files (snd (update_record ticket f fs))" if typed: "typed_files fs" for fs
  proof (cases "load_one ticket fs")
    case (Inr found)
    then show ?thesis
      using typed typed_write [OF typed assms [OF load_one_typed [OF typed]]]
      by (cases found) (simp_all add: update_record_def io_simps)
  qed (simp add: update_record_def io_simps typed)
  then show ?thesis by (simp add: keeps_def keeps_typed_def)
qed

lemma store_typed:
  "well_typed r \<Longrightarrow> keeps keeps_typed (record_submission r)"
  "keeps keeps_typed (mark_sl_tp_attached ticket)"
  "keeps keeps_typed (record_cancelled ticket reason closed_at)"
  "keeps keeps_typed (record_closed ticket reason closed_at)"
  "side \<in> range side_str \<Longrightarrow> keeps keeps_typed (record_manual_adoption ticket symbol side volume price magic at' note)"
proof -
  show "well_typed r \<Longrightarrow> keeps keeps_typed (record_submission r)"
    by (simp add: keeps_def keeps_typed_def record_submission_def io_simps typed_write)
  show "keeps keeps_typed (mark_sl_tp_attached ticket)"
    unfolding mark_sl_tp_attached_def
    by (rule update_typed) (simp add: well_typed_def is_open_def order_record_status_def)
  show "keeps keeps_typed (record_cancelled ticket reason closed_at)"
    unfolding record_cancelled_def transition_def
    by (rule update_typed) (simp add: well_typed_def order_record_status_def)
  show "keeps keeps_typed (record_closed ticket reason closed_at)"
    unfolding record_closed_def transition_def
    by (rule update_typed) (simp add: well_typed_def order_record_status_def)
  show "side \<in> range side_str \<Longrightarrow> keeps keeps_typed (record_manual_adoption ticket symbol side volume price magic at' note)"
    by (simp add: keeps_def keeps_typed_def record_manual_adoption_def io_simps typed_write well_typed_def is_open_def
        order_record_status_def order_record_origin_def)
qed

section \<open>The live program\<close>

definition typed_step :: "'w live \<Rightarrow> 'w live \<Rightarrow> bool" where
  "typed_step s t \<longleftrightarrow> keeps_typed (l_files s) (l_files t)"

interpretation typed: effect typed_step
  by unfold_locales (auto simp: typed_step_def keeps_typed_def)

lemma typed_quiet: "keeps same_files m \<Longrightarrow> keeps typed_step m"
  by (simp add: keeps_def same_files_def typed_step_def keeps_typed_def)

lemma typed_on_files: "keeps keeps_typed m \<Longrightarrow> keeps typed_step (on_files m)"
  by (auto simp: keeps_def typed_step_def on_files_def split: prod.split) (metis snd_conv)

lemma typed_read_files: "keeps typed_step (read_files f)"
  unfolding read_files_def by (rule typed_on_files) (simp add: keeps_def keeps_typed_def)

lemma typed_call: "keeps typed_step (call_tool env name args)"
  and typed_now: "keeps typed_step (now_utc env)"
  and typed_sleep: "keeps typed_step (sleep env d)"
  and typed_look: "keeps typed_step (look f)"
  by (rule typed_quiet, rule call_tool_files now_utc_files sleep_files)+
    (simp add: keeps_def look_def typed_step_def keeps_typed_def)

lemma typed_loads: "keeps typed_step (loads_response raw)"
  unfolding loads_response_def by (rule typed.keeps_pure)

lemma typed_deals: "keeps typed_step (get_deals env a b c)"
  by (rule typed_quiet [OF readers_files(5)])

lemma typed_except:
  assumes "keeps typed_step m" "\<And>e. keeps typed_step (h e)"
  shows "keeps typed_step (except_io m h)"
  unfolding except_io_def by (intro typed.keeps_catch typed.keeps_if typed.keeps_pure assms)

lemma typed_else:
  "keeps typed_step m \<Longrightarrow> (\<And>e. keeps typed_step (h e)) \<Longrightarrow> (\<And>x. keeps typed_step (k x)) \<Longrightarrow>
   keeps typed_step (except_else_io m h k)"
  by (rule except_else_keeps [OF typed.effect_axioms])

context quiet_account
begin

lemma typed_posture: "keeps typed_step (current_posture env account)"
  unfolding current_posture_def posture_check_def explain_unknown_real_def gather_evidence_def Let_def
  by (intro typed.keeps_rules typed_else typed_read_files typed_now typed_deals typed_on_files store_typed
      typed_quiet [OF positions_files] typed_quiet [OF orders_files])

lemma typed_verify:
  "keeps typed_step (verify_present env account ticket symbol n)"
  "keeps typed_step (verify_position_present env account ticket symbol n)"
  "keeps typed_step (verify_sl_tp_attached env account ticket symbol sl tp n)"
  by (rule typed_quiet, rule verify_files)+

lemma typed_submit: "keeps typed_step (mcp_submit env account plan)"
  unfolding mcp_submit_def submit_limit_def submit_market_def after_market_def attach_sl_tp_def
  by (intro typed.keeps_rules typed_except typed_call typed_now typed_loads typed_on_files store_typed submission_typed
      typed_posture typed_verify typed_quiet [OF gate_files]) simp_all

lemma typed_cancel: "keeps typed_step (mcp_cancel env account ticket)"
  unfolding mcp_cancel_def
  by (intro typed.keeps_rules typed_call typed_now typed_loads typed_on_files store_typed
      typed_posture typed_quiet [OF gate_files] typed_quiet [OF orders_files])

lemma typed_close: "keeps typed_step (mcp_close_position env account ticket volume)"
  unfolding mcp_close_position_def volume_check_def Let_def
  by (intro typed.keeps_rules typed_call typed_now typed_loads typed_on_files store_typed
      typed_posture typed_quiet [OF gate_files] typed_quiet [OF positions_files])

end

interpretation typed_reads: quiet_reads typed_step "McpMarketDataSource env" "McpAccountReader env"
  "Some (read_files State_Store.all_open)" for env
  by unfold_locales
    (simp_all add: McpMarketDataSource_def McpAccountReader_def readers_files typed_quiet, simp add: typed_read_files)

lemma typed_live_submit: "keeps typed_step (submit (live_executor env) plan)"
  by (simp add: McpOrderExecutor_def mcp.typed_submit)

lemma typed_completes: "keeps typed_step m \<Longrightarrow> keeps typed_step (completes m)"
  unfolding completes_def by (intro typed_else typed.keeps_pure)

lemma typed_cycle: "keeps typed_step (live_cycle env)"
  unfolding live_cycle_def run_one_cycle_def script_grid_cycle_def script_runner_cycle_def
  by (intro typed.keeps_rules typed_completes typed_reads.grid_keeps typed_reads.runner_keeps typed_live_submit)

lemma typed_daily: "keeps typed_step (daily_loss_decision_for_cycle env config)"
  unfolding daily_loss_decision_for_cycle_def live_daily_loss_decision_def Let_def
  by (intro typed_except typed.keeps_rules typed_now typed_deals typed_read_files)

lemma typed_wait: "keeps typed_step (wait_loop fuel su limits start_time k d waited)"
  by (induction fuel arbitrary: waited)
    (auto simp: Let_def stop_reason_def intro!: typed.keeps_rules typed_look typed_sleep)

lemma typed_loop:
  assumes "keeps typed_step cycle"
  shows "keeps typed_step (pipeline_loop fuel su limits config cycle start_time k)"
proof (induction "nat (ll_max_cycles limits - k)" arbitrary: k rule: less_induct)
  case less
  have again: "keeps typed_step (pipeline_loop fuel su limits config cycle start_time (k + 1))"
    if "should_stop k elapsed stop limits (Some d) = None" for elapsed stop d
  proof (rule less.hyps)
    show "nat (ll_max_cycles limits - (k + 1)) < nat (ll_max_cycles limits - k)"
      using that by (simp add: should_stop_def Let_def split: if_split_asm)
  qed
  have round: "keeps typed_step (case should_stop k elapsed stop limits (Some d) of
       Some reason \<Rightarrow> return_io (Some k)
     | None \<Rightarrow> bind_io cycle (\<lambda>ok.
         if \<not> ok then return_io (Some (k + 1))
         else bind_io (wait_for_next_cycle fuel su limits start_time (k + 1) (Some d)) (\<lambda>stopped.
           case stopped of
             None \<Rightarrow> return_io None
           | Some True \<Rightarrow> return_io (Some (k + 1))
           | Some False \<Rightarrow> pipeline_loop fuel su limits config cycle start_time (k + 1))))" for elapsed stop d
  proof (cases "should_stop k elapsed stop limits (Some d)")
    case None
    have next_round: "keeps typed_step (case stopped of
             None \<Rightarrow> return_io None
           | Some True \<Rightarrow> return_io (Some (k + 1))
           | Some False \<Rightarrow> pipeline_loop fuel su limits config cycle start_time (k + 1))" for stopped
      using again [OF None] by (auto simp del: pipeline_loop.simps split: option.split bool.split intro: typed.keeps_pure)
    show ?thesis
      unfolding None option.case wait_for_next_cycle_def
      by (intro typed.keeps_bind assms typed.keeps_if typed.keeps_pure typed_wait next_round)
  qed (simp add: typed.keeps_pure)
  show ?case
    unfolding pipeline_loop.simps [of fuel su limits config cycle start_time k]
    by (intro typed.keeps_bind typed_daily typed_look round)
qed

text \<open>
  C22: The records are well typed whatever happens: from a directory whose records are, every operation
  of the live executor and every autonomous run leaves such a directory, returning or raising. So
  whatever is listed is open, or cancelled or closed with a time and a reason.
\<close>

theorem records_stay_typed:
  assumes "typed_files (l_files s)"
    and "t = snd (mcp_submit env (McpAccountReader env) plan s) \<or>
      t = snd (mcp_cancel env (McpAccountReader env) ticket s) \<or>
      t = snd (mcp_close_position env (McpAccountReader env) ticket volume s) \<or>
      t = snd (pipeline_loop fuel su limits config (live_cycle env) start_time k s)"
  shows "typed_files (l_files t) \<and>
    (\<forall>r. lookup ticket' (l_files t) = Inr (Some r) \<longrightarrow> is_open r \<or>
       lr_status r \<in> {''CANCELLED'', ''CLOSED''} \<and> lr_closed_at r \<noteq> None \<and> lr_closed_reason r \<noteq> None)"
proof -
  have "keeps typed_step (mcp_submit env (McpAccountReader env) plan)"
    "keeps typed_step (mcp_cancel env (McpAccountReader env) ticket)"
    "keeps typed_step (mcp_close_position env (McpAccountReader env) ticket volume)"
    "keeps typed_step (pipeline_loop fuel su limits config (live_cycle env) start_time k)"
    by (rule mcp.typed_submit mcp.typed_cancel mcp.typed_close typed_loop [OF typed_cycle])+
  then have "typed_step s t" using assms(2) by (auto simp: keeps_def)
  then have typed: "typed_files (l_files t)" using assms(1) by (simp add: typed_step_def keeps_typed_def)
  have "is_open r \<or> lr_status r \<in> {''CANCELLED'', ''CLOSED''} \<and> lr_closed_at r \<noteq> None \<and> lr_closed_reason r \<noteq> None"
    if "lookup ticket' (l_files t) = Inr (Some r)" for r
    using load_one_typed [OF typed that [unfolded lookup_def]]
    by (auto simp: well_typed_def order_record_status_def is_open_def)
  with typed show ?thesis by blast
qed

theorem records_stay_typed_witness:
  "typed_files (l_files (snd (pipeline_loop 61 lone_surroundings script_limits script_daily_loss_config
     (live_cycle (silent_env True)) 0 0 fresh_live)))"
proof -
  have "typed_files (l_files fresh_live)" by (simp add: fresh_live_def typed_files_empty)
  then show ?thesis
    using records_stay_typed [of fresh_live _ "silent_env True"] by blast
qed

end
