(* ===== verification/Maintenance.thy ===== *)
theory Maintenance
  imports Record_Types "HOL-Library.Sublist"
begin

text \<open>
  The maintenance scripts (\<^verbatim>\<open>scripts/run_demo_execution_reconcile_*\<close>, \<^verbatim>\<open>cancel_*\<close>,
  \<^verbatim>\<open>close_*\<close>, \<^verbatim>\<open>cleanup_*\<close>, \<^verbatim>\<open>retry_*\<close>): each opens the same session as the loop
  and acts on a fixed list of tickets or on what the store still calls open. Shown: what a
  reconciliation pass writes and what it leaves alone, that the passes over listed tickets act only
  when their premise holds, and that no script sends more than one call per ticket it names. The
  printed reports are left out, the reads made for them are not, since these can raise.
\<close>

section \<open>The session of a script\<close>

definition script_session ::
  "'w env \<Rightarrow> (string \<times> string) list \<Rightarrow> ('w env \<Rightarrow> ('w, 'a) live_io) \<Rightarrow> ('w, 'a) live_io" where
  "script_session env source body =
     bind_io (lift_io (load_settings source)) (\<lambda>settings.
       demo_execution_session env (settings\<lparr>st_mode := Mode_DEMO_EXECUTION\<rparr>) body)"

abbreviation btcusd :: "string option" where
  "btcusd \<equiv> Some ''BTCUSD''"

text \<open>Running the body under \<^verbatim>\<open>try ... except Exception\<close>, its outcome kept as a value.\<close>

definition attempt :: "('s, exn, 'a) io \<Rightarrow> ('s, exn, exn + 'a) io" where
  "attempt m = except_else_io m (\<lambda>e. return_io (Inl e)) (\<lambda>x. return_io (Inr x))"

text \<open>One attempt per ticket; results and errors, by ticket.\<close>

fun attempt_each ::
  "(int \<Rightarrow> ('s, exn, 'a) io) \<Rightarrow> int list \<Rightarrow> ('s, exn, (int \<times> 'a) list \<times> (int \<times> exn) list) io" where
  "attempt_each f [] = return_io ([], [])"
| "attempt_each f (t # ts) =
     bind_io (attempt (f t)) (\<lambda>r.
     bind_io (attempt_each f ts) (\<lambda>(results, errors).
       return_io (case r of Inl e \<Rightarrow> (results, (t, e) # errors) | Inr x \<Rightarrow> ((t, x) # results, errors))))"

text \<open>The lookups made to print the local records.\<close>

definition read_lookups :: "int list \<Rightarrow> ('w, unit) live_io" where
  "read_lookups tickets = for_io (\<lambda>t. bind_io (read_files (lookup t)) (\<lambda>_. return_io ())) tickets"

text \<open>\<^verbatim>\<open>all(lookup(t) is not None and lookup(t).status == ...)\<close>, stopping at the first that is not.\<close>

fun all_have_status :: "string \<Rightarrow> int list \<Rightarrow> files \<Rightarrow> bool result" where
  "all_have_status status [] fs = Inr True"
| "all_have_status status (t # ts) fs =
     bind_res (lookup t fs) (\<lambda>found. case found of
       None \<Rightarrow> Inr False
     | Some r \<Rightarrow> if lr_status r = status then all_have_status status ts fs else Inr False)"

section \<open>Passes over what the store calls open\<close>

record leftovers =
  lo_still_live :: "int list"
  lo_closed :: "(int \<times> datetime) list"
  lo_cancelled :: "int list"

definition no_leftovers :: leftovers where
  "no_leftovers = \<lparr> lo_still_live = [], lo_closed = [], lo_cancelled = [] \<rparr>"

definition closing_deals :: "Deal list \<Rightarrow> int \<Rightarrow> Deal list" where
  "closing_deals deals ticket = filter (\<lambda>d. deal_entry d = 1 \<or> deal_entry d = 2) (deals_of_position deals ticket)"

fun split_leftovers ::
  "int set \<Rightarrow> Deal list \<Rightarrow> timedelta \<Rightarrow> LocalOrderRecord list \<Rightarrow> leftovers \<Rightarrow> leftovers result" where
  "split_leftovers live deals offset [] l = Inr l"
| "split_leftovers live deals offset (r # rs) l =
     (if lr_ticket r \<in> live
      then split_leftovers live deals offset rs (l\<lparr>lo_still_live := lo_still_live l @ [lr_ticket r]\<rparr>)
      else
        let outs = closing_deals deals (lr_ticket r)
        in if outs \<noteq> []
           then bind_res (dt_max (map deal_time outs)) (\<lambda>t.
                  split_leftovers live deals offset rs
                    (l\<lparr>lo_closed := lo_closed l @ [(lr_ticket r, dt_add t (- offset))]\<rparr>))
           else split_leftovers live deals offset rs (l\<lparr>lo_cancelled := lo_cancelled l @ [lr_ticket r]\<rparr>))"

definition write_leftovers :: "fstring \<Rightarrow> fstring \<Rightarrow> datetime \<Rightarrow> leftovers \<Rightarrow> ('w, unit) live_io" where
  "write_leftovers closed_reason cancelled_reason now l =
     bind_io (for_io (\<lambda>(ticket, closed_at). on_files (record_closed ticket closed_reason closed_at)) (lo_closed l)) (\<lambda>_.
       for_io (\<lambda>ticket. on_files (record_cancelled ticket cancelled_reason now)) (lo_cancelled l))"

text \<open>The passes with a fixed window of deals, over the open records that \<open>select\<close> picks.\<close>

definition reconcile_leftovers ::
  "string \<Rightarrow> string \<Rightarrow> (LocalOrderRecord \<Rightarrow> bool) \<Rightarrow> fstring \<Rightarrow> fstring \<Rightarrow> 'w env \<Rightarrow> ('w, leftovers) live_io" where
  "reconcile_leftovers from_date to_date select closed_reason cancelled_reason env =
     (let account = McpAccountReader env
      in bind_io (get_positions account btcusd None) (\<lambda>live_positions.
         bind_io (get_orders account btcusd None) (\<lambda>live_orders.
         bind_io (get_deals env (Some from_date) (Some to_date) None) (\<lambda>deals.
         bind_io (read_files State_Store.all_records) (\<lambda>all_records.
         bind_io (lift_io (infer_deal_time_offset all_records deals)) (\<lambda>offset.
         bind_io (lift_io (split_leftovers (real_tickets live_positions live_orders) deals
                    (case offset of None \<Rightarrow> 0 | Some d \<Rightarrow> d) (filter (\<lambda>r. is_open r \<and> select r) all_records) no_leftovers)) (\<lambda>l.
         bind_io (now_utc env) (\<lambda>now.
         bind_io (write_leftovers closed_reason cancelled_reason now l) (\<lambda>_.
           return_io l)))))))))"

text \<open>
  The backlog pass takes every open record and a window that starts with the earliest of them. Its
  live reads are of one symbol, the records it takes are not.
\<close>

definition earliest_submission :: "'w env \<Rightarrow> LocalOrderRecord list \<Rightarrow> ('w, datetime) live_io" where
  "earliest_submission env stale_open =
     (if stale_open = [] then now_utc env else lift_io (dt_min (map lr_submitted_at stale_open)))"

definition reconcile_backlog :: "fstring \<Rightarrow> fstring \<Rightarrow> 'w env \<Rightarrow> ('w, leftovers) live_io" where
  "reconcile_backlog closed_reason cancelled_reason env =
     (let account = McpAccountReader env
      in bind_io (get_positions account btcusd None) (\<lambda>live_positions.
         bind_io (get_orders account btcusd None) (\<lambda>live_orders.
         bind_io (read_files State_Store.all_records) (\<lambda>all_records.
         let stale_open = filter is_open all_records
         in bind_io (earliest_submission env stale_open) (\<lambda>from.
            bind_io (now_utc env) (\<lambda>now.
            bind_io (get_deals env (Some (strftime_date from)) (Some (strftime_date (dt_add now (days 1)))) None) (\<lambda>deals.
            bind_io (lift_io (infer_deal_time_offset all_records deals)) (\<lambda>offset.
            bind_io (lift_io (split_leftovers (real_tickets live_positions live_orders) deals
                       (case offset of None \<Rightarrow> 0 | Some d \<Rightarrow> d) stale_open no_leftovers)) (\<lambda>l.
            bind_io (write_leftovers closed_reason cancelled_reason now l) (\<lambda>_.
              return_io l))))))))))"

text \<open>The five passes.\<close>

definition reconcile_20260813_backlog :: "'w env \<Rightarrow> (string \<times> string) list \<Rightarrow> ('w, leftovers) live_io" where
  "reconcile_20260813_backlog env source = script_session env source
     (reconcile_backlog [Lit ''reconciled 2026-08-13 backlog pass: real deal found, no longer live'']
        [Lit ''reconciled 2026-08-13 backlog pass: no deal found, no longer live (unfilled/cancelled pending)''])"

definition run6_tickets :: "int list" where
  "run6_tickets = [171920075, 171920076, 171920077, 171920233, 171920234, 171920424, 171920425,
     171921171, 171921172, 171921298, 171921299, 171922067, 171922068]"

definition run7_tickets :: "int list" where
  "run7_tickets = [171922884, 171922885, 171922886, 171922988, 171922989, 171923143, 171923144]"

definition reconcile_run6_leftovers :: "'w env \<Rightarrow> (string \<times> string) list \<Rightarrow> ('w, leftovers) live_io" where
  "reconcile_run6_leftovers env source = script_session env source
     (reconcile_leftovers ''2026-08-09'' ''2026-08-11'' (\<lambda>r. lr_ticket r \<in> set run6_tickets)
        [Lit ''reconciled run #6: filled deal confirmed, absent from live state after cycle 11's MANAGE_ONLY halt (ticket 171922069 root-caused as a transient MT5 SL-execution artifact)'']
        [Lit ''reconciled run #6: no deal found, absent from live pending orders after cycle 11's MANAGE_ONLY halt''])"

definition reconcile_run7_leftovers :: "'w env \<Rightarrow> (string \<times> string) list \<Rightarrow> ('w, leftovers) live_io" where
  "reconcile_run7_leftovers env source = script_session env source
     (reconcile_leftovers ''2026-08-09'' ''2026-08-11'' (\<lambda>r. lr_ticket r \<in> set run7_tickets)
        [Lit ''reconciled run #7 (end of day): filled deal confirmed, absent from live state after the explicit stop-work halt at cycle 3'']
        [Lit ''reconciled run #7 (end of day): no deal found, absent from live pending orders after the explicit stop-work halt at cycle 3''])"

definition reconcile_20260807_leftovers :: "'w env \<Rightarrow> (string \<times> string) list \<Rightarrow> ('w, leftovers) live_io" where
  "reconcile_20260807_leftovers env source = script_session env source
     (reconcile_leftovers ''2026-08-06'' ''2026-08-08'' (\<lambda>r. prefix ''2026-08-07'' (isoformat (lr_submitted_at r)))
        [Lit ''reconciled 2026-08-07: filled deal confirmed absent from live state'']
        [Lit ''reconciled 2026-08-07: no deal found, absent from live pending orders''])"

definition reconcile_20260810_afternoon_leftovers :: "'w env \<Rightarrow> (string \<times> string) list \<Rightarrow> ('w, leftovers) live_io" where
  "reconcile_20260810_afternoon_leftovers env source = script_session env source
     (reconcile_leftovers ''2026-08-09'' ''2026-08-11'' (\<lambda>r. prefix ''2026-08-10'' (isoformat (lr_submitted_at r)))
        [Lit ''reconciled 2026-08-10 afternoon: filled deal confirmed, absent from live state after manual close/cancel before lunch break'']
        [Lit ''reconciled 2026-08-10 afternoon: no deal found, absent from live pending orders after manual close/cancel before lunch break''])"

section \<open>Passes over listed tickets\<close>

text \<open>
  Every ticket must be absent from the account, or nothing is done at all; then one transition per
  ticket. The outcome: the tickets all have the status, and the errors met; none when aborted.
\<close>

definition reconcile_absent ::
  "int list \<Rightarrow> (int \<Rightarrow> datetime \<Rightarrow> (files, exn, unit) io) \<Rightarrow> string \<Rightarrow> 'w env \<Rightarrow> ('w, (bool \<times> (int \<times> exn) list) option) live_io" where
  "reconcile_absent tickets mark status env =
     (let account = McpAccountReader env
      in bind_io (get_positions account btcusd None) (\<lambda>positions_before.
         bind_io (get_orders account btcusd None) (\<lambda>orders_before.
         let still_live = filter (\<lambda>t. t \<in> real_tickets positions_before orders_before) tickets
         in bind_io (read_lookups tickets) (\<lambda>_.
            if still_live \<noteq> [] then return_io None
            else
              bind_io (attempt_each (\<lambda>t.
                 bind_io (now_utc env) (\<lambda>now. bind_io (on_files (mark t now)) (\<lambda>_. read_lookups [t]))) tickets) (\<lambda>(_, errors).
              bind_io (read_files (all_have_status status tickets)) (\<lambda>resolved.
                return_io (Some (resolved, errors))))))))"

text \<open>A script for one ticket reports its status alone, one for several also wants no error.\<close>

definition passed_one :: "(bool \<times> (int \<times> exn) list) option \<Rightarrow> bool option" where
  "passed_one outcome = map_option fst outcome"

definition passed_all :: "(bool \<times> (int \<times> exn) list) option \<Rightarrow> bool option" where
  "passed_all outcome = map_option (\<lambda>(resolved, errors). resolved \<and> errors = []) outcome"

definition reporting :: "('a \<Rightarrow> 'b) \<Rightarrow> ('s, exn, 'a) io \<Rightarrow> ('s, exn, 'b) io" where
  "reporting f m = bind_io m (\<lambda>x. return_io (f x))"

definition reconcile_171651878 :: "'w env \<Rightarrow> (string \<times> string) list \<Rightarrow> ('w, bool option) live_io" where
  "reconcile_171651878 env source = reporting passed_one (script_session env source
     (reconcile_absent [171651878]
        (\<lambda>t. record_closed t [Lit ''confirmed absent from live positions/orders -- closed outside this process (no close_position()/cancel() call was ever made for it), most likely filled then closed via its own broker-side SL/TP''])
        ''CLOSED''))"

definition reconcile_171651879 :: "'w env \<Rightarrow> (string \<times> string) list \<Rightarrow> ('w, bool option) live_io" where
  "reconcile_171651879 env source = reporting passed_one (script_session env source
     (reconcile_absent [171651879]
        (\<lambda>t. record_closed t [Lit ''confirmed absent from live positions/orders -- closed outside this process (no close_position()/cancel() call was ever made for it), most likely filled then closed via its own broker-side SL/TP''])
        ''CLOSED''))"

definition reconcile_171908077 :: "'w env \<Rightarrow> (string \<times> string) list \<Rightarrow> ('w, bool option) live_io" where
  "reconcile_171908077 env source = reporting passed_one (script_session env source
     (reconcile_absent [171908077]
        (\<lambda>t. record_closed t [Lit ''confirmed closed via real deal 99944397 (order=171909600, position_id=171908077, entry=OUT, price=65093.81, profit=-0.6, comment='[sl 65087.71]') -- MT5's own auto-generated stop-loss execution matching this ticket's requested_sl=65087.71 exactly, root-caused by run_demo_execution_investigate_ticket_171909600.py; no close_position() call was ever made for it by this project''])
        ''CLOSED''))"

definition reconcile_171653005_171652845 :: "'w env \<Rightarrow> (string \<times> string) list \<Rightarrow> ('w, bool option) live_io" where
  "reconcile_171653005_171652845 env source = reporting passed_all (script_session env source
     (reconcile_absent [171653005, 171652845]
        (\<lambda>t. record_closed t [Lit ''confirmed absent from live positions/orders -- closed outside this process (no close_position()/cancel() call was ever made for it), most likely filled then closed via its own broker-side SL/TP''])
        ''CLOSED''))"

definition reconcile_fifth_loop_run_leftovers :: "'w env \<Rightarrow> (string \<times> string) list \<Rightarrow> ('w, bool option) live_io" where
  "reconcile_fifth_loop_run_leftovers env source = reporting passed_all (script_session env source
     (reconcile_absent [171652731, 171652799, 171652801, 171652846]
        (\<lambda>t. record_closed t [Lit ''confirmed absent from live positions/orders -- closed outside this process (no close_position()/cancel() call was ever made for it), most likely filled then closed via its own broker-side SL/TP, or expired/cancelled elsewhere''])
        ''CLOSED''))"

definition step25_reconcile_leftover_tickets :: "'w env \<Rightarrow> (string \<times> string) list \<Rightarrow> ('w, bool option) live_io" where
  "step25_reconcile_leftover_tickets env source = reporting passed_all (script_session env source
     (reconcile_absent [171649460, 171649631, 171648990, 171649324, 171649422, 171649461]
        (\<lambda>t. record_closed t [Lit ''confirmed absent from live positions/orders -- closed outside this process (no close_position()/cancel() call was ever made for it), most likely filled then closed via its own broker-side SL/TP, or expired/cancelled elsewhere''])
        ''CLOSED''))"

definition reconcile_step29_final_5_tickets :: "'w env \<Rightarrow> (string \<times> string) list \<Rightarrow> ('w, bool option) live_io" where
  "reconcile_step29_final_5_tickets env source = reporting passed_all (script_session env source
     (reconcile_absent [171652732, 171652730, 171652797, 171652844, 171653004]
        (\<lambda>t. record_closed t [Lit ''confirmed absent from live positions/orders -- closed outside this process (no close_position()/cancel() call was ever made for it), most likely filled/triggered then closed via its own broker-side SL/TP''])
        ''CLOSED''))"

definition reconcile_manual_cancel_5_grid_orders :: "'w env \<Rightarrow> (string \<times> string) list \<Rightarrow> ('w, bool option) live_io" where
  "reconcile_manual_cancel_5_grid_orders env source = reporting passed_all (script_session env source
     (reconcile_absent [171654092, 171654190, 171654191, 171654322, 171654323]
        (\<lambda>t. record_cancelled t [Lit ''user manually cancelled this pending order directly in the MT5 terminal, outside this project's code; confirmed absent from live positions/orders before reconciling''])
        ''CANCELLED''))"

text \<open>Here a live ticket is left out instead of stopping the pass.\<close>

definition reconcile_step30_run :: "'w env \<Rightarrow> (string \<times> string) list \<Rightarrow> ('w, int list \<times> int list) live_io" where
  "reconcile_step30_run env source = script_session env source (\<lambda>env.
     let account = McpAccountReader env; tickets = [171654091, 171654092, 171654093, 171654190, 171654191, 171654192, 171654322, 171654323]
     in bind_io (get_positions account btcusd None) (\<lambda>positions.
        bind_io (get_orders account btcusd None) (\<lambda>orders.
        bind_io (read_lookups [171654324]) (\<lambda>_.
        let still_live = filter (\<lambda>t. t \<in> real_tickets positions orders) tickets
        in bind_io (attempt_each (\<lambda>t. bind_io (now_utc env) (\<lambda>now. on_files (record_closed t
               [Lit ''confirmed absent from live positions/orders -- closed outside this process (no close_position()/cancel() call was ever made for it), most likely filled/triggered then closed via its own broker-side SL/TP''] now)))
             (filter (\<lambda>t. t \<notin> set still_live) tickets)) (\<lambda>(reconciled, _).
           return_io (map fst reconciled, still_live))))))"

section \<open>Cancelling and closing listed tickets\<close>

text \<open>Nothing is cancelled unless every listed order is pending; the outcome says that all are gone.\<close>

definition cancel_listed :: "int list \<Rightarrow> 'w env \<Rightarrow> ('w, bool option) live_io" where
  "cancel_listed tickets env =
     (let account = McpAccountReader env
      in bind_io (get_orders account btcusd None) (\<lambda>orders_before.
         bind_io (read_lookups tickets) (\<lambda>_.
         let missing = filter (\<lambda>t. t \<notin> ord_ticket ` set orders_before) tickets
         in if missing \<noteq> [] then return_io None
            else
              bind_io (attempt_each (cancel (live_executor env)) tickets) (\<lambda>_.
              bind_io (get_orders account btcusd None) (\<lambda>orders_after.
              bind_io (read_lookups tickets) (\<lambda>_.
                return_io (Some (\<forall>t \<in> set tickets. t \<notin> ord_ticket ` set orders_after))))))))"

definition cancel_pipeline_cycle_orders :: "'w env \<Rightarrow> (string \<times> string) list \<Rightarrow> ('w, bool option) live_io" where
  "cancel_pipeline_cycle_orders env source = script_session env source
     (cancel_listed [171621248, 171621249])"

definition cancel_20260807_remaining_grid_orders :: "'w env \<Rightarrow> (string \<times> string) list \<Rightarrow> ('w, bool option) live_io" where
  "cancel_20260807_remaining_grid_orders env source = script_session env source
     (cancel_listed [171809875, 171812719, 171812840])"

text \<open>Closing one position that is still there; the outcome says that it is gone.\<close>

definition close_unprotected :: "int \<Rightarrow> 'w env \<Rightarrow> ('w, bool option) live_io" where
  "close_unprotected ticket env =
     (let account = McpAccountReader env
      in bind_io (read_lookups [ticket]) (\<lambda>_.
         bind_io (get_positions account btcusd None) (\<lambda>positions_before.
           if ticket \<notin> pos_ticket ` set positions_before then return_io None
           else
             bind_io (attempt (close_position (live_executor env) ticket None)) (\<lambda>_.
             bind_io (get_positions account btcusd None) (\<lambda>positions_after.
             bind_io (read_lookups [ticket]) (\<lambda>_.
               return_io (Some (ticket \<notin> pos_ticket ` set positions_after))))))))"

definition close_unprotected_runner_position :: "'w env \<Rightarrow> (string \<times> string) list \<Rightarrow> ('w, bool option) live_io" where
  "close_unprotected_runner_position env source = script_session env source
     (close_unprotected 171647565)"

definition close_unprotected_runner_position_171651880 :: "'w env \<Rightarrow> (string \<times> string) list \<Rightarrow> ('w, bool option) live_io" where
  "close_unprotected_runner_position_171651880 env source = script_session env source
     (close_unprotected 171651880)"

definition close_unprotected_runner_position_171653006 :: "'w env \<Rightarrow> (string \<times> string) list \<Rightarrow> ('w, bool option) live_io" where
  "close_unprotected_runner_position_171653006 env source = script_session env source
     (close_unprotected 171653006)"

definition close_unprotected_runner_position_171654324 :: "'w env \<Rightarrow> (string \<times> string) list \<Rightarrow> ('w, bool option) live_io" where
  "close_unprotected_runner_position_171654324 env source = script_session env source
     (close_unprotected 171654324)"

text \<open>Without a \<^verbatim>\<open>try\<close> around the call.\<close>

definition close_171979510 :: "'w env \<Rightarrow> (string \<times> string) list \<Rightarrow> ('w, ExecutionResult option) live_io" where
  "close_171979510 env source = script_session env source (\<lambda>env.
     bind_io (get_positions (McpAccountReader env) btcusd None) (\<lambda>positions.
       if 171979510 \<notin> pos_ticket ` set positions then return_io None
       else bind_io (close_position (live_executor env) 171979510 None) (\<lambda>result. return_io (Some result))))"

text \<open>The status of a local record that must exist.\<close>

definition status_of :: "int \<Rightarrow> files \<Rightarrow> string result" where
  "status_of ticket fs = bind_res (lookup ticket fs) (\<lambda>found. bind_res (of_option AttributeError found) (\<lambda>r. Inr (lr_status r)))"

text \<open>One reconciled, one cancelled; the outcome says that both are resolved.\<close>

definition mark_closed :: "'w env \<Rightarrow> int \<Rightarrow> fstring \<Rightarrow> ('w, unit) live_io" where
  "mark_closed env ticket reason =
     bind_io (now_utc env) (\<lambda>now. bind_io (on_files (record_closed ticket reason now)) (\<lambda>_. read_lookups [ticket]))"

definition close_step19_grid_tickets :: "'w env \<Rightarrow> (string \<times> string) list \<Rightarrow> ('w, bool option) live_io" where
  "close_step19_grid_tickets env source = script_session env source (\<lambda>env.
     let account = McpAccountReader env; to_reconcile = 171647522; to_cancel = 171647525
     in bind_io (get_positions account btcusd None) (\<lambda>positions_before.
        bind_io (get_orders account btcusd None) (\<lambda>orders_before.
        bind_io (read_lookups [to_reconcile, to_cancel]) (\<lambda>_.
          if \<not> (to_reconcile \<notin> real_tickets positions_before orders_before \<and> to_cancel \<in> ord_ticket ` set orders_before)
          then return_io None
          else
            bind_io (attempt (mark_closed env to_reconcile
              [Lit ''confirmed absent from live positions/orders -- closed outside this process (no close_position()/cancel() call was ever made for it), most likely filled then closed via its own broker-side SL/TP''])) (\<lambda>_.
            bind_io (attempt (cancel (live_executor env) to_cancel)) (\<lambda>_.
            bind_io (get_positions account btcusd None) (\<lambda>positions_after.
            bind_io (get_orders account btcusd None) (\<lambda>orders_after.
            bind_io (read_lookups [to_reconcile, to_cancel]) (\<lambda>_.
              if to_cancel \<in> ord_ticket ` set orders_after then return_io (Some False)
              else bind_io (read_files (status_of to_reconcile)) (\<lambda>status. return_io (Some (status = ''CLOSED''))))))))))))"

definition close_pipeline_open_items :: "'w env \<Rightarrow> (string \<times> string) list \<Rightarrow> ('w, bool option) live_io" where
  "close_pipeline_open_items env source = script_session env source (\<lambda>env.
     let account = McpAccountReader env; to_close = 171621926; to_cancel = 171621927; to_reconcile = 171621825
     in bind_io (get_positions account btcusd None) (\<lambda>positions_before.
        bind_io (get_orders account btcusd None) (\<lambda>orders_before.
        bind_io (read_lookups [to_close, to_cancel, to_reconcile]) (\<lambda>_.
          if \<not> (to_close \<in> pos_ticket ` set positions_before \<and> to_cancel \<in> ord_ticket ` set orders_before \<and>
                to_reconcile \<notin> pos_ticket ` set positions_before)
          then return_io None
          else
            bind_io (attempt (close_position (live_executor env) to_close None)) (\<lambda>_.
            bind_io (attempt (cancel (live_executor env) to_cancel)) (\<lambda>_.
            bind_io (attempt (mark_closed env to_reconcile
              [Lit ''confirmed absent from live positions -- closed outside this process (no close_position() call was ever made for it by this project's scripts), most likely via broker-side SL/TP execution''])) (\<lambda>_.
            bind_io (get_positions account btcusd None) (\<lambda>positions_after.
            bind_io (get_orders account btcusd None) (\<lambda>orders_after.
            bind_io (read_lookups [to_close, to_cancel, to_reconcile]) (\<lambda>_.
              if to_close \<in> pos_ticket ` set positions_after \<or> to_cancel \<in> ord_ticket ` set orders_after
              then return_io (Some False)
              else bind_io (read_files (status_of to_reconcile)) (\<lambda>status. return_io (Some (status = ''CLOSED'')))))))))))))"

text \<open>
  Each ticket is resolved the way one reading of the account, made before the first, says; the
  outcome are the tickets still there afterwards.
\<close>

definition resolve_one :: "'w env \<Rightarrow> PositionState list \<Rightarrow> OrderState list \<Rightarrow> int \<Rightarrow> ('w, unit) live_io" where
  "resolve_one env positions orders ticket =
     (if ticket \<in> pos_ticket ` set positions
      then bind_io (close_position (live_executor env) ticket None) (\<lambda>_. return_io ())
      else if ticket \<in> ord_ticket ` set orders
      then bind_io (cancel (live_executor env) ticket) (\<lambda>_. return_io ())
      else mark_closed env ticket
        [Lit ''confirmed absent from live positions/orders during loop-run cleanup -- closed outside this cleanup action (most likely via its own broker-side SL/TP execution)''])"

definition cleanup_tickets :: "int list" where
  "cleanup_tickets = [171623173, 171623174, 171623175, 171623291, 171623293, 171623294]"

definition cleanup_loop_run :: "'w env \<Rightarrow> (string \<times> string) list \<Rightarrow> ('w, int list) live_io" where
  "cleanup_loop_run env source = script_session env source (\<lambda>env.
     let account = McpAccountReader env
     in bind_io (get_positions account btcusd None) (\<lambda>positions.
        bind_io (get_orders account btcusd None) (\<lambda>orders.
        bind_io (attempt_each (resolve_one env positions orders) cleanup_tickets) (\<lambda>_.
        bind_io (get_positions account btcusd None) (\<lambda>positions_after.
        bind_io (get_orders account btcusd None) (\<lambda>orders_after.
        bind_io (read_lookups cleanup_tickets) (\<lambda>_.
          return_io (filter (\<lambda>t. t \<in> real_tickets positions_after orders_after) cleanup_tickets))))))))"

text \<open>The second attempt to protect one position: every premise is checked again before the one call.\<close>

definition retry_sltp_171979510 :: "'w env \<Rightarrow> (string \<times> string) list \<Rightarrow> ('w, bool) live_io" where
  "retry_sltp_171979510 env source = script_session env source (\<lambda>env.
     let account = McpAccountReader env; ticket = 171979510; intended_sl = flt (639753 / 10); intended_tp = flt (639371 / 10)
     in bind_io (get_positions account btcusd None) (\<lambda>positions.
        case find (\<lambda>p. pos_ticket p = ticket) positions of
          None \<Rightarrow> return_io False
        | Some p \<Rightarrow>
            if \<not> (pos_sl p = 0 \<and> pos_tp p = 0) then return_io False
            else bind_io (mcp_get_tick env ''BTCUSD'') (\<lambda>tick.
              if \<not> (tick_ask tick < intended_sl \<and> tick_bid tick > intended_tp) then return_io False
              else bind_io (call_tool env ''modify_position''
                     [(''id'', JInt ticket), (''stop_loss'', JFloat intended_sl), (''take_profit'', JFloat intended_tp)]) (\<lambda>raw.
                bind_io (loads_response raw) (\<lambda>response.
                  if \<not> resp_done response then return_io False
                  else bind_io (get_positions account btcusd None) (\<lambda>positions_after.
                    case find (\<lambda>p. pos_ticket p = ticket) positions_after of
                      None \<Rightarrow> return_io False
                    | Some q \<Rightarrow>
                        if \<not> (\<bar>pos_sl q - intended_sl\<bar> < flt (1 / 2) \<and> \<bar>pos_tp q - intended_tp\<bar> < flt (1 / 2)) then return_io False
                        else bind_io (on_files (mark_sl_tp_attached ticket)) (\<lambda>_. return_io True)))))))"

text \<open>
  Adopting a position opened by hand, then closing it: only the one position that matches in ticket,
  symbol, side and volume. \<open>expected_ticket\<close> comes from the environment.
\<close>

definition adoption_note :: string where
  "adoption_note = ''Manually opened by user in the MT5 terminal (ThinkMarkets-Demo), NOT via McpOrderExecutor.submit(). Adopted after an exact live-verified match on ticket/symbol/side/volume, per explicit user instruction, for this one Phase 6 Step 5 demo smoke test only. This is NOT a system-originated order.''"

definition close_smoke_test :: "int \<Rightarrow> 'w env \<Rightarrow> (string \<times> string) list \<Rightarrow> ('w, ExecutionResult option) live_io" where
  "close_smoke_test expected_ticket env source = script_session env source (\<lambda>env.
     let account = McpAccountReader env
     in bind_io (get_positions account btcusd None) (\<lambda>positions.
        case filter (\<lambda>p. pos_ticket p = expected_ticket) positions of
          [target] \<Rightarrow>
            if pos_symbol target \<noteq> ''BTCUSD'' \<or> pos_side target \<noteq> BUY \<or> pos_volume target \<noteq> flt (1 / 100) then return_io None
            else
              bind_io (now_utc env) (\<lambda>adopted_at.
              bind_io (on_files (record_manual_adoption (pos_ticket target) (pos_symbol target) (side_str (pos_side target))
                 (pos_volume target) (pos_price_open target) (pos_magic target) adopted_at adoption_note)) (\<lambda>_.
              bind_io (read_files (status_of (pos_ticket target))) (\<lambda>_.
              bind_io (close_position (live_executor env) (pos_ticket target) (Some (pos_volume target))) (\<lambda>result.
              bind_io (read_files (status_of (pos_ticket target))) (\<lambda>_.
              bind_io (get_positions account btcusd None) (\<lambda>_.
                return_io (Some result)))))))
        | _ \<Rightarrow> return_io None))"

section \<open>Frames\<close>

lemma attempt_keeps: "effect R \<Longrightarrow> keeps R m \<Longrightarrow> keeps R (attempt m)"
  unfolding attempt_def by (rule except_else_keeps) (auto intro: effect.keeps_pure)

lemma attempt_each_keeps:
  assumes "effect R" "\<And>t. t \<in> set ts \<Longrightarrow> keeps R (f t)"
  shows "keeps R (attempt_each f ts)"
  using assms(2)
proof (induction ts)
  case (Cons t ts)
  show ?case
    unfolding attempt_each.simps
    by (intro effect.keeps_rules [OF assms(1)] attempt_keeps [OF assms(1)] Cons) simp_all
qed (simp add: effect.keeps_pure [OF assms(1)])

lemma read_files_frames: "keeps (calls_only A) (read_files f)" "keeps same_files (read_files f)"
  by (simp_all add: keeps_def read_files_def on_files_def calls_only_def same_files_def)

lemma read_lookups_frames: "keeps (calls_only A) (read_lookups ts)" "keeps same_files (read_lookups ts)"
  unfolding read_lookups_def
  by (intro calls.keeps_rules read_files_frames) (intro files.keeps_rules read_files_frames)

lemma account_frames:
  "keeps (calls_only reader_tools) (get_positions (McpAccountReader env) symbol magic)"
  "keeps (calls_only reader_tools) (get_orders (McpAccountReader env) symbol magic)"
  "keeps same_files (get_positions (McpAccountReader env) symbol magic)"
  "keeps same_files (get_orders (McpAccountReader env) symbol magic)"
  by (simp_all add: McpAccountReader_def readers_calls readers_files)

lemmas quiet_frames = account_frames(1,2) read_files_frames(1) read_lookups_frames(1) readers_calls now_utc_calls
  on_files_calls mcp.lift_calls

lemma mark_closed_quiet: "keeps (calls_only A) (mark_closed env ticket reason)"
  unfolding mark_closed_def by (intro calls.keeps_rules now_utc_calls on_files_calls read_lookups_frames)

text \<open>A session adds nothing to what its body calls and writes, and a refused one does neither.\<close>

lemma session_cases:
  assumes "script_session env source body s = (r, t)"
  obtains (refused) "calls_only reader_tools s t" "same_files s t" "isl r"
  | (ran) env' s1 t1 where "body env' s1 = (r, t1)" "calls_only reader_tools s s1" "same_files s s1"
      "l_calls t = l_calls t1" "l_files t = l_files t1" "e_account_kind env' = Some ''DEMO''" "e_clock env' = e_clock env"
proof -
  have none: thesis if "t = s" "isl r" using refused that by (simp add: calls.refl files.refl)
  show thesis
  proof (cases "load_settings source")
    case (Inl e)
    then have "t = s \<and> isl r" using assms by (auto simp: script_session_def raise_io_def)
    then show thesis using none by blast
  next
    case (Inr settings)
    let ?kind = "st_mt5_account_kind settings"
    show thesis
    proof (cases "?kind = Some ''DEMO''")
      case False
      then have "t = s \<and> isl r"
        using assms Inr
        by (auto simp: script_session_def demo_execution_session_def st_trading_enabled_def trading_capable_modes_def
            require_demo_account_kind_def raise_io_def)
      then show thesis using none by blast
    next
      case True
      let ?env = "session_env env (settings\<lparr>st_mode := Mode_DEMO_EXECUTION\<rparr>)"
      let ?check = "catch_io (require_demo_account (McpAccountReader ?env)) (\<lambda>e. if e = NotDemoAccountError then return_io () else raise_io e)"
      have check: "keeps (calls_only reader_tools) ?check" "keeps same_files ?check"
        unfolding require_demo_account_def
        by (intro calls.keeps_rules, simp add: McpAccountReader_def readers_calls)
          (intro files.keeps_rules, simp add: McpAccountReader_def readers_files)
      have run: "with_client ?env (bind_io ?check (\<lambda>_. body ?env)) s = (r, t)"
        using assms Inr True
        by (simp add: script_session_def demo_execution_session_def st_trading_enabled_def trading_capable_modes_def
            require_demo_account_kind_def Let_def)
      show thesis
      proof (cases "aenter ?env s")
        case (Pair a s0)
        have s0: "l_calls s0 = l_calls s" "l_files s0 = l_files s"
          using Pair by (auto simp: aenter_def split: prod.splits option.splits)
        have quiet0: "calls_only reader_tools s s0" "same_files s s0"
          using s0 by (auto simp: calls_only_def same_files_def)
        show thesis
        proof (cases a)
          case (Inl e)
          then have "r = Inl e" "t = s0" using run Pair by (auto simp: with_client_def bind_io_def)
          then show thesis using quiet0 refused by simp
        next
          case (Inr u)
          obtain q t1 where body: "bind_io ?check (\<lambda>_. body ?env) s0 = (q, t1)" by fastforce
          then have t: "r = q" "l_calls t = l_calls t1" "l_files t = l_files t1"
            using run Pair Inr by (auto simp: with_client_def io_simps aexit_def)
          from body show thesis
          proof (cases rule: bind_ioE)
            case (stop e)
            have "calls_only reader_tools s t1" "same_files s t1"
              using calls.trans [OF quiet0(1) keepsD [OF check(1) stop(1)]] files.trans [OF quiet0(2) keepsD [OF check(2) stop(1)]] .
            then show thesis using refused t stop(2) by (simp add: calls_only_def same_files_def)
          next
            case (go x s1)
            have "calls_only reader_tools s s1" "same_files s s1"
              using calls.trans [OF quiet0(1) keepsD [OF check(1) go(1)]] files.trans [OF quiet0(2) keepsD [OF check(2) go(1)]] .
            then show thesis
              using ran [of ?env s1 t1] go(2) t True by (simp add: session_env_def)
          qed
        qed
      qed
    qed
  qed
qed

section \<open>Sequences of calls within a plan\<close>

definition sends_within :: "(string \<times> (string \<times> json) list) list \<Rightarrow> ('w, 'a) live_io \<Rightarrow> bool" where
  "sends_within plan m \<longleftrightarrow> emits {L. subseq L plan} m"

abbreviation cancel_call :: "int \<Rightarrow> string \<times> (string \<times> json) list" where
  "cancel_call ticket \<equiv> (''cancel_pending_order'', [(''id'', JInt ticket)])"

abbreviation close_call :: "int \<Rightarrow> string \<times> (string \<times> json) list" where
  "close_call ticket \<equiv> (''close_position'', [(''id'', JInt ticket)])"

lemma within_quiet: "keeps (calls_only reader_tools) m \<Longrightarrow> sends_within plan m"
  unfolding sends_within_def by (rule quiet_emits) simp_all

lemma within_bind:
  "sends_within p m \<Longrightarrow> (\<And>x. sends_within q (f x)) \<Longrightarrow> sends_within (p @ q) (bind_io m f)"
  unfolding sends_within_def
proof (rule emits_bind)
  show "{L. subseq L p} \<subseteq> {L. subseq L (p @ q)}"
    using list_emb_append_mono [of "(=)" _ p "[]" q] by fastforce
qed (auto intro: list_emb_append_mono)

lemma within_quiet_then:
  "keeps (calls_only reader_tools) m \<Longrightarrow> (\<And>x. sends_within p (f x)) \<Longrightarrow> sends_within p (bind_io m f)"
  using within_bind [OF within_quiet [where plan = "[]"], of m p f] by simp

lemma within_then_quiet:
  "sends_within p m \<Longrightarrow> (\<And>x. keeps (calls_only reader_tools) (f x)) \<Longrightarrow> sends_within p (bind_io m f)"
  using within_bind [OF _ within_quiet [where plan = "[]"], of p m f] by simp

lemma within_if: "sends_within p m \<Longrightarrow> sends_within p n \<Longrightarrow> sends_within p (if b then m else n)"
  by simp

lemma within_option:
  "sends_within p m \<Longrightarrow> (\<And>x. sends_within p (f x)) \<Longrightarrow> sends_within p (case v of None \<Rightarrow> m | Some x \<Rightarrow> f x)"
  by (cases v) simp_all

lemma within_pure: "sends_within p (return_io x)"
  by (rule within_quiet [OF calls.keeps_pure(1)])

lemma within_attempt: "sends_within p m \<Longrightarrow> sends_within p (attempt m)"
  by (auto simp: sends_within_def emits_def attempt_def except_else_io_def io_simps split: prod.split sum.split)
    (metis snd_conv)+

lemma within_each:
  "(\<And>t. t \<in> set ts \<Longrightarrow> sends_within (plan t) (f t)) \<Longrightarrow> sends_within (concat (map plan ts)) (attempt_each f ts)"
proof (induction ts)
  case (Cons t ts)
  have "sends_within (plan t @ (concat (map plan ts) @ [])) (attempt_each f (t # ts))"
    unfolding attempt_each.simps
    by (intro within_bind within_attempt Cons, simp_all add: Cons split: prod.split)
      (auto intro: within_quiet calls.keeps_rules)
  then show ?case by simp
qed (simp add: within_pure)

lemma emits_session:
  assumes "\<And>e. emits C (body e)" "[] \<in> C"
  shows "emits C (script_session env source body)"
  unfolding emits_def
proof
  fix s
  obtain r t where run: "script_session env source body s = (r, t)" by fastforce
  from run have "\<exists>L \<in> C. trades_added s t L"
  proof (cases rule: session_cases)
    case refused
    then show ?thesis using trades_none assms(2) by blast
  next
    case (ran e s1 t1)
    obtain L where "L \<in> C" "trades_added s1 t1 L" using emitsD [OF assms(1) ran(1)] by blast
    then have "trades_added s t1 L" using trades_trans [OF trades_none [OF ran(2)]] by simp
    then show ?thesis using ran(4) \<open>L \<in> C\<close> by (auto simp: trades_added_def)
  qed
  then show "\<exists>L \<in> C. trades_added s (snd (script_session env source body s)) L" using run by simp
qed

lemma within_session: "(\<And>e. sends_within p (body e)) \<Longrightarrow> sends_within p (script_session env source body)"
  unfolding sends_within_def by (rule emits_session) simp_all

lemma within_cancel: "sends_within [cancel_call ticket] (cancel (live_executor env) ticket)"
proof -
  have "\<exists>L. subseq L [cancel_call ticket] \<and> trades_added s t L" if "mcp_cancel env (McpAccountReader env) ticket s = (r, t)" for s r t
    using mcp.cancel_trades [OF that] by (metis list_emb_Nil subseq_order.refl)
  then show ?thesis
    unfolding sends_within_def emits_def McpOrderExecutor_def by (simp, metis prod.collapse)
qed

lemma within_close: "sends_within [close_call ticket] (close_position (live_executor env) ticket volume)"
proof -
  have "\<exists>L. subseq L [close_call ticket] \<and> trades_added s t L"
    if "mcp_close_position env (McpAccountReader env) ticket volume s = (r, t)" for s r t
    using mcp.close_trades [OF that] by (metis list_emb_Nil subseq_order.refl)
  then show ?thesis
    unfolding sends_within_def emits_def McpOrderExecutor_def by (simp, metis prod.collapse)
qed

lemma within_cancel_listed: "sends_within (map cancel_call tickets) (cancel_listed tickets env)"
proof -
  have each: "sends_within (concat (map (\<lambda>t. [cancel_call t]) tickets)) (attempt_each (cancel (live_executor env)) tickets)"
    by (rule within_each) (rule within_cancel)
  have "concat (map (\<lambda>t. [cancel_call t]) tickets) = map cancel_call tickets" by (induction tickets) simp_all
  with each have each: "sends_within (map cancel_call tickets) (attempt_each (cancel (live_executor env)) tickets)" by simp
  show ?thesis
    unfolding cancel_listed_def Let_def
    by (intro within_quiet_then within_if within_then_quiet each within_pure calls.keeps_rules quiet_frames)
qed

lemma within_close_unprotected: "sends_within [close_call ticket] (close_unprotected ticket env)"
  unfolding close_unprotected_def Let_def
  by (intro within_quiet_then within_if within_then_quiet within_attempt within_close within_pure calls.keeps_rules quiet_frames)

lemma within_call: "name \<in> set trading_tools \<Longrightarrow> sends_within [(name, args)] (call_tool env name args)"
  unfolding sends_within_def by (rule emits_mono [OF call_tool_emits]) auto

lemma within_mono: "sends_within p m \<Longrightarrow> subseq p q \<Longrightarrow> sends_within q m"
  unfolding sends_within_def by (rule emits_mono) (auto intro: subseq_order.trans)

lemma within_resolve: "sends_within [if ticket \<in> pos_ticket ` set positions then close_call ticket else cancel_call ticket]
  (resolve_one env positions orders ticket)"
  unfolding resolve_one_def
  by (simp, intro conjI impI within_then_quiet within_close within_cancel calls.keeps_pure within_quiet [OF mark_closed_quiet])

lemma maintenance_sends:
  "sends_within [cancel_call 171621248, cancel_call 171621249] (cancel_pipeline_cycle_orders env source)"
  "sends_within [cancel_call 171809875, cancel_call 171812719, cancel_call 171812840] (cancel_20260807_remaining_grid_orders env source)"
  "sends_within [close_call 171647565] (close_unprotected_runner_position env source)"
  "sends_within [close_call 171979510] (close_171979510 env source)"
  "sends_within [cancel_call 171647525] (close_step19_grid_tickets env source)"
  "sends_within [close_call 171621926, cancel_call 171621927] (close_pipeline_open_items env source)"
  "sends_within [close_call expected_ticket] (close_smoke_test expected_ticket env source)"
  "sends_within [(''modify_position'', [(''id'', JInt 171979510), (''stop_loss'', JFloat (flt (639753 / 10))),
     (''take_profit'', JFloat (flt (639371 / 10)))])] (retry_sltp_171979510 env source)"
proof -
  show "sends_within [cancel_call 171621248, cancel_call 171621249] (cancel_pipeline_cycle_orders env source)"
    using within_cancel_listed [of "[171621248, 171621249]"]
    unfolding cancel_pipeline_cycle_orders_def by (intro within_session) simp
  show "sends_within [cancel_call 171809875, cancel_call 171812719, cancel_call 171812840] (cancel_20260807_remaining_grid_orders env source)"
    using within_cancel_listed [of "[171809875, 171812719, 171812840]"]
    unfolding cancel_20260807_remaining_grid_orders_def by (intro within_session) simp
  show "sends_within [close_call 171647565] (close_unprotected_runner_position env source)"
    unfolding close_unprotected_runner_position_def by (intro within_session within_close_unprotected)
  show "sends_within [close_call 171979510] (close_171979510 env source)"
    unfolding close_171979510_def
    by (intro within_session within_quiet_then within_if within_pure within_then_quiet within_close calls.keeps_pure quiet_frames)
  show "sends_within [cancel_call 171647525] (close_step19_grid_tickets env source)"
    unfolding close_step19_grid_tickets_def Let_def
    by (intro within_session within_quiet_then within_if within_pure within_then_quiet within_attempt within_cancel
        attempt_keeps calls.effect_axioms mark_closed_quiet calls.keeps_rules quiet_frames)
  have two: "sends_within (p @ q) (bind_io m (\<lambda>x. bind_io n (f x)))"
    if "sends_within p m" "sends_within q n" "\<And>x y. keeps (calls_only reader_tools) (f x y)"
    for p q m n and f :: "'x \<Rightarrow> 'y \<Rightarrow> ('w, 'z) live_io"
    using within_bind [OF that(1) within_then_quiet [OF that(2)]] that(3) by blast
  have pair: "sends_within [close_call 171621926, cancel_call 171621927]
      (bind_io (attempt (close_position (live_executor e) 171621926 None)) (\<lambda>x. bind_io (attempt (cancel (live_executor e) 171621927)) (f x)))"
    if "\<And>x y. keeps (calls_only reader_tools) (f x y)" for e and f :: "exn + ExecutionResult \<Rightarrow> exn + ExecutionResult \<Rightarrow> ('w, 'z) live_io"
    using two [OF within_attempt [OF within_close] within_attempt [OF within_cancel] that] by simp
  show "sends_within [close_call 171621926, cancel_call 171621927] (close_pipeline_open_items env source)"
    unfolding close_pipeline_open_items_def Let_def
    by (intro within_session within_quiet_then within_if within_pure pair
        attempt_keeps calls.effect_axioms mark_closed_quiet calls.keeps_rules quiet_frames)
  show "sends_within [(''modify_position'', [(''id'', JInt 171979510), (''stop_loss'', JFloat (flt (639753 / 10))),
     (''take_profit'', JFloat (flt (639371 / 10)))])] (retry_sltp_171979510 env source)"
    unfolding retry_sltp_171979510_def Let_def
    by (intro within_session within_quiet_then within_if within_pure within_option within_then_quiet within_call
        calls.keeps_rules quiet_frames) (simp add: trading_tools_def)
  have adopt: "sends_within [close_call expected_ticket] (case filter (\<lambda>p. pos_ticket p = expected_ticket) positions of
       [target] \<Rightarrow> f target | _ \<Rightarrow> return_io None)"
    if "\<And>p. pos_ticket p = expected_ticket \<Longrightarrow> sends_within [close_call expected_ticket] (f p)"
    for positions and f :: "PositionState \<Rightarrow> ('w, ExecutionResult option) live_io"
  proof (cases "filter (\<lambda>p. pos_ticket p = expected_ticket) positions")
    case (Cons p ps)
    then have "p \<in> set (filter (\<lambda>p. pos_ticket p = expected_ticket) positions)" by (simp only: list.set_intros)
    then have "pos_ticket p = expected_ticket" by simp
    then show ?thesis using Cons that by (cases ps) (simp_all add: within_pure)
  qed (simp add: within_pure)
  have close: "sends_within [close_call expected_ticket] (close_position (live_executor e) (pos_ticket p) volume)"
    if "pos_ticket p = expected_ticket" for e p volume
    using within_close that by simp
  show "sends_within [close_call expected_ticket] (close_smoke_test expected_ticket env source)"
    unfolding close_smoke_test_def Let_def
    by (intro within_session within_quiet_then adopt within_if within_pure within_then_quiet close calls.keeps_rules quiet_frames)
qed

lemma cleanup_sends:
  "emits {L. \<exists>plan. list_all2 (\<lambda>t c. c = close_call t \<or> c = cancel_call t) cleanup_tickets plan \<and> subseq L plan}
     (cleanup_loop_run env source)"
proof -
  let ?C = "{L. \<exists>plan. list_all2 (\<lambda>t c. c = close_call t \<or> c = cancel_call t) cleanup_tickets plan \<and> subseq L plan}"
  have "list_all2 (\<lambda>t c. c = close_call t \<or> c = cancel_call t) ts (map f ts)" if "\<And>t. f t = close_call t \<or> f t = cancel_call t" for f ts
    using that by (induction ts) auto
  note plan = this
  have none: "[] \<in> ?C" using plan [of close_call] by auto
  have each: "emits ?C (attempt_each (resolve_one e positions orders) cleanup_tickets)" for e :: "'w env" and positions orders
  proof -
    let ?call = "\<lambda>t. if t \<in> pos_ticket ` set positions then close_call t else cancel_call t"
    have "sends_within (concat (map (\<lambda>t. [?call t]) cleanup_tickets)) (attempt_each (resolve_one e positions orders) cleanup_tickets)"
      by (rule within_each) (rule within_resolve)
    moreover have "concat (map (\<lambda>t. [?call t]) ts) = map ?call ts" for ts by (induction ts) simp_all
    moreover have "list_all2 (\<lambda>t c. c = close_call t \<or> c = cancel_call t) cleanup_tickets (map ?call cleanup_tickets)"
      by (rule plan) simp
    ultimately show ?thesis unfolding sends_within_def by (elim emits_mono) auto
  qed
  show ?thesis
    unfolding cleanup_loop_run_def Let_def
    by (intro emits_session none emits_quiet_then each emits_then_quiet calls.keeps_rules quiet_frames)
qed


section \<open>What the passes write\<close>

text \<open>A program that changes what is read for no ticket outside \<open>T\<close>.\<close>

definition only_tickets :: "int set \<Rightarrow> 'w live \<Rightarrow> 'w live \<Rightarrow> bool" where
  "only_tickets T s t \<longleftrightarrow> (\<forall>k. k \<notin> T \<longrightarrow> load_one k (l_files t) = load_one k (l_files s))"

interpretation local_writes: effect "only_tickets T" for T
  by unfold_locales (auto simp: only_tickets_def)

lemma same_files_only: "keeps same_files m \<Longrightarrow> keeps (only_tickets T) m"
  by (simp add: keeps_def same_files_def only_tickets_def)

lemma load_one_ticket: "load_one k fs = Inr (Some r) \<Longrightarrow> lr_ticket r = k"
  by (auto simp: load_one_def result_simps dest: read_record_ticket split: option.splits)

lemma transition_only:
  assumes "k \<in> T"
  shows "keeps (only_tickets T) (on_files (transition k status why c))"
proof -
  let ?fin = "\<lambda>r. r\<lparr>lr_status := status, lr_closed_at := Some c, lr_closed_reason := Some why\<rparr>"
  have "load_one j (snd (transition k status why c fs)) = load_one j fs" if "j \<notin> T" for j fs
  proof (cases "load_one k fs")
    case (Inr found)
    show ?thesis
    proof (cases found)
      case (Some r)
      then have "j \<noteq> lr_ticket (?fin r)" using load_one_ticket [of k fs r] Inr assms that by auto
      then show ?thesis
        using Inr Some load_one_write(2) [of j "?fin r"] by (simp add: transition_def update_record_def io_simps)
    qed (simp add: transition_def update_record_def io_simps Inr)
  qed (simp add: transition_def update_record_def io_simps)
  then show ?thesis by (simp add: keeps_def only_tickets_def on_files_def split_beta)
qed

text \<open>What a transition makes of a record.\<close>

definition ended :: "string \<Rightarrow> fstring \<Rightarrow> datetime \<Rightarrow> LocalOrderRecord \<Rightarrow> LocalOrderRecord" where
  "ended status why c r = r\<lparr>lr_status := status, lr_closed_at := Some c, lr_closed_reason := Some why\<rparr>"

definition good_store :: "files \<Rightarrow> bool" where
  "good_store fs \<longleftrightarrow> store_ok fs \<and> (\<forall>k r. view fs k = Some r \<longrightarrow> dates_ok r)"

lemma transition_view:
  assumes "good_store fs" "0 \<le> k" "iso_range c"
  shows "\<exists>fs'. transition k status why c fs = (Inr (), fs') \<and> good_store fs' \<and>
    view fs' = (view fs)(k := map_option (ended status why c) (view fs k))"
proof (cases "view fs k")
  case None
  then show ?thesis
    using assms update_record_run [of fs k] by (simp add: transition_def good_store_def fun_upd_idem)
next
  case (Some r)
  have r: "storable (ended status why c r)" "lr_ticket (ended status why c r) = k"
    using assms Some view_ticket [OF Some] by (auto simp: storable_def dates_ok_def ended_def good_store_def)
  let ?fs = "write_one (ended status why c r) fs"
  have run: "transition k status why c fs = (Inr (), ?fs)"
    using assms(1) Some update_record_run [of fs k] assms(2) by (simp add: transition_def good_store_def ended_def)
  have ok: "store_ok ?fs" and v: "view ?fs = (view fs)(k \<mapsto> ended status why c r)"
    using assms(1) r store.inv_put store.view_put by (auto simp: good_store_def)
  then have "good_store ?fs" using assms(1) r(1) by (auto simp: good_store_def storable_def split: if_split_asm)
  then show ?thesis using run v Some by auto
qed

lemma transitions_view:
  assumes "good_store fs" "\<forall>(k, c) \<in> set xs. 0 \<le> k \<and> iso_range c" "distinct (map fst xs)"
  shows "\<exists>fs'. for_io (\<lambda>(k, c). transition k status why c) xs fs = (Inr (), fs') \<and> good_store fs' \<and>
    view fs' = (\<lambda>k. case map_of xs k of None \<Rightarrow> view fs k | Some c \<Rightarrow> map_option (ended status why c) (view fs k))"
  using assms
proof (induction xs arbitrary: fs)
  case (Cons x xs)
  obtain k c where x: "x = (k, c)" by fastforce
  obtain fs1 where fs1: "transition k status why c fs = (Inr (), fs1)" "good_store fs1"
      "view fs1 = (view fs)(k := map_option (ended status why c) (view fs k))"
    using transition_view [OF Cons.prems(1)] Cons.prems(2) x by fastforce
  obtain fs2 where fs2: "for_io (\<lambda>(k, c). transition k status why c) xs fs1 = (Inr (), fs2)" "good_store fs2"
      "view fs2 = (\<lambda>k. case map_of xs k of None \<Rightarrow> view fs1 k | Some c \<Rightarrow> map_option (ended status why c) (view fs1 k))"
    using Cons.IH [OF fs1(2)] Cons.prems by auto
  have "map_of xs k = None" using Cons.prems(3) x by (simp add: map_of_eq_None_iff)
  then have "view fs2 = (\<lambda>j. case map_of (x # xs) j of None \<Rightarrow> view fs j | Some c \<Rightarrow> map_option (ended status why c) (view fs j))"
    using fs2(3) fs1(3) x by (auto simp: fun_eq_iff split: option.split)
  then show ?case using fs1(1) fs2(1,2) x by (intro exI [of _ fs2]) (simp add: bind_io_def)
qed (simp add: return_io_def)

lemma for_on_files: "for_io (\<lambda>x. on_files (f x)) xs s = on_files (for_io f xs) s"
  by (induction xs arbitrary: s) (auto simp: on_files_def io_simps split: prod.split sum.split)

text \<open>A closed ticket carries the time of its last closing deal, on the clock of the records.\<close>

definition close_time_of :: "Deal list \<Rightarrow> timedelta \<Rightarrow> int \<times> datetime \<Rightarrow> bool" where
  "close_time_of deals offset x \<longleftrightarrow>
     (\<exists>t. dt_max (map deal_time (closing_deals deals (fst x))) = Inr t \<and> snd x = dt_add t (- offset))"

lemma split_spec:
  assumes "split_leftovers live deals offset rs l = Inr l'"
  shows "lo_still_live l' = lo_still_live l @ map lr_ticket (filter (\<lambda>r. lr_ticket r \<in> live) rs) \<and>
    map fst (lo_closed l') = map fst (lo_closed l) @
       map lr_ticket (filter (\<lambda>r. lr_ticket r \<notin> live \<and> closing_deals deals (lr_ticket r) \<noteq> []) rs) \<and>
    lo_cancelled l' = lo_cancelled l @
       map lr_ticket (filter (\<lambda>r. lr_ticket r \<notin> live \<and> closing_deals deals (lr_ticket r) = []) rs) \<and>
    (\<forall>x \<in> set (lo_closed l'). x \<in> set (lo_closed l) \<or> close_time_of deals offset x)"
  using assms
proof (induction rs arbitrary: l)
  case (Cons r rs)
  show ?case
  proof (cases "lr_ticket r \<in> live")
    case True
    then show ?thesis using Cons.IH [of "l\<lparr>lo_still_live := lo_still_live l @ [lr_ticket r]\<rparr>"] Cons.prems by simp
  next
    case False
    show ?thesis
    proof (cases "closing_deals deals (lr_ticket r) = []")
      case True
      then show ?thesis
        using Cons.IH [of "l\<lparr>lo_cancelled := lo_cancelled l @ [lr_ticket r]\<rparr>"] Cons.prems False by simp
    next
      case outs: False
      obtain t where t: "dt_max (map deal_time (closing_deals deals (lr_ticket r))) = Inr t"
          "split_leftovers live deals offset rs (l\<lparr>lo_closed := lo_closed l @ [(lr_ticket r, dt_add t (- offset))]\<rparr>) = Inr l'"
        using Cons.prems False outs by (auto simp: result_simps)
      moreover have "close_time_of deals offset (lr_ticket r, dt_add t (- offset))" using t(1) by (simp add: close_time_of_def)
      ultimately show ?thesis
        using Cons.IH [OF t(2)] False outs by auto
    qed
  qed
qed simp


definition after_pass :: "fstring \<Rightarrow> fstring \<Rightarrow> datetime \<Rightarrow> leftovers \<Rightarrow> (int \<Rightarrow> LocalOrderRecord option) \<Rightarrow> int \<Rightarrow> LocalOrderRecord option" where
  "after_pass closed_reason cancelled_reason now l records k =
     (case map_of (lo_closed l) k of
        Some c \<Rightarrow> map_option (ended ''CLOSED'' closed_reason c) (records k)
      | None \<Rightarrow> if k \<in> set (lo_cancelled l) then map_option (ended ''CANCELLED'' cancelled_reason now) (records k) else records k)"

lemma for_map: "for_io f (map g xs) = for_io (\<lambda>x. f (g x)) xs"
  by (induction xs) simp_all

lemma map_of_constant: "map_of (map (\<lambda>k. (k, c)) ks) k = (if k \<in> set ks then Some c else None)"
  by (induction ks) auto

lemma write_leftovers_view:
  assumes "good_store (l_files s)" "distinct (map fst (lo_closed l) @ lo_cancelled l)"
    and "\<forall>k \<in> set (map fst (lo_closed l) @ lo_cancelled l). 0 \<le> k" "\<forall>x \<in> set (lo_closed l). iso_range (snd x)" "iso_range now"
  shows "\<exists>t. write_leftovers why_closed why_cancelled now l s = (Inr (), t) \<and> good_store (l_files t) \<and>
    view (l_files t) = after_pass why_closed why_cancelled now l (view (l_files s))"
proof -
  let ?closed = "lo_closed l" and ?gone = "map (\<lambda>k. (k, now)) (lo_cancelled l)"
  have keys1: "\<forall>(k, c) \<in> set ?closed. 0 \<le> k \<and> iso_range c"
    using assms(3,4) by force
  have distinct1: "distinct (map fst ?closed)" using assms(2) by simp
  have keys2: "\<forall>(k, c) \<in> set ?gone. 0 \<le> k \<and> iso_range c" "distinct (map fst ?gone)"
    using assms(2,3,5) by (auto simp: comp_def)
  obtain fs1 where fs1: "for_io (\<lambda>(k, c). transition k ''CLOSED'' why_closed c) ?closed (l_files s) = (Inr (), fs1)" "good_store fs1"
      "view fs1 = (\<lambda>k. case map_of ?closed k of None \<Rightarrow> view (l_files s) k | Some c \<Rightarrow> map_option (ended ''CLOSED'' why_closed c) (view (l_files s) k))"
    using transitions_view [OF assms(1) keys1 distinct1, of "''CLOSED''" why_closed] by blast
  obtain fs2 where fs2: "for_io (\<lambda>(k, c). transition k ''CANCELLED'' why_cancelled c) ?gone fs1 = (Inr (), fs2)" "good_store fs2"
      "view fs2 = (\<lambda>k. case map_of ?gone k of None \<Rightarrow> view fs1 k | Some c \<Rightarrow> map_option (ended ''CANCELLED'' why_cancelled c) (view fs1 k))"
    using transitions_view [OF fs1(2) keys2, of "''CANCELLED''" why_cancelled] by blast
  have one: "(\<lambda>(k, c). on_files (record_closed k why_closed c)) = (\<lambda>x. on_files (case x of (k, c) \<Rightarrow> transition k ''CLOSED'' why_closed c))"
    by (auto simp: record_closed_def fun_eq_iff)
  have two: "for_io (\<lambda>k. on_files (record_cancelled k why_cancelled now)) (lo_cancelled l) =
      for_io (\<lambda>x. on_files (case x of (k, c) \<Rightarrow> transition k ''CANCELLED'' why_cancelled c)) ?gone"
    unfolding for_map by (simp add: record_cancelled_def)
  have "write_leftovers why_closed why_cancelled now l s = (Inr (), s\<lparr>l_files := fs2\<rparr>)"
    unfolding write_leftovers_def one two bind_io_def for_on_files
    by (simp add: on_files_def fs1(1) fs2(1))
  moreover have "view fs2 = after_pass why_closed why_cancelled now l (view (l_files s))"
  proof
    fix k
    have gone: "map_of ?gone k = (if k \<in> set (lo_cancelled l) then Some now else None)" by (rule map_of_constant)
    show "view fs2 k = after_pass why_closed why_cancelled now l (view (l_files s)) k"
    proof (cases "map_of ?closed k")
      case None
      then show ?thesis using fs1(3) fs2(3) gone by (simp add: after_pass_def)
    next
      case (Some c)
      then have "k \<notin> set (lo_cancelled l)" using assms(2) by (auto dest: map_of_SomeD)
      then show ?thesis using Some fs1(3) fs2(3) gone by (simp add: after_pass_def)
    qed
  qed
  ultimately show ?thesis using fs2(2) by simp
qed

text \<open>The tickets of three lists that split one.\<close>

lemma three_ways:
  assumes "distinct (map f xs)"
  shows "distinct (map f (filter P xs) @ map f (filter (\<lambda>x. \<not> P x \<and> Q x) xs) @ map f (filter (\<lambda>x. \<not> P x \<and> \<not> Q x) xs))"
    and "set (map f (filter P xs) @ map f (filter (\<lambda>x. \<not> P x \<and> Q x) xs) @ map f (filter (\<lambda>x. \<not> P x \<and> \<not> Q x) xs)) = f ` set xs"
proof -
  show "distinct (map f (filter P xs) @ map f (filter (\<lambda>x. \<not> P x \<and> Q x) xs) @ map f (filter (\<lambda>x. \<not> P x \<and> \<not> Q x) xs))"
    using assms by (auto simp: distinct_map inj_on_def)
  have "set xs = {x \<in> set xs. P x} \<union> {x \<in> set xs. \<not> P x \<and> Q x} \<union> {x \<in> set xs. \<not> P x \<and> \<not> Q x}" by blast
  then have "f ` set xs = f ` {x \<in> set xs. P x} \<union> f ` {x \<in> set xs. \<not> P x \<and> Q x} \<union> f ` {x \<in> set xs. \<not> P x \<and> \<not> Q x}"
    by (metis image_Un)
  then show "set (map f (filter P xs) @ map f (filter (\<lambda>x. \<not> P x \<and> Q x) xs) @ map f (filter (\<lambda>x. \<not> P x \<and> \<not> Q x) xs)) = f ` set xs"
    by auto
qed

lemma split_partition:
  assumes "split_leftovers live deals offset rs no_leftovers = Inr l" "distinct (map lr_ticket rs)"
  shows "distinct (lo_still_live l @ map fst (lo_closed l) @ lo_cancelled l)"
    and "set (lo_still_live l @ map fst (lo_closed l) @ lo_cancelled l) = lr_ticket ` set rs"
    and "set (lo_still_live l) \<subseteq> live" "(fst ` set (lo_closed l) \<union> set (lo_cancelled l)) \<inter> live = {}"
    and "\<forall>x \<in> set (lo_closed l). close_time_of deals offset x" "\<forall>k \<in> set (lo_cancelled l). closing_deals deals k = []"
proof -
  note spec = split_spec [OF assms(1)]
  have l: "lo_still_live l = map lr_ticket (filter (\<lambda>r. lr_ticket r \<in> live) rs)"
    "map fst (lo_closed l) = map lr_ticket (filter (\<lambda>r. lr_ticket r \<notin> live \<and> closing_deals deals (lr_ticket r) \<noteq> []) rs)"
    "lo_cancelled l = map lr_ticket (filter (\<lambda>r. lr_ticket r \<notin> live \<and> closing_deals deals (lr_ticket r) = []) rs)"
    using spec by (simp_all add: no_leftovers_def)
  show "distinct (lo_still_live l @ map fst (lo_closed l) @ lo_cancelled l)"
    "set (lo_still_live l @ map fst (lo_closed l) @ lo_cancelled l) = lr_ticket ` set rs"
    unfolding l
    using three_ways [OF assms(2), of "\<lambda>r. lr_ticket r \<in> live" "\<lambda>r. closing_deals deals (lr_ticket r) \<noteq> []"] by simp_all
  have "fst ` set (lo_closed l) = set (map fst (lo_closed l))" by simp
  then show "set (lo_still_live l) \<subseteq> live" "(fst ` set (lo_closed l) \<union> set (lo_cancelled l)) \<inter> live = {}"
    "\<forall>k \<in> set (lo_cancelled l). closing_deals deals k = []"
    unfolding l by auto
  show "\<forall>x \<in> set (lo_closed l). close_time_of deals offset x" using spec by (simp add: no_leftovers_def)
qed

text \<open>
  C24: A reconciliation pass accounts for every stale record once and writes exactly what it found.
  The open records it selects are split into those still live in the account just read, those with
  a closing deal and those without; the second kind ends CLOSED at the time of its last closing
  deal, the third CANCELLED, every other record of the store is as it was, and no call trades.
\<close>

theorem leftovers_reconciled:
  assumes "reconcile_leftovers from_date to_date select why_closed why_cancelled env s = (Inr l, t)"
    and "good_store (l_files s)" "\<forall>n. iso_range (Aware (e_clock env n))" "\<forall>x \<in> set (lo_closed l). iso_range (snd x)"
  shows "distinct (lo_still_live l @ map fst (lo_closed l) @ lo_cancelled l) \<and>
    set (lo_still_live l @ map fst (lo_closed l) @ lo_cancelled l) =
      {k. \<exists>r. view (l_files s) k = Some r \<and> is_open r \<and> select r} \<and>
    (\<exists>positions orders deals offset s1 s2 s3. mcp_get_positions env btcusd None s = (Inr positions, s1) \<and>
       mcp_get_orders env btcusd None s1 = (Inr orders, s2) \<and> get_deals env (Some from_date) (Some to_date) None s2 = (Inr deals, s3) \<and>
       set (lo_still_live l) \<subseteq> real_tickets positions orders \<and>
       (fst ` set (lo_closed l) \<union> set (lo_cancelled l)) \<inter> real_tickets positions orders = {} \<and>
       (\<forall>x \<in> set (lo_closed l). close_time_of deals offset x) \<and> (\<forall>k \<in> set (lo_cancelled l). closing_deals deals k = [])) \<and>
    (\<exists>now. view (l_files t) = after_pass why_closed why_cancelled now l (view (l_files s))) \<and>
    good_store (l_files t) \<and> trades_added s t []"
proof -
  let ?acc = "McpAccountReader env"
  obtain positions s1 where p: "get_positions ?acc btcusd None s = (Inr positions, s1)"
    and run1: "bind_io (get_orders ?acc btcusd None) (\<lambda>orders. bind_io (get_deals env (Some from_date) (Some to_date) None) (\<lambda>deals.
      bind_io (read_files State_Store.all_records) (\<lambda>all_records. bind_io (lift_io (infer_deal_time_offset all_records deals)) (\<lambda>offset.
      bind_io (lift_io (split_leftovers (real_tickets positions orders) deals (case offset of None \<Rightarrow> 0 | Some d \<Rightarrow> d)
        (filter (\<lambda>r. is_open r \<and> select r) all_records) no_leftovers)) (\<lambda>l. bind_io (now_utc env) (\<lambda>now.
      bind_io (write_leftovers why_closed why_cancelled now l) (\<lambda>_. return_io l))))))) s1 = (Inr l, t)"
    using assms(1) unfolding reconcile_leftovers_def Let_def bind_io_Inr by blast
  then obtain orders s2 deals s3 where o: "get_orders ?acc btcusd None s1 = (Inr orders, s2)"
    and d: "get_deals env (Some from_date) (Some to_date) None s2 = (Inr deals, s3)"
    and run2: "bind_io (read_files State_Store.all_records) (\<lambda>all_records. bind_io (lift_io (infer_deal_time_offset all_records deals)) (\<lambda>offset.
      bind_io (lift_io (split_leftovers (real_tickets positions orders) deals (case offset of None \<Rightarrow> 0 | Some d \<Rightarrow> d)
        (filter (\<lambda>r. is_open r \<and> select r) all_records) no_leftovers)) (\<lambda>l. bind_io (now_utc env) (\<lambda>now.
      bind_io (write_leftovers why_closed why_cancelled now l) (\<lambda>_. return_io l))))) s3 = (Inr l, t)"
    unfolding bind_io_Inr by blast
  have files: "l_files s3 = l_files s"
    using keepsD [OF account_frames(3) p] keepsD [OF account_frames(4) o] keepsD [OF readers_files(5) d] by (simp add: same_files_def)
  obtain rs where rs: "State_Store.all_records (l_files s) = Inr rs" "set rs = ran (view (l_files s))" "distinct (map lr_ticket rs)"
    using all_records_view [of "l_files s"] assms(2) unfolding good_store_def by blast
  have "read_files State_Store.all_records s3 = (Inr rs, s3)" using rs(1) files by (simp add: read_files_def on_files_def)
  from run2 [unfolded bind_io_go [where m = "read_files State_Store.all_records", OF this]]
  obtain offset now s4 where split: "split_leftovers (real_tickets positions orders) deals offset
        (filter (\<lambda>r. is_open r \<and> select r) rs) no_leftovers = Inr l"
    and now: "now_utc env s3 = (Inr now, s4)" and w: "write_leftovers why_closed why_cancelled now l s4 = (Inr (), t)"
    unfolding bind_io_Inr by (auto simp: lift_io_def return_io_def)
  have files4: "l_files s4 = l_files s" using keepsD [OF now_utc_files now] files by (simp add: same_files_def)
  have "distinct (map lr_ticket (filter (\<lambda>r. is_open r \<and> select r) rs))" using rs(3) by (simp add: distinct_map_filter)
  note part = split_partition [OF split this]
  have tickets: "lr_ticket ` set (filter (\<lambda>r. is_open r \<and> select r) rs) = {k. \<exists>r. view (l_files s) k = Some r \<and> is_open r \<and> select r}"
    using rs(2) view_ticket by (fastforce simp: ran_def)
  have pos: "0 \<le> k" if "k \<in> set (lo_still_live l @ map fst (lo_closed l) @ lo_cancelled l)" for k
    using that part(2) tickets view_ticket by blast
  have "iso_range now" using now assms(3) by (auto simp: now_utc_def)
  then obtain t' where t': "write_leftovers why_closed why_cancelled now l s4 = (Inr (), t')" "good_store (l_files t')"
      "view (l_files t') = after_pass why_closed why_cancelled now l (view (l_files s4))"
    using write_leftovers_view [of s4 l now why_closed why_cancelled] assms(2,4) files4 part(1) pos by auto
  have quiet: "calls_only reader_tools s t"
  proof -
    have "keeps (calls_only reader_tools) (reconcile_leftovers from_date to_date select why_closed why_cancelled env)"
      unfolding reconcile_leftovers_def write_leftovers_def Let_def by (intro calls.keeps_rules quiet_frames)
    then show ?thesis using assms(1) by (rule keepsD)
  qed
  have reads: "mcp_get_positions env btcusd None s = (Inr positions, s1)" "mcp_get_orders env btcusd None s1 = (Inr orders, s2)"
    using p o by (simp_all add: McpAccountReader_def)
  have same: "t' = t" using w t'(1) by simp
  show ?thesis
  proof (intro conjI)
    show "distinct (lo_still_live l @ map fst (lo_closed l) @ lo_cancelled l)" by (rule part(1))
    show "set (lo_still_live l @ map fst (lo_closed l) @ lo_cancelled l) = {k. \<exists>r. view (l_files s) k = Some r \<and> is_open r \<and> select r}"
      unfolding part(2) by (rule tickets)
    show "\<exists>positions orders deals offset s1 s2 s3. mcp_get_positions env btcusd None s = (Inr positions, s1) \<and>
       mcp_get_orders env btcusd None s1 = (Inr orders, s2) \<and> get_deals env (Some from_date) (Some to_date) None s2 = (Inr deals, s3) \<and>
       set (lo_still_live l) \<subseteq> real_tickets positions orders \<and>
       (fst ` set (lo_closed l) \<union> set (lo_cancelled l)) \<inter> real_tickets positions orders = {} \<and>
       (\<forall>x \<in> set (lo_closed l). close_time_of deals offset x) \<and> (\<forall>k \<in> set (lo_cancelled l). closing_deals deals k = [])"
      by (intro exI conjI) (rule reads d part(3-6))+
    show "\<exists>now. view (l_files t) = after_pass why_closed why_cancelled now l (view (l_files s))"
      using t'(3) same files4 by (intro exI [of _ now]) simp
    show "good_store (l_files t)" using t'(2) same by simp
    show "trades_added s t []" by (rule trades_none [OF quiet])
  qed
qed


text \<open>A server that answers every query with nothing, and a clock that stands.\<close>

definition still_env :: "unit env" where
  "still_env = (silent_env True)\<lparr>e_clock := \<lambda>n. 0\<rparr>"

definition stale_live :: "unit live" where
  "stale_live = fresh_live\<lparr>l_files := write_one (sample_record 7) []\<rparr>"

lemma still_call:
  "name \<in> set read_only_tools \<Longrightarrow> l_session s \<Longrightarrow>
   call_tool still_env name args s = (Inr '''', s\<lparr>l_server := (), l_calls := (name, args) # l_calls s\<rparr>)"
  by (simp add: call_tool_def still_env_def silent_env_def registry_gate_reads text_of_def)

lemma still_reads:
  assumes "l_session s"
  shows "\<exists>c. mcp_get_positions still_env symbol None s = (Inr [], s\<lparr>l_server := (), l_calls := c # l_calls s\<rparr>)"
    "\<exists>c. mcp_get_orders still_env symbol None s = (Inr [], s\<lparr>l_server := (), l_calls := c # l_calls s\<rparr>)"
    "\<exists>c. get_deals still_env from_date to_date symbol s = (Inr [], s\<lparr>l_server := (), l_calls := c # l_calls s\<rparr>)"
proof -
  have empty: "parse_dataframe_csv '''' = Inr []" by (simp add: parse_dataframe_csv_def strip_def)
  show "\<exists>c. mcp_get_positions still_env symbol None s = (Inr [], s\<lparr>l_server := (), l_calls := c # l_calls s\<rparr>)"
    "\<exists>c. mcp_get_orders still_env symbol None s = (Inr [], s\<lparr>l_server := (), l_calls := c # l_calls s\<rparr>)"
    "\<exists>c. get_deals still_env from_date to_date symbol s = (Inr [], s\<lparr>l_server := (), l_calls := c # l_calls s\<rparr>)"
    using assms still_call [of _ s]
    by (auto simp: mcp_get_positions_def mcp_get_orders_def get_deals_def table_io_def empty by_magic_def read_only_tools_def io_simps)
qed

lemma stale_store: "good_store (write_one (sample_record 7) [])" "view (write_one (sample_record 7) []) = [7 \<mapsto> sample_record 7]"
proof -
  have none: "view [] = Map.empty" by (simp add: view_def load_one_def fun_eq_iff)
  show v: "view (write_one (sample_record 7) []) = [7 \<mapsto> sample_record 7]"
    using view_write [of "sample_record 7" "[]"] none by (simp add: storable_def)
  then show "good_store (write_one (sample_record 7) [])"
    using store_ok_write [OF store_ok_empty, of "sample_record 7"] by (simp add: good_store_def)
qed

lemma stale_records: "State_Store.all_records (write_one (sample_record 7) []) = Inr [sample_record 7]"
proof -
  have "store_ok (write_one (sample_record 7) [])" using stale_store(1) by (simp add: good_store_def)
  then obtain rs where rs: "State_Store.all_records (write_one (sample_record 7) []) = Inr rs"
      "set rs = ran (view (write_one (sample_record 7) []))" "distinct (map lr_ticket rs)"
    using all_records_view by blast
  have "set rs = {sample_record 7}" by (simp add: rs(2) stale_store(2))
  moreover have "distinct rs" using rs(3) by (simp add: distinct_map)
  ultimately have "rs = [sample_record 7]" by (cases rs; cases "tl rs") auto
  then show ?thesis using rs(1) by simp
qed

theorem leftovers_reconciled_witness:
  "\<exists>l t now. reconcile_leftovers ''2026-08-09'' ''2026-08-11'' (\<lambda>r. True) [] [] still_env stale_live = (Inr l, t) \<and>
     lo_cancelled l = [7] \<and> view (l_files t) 7 = Some (ended ''CANCELLED'' [] now (sample_record 7))"
proof -
  let ?run = "reconcile_leftovers ''2026-08-09'' ''2026-08-11'' (\<lambda>r. True) [] [] still_env"
    and ?l = "\<lparr> lo_still_live = [], lo_closed = [], lo_cancelled = [7] \<rparr>"
  define s1 where "s1 = snd (mcp_get_positions still_env btcusd None stale_live)"
  define s2 where "s2 = snd (mcp_get_orders still_env btcusd None s1)"
  define s3 where "s3 = snd (get_deals still_env (Some ''2026-08-09'') (Some ''2026-08-11'') None s2)"
  have p: "mcp_get_positions still_env btcusd None stale_live = (Inr [], s1)" and s1: "l_session s1" "l_files s1 = l_files stale_live"
    using still_reads(1) [of stale_live btcusd] by (auto simp: s1_def stale_live_def fresh_live_def)
  have o: "mcp_get_orders still_env btcusd None s1 = (Inr [], s2)" and s2: "l_session s2" "l_files s2 = l_files stale_live"
    using still_reads(2) [OF s1(1), of btcusd] s1 by (auto simp: s2_def)
  have d: "get_deals still_env (Some ''2026-08-09'') (Some ''2026-08-11'') None s2 = (Inr [], s3)" and s3: "l_files s3 = l_files stale_live"
    using still_reads(3) [OF s2(1), of "Some ''2026-08-09''" "Some ''2026-08-11''" None] s2 by (auto simp: s3_def)
  have r: "read_files State_Store.all_records s3 = (Inr [sample_record 7], s3)"
    using s3 by (simp add: read_files_def on_files_def stale_live_def stale_records)
  have offset: "infer_deal_time_offset [sample_record 7] [] = Inr None"
    by (simp add: infer_deal_time_offset_def reference_diff_def sample_record_def submission_record_def sample_plan_def order_type_str_def somes_def)
  have split: "split_leftovers (real_tickets [] []) [] 0 (filter (\<lambda>r. is_open r \<and> True) [sample_record 7]) no_leftovers = Inr ?l"
    by (simp add: real_tickets_def no_leftovers_def closing_deals_def deals_of_position_def is_open_def sample_record_def submission_record_def)
  have n: "now_utc still_env s3 = (Inr (Aware 0), s3\<lparr>l_clock_reads := l_clock_reads s3 + 1\<rparr>)"
    by (simp add: now_utc_def still_env_def)
  obtain t where w: "write_leftovers [] [] (Aware 0) ?l (s3\<lparr>l_clock_reads := l_clock_reads s3 + 1\<rparr>) = (Inr (), t)"
    using write_leftovers_view [of "s3\<lparr>l_clock_reads := l_clock_reads s3 + 1\<rparr>" ?l "Aware 0" "[]" "[]"] s3 stale_store(1) epoch_ok
    by (auto simp: stale_live_def)
  have run: "?run stale_live = (Inr ?l, t)"
    unfolding reconcile_leftovers_def Let_def
    by (simp add: bind_io_def McpAccountReader_def p o d r offset split [simplified] n [simplified] w [simplified] lift_io_def return_io_def)
  have "\<forall>n. iso_range (Aware (e_clock still_env n))" by (simp add: still_env_def epoch_ok)
  then have "\<exists>now. view (l_files t) = after_pass [] [] now ?l (view (l_files stale_live))"
    using leftovers_reconciled [OF run] stale_store(1) by (simp add: stale_live_def)
  then obtain now where "view (l_files t) 7 = after_pass [] [] now ?l (view (l_files stale_live)) 7" by auto
  then have "view (l_files t) 7 = Some (ended ''CANCELLED'' [] now (sample_record 7))"
    by (simp add: after_pass_def stale_live_def stale_store(2))
  then show ?thesis using run by (intro exI [of _ ?l] exI [of _ t] exI [of _ now]) simp
qed

section \<open>Passes over listed tickets\<close>

lemma all_have_status_True:
  "all_have_status status ts fs = Inr True \<Longrightarrow> k \<in> set ts \<Longrightarrow> \<exists>r. lookup k fs = Inr (Some r) \<and> lr_status r = status"
  by (induction ts) (auto simp: result_simps split: option.splits if_splits)

text \<open>The two marks that the passes use, and what they can change.\<close>

definition ending_mark :: "fstring \<Rightarrow> (int \<Rightarrow> datetime \<Rightarrow> (files, exn, unit) io) \<Rightarrow> string \<Rightarrow> bool" where
  "ending_mark why mark status \<longleftrightarrow>
     mark = (\<lambda>k. record_closed k why) \<and> status = ''CLOSED'' \<or> mark = (\<lambda>k. record_cancelled k why) \<and> status = ''CANCELLED''"

lemma mark_only:
  assumes "ending_mark why mark status" "k \<in> T"
  shows "keeps (only_tickets T) (bind_io (now_utc env) (\<lambda>now. bind_io (on_files (mark k now)) (\<lambda>_. read_lookups [k])))"
proof -
  have "keeps (only_tickets T) (on_files (mark k now))" for now
    using assms transition_only [OF assms(2)] by (auto simp: ending_mark_def record_closed_def record_cancelled_def)
  then show ?thesis
    by (intro local_writes.keeps_bind same_files_only [OF now_utc_files] same_files_only [OF read_lookups_frames(2)])
qed

lemma absent_frames:
  assumes "ending_mark why mark status"
  shows "keeps (only_tickets (set tickets)) (reconcile_absent tickets mark status env)"
    and "keeps (calls_only reader_tools) (reconcile_absent tickets mark status env)"
proof -
  show "keeps (only_tickets (set tickets)) (reconcile_absent tickets mark status env)"
    unfolding reconcile_absent_def Let_def
    by (intro local_writes.keeps_rules attempt_each_keeps local_writes.effect_axioms mark_only [OF assms]
        same_files_only [OF account_frames(3)] same_files_only [OF account_frames(4)] same_files_only [OF read_files_frames(2)]
        same_files_only [OF read_lookups_frames(2)]) simp_all
  show "keeps (calls_only reader_tools) (reconcile_absent tickets mark status env)"
    unfolding reconcile_absent_def Let_def
    by (intro calls.keeps_rules attempt_each_keeps calls.effect_axioms quiet_frames)
qed

lemma absent_cases:
  assumes "reconcile_absent tickets mark status env s = (r, t)"
  obtains (unread) "same_files s t" "isl r"
  | (read) positions orders s1 s2 where "mcp_get_positions env btcusd None s = (Inr positions, s1)"
      "mcp_get_orders env btcusd None s1 = (Inr orders, s2)" "same_files s s2"
      "bind_io (read_lookups tickets) (\<lambda>_. if filter (\<lambda>t. t \<in> real_tickets positions orders) tickets \<noteq> [] then return_io None
         else bind_io (attempt_each (\<lambda>t. bind_io (now_utc env) (\<lambda>now. bind_io (on_files (mark t now)) (\<lambda>_. read_lookups [t]))) tickets) (\<lambda>(_, errors).
           bind_io (read_files (all_have_status status tickets)) (\<lambda>resolved. return_io (Some (resolved, errors))))) s2 = (r, t)"
proof -
  note run = assms [unfolded reconcile_absent_def Let_def]
  from run show thesis
  proof (cases rule: bind_ioE)
    case (stop e)
    then show thesis using unread keepsD [OF account_frames(3) stop(1)] by simp
  next
    case p: (go positions s1)
    from p(2) show thesis
    proof (cases rule: bind_ioE)
      case (stop e)
      then show thesis
        using unread files.trans [OF keepsD [OF account_frames(3) p(1)] keepsD [OF account_frames(4) stop(1)]] by simp
    next
      case o: (go orders s2)
      show thesis
        by (rule read [OF _ _ _ o(2)])
          (use p(1) o(1) files.trans [OF keepsD [OF account_frames(3) p(1)] keepsD [OF account_frames(4) o(1)]]
            in \<open>simp_all add: McpAccountReader_def\<close>)
    qed
  qed
qed

text \<open>
  C26: A pass over listed tickets acts on its premise or not at all. It never trades and writes no
  other ticket's record; when one of the tickets is still among the positions or orders it just
  read, it writes nothing; and when it reports success, every listed ticket has a record with the
  status it was to get.
\<close>

theorem absent_pass_guarded:
  assumes "reconcile_absent tickets mark status env s = (r, t)" "ending_mark why mark status"
  shows "trades_added s t [] \<and> (\<forall>k. k \<notin> set tickets \<longrightarrow> lookup k (l_files t) = lookup k (l_files s)) \<and>
    (r = Inr None \<longrightarrow> l_files t = l_files s) \<and>
    (\<forall>positions orders s1 s2. mcp_get_positions env btcusd None s = (Inr positions, s1) \<and>
       mcp_get_orders env btcusd None s1 = (Inr orders, s2) \<and> set tickets \<inter> real_tickets positions orders \<noteq> {} \<longrightarrow>
       l_files t = l_files s \<and> (\<forall>outcome. r \<noteq> Inr (Some outcome))) \<and>
    (\<forall>errors. r = Inr (Some (True, errors)) \<longrightarrow>
       (\<forall>k \<in> set tickets. \<exists>entry. lookup k (l_files t) = Inr (Some entry) \<and> lr_status entry = status))"
proof -
  note frames = absent_frames [OF assms(2), of tickets env]
  have 1: "trades_added s t []" by (rule trades_none [OF keepsD [OF frames(2) assms(1)]])
  have 2: "\<forall>k. k \<notin> set tickets \<longrightarrow> lookup k (l_files t) = lookup k (l_files s)"
    using keepsD [OF frames(1) assms(1)] by (simp add: only_tickets_def lookup_def)
  have 3: "(r = Inr None \<longrightarrow> l_files t = l_files s) \<and>
    (\<forall>positions orders s1 s2. mcp_get_positions env btcusd None s = (Inr positions, s1) \<and>
       mcp_get_orders env btcusd None s1 = (Inr orders, s2) \<and> set tickets \<inter> real_tickets positions orders \<noteq> {} \<longrightarrow>
       l_files t = l_files s \<and> (\<forall>outcome. r \<noteq> Inr (Some outcome))) \<and>
    (\<forall>errors. r = Inr (Some (True, errors)) \<longrightarrow> (\<forall>k \<in> set tickets. \<exists>entry. lookup k (l_files t) = Inr (Some entry) \<and> lr_status entry = status))"
    using assms(1)
  proof (cases rule: absent_cases)
    case unread
    then show ?thesis by (auto simp: same_files_def)
  next
    case (read positions orders s1 s2)
    let ?live = "filter (\<lambda>t. t \<in> real_tickets positions orders) tickets"
    have live: "?live \<noteq> [] \<longleftrightarrow> set tickets \<inter> real_tickets positions orders \<noteq> {}" by (auto simp: filter_empty_conv)
    from read(4) show ?thesis
    proof (cases rule: bind_ioE)
      case (stop e)
      then show ?thesis
        using read(3) keepsD [OF read_lookups_frames(2) stop(1)] by (simp add: same_files_def)
    next
      case (go u s3)
      have files3: "l_files s3 = l_files s" using read(3) keepsD [OF read_lookups_frames(2) go(1)] by (simp add: same_files_def)
      show ?thesis
      proof (cases "?live = []")
        case False
        then have "r = Inr None" "t = s3" using go(2) by (simp_all add: return_io_def)
        then show ?thesis using files3 by simp
      next
        case True
        then have "set tickets \<inter> real_tickets positions orders = {}" using live by simp
        moreover have "r \<noteq> Inr None \<and> (\<forall>errors. r = Inr (Some (True, errors)) \<longrightarrow> all_have_status status tickets (l_files t) = Inr True)"
          using go(2) True by (auto simp: bind_io_Inr read_files_def on_files_def return_io_def)
        ultimately show ?thesis
          using read(1,2) all_have_status_True by auto
      qed
    qed
  qed
  show ?thesis using 1 2 3 by simp
qed

text \<open>The sample record is marked; what is read for another ticket stays.\<close>

theorem absent_pass_guarded_witness:
  "\<exists>r t. reconcile_absent [7] (\<lambda>k. record_closed k []) ''CLOSED'' still_env stale_live = (r, t) \<and>
     trades_added stale_live t [] \<and> lookup 8 (l_files t) = lookup 8 (l_files stale_live)"
proof -
  obtain r t where run: "reconcile_absent [7] (\<lambda>k. record_closed k []) ''CLOSED'' still_env stale_live = (r, t)" by fastforce
  have "ending_mark [] (\<lambda>k. record_closed k []) ''CLOSED''" by (simp add: ending_mark_def)
  then show ?thesis using absent_pass_guarded [OF run] run by simp
qed

text \<open>
  The records a pass takes are not restricted to the symbol of its live reads: an open record whose
  ticket is live on another symbol, and that has no closing deal, is cancelled.
\<close>

lemma stale_of_any_symbol_cancelled:
  assumes "split_leftovers (real_tickets positions orders) deals offset rs no_leftovers = Inr l"
    and "r \<in> set rs" "lr_ticket r \<notin> real_tickets positions orders" "closing_deals deals (lr_ticket r) = []"
  shows "lr_ticket r \<in> set (lo_cancelled l)"
  using split_spec [OF assms(1)] assms(2-4) by (auto simp: no_leftovers_def)

text \<open>The maintenance scripts, too, keep the records well typed.\<close>

lemma typed_account:
  "keeps typed_step (get_positions (McpAccountReader env) symbol magic)"
  "keeps typed_step (get_orders (McpAccountReader env) symbol magic)"
  by (rule typed_quiet, rule account_frames)+

lemma typed_lookups: "keeps typed_step (read_lookups ts)"
  by (rule typed_quiet [OF read_lookups_frames(2)])

lemmas typed_frames = typed_account typed_lookups typed_read_files typed_now typed_deals typed_on_files store_typed typed_call
  typed_loads mcp.typed_cancel mcp.typed_close

lemma typed_executor:
  "keeps typed_step (cancel (live_executor env) ticket)" "keeps typed_step (close_position (live_executor env) ticket volume)"
  by (simp_all add: McpOrderExecutor_def mcp.typed_cancel mcp.typed_close)

lemma typed_mark: "keeps typed_step (mark_closed env ticket reason)"
  unfolding mark_closed_def by (intro typed.keeps_rules typed_frames)

lemma typed_session: "(\<And>e. keeps typed_step (body e)) \<Longrightarrow> keeps typed_step (script_session env source body)"
  unfolding keeps_def
proof
  fix s
  assume body: "\<And>e. \<forall>s. typed_step s (snd (body e s))"
  obtain r t where run: "script_session env source body s = (r, t)" by fastforce
  from run have "typed_step s t"
  proof (cases rule: session_cases)
    case (ran e s1 t1)
    then have "typed_step s1 t1" using body [of e] by (metis snd_conv)
    then show ?thesis using ran(3,5) by (simp add: typed_step_def same_files_def)
  qed (simp add: same_files_def typed_step_def keeps_typed_def)
  then show "typed_step s (snd (script_session env source body s))" using run by simp
qed

lemma maintenance_typed:
  "keeps typed_step (cleanup_loop_run env source)"
  "keeps typed_step (close_pipeline_open_items env source)"
  "keeps typed_step (close_step19_grid_tickets env source)"
  "keeps typed_step (close_smoke_test expected_ticket env source)"
  "keeps typed_step (retry_sltp_171979510 env source)"
  "keeps typed_step (reconcile_leftovers from_date to_date select why_closed why_cancelled env)"
  "keeps typed_step (reconcile_absent tickets (\<lambda>k. record_closed k why) status env)"
proof -
  note steps = typed_session typed.keeps_rules typed_frames typed_executor typed_mark attempt_keeps [OF typed.effect_axioms]
    attempt_each_keeps [OF typed.effect_axioms]
  show "keeps typed_step (cleanup_loop_run env source)"
    unfolding cleanup_loop_run_def resolve_one_def Let_def by (intro steps)
  show "keeps typed_step (close_pipeline_open_items env source)"
    unfolding close_pipeline_open_items_def Let_def by (intro steps)
  show "keeps typed_step (close_step19_grid_tickets env source)"
    unfolding close_step19_grid_tickets_def Let_def by (intro steps)
  show "keeps typed_step (close_smoke_test expected_ticket env source)"
    unfolding close_smoke_test_def Let_def
    by (intro steps) (auto split: list.split intro!: steps)
  show "keeps typed_step (retry_sltp_171979510 env source)"
    unfolding retry_sltp_171979510_def Let_def
    by (intro steps typed_quiet [OF readers_files(7)])
  show "keeps typed_step (reconcile_leftovers from_date to_date select why_closed why_cancelled env)"
    unfolding reconcile_leftovers_def write_leftovers_def Let_def by (intro steps)
  show "keeps typed_step (reconcile_absent tickets (\<lambda>k. record_closed k why) status env)"
    unfolding reconcile_absent_def Let_def by (intro steps)
qed

end
