(* ===== verification/Loop_Liveness.thy ===== *)
theory Loop_Liveness
  imports Live_Loop
begin

text \<open>
  Progress of the autonomous loop of \<^verbatim>\<open>scripts/run_demo_execution_pipeline_loop.py\<close>: where
  \<^verbatim>\<open>Live_Loop\<close> shows that it ends, this theory shows that it does not end early. When nothing
  asks it to stop, it runs every cycle it may run.
\<close>

text \<open>Nothing asks the loop to stop: the clock stays within the runtime, and no stop file appears.\<close>

definition undisturbed :: "'w surroundings \<Rightarrow> pyfloat \<Rightarrow> bool" where
  "undisturbed su start_time \<longleftrightarrow>
     (\<forall>w n. su_monotonic su w n - start_time < ll_max_runtime_seconds script_limits) \<and> (\<forall>w n. \<not> su_stop_file su w n)"

lemma stop_reason_undisturbed:
  assumes "undisturbed su start_time" "rd_approved d"
  shows "\<exists>t. stop_reason su script_limits start_time k (Some d) s =
    (Inr (if 30 \<le> k then Some [Lit ''max cycles ('', f_int 30, Lit '') reached''] else None), t)"
proof -
  let ?elapsed = "su_monotonic su (l_server s) (l_clock_reads s) - start_time"
  have "(ll_max_runtime_seconds script_limits \<le> ?elapsed) = False"
    using assms(1) by (auto simp: undisturbed_def not_le)
  moreover have "\<not> su_stop_file su (l_server s) (Suc (l_clock_reads s))" using assms(1) by (simp add: undisturbed_def)
  moreover have "ll_max_cycles script_limits = 30" by (simp add: script_limits_def)
  ultimately show ?thesis
    using assms(2) by (simp add: stop_reason_def look_def bind_io_def return_io_def should_stop_def Let_def)
qed

lemma wait_undisturbed:
  assumes "undisturbed su start_time" "rd_approved d" "k < 30" "0 \<le> j" "j \<le> 60" "60 < int fuel + j"
  shows "\<exists>t. wait_loop fuel su script_limits start_time k (Some d) (fint (5 * j)) s = (Inr (Some False), t)"
  using assms(4-6)
proof (induction fuel arbitrary: j s)
  case (Suc fuel)
  have interval: "ll_cycle_interval_seconds script_limits = fint 300" "ll_poll_interval_seconds script_limits = fint 5"
    by (simp_all add: script_limits_def)
  show ?case
  proof (cases "j < 60")
    case True
    have more: "fint (5 * j) < fint 300" using True Suc.prems by (simp add: fint_less)
    have "\<not> fint (300 - 5 * j) < fint 5" using True Suc.prems by (simp add: fint_less)
    moreover have "fint 300 - fint (5 * j) = fint (300 - 5 * j)" using True Suc.prems by (simp add: fint_diff)
    ultimately have step: "min (fint 5) (fint 300 - fint (5 * j)) = fint 5" by (simp add: min_def not_less)
    have sum: "fint (5 * j) + fint 5 = fint (5 * (j + 1))"
      using fint_add [of "5 * j" 5] True Suc.prems by (simp add: algebra_simps)
    obtain u where u: "stop_reason su script_limits start_time k (Some d) s = (Inr None, u)"
      using stop_reason_undisturbed [OF assms(1,2), of k s] assms(3) by auto
    let ?v = "u\<lparr>l_server := e_sleep (su_env su) (fint 5) (l_server u)\<rparr>"
    obtain t where "wait_loop fuel su script_limits start_time k (Some d) (fint (5 * (j + 1))) ?v = (Inr (Some False), t)"
      using Suc.IH [of "j + 1" ?v] Suc.prems True by auto
    then have "wait_loop (Suc fuel) su script_limits start_time k (Some d) (fint (5 * j)) s = (Inr (Some False), t)"
      by (simp only: wait_loop.simps interval Let_def more if_True step sum)
        (simp add: bind_io_def u sleep_def modify_io_def)
    then show ?thesis by blast
  next
    case False
    then have "j = 60" using Suc.prems by simp
    then have "\<not> fint (5 * j) < fint 300" by simp
    then show ?thesis by (simp add: interval return_io_def)
  qed
qed simp

lemma wait_at_the_end:
  assumes "undisturbed su start_time" "rd_approved d" "30 \<le> k" "0 < fuel"
  shows "\<exists>t. wait_for_next_cycle fuel su script_limits start_time k (Some d) s = (Inr (Some True), t)"
proof -
  obtain u where u: "stop_reason su script_limits start_time k (Some d) s =
      (Inr (Some [Lit ''max cycles ('', f_int 30, Lit '') reached'']), u)"
    using stop_reason_undisturbed [OF assms(1,2), of k s] assms(3) by auto
  have "(0::pyfloat) < fint 300" using fint_less [of 0 300] by simp
  then show ?thesis
    using assms(4) u by (cases fuel) (simp_all add: wait_for_next_cycle_def script_limits_def [symmetric] bind_io_def return_io_def, simp add: script_limits_def)
qed

lemma all_cycles:
  assumes "undisturbed su start_time" "61 \<le> fuel" "k \<le> 30"
    and "\<forall>s. \<exists>d t. live_daily_loss_decision (su_env su) config s = (Inr d, t) \<and> rd_approved d"
    and "\<forall>s. \<exists>t. cycle s = (Inr True, t)"
  shows "\<exists>t. pipeline_loop fuel su script_limits config cycle start_time k s = (Inr (Some 30), t)"
  using assms(3)
proof (induction "nat (30 - k)" arbitrary: k s)
  case 0
  then have k: "k = 30" by simp
  obtain d u where d: "live_daily_loss_decision (su_env su) config s = (Inr d, u)" "rd_approved d" using assms(4) by blast
  have daily: "daily_loss_decision_for_cycle (su_env su) config s = (Inr d, u)"
    by (simp add: daily_loss_decision_for_cycle_def except_io_def catch_io_def d)
  show ?case
    by (subst pipeline_loop.simps)
      (simp add: k bind_io_go [where m = "daily_loss_decision_for_cycle (su_env su) config", OF daily] bind_look should_stop_def script_limits_def
        return_io_def d(2) del: pipeline_loop.simps)
next
  case (Suc n)
  then have k: "k < 30" by simp
  obtain d u where d: "live_daily_loss_decision (su_env su) config s = (Inr d, u)" "rd_approved d" using assms(4) by blast
  have daily: "daily_loss_decision_for_cycle (su_env su) config s = (Inr d, u)"
    by (simp add: daily_loss_decision_for_cycle_def except_io_def catch_io_def d)
  let ?u = "u\<lparr>l_clock_reads := l_clock_reads u + 2\<rparr>"
  let ?elapsed = "su_monotonic su (l_server u) (l_clock_reads u) - start_time"
  have "(ll_max_runtime_seconds script_limits \<le> ?elapsed) = False"
    using assms(1) by (auto simp: undisturbed_def not_le)
  then have on: "should_stop k ?elapsed (su_stop_file su (l_server u) (l_clock_reads u + 1)) script_limits (Some d) = None"
    using assms(1) k d(2) by (simp add: should_stop_def Let_def undisturbed_def script_limits_def)
  obtain v where v: "cycle ?u = (Inr True, v)" using assms(5) by blast
  have unfold: "pipeline_loop fuel su script_limits config cycle start_time k s =
      bind_io (wait_for_next_cycle fuel su script_limits start_time (k + 1) (Some d)) (\<lambda>stopped.
        case stopped of None \<Rightarrow> return_io None | Some True \<Rightarrow> return_io (Some (k + 1))
        | Some False \<Rightarrow> pipeline_loop fuel su script_limits config cycle start_time (k + 1)) v"
    using on v by (subst pipeline_loop.simps)
      (simp add: bind_io_go [where m = "daily_loss_decision_for_cycle (su_env su) config", OF daily] bind_look
        bind_io_go [where m = cycle, OF v [simplified]] del: pipeline_loop.simps)
  show ?case
  proof (cases "k + 1 < 30")
    case True
    obtain w where "wait_loop fuel su script_limits start_time (k + 1) (Some d) (fint (5 * 0)) v = (Inr (Some False), w)"
      using wait_undisturbed [OF assms(1) d(2) True, of 0 fuel v] assms(2) by auto
    then have w: "wait_for_next_cycle fuel su script_limits start_time (k + 1) (Some d) v = (Inr (Some False), w)"
      by (simp add: wait_for_next_cycle_def)
    have "n = nat (30 - (k + 1))" using Suc.hyps(2) k by simp
    then obtain t where "pipeline_loop fuel su script_limits config cycle start_time (k + 1) w = (Inr (Some 30), t)"
      using Suc.hyps(1) [of "k + 1" w] True by (auto simp del: pipeline_loop.simps)
    then show ?thesis unfolding unfold bind_io_go [where m = "wait_for_next_cycle fuel su script_limits start_time (k + 1) (Some d)", OF w]
      by (simp del: pipeline_loop.simps)
  next
    case False
    then have k: "k + 1 = 30" using k by simp
    obtain w where w: "wait_for_next_cycle fuel su script_limits start_time (k + 1) (Some d) v = (Inr (Some True), w)"
      using wait_at_the_end [OF assms(1) d(2), of "k + 1" fuel v] assms(2) k by auto
    show ?thesis unfolding unfold bind_io_go [where m = "wait_for_next_cycle fuel su script_limits start_time (k + 1) (Some d)", OF w]
      by (simp add: return_io_def k)
  qed
qed


text \<open>Without a limit on the daily loss and with cycles that have nothing to do.\<close>

definition calm_surroundings :: "unit surroundings" where
  "calm_surroundings = \<lparr> su_env = silent_env True, su_monotonic = (\<lambda>w n. 0), su_stop_file = (\<lambda>w n. False) \<rparr>"


end
