(* ===== verification/Logging_Setup.thy ===== *)
theory Logging_Setup
  imports Live_Loop
begin

text \<open>
  What runs before anything else: the version gate of the package's \<^verbatim>\<open>__init__.py\<close>,
  \<^verbatim>\<open>monitoring/logging_setup.py\<close> and the log file of the loop script. Of the module
  \<^verbatim>\<open>logging\<close>, the handlers and the level of the root logger are modelled; the loggers of the
  package have no level of their own.
  Shown: configuring twice is configuring once, the setup of the loop delivers a record to console
  and file exactly from the configured level on, and in the other order the console is missing.
\<close>

section \<open>The version gate\<close>

text \<open>\<^verbatim>\<open>sys.version_info < (3, 12)\<close>, decided by major and minor.\<close>

definition import_gate :: "int \<times> int \<Rightarrow> unit result" where
  "import_gate version =
     (case version of (major, minor) \<Rightarrow> if major < 3 \<or> major = 3 \<and> minor < 12 then Inl RuntimeError else Inr ())"

section \<open>Configuration\<close>

datatype log_handler = Console | Log_file string

text \<open>\<^verbatim>\<open>_CONFIGURED\<close> and the root logger.\<close>

record logging_state =
  lg_configured :: bool
  lg_handlers :: "log_handler list"
  lg_level :: int

definition fresh_logging :: logging_state where
  "fresh_logging = \<lparr> lg_configured = False, lg_handlers = [], lg_level = 30 \<rparr>"

text \<open>
  \<^verbatim>\<open>getattr(logging, level.upper(), logging.INFO)\<close>: the upper-case attributes of the module are
  the levels and one text, a format that is not the name of a level.
\<close>

datatype level_arg = Level int | Level_name string

definition log_levels :: "(string \<times> int) list" where
  "log_levels =
     [(''CRITICAL'', 50), (''FATAL'', 50), (''ERROR'', 40), (''WARNING'', 30), (''WARN'', 30), (''INFO'', 20), (''DEBUG'', 10),
      (''NOTSET'', 0)]"

definition level_attribute :: "string \<Rightarrow> level_arg" where
  "level_attribute level =
     (if upper level = ''BASIC_FORMAT'' then Level_name ''%(levelname)s:%(name)s:%(message)s''
      else case map_of log_levels (upper level) of Some n \<Rightarrow> Level n | None \<Rightarrow> Level 20)"

text \<open>\<^verbatim>\<open>root.setLevel\<close> and \<^verbatim>\<open>basicConfig\<close>, which does nothing once there is a handler.\<close>

definition set_level :: "level_arg \<Rightarrow> (logging_state, exn, unit) io" where
  "set_level level =
     (case level of
        Level n \<Rightarrow> modify_io (\<lambda>s. s\<lparr>lg_level := n\<rparr>)
      | Level_name name \<Rightarrow>
          (case map_of log_levels name of Some n \<Rightarrow> modify_io (\<lambda>s. s\<lparr>lg_level := n\<rparr>) | None \<Rightarrow> raise_io ValueError))"

definition basic_config :: "level_arg \<Rightarrow> (logging_state, exn, unit) io" where
  "basic_config level =
     bind_io (get_io lg_handlers) (\<lambda>handlers.
       if handlers \<noteq> [] then return_io ()
       else bind_io (modify_io (\<lambda>s. s\<lparr>lg_handlers := [Console]\<rparr>)) (\<lambda>_. set_level level))"

definition configure_logging :: "string \<Rightarrow> (logging_state, exn, unit) io" where
  "configure_logging level =
     bind_io (get_io lg_configured) (\<lambda>configured.
       if configured then return_io ()
       else bind_io (basic_config (level_attribute level)) (\<lambda>_. modify_io (\<lambda>s. s\<lparr>lg_configured := True\<rparr>)))"

text \<open>The name of the log file has the instant of the start in it, to the second.\<close>

definition log_stamp :: "datetime \<Rightarrow> string" where
  "log_stamp t =
     (case ord2ymd (ticks t div day_us + 719163) of (y, m, d) \<Rightarrow>
        let s = ticks t mod day_us div 1000000
        in pad 4 y @ pad 2 m @ pad 2 d @ ''T'' @ pad 2 (s div 3600) @ pad 2 (s div 60 mod 60) @ pad 2 (s mod 60) @ ''Z'')"

definition setup_file_logging :: "datetime \<Rightarrow> (logging_state, exn, string) io" where
  "setup_file_logging present =
     (let log_path = ''pipeline_loop_'' @ log_stamp present @ ''.log''
      in bind_io (modify_io (\<lambda>s. s\<lparr>lg_handlers := lg_handlers s @ [Log_file log_path]\<rparr>)) (\<lambda>_. return_io log_path))"

text \<open>The first lines of the loop script, in their order.\<close>

definition start_logging :: "Settings \<Rightarrow> datetime \<Rightarrow> (logging_state, exn, string) io" where
  "start_logging settings present =
     bind_io (configure_logging (st_log_level settings)) (\<lambda>_. setup_file_logging present)"

text \<open>The handlers a record of a logger of the package reaches.\<close>

definition delivered :: "logging_state \<Rightarrow> int \<Rightarrow> log_handler list" where
  "delivered s n = (if lg_level s \<le> n then lg_handlers s else [])"

section \<open>What it guarantees\<close>

lemma import_gate_iff: "import_gate (major, minor) = Inr () \<longleftrightarrow> major > 3 \<or> major = 3 \<and> minor \<ge> 12"
  by (auto simp: import_gate_def)

lemma level_attribute_cases:
  obtains (refused) "upper level = ''BASIC_FORMAT''" "level_attribute level = Level_name ''%(levelname)s:%(name)s:%(message)s''"
  | (number) n where "upper level \<noteq> ''BASIC_FORMAT''" "level_attribute level = Level n" "0 \<le> n" "n \<le> 50"
proof -
  have "0 \<le> n \<and> n \<le> 50" if "map_of log_levels name = Some n" for name n
    using that by (auto simp: log_levels_def split: if_splits)
  then show thesis using that by (cases "map_of log_levels (upper level)") (auto simp: level_attribute_def)
qed

text \<open>Once configured, a configuration changes nothing, whatever level it asks for.\<close>

lemma configure_once:
  assumes "configure_logging level s = (Inr (), t)"
  shows "configure_logging another t = (Inr (), t)"
  using assms unfolding configure_logging_def
  by (auto simp: bind_io_def get_io_def modify_io_def return_io_def split: sum.splits prod.splits if_splits)

lemma configure_fresh:
  "configure_logging level fresh_logging =
     (case level_attribute level of
        Level n \<Rightarrow> (Inr (), \<lparr> lg_configured = True, lg_handlers = [Console], lg_level = n \<rparr>)
      | Level_name _ \<Rightarrow> (Inl ValueError, \<lparr> lg_configured = False, lg_handlers = [Console], lg_level = 30 \<rparr>))"
  by (cases level rule: level_attribute_cases)
    (simp_all add: configure_logging_def basic_config_def set_level_def fresh_logging_def log_levels_def
      bind_io_def get_io_def modify_io_def return_io_def raise_io_def)

text \<open>The setup of the loop: console and file, both from the configured level on.\<close>

lemma loop_logging:
  assumes "start_logging settings present fresh_logging = (Inr log_path, s)"
  shows "\<exists>n. level_attribute (st_log_level settings) = Level n \<and>
    (\<forall>k. delivered s k = (if n \<le> k then [Console, Log_file log_path] else []))"
proof (cases "level_attribute (st_log_level settings)")
  case (Level n)
  then show ?thesis
    using assms by (auto simp: start_logging_def bind_io_def configure_fresh setup_file_logging_def Let_def modify_io_def
        return_io_def delivered_def)
next
  case (Level_name name)
  then show ?thesis using assms by (simp add: start_logging_def bind_io_def configure_fresh)
qed

text \<open>The order a comment in the script warns of: the level is never set and the console is missing.\<close>

lemma file_first_loses_console:
  "\<exists>log_path s. bind_io (setup_file_logging present) (\<lambda>_. configure_logging level) fresh_logging = (Inr (), s) \<and>
    (\<forall>k. delivered s k = (if 30 \<le> k then [Log_file log_path] else []))"
  by (simp add: bind_io_def setup_file_logging_def Let_def modify_io_def return_io_def configure_logging_def basic_config_def
      get_io_def fresh_logging_def delivered_def)

text \<open>One value of \<^verbatim>\<open>LOG_LEVEL\<close> is read as a text and refused, and only the first time.\<close>

lemma format_is_no_level:
  "configure_logging ''basic_format'' fresh_logging =
     (Inl ValueError, \<lparr> lg_configured = False, lg_handlers = [Console], lg_level = 30 \<rparr>)"
  "configure_logging ''basic_format'' \<lparr> lg_configured = False, lg_handlers = [Console], lg_level = 30 \<rparr> =
     (Inr (), \<lparr> lg_configured = True, lg_handlers = [Console], lg_level = 30 \<rparr>)"
  by code_simp+

end
