(* ===== verification/Dry_Run.thy ===== *)
theory Dry_Run
  imports Readers Pipeline
begin

text \<open>
  The adapters that never touch the broker: \<^verbatim>\<open>mocks/\<close> and
  \<^verbatim>\<open>execution/dry_run.py\<close>. Shown: a cycle whose execution is a dry run, over the live market
  data and account, makes only read-only calls, writes no file, and logs what it would have sent.
\<close>

section \<open>Mocks\<close>

record mock_log =
  mk_submitted :: "OrderPlan list"
  mk_cancelled :: "int list"
  mk_closed :: "(int \<times> pyfloat option) list"

definition mock_submit :: "OrderPlan \<Rightarrow> (mock_log, exn, ExecutionResult) io" where
  "mock_submit plan = (\<lambda>log.
     (Inr ((execution_result (Some plan) True 0)
        \<lparr>er_ticket := Some 1, er_broker_comment := [Lit ''mock''], er_verified := True,
         er_verification_details := [Lit ''MockOrderExecutor - no real order was placed'']\<rparr>),
      log\<lparr>mk_submitted := mk_submitted log @ [plan]\<rparr>))"

definition mock_cancel :: "int \<Rightarrow> (mock_log, exn, ExecutionResult) io" where
  "mock_cancel ticket = (\<lambda>log.
     (Inr ((execution_result None True 0)
        \<lparr>er_ticket := Some ticket, er_broker_comment := [Lit ''mock cancel''], er_verified := True,
         er_verification_details := [Lit ''MockOrderExecutor - no real cancel was sent'']\<rparr>),
      log\<lparr>mk_cancelled := mk_cancelled log @ [ticket]\<rparr>))"

definition mock_close_position :: "int \<Rightarrow> pyfloat option \<Rightarrow> (mock_log, exn, ExecutionResult) io" where
  "mock_close_position ticket volume = (\<lambda>log.
     (Inr ((execution_result None True 0)
        \<lparr>er_ticket := Some ticket, er_broker_comment := [Lit ''mock close''], er_verified := True,
         er_verification_details := [Lit ''MockOrderExecutor - no real close was sent'']\<rparr>),
      log\<lparr>mk_closed := mk_closed log @ [(ticket, volume)]\<rparr>))"

definition MockOrderExecutor :: "mock_log OrderExecutor" where
  "MockOrderExecutor = \<lparr> submit = mock_submit, cancel = mock_cancel, close_position = mock_close_position \<rparr>"

definition MockAccountReader :: "AccountState \<Rightarrow> PositionState list \<Rightarrow> OrderState list \<Rightarrow> bool \<Rightarrow> 's AccountReader" where
  "MockAccountReader account_state positions orders is_connected =
     \<lparr> get_account_state = return_io account_state,
       get_positions = (\<lambda>symbol magic. return_io (filter (\<lambda>p.
          (symbol = None \<or> Some (pos_symbol p) = symbol) \<and> (magic = None \<or> Some (pos_magic p) = magic)) positions)),
       get_orders = (\<lambda>symbol magic. return_io (filter (\<lambda>o'.
          (symbol = None \<or> Some (ord_symbol o') = symbol) \<and> (magic = None \<or> Some (ord_magic o') = magic)) orders)),
       get_connection_state = return_io \<lparr> cs_connected = is_connected, cs_terminal_build = None, cs_detail = [Lit ''mock''] \<rparr> \<rparr>"

definition MockMarketDataSource ::
  "(string \<times> MarketBar list) list \<Rightarrow> (string \<times> Tick) list \<Rightarrow> (string \<times> SymbolInfo) list \<Rightarrow> 's MarketDataSource" where
  "MockMarketDataSource bars ticks' symbol_infos =
     \<lparr> get_bars = (\<lambda>symbol timeframe count.
          let bars = (case map_of bars symbol of Some bs \<Rightarrow> bs | None \<Rightarrow> [])
          in return_io (if count > 0 then py_from bars (- count) else [])),
       get_tick = (\<lambda>symbol. lift_io (of_option KeyError (map_of ticks' symbol))),
       get_symbol_info = (\<lambda>symbol. lift_io (of_option KeyError (map_of symbol_infos symbol))) \<rparr>"

section \<open>Dry run\<close>

text \<open>Everything is delegated to the mock; the log lines are left out.\<close>

definition DryRunExecutor :: "mock_log OrderExecutor" where
  "DryRunExecutor =
     \<lparr> submit = (\<lambda>plan. submit MockOrderExecutor plan), cancel = (\<lambda>ticket. cancel MockOrderExecutor ticket),
       close_position = (\<lambda>ticket volume. close_position MockOrderExecutor ticket volume) \<rparr>"

text \<open>Programs over one part of a pair of states, and the adapters over them.\<close>

definition on_fst :: "('a, 'e, 'x) io \<Rightarrow> ('a \<times> 'b, 'e, 'x) io" where
  "on_fst m = (\<lambda>(a, b). case m a of (r, a') \<Rightarrow> (r, (a', b)))"

definition on_snd :: "('b, 'e, 'x) io \<Rightarrow> ('a \<times> 'b, 'e, 'x) io" where
  "on_snd m = (\<lambda>(a, b). case m b of (r, b') \<Rightarrow> (r, (a, b')))"

definition market_data_fst :: "'a MarketDataSource \<Rightarrow> ('a \<times> 'b) MarketDataSource" where
  "market_data_fst md =
     \<lparr> get_bars = (\<lambda>s tf n. on_fst (get_bars md s tf n)), get_tick = (\<lambda>s. on_fst (get_tick md s)),
       get_symbol_info = (\<lambda>s. on_fst (get_symbol_info md s)) \<rparr>"

definition account_fst :: "'a AccountReader \<Rightarrow> ('a \<times> 'b) AccountReader" where
  "account_fst acc =
     \<lparr> get_account_state = on_fst (get_account_state acc), get_positions = (\<lambda>s m. on_fst (get_positions acc s m)),
       get_orders = (\<lambda>s m. on_fst (get_orders acc s m)), get_connection_state = on_fst (get_connection_state acc) \<rparr>"

definition executor_snd :: "'b OrderExecutor \<Rightarrow> ('a \<times> 'b) OrderExecutor" where
  "executor_snd ex =
     \<lparr> submit = (\<lambda>plan. on_snd (submit ex plan)), cancel = (\<lambda>t. on_snd (cancel ex t)),
       close_position = (\<lambda>t v. on_snd (close_position ex t v)) \<rparr>"

section \<open>What a dry run does\<close>

text \<open>Only reads on the live side; on the other the log of submissions grows.\<close>

definition dry_effect :: "'w live \<times> mock_log \<Rightarrow> 'w live \<times> mock_log \<Rightarrow> bool" where
  "dry_effect s t \<longleftrightarrow> calls_only reader_tools (fst s) (fst t) \<and> same_files (fst s) (fst t) \<and>
     (\<exists>new. mk_submitted (snd t) = mk_submitted (snd s) @ new) \<and>
     mk_cancelled (snd t) = mk_cancelled (snd s) \<and> mk_closed (snd t) = mk_closed (snd s)"

lemma on_fst_dry:
  "keeps (calls_only reader_tools) m \<Longrightarrow> keeps same_files m \<Longrightarrow> keeps dry_effect (on_fst m)"
  by (auto simp: keeps_def on_fst_def dry_effect_def split: prod.split) (metis snd_conv)+

lemma dry_submit: "keeps dry_effect (submit (executor_snd DryRunExecutor) plan)"
  by (auto simp: keeps_def executor_snd_def DryRunExecutor_def MockOrderExecutor_def mock_submit_def on_snd_def
      dry_effect_def calls.refl files.refl)

interpretation dry: quiet_reads dry_effect "market_data_fst (McpMarketDataSource env)" "account_fst (McpAccountReader env)" None
  for env
proof unfold_locales
  show "dry_effect s s" for s :: "'a live \<times> mock_log"
    by (simp add: dry_effect_def calls.refl files.refl)
  show "dry_effect s u" if "dry_effect s t" "dry_effect t u" for s t u :: "'a live \<times> mock_log"
    using that by (auto simp: dry_effect_def intro: calls.trans files.trans)
qed (simp_all add: market_data_fst_def account_fst_def McpMarketDataSource_def McpAccountReader_def
      on_fst_dry readers_calls readers_files)

text \<open>
  A dry run is dry. With market data and account of the live terminal and execution by the dry
  run, neither strategy's cycle reaches the server but through the read-only tools, and none writes
  a file, even where trading is enabled; the plans they would have sent are appended to the log.
\<close>

theorem dry_run_is_dry:
  assumes "run_grid_cycle (market_data_fst (McpMarketDataSource env)) (account_fst (McpAccountReader env))
      (executor_snd DryRunExecutor) symbol timeframe n gc mc caps magic None (s, l) = (r, (t, l')) \<or>
    run_runner_cycle (market_data_fst (McpMarketDataSource env)) (account_fst (McpAccountReader env))
      (executor_snd DryRunExecutor) symbol timeframe n rc mc caps magic None (s, l) = (q, (t, l'))"
  shows "(\<exists>new. l_calls t = new @ l_calls s \<and> (\<forall>c \<in> set new. fst c \<in> set read_only_tools)) \<and> l_files t = l_files s \<and>
    (\<exists>plans. mk_submitted l' = mk_submitted l @ plans) \<and> mk_cancelled l' = mk_cancelled l \<and> mk_closed l' = mk_closed l"
proof -
  have "dry_effect (s, l) (t, l')"
    using assms by (elim disjE) (erule keepsD [OF dry.grid_keeps [OF dry_submit]], erule keepsD [OF dry.runner_keeps [OF dry_submit]])
  then have "calls_only reader_tools s t" "same_files s t" and log: "\<exists>plans. mk_submitted l' = mk_submitted l @ plans"
      "mk_cancelled l' = mk_cancelled l" "mk_closed l' = mk_closed l"
    by (simp_all add: dry_effect_def)
  moreover obtain new where "l_calls t = new @ l_calls s" "fst ` set new \<subseteq> reader_tools"
    using calculation(1) by (auto simp: calls_only_def)
  ultimately show ?thesis
    using reader_tools_read_only by (intro conjI exI [of _ new]) (auto simp: same_files_def)
qed

definition no_log :: mock_log where
  "no_log = \<lparr> mk_submitted = [], mk_cancelled = [], mk_closed = [] \<rparr>"

theorem dry_run_is_dry_witness:
  "\<exists>r t l. run_grid_cycle (market_data_fst (McpMarketDataSource (silent_env True))) (account_fst (McpAccountReader (silent_env True)))
      (executor_snd DryRunExecutor) ''BTCUSD'' ''M1'' 100 default_grid_config default_money_config no_caps 71101 None
      (fresh_live, no_log) = (r, (t, l)) \<and> l_files t = l_files fresh_live \<and> mk_closed l = []"
proof -
  obtain r t l where run: "run_grid_cycle (market_data_fst (McpMarketDataSource (silent_env True))) (account_fst (McpAccountReader (silent_env True)))
      (executor_snd DryRunExecutor) ''BTCUSD'' ''M1'' 100 default_grid_config default_money_config no_caps 71101 None
      (fresh_live, no_log) = (r, (t, l))" by (metis surj_pair)
  show ?thesis using dry_run_is_dry [OF disjI1 [OF run]] run by (auto simp: no_log_def)
qed

end
