(* ===== verification/Smoke_Tests.thy ===== *)
theory Smoke_Tests
  imports Maintenance Dry_Run
begin

text \<open>
  The scripts that exercise the live system once: \<^verbatim>\<open>run_demo_execution_smoke_test.py\<close>,
  \<^verbatim>\<open>market_smoke_test\<close>, \<^verbatim>\<open>runner_sltp_smoke_test\<close>, \<^verbatim>\<open>pipeline_cycle\<close>,
  \<^verbatim>\<open>run_live_dry_run_pipeline.py\<close> and \<^verbatim>\<open>verify_mcp_adapters_readonly.py\<close>. Shown: the
  trading calls each can make, that a leftover of an earlier run stops the next one before it sends
  anything, and that the last two reach the server through read-only tools only.
\<close>

section \<open>A limit order and its cancellation\<close>

definition smoke_test_magic :: int where "smoke_test_magic = 79999"

text \<open>\<^verbatim>\<open>try: m finally: cleanup\<close>; an exception of the cleanup replaces the one on its way out.\<close>

definition finally_io :: "('s, 'e, 'a) io \<Rightarrow> ('s, 'e, unit) io \<Rightarrow> ('s, 'e, 'a) io" where
  "finally_io m cleanup = bind_io (try_io m) (\<lambda>r. bind_io cleanup (\<lambda>_. lift_io r))"

definition assert_io :: "bool \<Rightarrow> ('s, exn, unit) io" where
  "assert_io b = (if b then return_io () else raise_io AssertionError)"

definition limit_smoke_plan :: "Tick \<Rightarrow> SymbolInfo \<Rightarrow> OrderPlan" where
  "limit_smoke_plan tick symbol_info =
     \<lparr> op_symbol = ''BTCUSD'', op_order_type = LIMIT, op_side = BUY, op_volume = si_volume_min symbol_info,
       op_price = Some (py_round_digits (tick_bid tick * flt (9 / 10)) (si_digits symbol_info)),
       op_sl = 0, op_tp = 0, op_deviation = 150, op_magic = smoke_test_magic, op_comment = ''phase6_smoke_test'',
       op_filling_mode = None, op_expiry = None \<rparr>"

definition cancel_returned :: "'w env \<Rightarrow> ExecutionResult \<Rightarrow> ('w, unit) live_io" where
  "cancel_returned env result =
     (case er_ticket result of
        None \<Rightarrow> return_io ()
      | Some ticket \<Rightarrow>
          bind_io (read_lookups [ticket]) (\<lambda>_.
          bind_io (cancel (live_executor env) ticket) (\<lambda>_. read_lookups [ticket])))"

definition smoke_test :: "'w env \<Rightarrow> (string \<times> string) list \<Rightarrow> ('w, unit) live_io" where
  "smoke_test env source = script_session env source (\<lambda>env.
     bind_io (mcp_get_tick env ''BTCUSD'') (\<lambda>tick.
     bind_io (mcp_get_symbol_info env ''BTCUSD'') (\<lambda>symbol_info.
     bind_io (submit (live_executor env) (limit_smoke_plan tick symbol_info)) (\<lambda>result.
       finally_io
         (bind_io (assert_io (er_success result)) (\<lambda>_. assert_io (er_verified result)))
         (cancel_returned env result)))))"

section \<open>A market order and its close\<close>

text \<open>The open local records of an earlier run of the smoke tests.\<close>

definition leftover_records :: "('w, LocalOrderRecord list) live_io" where
  "leftover_records =
     bind_io (read_files State_Store.all_open) (\<lambda>rs. return_io (filter (\<lambda>r. lr_magic r = smoke_test_magic) rs))"

definition smoke_offset :: "SymbolInfo \<Rightarrow> pyfloat \<Rightarrow> pyfloat" where
  "smoke_offset symbol_info reference_price =
     (let gap = fint (si_stops_level symbol_info + si_freeze_level symbol_info + 2) * si_point symbol_info;
          gap_offset = gap * fint 10;
          price_fraction_offset = reference_price * flt (1 / 100)
      in py_round_digits (max gap_offset price_fraction_offset) (si_digits symbol_info))"

definition market_smoke_plan :: "Side \<Rightarrow> Tick \<Rightarrow> SymbolInfo \<Rightarrow> OrderPlan" where
  "market_smoke_plan side tick symbol_info =
     (let reference_price = (if side = BUY then tick_ask tick else tick_bid tick);
          offset = smoke_offset symbol_info reference_price;
          below = py_round_digits (reference_price - offset) (si_digits symbol_info);
          above = py_round_digits (reference_price + offset) (si_digits symbol_info)
      in \<lparr> op_symbol = ''BTCUSD'', op_order_type = MARKET, op_side = side, op_volume = si_volume_min symbol_info,
           op_price = Some reference_price,
           op_sl = (if side = BUY then below else above), op_tp = (if side = BUY then above else below),
           op_deviation = 150, op_magic = smoke_test_magic,
           op_comment = ''phase6_step7_market_'' @ lower (side_str side) @ ''_smoke_test'',
           op_filling_mode = None, op_expiry = None \<rparr>)"

text \<open>\<^verbatim>\<open>except SlTpAttachmentFailedError: ... return\<close>.\<close>

definition unless_unprotected :: "('s, exn, 'a) io \<Rightarrow> ('s, exn, 'a option) io" where
  "unless_unprotected m =
     catch_io (bind_io m (\<lambda>x. return_io (Some x)))
       (\<lambda>e. case e of SlTpAttachmentFailedError _ _ _ _ \<Rightarrow> return_io None | _ \<Rightarrow> raise_io e)"

text \<open>Closing what was opened; the outcome: the ticket is no longer among the positions.\<close>

definition close_opened :: "'w env \<Rightarrow> int \<Rightarrow> ('w, bool) live_io" where
  "close_opened env ticket =
     bind_io (read_lookups [ticket]) (\<lambda>_.
     bind_io (close_position (live_executor env) ticket None) (\<lambda>_.
     bind_io (read_lookups [ticket]) (\<lambda>_.
     bind_io (get_positions (McpAccountReader env) btcusd None) (\<lambda>positions_after.
       return_io (ticket \<notin> pos_ticket ` set positions_after)))))"

definition settle_market :: "'w env \<Rightarrow> ExecutionResult option \<Rightarrow> ('w, bool option) live_io" where
  "settle_market env outcome =
     (case outcome of
        None \<Rightarrow> return_io None
      | Some result \<Rightarrow>
          if \<not> er_success result then return_io None
          else bind_io (lift_io (of_option AssertionError (er_ticket result))) (\<lambda>ticket.
                 bind_io (close_opened env ticket) (\<lambda>gone. return_io (Some gone))))"

definition market_smoke_test :: "'w env \<Rightarrow> (string \<times> string) list \<Rightarrow> ('w, bool option) live_io" where
  "market_smoke_test env source = script_session env source (\<lambda>env.
     bind_io (get_positions (McpAccountReader env) btcusd None) (\<lambda>_.
     bind_io leftover_records (\<lambda>leftovers.
       if leftovers \<noteq> [] then return_io None
       else
         bind_io (mcp_get_tick env ''BTCUSD'') (\<lambda>tick.
         bind_io (mcp_get_symbol_info env ''BTCUSD'') (\<lambda>symbol_info.
         bind_io (unless_unprotected (submit (live_executor env) (market_smoke_plan SELL tick symbol_info))) (\<lambda>outcome.
           settle_market env outcome))))))"

section \<open>A runner cycle and its close\<close>

text \<open>The stop and the target of the outcome plan, on the sides they belong.\<close>

definition assert_stops :: "OrderPlan \<Rightarrow> ('s, exn, unit) io" where
  "assert_stops plan =
     bind_io (assert_io (0 < op_sl plan \<and> 0 < op_tp plan)) (\<lambda>_.
     bind_io (lift_io (of_option TypeError (op_price plan))) (\<lambda>price.
       if op_side plan = BUY then assert_io (op_sl plan < price \<and> price < op_tp plan)
       else assert_io (op_tp plan < price \<and> price < op_sl plan)))"

definition settle_runner :: "'w env \<Rightarrow> ExecutionResult option \<Rightarrow> ('w, bool option) live_io" where
  "settle_runner env cycle =
     (case cycle of
        None \<Rightarrow> return_io None
      | Some result \<Rightarrow>
          bind_io (lift_io (of_option AttributeError (er_order_plan result))) (\<lambda>plan.
            if \<not> er_success result then return_io None
            else bind_io (lift_io (of_option AssertionError (er_ticket result))) (\<lambda>ticket.
                 bind_io (assert_stops plan) (\<lambda>_.
                 bind_io (get_positions (McpAccountReader env) btcusd None) (\<lambda>_.
                 bind_io (close_opened env ticket) (\<lambda>gone. return_io (Some gone)))))))"

definition runner_sltp_smoke_test :: "'w env \<Rightarrow> (string \<times> string) list \<Rightarrow> ('w, bool option) live_io" where
  "runner_sltp_smoke_test env source = script_session env source (\<lambda>env.
     bind_io (get_positions (McpAccountReader env) btcusd None) (\<lambda>_.
     bind_io leftover_records (\<lambda>leftovers.
       if leftovers \<noteq> [] then return_io None
       else
         bind_io (mcp_get_symbol_info env ''BTCUSD'') (\<lambda>symbol_info.
         bind_io (unless_unprotected (run_runner_cycle (McpMarketDataSource env) (McpAccountReader env) (live_executor env)
           ''BTCUSD'' ''M1'' 100 default_runner_config (default_money_config\<lparr>mc_fixed_lot := si_volume_min symbol_info\<rparr>)
           script_caps smoke_test_magic (Some (read_files State_Store.all_open)))) (\<lambda>cycle.
           case cycle of None \<Rightarrow> return_io None | Some result \<Rightarrow> settle_runner env result)))))"

section \<open>One cycle of one strategy\<close>

definition print_visibility :: "'w env \<Rightarrow> int \<Rightarrow> ('w, unit) live_io" where
  "print_visibility env magic =
     bind_io (get_positions (McpAccountReader env) btcusd (Some magic)) (\<lambda>_.
     bind_io (get_orders (McpAccountReader env) btcusd (Some magic)) (\<lambda>_.
     bind_io (read_files State_Store.all_open) (\<lambda>_. return_io ())))"

text \<open>The strategy is a constant of the script, RUNNER; both branches are modelled.\<close>

definition cycle_of_strategy :: "string \<Rightarrow> 'w env \<Rightarrow> ('w, unit) live_io" where
  "cycle_of_strategy strategy env =
     (let magic = (if strategy = ''GRID'' then grid_magic else runner_magic);
          market_data = McpMarketDataSource env; account = McpAccountReader env;
          open_records = read_files State_Store.all_open
      in bind_io (print_visibility env magic) (\<lambda>_.
         bind_io
           (if strategy = ''GRID''
            then catch_io (bind_io (script_grid_cycle market_data account (live_executor env) open_records) (\<lambda>_. return_io ()))
                   (\<lambda>e. case e of GridCycleError _ _ \<Rightarrow> return_io () | _ \<Rightarrow> raise_io e)
            else except_else_io (script_runner_cycle market_data account (live_executor env) open_records)
                   (\<lambda>_. return_io ()) (\<lambda>_. return_io ()))
           (\<lambda>_. print_visibility env magic)))"

definition pipeline_cycle :: "'w env \<Rightarrow> (string \<times> string) list \<Rightarrow> ('w, unit) live_io" where
  "pipeline_cycle env source = script_session env source (cycle_of_strategy ''RUNNER'')"

section \<open>Without trading\<close>

text \<open>
  The client with the default registry. \<open>True\<close> when the registry refused the trading call,
  \<open>False\<close> for the \<^verbatim>\<open>SystemExit\<close> of the script when it did not.
\<close>

definition read_only_env :: "'w env \<Rightarrow> 'w env" where
  "read_only_env env = env\<lparr>e_registry := build_metatrader_tool_registry False\<rparr>"

definition prove_trading_is_blocked :: "'w env \<Rightarrow> ('w, bool) live_io" where
  "prove_trading_is_blocked env =
     catch_io
       (bind_io (call_tool env ''place_market_order''
          [(''symbol_name'', JStr ''BTCUSD''), (''volume'', JFloat (flt (1 / 100))), (''type'', JStr ''BUY'')])
          (\<lambda>_. return_io False))
       (\<lambda>e. if e = TradingDisabledError then return_io True else raise_io e)"

definition demo_account_informational :: "'w env \<Rightarrow> ('w, unit) live_io" where
  "demo_account_informational env =
     catch_io (require_demo_account (McpAccountReader env))
       (\<lambda>e. if e = NotDemoAccountError then return_io () else raise_io e)"

text \<open>The body runs after the proof that trading is blocked; \<open>None\<close> is the exit without it.\<close>

definition read_only_script :: "('w env \<Rightarrow> ('w, 'a) live_io) \<Rightarrow> 'w env \<Rightarrow> ('w, 'a option) live_io" where
  "read_only_script body env =
     (let env = read_only_env env
      in bind_io (assert_io (\<not> tr_trading_enabled (e_registry env))) (\<lambda>_.
         with_client env
           (bind_io (prove_trading_is_blocked env) (\<lambda>blocked.
              if \<not> blocked then return_io None
              else bind_io (body env) (\<lambda>x. return_io (Some x))))))"

definition verify_mcp_adapters_readonly :: "'w env \<Rightarrow> ('w, PositionState list option) live_io" where
  "verify_mcp_adapters_readonly = read_only_script (\<lambda>env.
     let account = McpAccountReader env
     in bind_io (get_connection_state account) (\<lambda>_.
        bind_io (get_account_state account) (\<lambda>_.
        bind_io (demo_account_informational env) (\<lambda>_.
        bind_io (mcp_get_bars env ''BTCUSD'' ''M1'' 5) (\<lambda>_.
        bind_io (mcp_get_tick env ''BTCUSD'') (\<lambda>_.
        bind_io (mcp_get_symbol_info env ''BTCUSD'') (\<lambda>_.
        bind_io (get_positions account None None) (\<lambda>_.
        bind_io (get_orders account None None) (\<lambda>_.
          get_positions account None (Some 999999999))))))))))"

text \<open>A program that also uses an executor of its own, the log of which starts empty and is dropped.\<close>

definition with_mock :: "('a \<times> mock_log, exn, 'x) io \<Rightarrow> ('a, exn, 'x) io" where
  "with_mock m = (\<lambda>s. case m (s, \<lparr> mk_submitted = [], mk_cancelled = [], mk_closed = [] \<rparr>) of (r, (t, _)) \<Rightarrow> (r, t))"

definition run_live_dry_run_pipeline ::
  "'w env \<Rightarrow> ('w, (ExecutionResult list \<times> ExecutionResult option) option) live_io" where
  "run_live_dry_run_pipeline = read_only_script (\<lambda>env.
     let market_data = market_data_fst (McpMarketDataSource env); account = account_fst (McpAccountReader env)
     in bind_io (demo_account_informational env) (\<lambda>_.
        bind_io (with_mock (run_grid_cycle market_data account (executor_snd DryRunExecutor) ''BTCUSD'' ''M1'' 100
          default_grid_config default_money_config script_caps grid_magic None)) (\<lambda>grid_results.
        bind_io (with_mock (run_runner_cycle market_data account (executor_snd DryRunExecutor) ''BTCUSD'' ''M1'' 100
          default_runner_config default_money_config script_caps runner_magic None)) (\<lambda>runner_result.
          return_io (grid_results, runner_result)))))"

section \<open>What the trading scripts send\<close>

lemma emits_submit: "emits (insert [] (submission_calls plan)) (submit (live_executor env) plan)"
  using submission_sends [of plan env] by (simp add: McpOrderExecutor_def)

lemma unless_unprotected_state: "snd (unless_unprotected m s) = snd (m s)"
  by (cases "m s") (auto simp: unless_unprotected_def io_simps split: sum.split exn.split)

lemma emits_unless: "emits C m \<Longrightarrow> emits C (unless_unprotected m)"
  by (simp add: emits_def unless_unprotected_state)

lemma assert_quiet: "keeps (calls_only A) (assert_io b)" "keeps same_files (assert_io b)"
  by (simp_all add: assert_io_def calls.keeps_pure files.keeps_pure)

lemma leftover_quiet: "keeps (calls_only A) leftover_records"
  unfolding leftover_records_def by (intro calls.keeps_rules read_files_frames)

lemma within_close_opened: "sends_within [close_call ticket] (close_opened env ticket)"
  unfolding close_opened_def by (intro within_quiet_then within_then_quiet within_close calls.keeps_rules quiet_frames)

lemma within_cancel_returned: "sends_within [cancel_call (the (er_ticket result))] (cancel_returned env result)"
proof (cases "er_ticket result")
  case (Some ticket)
  have "sends_within [cancel_call ticket] (bind_io (read_lookups [ticket]) (\<lambda>_.
      bind_io (cancel (live_executor env) ticket) (\<lambda>_. read_lookups [ticket])))"
    by (intro within_quiet_then [OF read_lookups_frames(1)] within_then_quiet [OF within_cancel] read_lookups_frames)
  then show ?thesis by (simp add: cancel_returned_def Some)
qed (simp add: cancel_returned_def within_pure)

text \<open>A program whose trading calls are within one of several plans, then one within a call for some ticket.\<close>

definition sends_one_of :: "('k \<Rightarrow> (string \<times> (string \<times> json) list) list) \<Rightarrow> ('w, 'a) live_io \<Rightarrow> bool" where
  "sends_one_of plan m \<longleftrightarrow> emits {L. \<exists>k. subseq L (plan k)} m"

lemma one_of_within: "sends_within (plan k) m \<Longrightarrow> sends_one_of plan m"
  unfolding sends_one_of_def sends_within_def by (rule emits_mono) auto

lemma one_of_quiet: "keeps (calls_only reader_tools) m \<Longrightarrow> sends_one_of plan m"
  unfolding sends_one_of_def by (rule quiet_emits) simp_all

lemma one_of_bind:
  assumes "sends_one_of p m" "\<And>x. sends_one_of q (f x)"
  shows "sends_one_of (\<lambda>(i, j). p i @ q j) (bind_io m f)"
  using assms unfolding sends_one_of_def
proof (rule emits_bind)
  have "subseq L (p i @ q j)" if "subseq L (p i)" for L i j
    using list_emb_append_mono [OF that, of "[]" "q j"] by simp
  then show "{L. \<exists>k. subseq L (p k)} \<subseteq> {L. \<exists>k. subseq L (case k of (i, j) \<Rightarrow> p i @ q j)}" by fastforce
  show "L @ M \<in> {L. \<exists>k. subseq L (case k of (i, j) \<Rightarrow> p i @ q j)}"
    if "L \<in> {L. \<exists>k. subseq L (p k)}" "M \<in> {L. \<exists>k. subseq L (q k)}" for L M
    using that by (auto intro: list_emb_append_mono)
qed

lemma one_of_quiet_then:
  "keeps (calls_only reader_tools) m \<Longrightarrow> (\<And>x. sends_one_of p (f x)) \<Longrightarrow> sends_one_of p (bind_io m f)"
  unfolding sends_one_of_def by (rule emits_quiet_then) simp_all

lemma one_of_then_quiet:
  "sends_one_of p m \<Longrightarrow> (\<And>x. keeps (calls_only reader_tools) (f x)) \<Longrightarrow> sends_one_of p (bind_io m f)"
  unfolding sends_one_of_def by (rule emits_then_quiet)

lemma one_of_session: "(\<And>e. sends_one_of p (body e)) \<Longrightarrow> sends_one_of p (script_session env source body)"
  unfolding sends_one_of_def by (rule emits_session) simp_all

lemma one_of_if: "sends_one_of p m \<Longrightarrow> sends_one_of p n \<Longrightarrow> sends_one_of p (if b then m else n)"
  by simp

lemma one_of_option:
  "sends_one_of p m \<Longrightarrow> (\<And>x. sends_one_of p (f x)) \<Longrightarrow> sends_one_of p (case v of None \<Rightarrow> m | Some x \<Rightarrow> f x)"
  by (cases v) simp_all

lemma one_of_weaken: "sends_one_of p m \<Longrightarrow> (\<And>i. \<exists>j. subseq (p i) (q j)) \<Longrightarrow> sends_one_of q m"
  unfolding sends_one_of_def by (rule emits_mono) (auto, meson subseq_order.trans)

lemmas one_of_rules = one_of_quiet_then one_of_then_quiet one_of_if one_of_option one_of_quiet

abbreviation pending_call :: "OrderPlan \<Rightarrow> string \<times> (string \<times> json) list" where
  "pending_call plan \<equiv> (''place_pending_order'', pending_order_args plan)"

abbreviation market_call :: "OrderPlan \<Rightarrow> string \<times> (string \<times> json) list" where
  "market_call plan \<equiv> (''place_market_order'', market_order_args plan)"

abbreviation attach_call :: "OrderPlan \<Rightarrow> int \<Rightarrow> string \<times> (string \<times> json) list" where
  "attach_call plan ticket \<equiv> (''modify_position'', modify_args ticket plan)"

lemma submit_limit_sends:
  "op_order_type plan = LIMIT \<Longrightarrow> sends_one_of (\<lambda>_::unit. [pending_call plan]) (submit (live_executor env) plan)"
  unfolding sends_one_of_def by (rule emits_mono [OF emits_submit]) (auto simp: submission_calls_def)

lemma submit_market_sends:
  "op_order_type plan = MARKET \<Longrightarrow>
   sends_one_of (\<lambda>ticket. [market_call plan, attach_call plan ticket]) (submit (live_executor env) plan)"
  unfolding sends_one_of_def by (rule emits_mono [OF emits_submit]) (auto simp: submission_calls_def)

text \<open>The calls of the two submissions with what undoes them, for any quotes and any tickets.\<close>

definition limit_smoke_calls :: "Tick \<times> SymbolInfo \<times> int \<Rightarrow> (string \<times> (string \<times> json) list) list" where
  "limit_smoke_calls = (\<lambda>(tick, symbol_info, ticket). [pending_call (limit_smoke_plan tick symbol_info), cancel_call ticket])"

definition market_smoke_calls :: "Tick \<times> SymbolInfo \<times> int \<times> int \<Rightarrow> (string \<times> (string \<times> json) list) list" where
  "market_smoke_calls = (\<lambda>(tick, symbol_info, ticket, opened).
     let plan = market_smoke_plan SELL tick symbol_info
     in [market_call plan, attach_call plan ticket, close_call opened])"

lemma smoke_test_sends: "sends_one_of limit_smoke_calls (smoke_test env source)"
proof -
  have body: "sends_one_of limit_smoke_calls
      (bind_io (submit (live_executor e) (limit_smoke_plan tick symbol_info)) (\<lambda>result.
         finally_io (bind_io (assert_io (er_success result)) (\<lambda>_. assert_io (er_verified result))) (cancel_returned e result)))"
    (is "sends_one_of _ (bind_io ?submit ?rest)") for e :: "'a env" and tick symbol_info
  proof (rule one_of_weaken)
    have rest: "sends_one_of (\<lambda>ticket. [cancel_call ticket]) (?rest result)" for result
      unfolding finally_io_def
      by (intro one_of_quiet_then one_of_then_quiet calls.keeps_rules assert_quiet) (rule one_of_within [where plan = "\<lambda>ticket. [cancel_call ticket]", OF within_cancel_returned])
    show "sends_one_of (\<lambda>(i, j). (\<lambda>_::unit. [pending_call (limit_smoke_plan tick symbol_info)]) i @ [cancel_call j]) (bind_io ?submit ?rest)"
      by (rule one_of_bind [OF submit_limit_sends rest]) (simp add: limit_smoke_plan_def)
    show "\<exists>k. subseq (case i of (i, j) \<Rightarrow> [pending_call (limit_smoke_plan tick symbol_info)] @ [cancel_call j]) (limit_smoke_calls k)"
      for i :: "unit \<times> int"
      by (intro exI [of _ "(tick, symbol_info, snd i)"]) (simp add: limit_smoke_calls_def split: prod.split)
  qed
  show ?thesis
    unfolding smoke_test_def
    by (intro one_of_session one_of_quiet_then [OF readers_calls(7)] one_of_quiet_then [OF readers_calls(8)] body)
qed

lemma market_smoke_test_sends: "sends_one_of market_smoke_calls (market_smoke_test env source)"
proof -
  have body: "sends_one_of market_smoke_calls
      (bind_io (unless_unprotected (submit (live_executor e) (market_smoke_plan SELL tick symbol_info))) (settle_market e))"
    (is "sends_one_of _ (bind_io ?submit _)") for e :: "'a env" and tick symbol_info
  proof (rule one_of_weaken)
    let ?plan = "market_smoke_plan SELL tick symbol_info"
    have submit: "sends_one_of (\<lambda>ticket. [market_call ?plan, attach_call ?plan ticket]) ?submit"
      using submit_market_sends [of ?plan e] unfolding sends_one_of_def
      by (intro emits_unless) (simp add: market_smoke_plan_def Let_def)
    have rest: "sends_one_of (\<lambda>ticket. [close_call ticket]) (settle_market e outcome)" for outcome
      unfolding settle_market_def
      by (intro one_of_rules calls.keeps_pure one_of_within [where plan = "\<lambda>ticket. [close_call ticket]", OF within_close_opened])
    show "sends_one_of (\<lambda>(i, j). [market_call ?plan, attach_call ?plan i] @ [close_call j]) (bind_io ?submit (settle_market e))"
      by (rule one_of_bind [OF submit rest])
    show "\<exists>k. subseq (case i of (i, j) \<Rightarrow> [market_call ?plan, attach_call ?plan i] @ [close_call j]) (market_smoke_calls k)" for i
      by (intro exI [of _ "(tick, symbol_info, fst i, snd i)"]) (simp add: market_smoke_calls_def Let_def split: prod.split)
  qed
  show ?thesis
    unfolding market_smoke_test_def
    by (intro one_of_session one_of_quiet_then [OF quiet_frames(1)] one_of_quiet_then [OF leftover_quiet] one_of_if
        one_of_quiet [OF calls.keeps_pure(1)] one_of_quiet_then [OF readers_calls(7)] one_of_quiet_then [OF readers_calls(8)] body)
qed

lemma sends_session: "(\<And>e. sends_at_most n (body e)) \<Longrightarrow> sends_at_most n (script_session env source body)"
  unfolding sends_at_most_def by (rule emits_session) simp_all

lemma sends_within_one: "sends_within [c] m \<Longrightarrow> sends_at_most 1 m"
  unfolding sends_within_def sends_at_most_def by (rule emits_mono) (auto dest: list_emb_length)

lemma assert_stops_quiet: "keeps (calls_only A) (assert_stops plan)"
  unfolding assert_stops_def by (intro calls.keeps_rules assert_quiet)

lemma runner_smoke_sends: "sends_at_most 3 (runner_sltp_smoke_test env source)"
proof -
  have settle: "sends_at_most 1 (settle_runner e cycle)" for e :: "'a env" and cycle
    unfolding settle_runner_def
    by (intro sends_quiet_then sends_option sends_if sends_then_quiet [OF sends_within_one [OF within_close_opened]] calls.keeps_pure
        assert_stops_quiet quiet_frames sends_quiet [OF calls.keeps_pure(1)])
  have body: "sends_at_most (2 + 1) (bind_io (unless_unprotected (run_runner_cycle (McpMarketDataSource e) (McpAccountReader e) (live_executor e)
           ''BTCUSD'' ''M1'' 100 rc mc script_caps smoke_test_magic (Some (read_files State_Store.all_open)))) (\<lambda>cycle.
           case cycle of None \<Rightarrow> return_io None | Some result \<Rightarrow> settle_runner e result))" for e :: "'a env" and rc mc
    using runner_cycle_sends [of e] emits_unless unfolding sends_at_most_def [symmetric]
    by (intro sends_bind sends_option settle sends_quiet [OF calls.keeps_pure(1)]) (auto simp: sends_at_most_def intro!: emits_unless)
  show ?thesis
    unfolding runner_sltp_smoke_test_def
    by (intro sends_session sends_quiet_then [OF quiet_frames(1)] sends_quiet_then [OF leftover_quiet] sends_if
        sends_quiet [OF calls.keeps_pure(1)] sends_quiet_then [OF readers_calls(8)] body [simplified])
qed

lemma visibility_quiet: "keeps (calls_only reader_tools) (print_visibility env magic)"
  unfolding print_visibility_def by (intro calls.keeps_rules quiet_frames)

lemma handled_state: "snd (catch_io (bind_io m (\<lambda>_. return_io x)) (\<lambda>e. case e of GridCycleError _ _ \<Rightarrow> return_io x | _ \<Rightarrow> raise_io e) s) = snd (m s)"
  by (cases "m s") (auto simp: io_simps split: sum.split exn.split)

lemma cycle_of_strategy_sends: "sends_at_most 2 (cycle_of_strategy strategy env)"
proof -
  have grid: "sends_at_most 2 (catch_io (bind_io (script_grid_cycle (McpMarketDataSource env) (McpAccountReader env) (live_executor env)
       (read_files State_Store.all_open)) (\<lambda>_. return_io ())) (\<lambda>e. case e of GridCycleError _ _ \<Rightarrow> return_io () | _ \<Rightarrow> raise_io e))"
    using grid_cycle_sends [of env] by (simp add: sends_at_most_def emits_def handled_state script_grid_cycle_def)
  have runner: "sends_at_most 2 (except_else_io (script_runner_cycle (McpMarketDataSource env) (McpAccountReader env) (live_executor env)
       (read_files State_Store.all_open)) (\<lambda>_. return_io ()) (\<lambda>_. return_io ()))"
    unfolding script_runner_cycle_def except_else_io_def
    by (rule sends_then_quiet [OF sends_try [OF runner_cycle_sends]]) (auto split: sum.split intro: calls.keeps_pure)
  show ?thesis
    unfolding cycle_of_strategy_def Let_def
    by (intro sends_quiet_then sends_then_quiet sends_if grid runner visibility_quiet)
qed

text \<open>An open record with the magic number of the smoke tests ends them before they send anything.\<close>

definition leftover_present :: "files \<Rightarrow> bool" where
  "leftover_present fs \<longleftrightarrow> (\<exists>rs r. State_Store.all_open fs = Inr rs \<and> r \<in> set rs \<and> lr_magic r = smoke_test_magic)"

lemma stopped_by_leftover:
  assumes "(\<And>e. keeps (calls_only reader_tools) (before e))" "(\<And>e. keeps same_files (before e))"
    and "leftover_present (l_files s)"
    and "script_session env source (\<lambda>e. bind_io (before e) (\<lambda>_. bind_io leftover_records (\<lambda>leftovers.
       if leftovers \<noteq> [] then return_io None else rest e leftovers))) s = (r, t)"
  shows "trades_added s t []"
  using assms(4)
proof (cases rule: session_cases)
  case refused
  then show ?thesis by (rule_tac trades_none)
next
  case (ran e s1 t1)
  have "calls_only reader_tools s1 t1"
    using ran(1)
  proof (cases rule: bind_ioE)
    case (stop x)
    then show ?thesis using keepsD [OF assms(1)] by blast
  next
    case (go x s2)
    have files: "l_files s2 = l_files s"
      using keepsD [OF assms(2) go(1)] ran(3) by (simp add: same_files_def)
    obtain rs r' where rs: "State_Store.all_open (l_files s) = Inr rs" "r' \<in> set rs" "lr_magic r' = smoke_test_magic"
      using assms(3) by (auto simp: leftover_present_def)
    then have "filter (\<lambda>r. lr_magic r = smoke_test_magic) rs \<noteq> []" by (auto simp: filter_empty_conv)
    then have "t1 = s2"
      using go(2) rs(1) files by (auto simp: leftover_records_def read_files_def on_files_def io_simps)
    then show ?thesis using keepsD [OF assms(1) go(1)] by simp
  qed
  then have "calls_only reader_tools s t" using calls.trans [OF ran(2)] ran(4) by (simp add: calls_only_def)
  then show ?thesis by (rule trades_none)
qed

lemma leftover_stops:
  assumes "leftover_present (l_files s)"
  shows "market_smoke_test env source s = (r, t) \<Longrightarrow> trades_added s t []"
    and "runner_sltp_smoke_test env source s = (r, t) \<Longrightarrow> trades_added s t []"
  unfolding market_smoke_test_def runner_sltp_smoke_test_def
  by (rule stopped_by_leftover [OF _ _ assms]; (rule account_frames)?; assumption)+


definition smoke_live :: "unit live" where
  "smoke_live = fresh_live\<lparr>l_files := write_one ((sample_record 7)\<lparr>lr_magic := smoke_test_magic\<rparr>) []\<rparr>"

lemma smoke_leftover: "leftover_present (l_files smoke_live)"
proof -
  let ?r = "(sample_record 7)\<lparr>lr_magic := smoke_test_magic\<rparr>"
  have ok: "storable ?r" using sample_record_ok [of 7] by (simp add: storable_def dates_ok_def)
  have none: "view [] = Map.empty" by (simp add: view_def load_one_def fun_eq_iff)
  have "store_ok (write_one ?r [])" using store_ok_write [OF store_ok_empty] ok by (simp add: storable_def)
  moreover have "view (write_one ?r []) = [7 \<mapsto> ?r]" using view_write [OF ok, of "[]"] none by simp
  ultimately obtain rs where "State_Store.all_records (write_one ?r []) = Inr rs" "set rs = {?r}"
    using all_records_view by fastforce
  moreover have "is_open ?r" by (simp add: is_open_def sample_record_def submission_record_def)
  ultimately show ?thesis
    unfolding leftover_present_def smoke_live_def
    by (intro exI [of _ "filter is_open rs"] exI [of _ ?r]) (auto simp: all_open_def all_records_def result_simps)
qed


section \<open>What the read-only scripts reach\<close>

lemma refused_call:
  "call_tool (read_only_env env) ''place_market_order'' args s = (Inl RuntimeError, s) \<or>
   call_tool (read_only_env env) ''place_market_order'' args s = (Inl TradingDisabledError, s)"
  by (simp add: call_tool_def read_only_env_def registry_gate_trades trading_tools_def)

lemma blocked_proof: "prove_trading_is_blocked (read_only_env env) s = (r, t) \<Longrightarrow> t = s \<and> r \<noteq> Inr False"
  using refused_call [of env "[(''symbol_name'', JStr ''BTCUSD''), (''volume'', JFloat (flt (1 / 100))), (''type'', JStr ''BUY'')]" s]
  unfolding prove_trading_is_blocked_def
  by (auto simp: catch_io_def bind_io_def return_io_def raise_io_def)

lemma client_frames:
  "keeps (calls_only A) body \<Longrightarrow> keeps (calls_only A) (with_client env body)"
  "keeps same_files body \<Longrightarrow> keeps same_files (with_client env body)"
proof -
  have enter: "keeps (calls_only A) (aenter env)" "keeps same_files (aenter env)"
    by (auto simp: keeps_def aenter_def calls_only_def same_files_def split: prod.split option.split)
  have leave: "keeps (calls_only A) aexit" "keeps same_files aexit"
    by (auto simp: keeps_def aexit_def modify_io_def calls_only_def same_files_def)
  show "keeps (calls_only A) body \<Longrightarrow> keeps (calls_only A) (with_client env body)"
    unfolding with_client_def by (intro calls.keeps_rules enter leave)
  show "keeps same_files body \<Longrightarrow> keeps same_files (with_client env body)"
    unfolding with_client_def by (intro files.keeps_rules enter leave)
qed

lemma read_only_script_frames:
  "(\<And>e. keeps (calls_only A) (body e)) \<Longrightarrow> keeps (calls_only A) (read_only_script body env)"
  "(\<And>e. keeps same_files (body e)) \<Longrightarrow> keeps same_files (read_only_script body env)"
proof -
  have blocked_quiet: "keeps R (prove_trading_is_blocked (read_only_env env))" if "\<And>s. R s s" for R
    using that blocked_proof unfolding keeps_def by (metis prod.collapse)
  show "(\<And>e. keeps (calls_only A) (body e)) \<Longrightarrow> keeps (calls_only A) (read_only_script body env)"
    unfolding read_only_script_def Let_def
    by (intro calls.keeps_rules assert_quiet client_frames blocked_quiet calls.refl)
  show "(\<And>e. keeps same_files (body e)) \<Longrightarrow> keeps same_files (read_only_script body env)"
    unfolding read_only_script_def Let_def
    by (intro files.keeps_rules assert_quiet client_frames blocked_quiet files.refl)
qed

lemma read_only_script_passes: "read_only_script body env s = (r, t) \<Longrightarrow> r \<noteq> Inr None"
proof -
  assume "read_only_script body env s = (r, t)"
  moreover have "\<not> tr_trading_enabled (e_registry (read_only_env env))"
    by (simp add: read_only_env_def built_classification)
  ultimately have run: "with_client (read_only_env env) (bind_io (prove_trading_is_blocked (read_only_env env)) (\<lambda>blocked.
      if \<not> blocked then return_io None else bind_io (body (read_only_env env)) (\<lambda>x. return_io (Some x)))) s = (r, t)"
    by (simp add: read_only_script_def Let_def assert_io_def)
  have body: "q \<noteq> Inr None" if "bind_io (prove_trading_is_blocked (read_only_env env)) (\<lambda>blocked.
      if \<not> blocked then return_io None else bind_io (body (read_only_env env)) (\<lambda>x. return_io (Some x))) u = (q, v)" for q u v
    using that
  proof (cases rule: bind_ioE)
    case (go blocked w)
    then have "blocked" using blocked_proof by blast
    then show ?thesis using go(2) by (auto elim!: bind_ioE simp: return_io_def)
  qed simp
  show ?thesis
    using run unfolding with_client_def
    by (elim bind_ioE) (auto simp: try_io_def lift_io_def aexit_def modify_io_def dest: body split: prod.split_asm)
qed

lemma informational_frames:
  "keeps (calls_only reader_tools) (demo_account_informational env)" "keeps same_files (demo_account_informational env)"
proof -
  have demo: "keeps (calls_only reader_tools) (require_demo_account (McpAccountReader env))" "keeps same_files (require_demo_account (McpAccountReader env))"
    unfolding require_demo_account_def
    by (intro calls.keeps_rules, simp add: McpAccountReader_def readers_calls) (intro files.keeps_rules, simp add: McpAccountReader_def readers_files)
  show "keeps (calls_only reader_tools) (demo_account_informational env)"
    unfolding demo_account_informational_def by (intro calls.keeps_rules demo)
  show "keeps same_files (demo_account_informational env)"
    unfolding demo_account_informational_def by (intro files.keeps_rules demo)
qed

lemma with_mock_frames:
  assumes "keeps dry_effect m"
  shows "keeps (calls_only reader_tools) (with_mock m)" "keeps same_files (with_mock m)"
  using assms by (auto simp: keeps_def with_mock_def dry_effect_def split: prod.split) (metis fst_conv snd_conv)+

lemma reader_fields:
  "keeps (calls_only reader_tools) (get_connection_state (McpAccountReader env))" "keeps same_files (get_connection_state (McpAccountReader env))"
  "keeps (calls_only reader_tools) (get_account_state (McpAccountReader env))" "keeps same_files (get_account_state (McpAccountReader env))"
  by (simp_all add: McpAccountReader_def readers_calls readers_files)

text \<open>
  C30: The two scripts that promise not to trade keep that promise whatever the server answers: they
  reach it through read-only tools only, write no file, and their proof that trading is blocked never
  fails. The trading call it tries is refused before it is sent.
\<close>

theorem read_only_scripts_read_only:
  "keeps (calls_only (set read_only_tools)) (verify_mcp_adapters_readonly env) \<and> keeps same_files (verify_mcp_adapters_readonly env) \<and>
   keeps (calls_only (set read_only_tools)) (run_live_dry_run_pipeline env) \<and> keeps same_files (run_live_dry_run_pipeline env) \<and>
   fst (verify_mcp_adapters_readonly env s) \<noteq> Inr None \<and> fst (run_live_dry_run_pipeline env s) \<noteq> Inr None"
proof -
  have wider: "keeps (calls_only (set read_only_tools)) m" if "keeps (calls_only reader_tools) m" for m :: "('w, 'b) live_io"
    using that reader_tools_read_only unfolding keeps_def calls_only_def by (meson subset_trans)
  have "keeps (calls_only reader_tools) (verify_mcp_adapters_readonly env)"
    unfolding verify_mcp_adapters_readonly_def Let_def
    by (rule read_only_script_frames(1)) (intro calls.keeps_bind reader_fields informational_frames readers_calls account_frames)
  moreover have "keeps same_files (verify_mcp_adapters_readonly env)"
    unfolding verify_mcp_adapters_readonly_def Let_def
    by (rule read_only_script_frames(2)) (intro files.keeps_bind reader_fields informational_frames readers_files account_frames)
  moreover have "keeps (calls_only reader_tools) (run_live_dry_run_pipeline env)"
    unfolding run_live_dry_run_pipeline_def Let_def
    by (rule read_only_script_frames(1))
      (intro calls.keeps_bind calls.keeps_pure informational_frames with_mock_frames dry.grid_keeps dry.runner_keeps dry_submit)
  moreover have "keeps same_files (run_live_dry_run_pipeline env)"
    unfolding run_live_dry_run_pipeline_def Let_def
    by (rule read_only_script_frames(2))
      (intro files.keeps_bind files.keeps_pure informational_frames with_mock_frames dry.grid_keeps dry.runner_keeps dry_submit)
  moreover have "fst (verify_mcp_adapters_readonly env s) \<noteq> Inr None" "fst (run_live_dry_run_pipeline env s) \<noteq> Inr None"
    unfolding verify_mcp_adapters_readonly_def run_live_dry_run_pipeline_def
    by (rule read_only_script_passes [OF surjective_pairing])+
  ultimately show ?thesis by (simp add: wider)
qed

end
