(* ===== verification/Backtest_Engine.thy ===== *)
theory Backtest_Engine
  imports Backtest_Ledger Pipeline
begin

text \<open>
  The replay of \<^verbatim>\<open>backtest/engine.py\<close>: its cursor, the three adapters over cursor and
  ledger, the fills and exits of a bar, and the loop that drives the two cycles. Shown: what a bar
  does to the ledger in closed form, that no decision depends on a bar after the cursor, that every
  ticket is accounted for at the end, and that no position leaves on the bar it came in on.
\<close>

section \<open>Cursor\<close>

text \<open>\<^verbatim>\<open>xs[i]\<close> and \<^verbatim>\<open>xs[i:j]\<close> count negative positions from the end.\<close>

definition py_index :: "'a list \<Rightarrow> int \<Rightarrow> 'a result" where
  "py_index xs i =
     (let k = (if i < 0 then int (length xs) + i else i)
      in if 0 \<le> k \<and> k < int (length xs) then Inr (xs ! nat k) else Inl IndexError)"

definition py_clip :: "nat \<Rightarrow> int \<Rightarrow> nat" where
  "py_clip n i = nat (if i < 0 then max 0 (int n + i) else min i (int n))"

definition py_slice :: "'a list \<Rightarrow> int \<Rightarrow> int \<Rightarrow> 'a list" where
  "py_slice xs i j = take (py_clip (length xs) j - py_clip (length xs) i) (drop (py_clip (length xs) i) xs)"

record bt_state =
  bt_index :: int
  bt_ledger :: BacktestLedger

definition current_bar :: "MarketBar list \<Rightarrow> (bt_state, exn, MarketBar) io" where
  "current_bar bars = (\<lambda>s. (py_index bars (bt_index s), s))"

definition visible_bars :: "MarketBar list \<Rightarrow> int \<Rightarrow> (bt_state, exn, MarketBar list) io" where
  "visible_bars bars count =
     get_io (\<lambda>s. py_slice bars (max 0 (bt_index s - count + 1)) (bt_index s + 1))"

definition half_spread_price :: "MarketBar \<Rightarrow> SymbolInfo \<Rightarrow> pyfloat \<Rightarrow> pyfloat" where
  "half_spread_price bar symbol_info spread_multiplier =
     (fint (bar_spread bar) * spread_multiplier * si_point symbol_info) / fint 2"

definition on_ledger :: "(BacktestLedger, exn, 'a) io \<Rightarrow> (bt_state, exn, 'a) io" where
  "on_ledger m = (\<lambda>s. case m (bt_ledger s) of (r, l) \<Rightarrow> (r, s\<lparr>bt_ledger := l\<rparr>))"

text \<open>An operation that always returns a value with the next ledger.\<close>

definition ledger_op :: "(BacktestLedger \<Rightarrow> 'a \<times> BacktestLedger) \<Rightarrow> (bt_state, exn, 'a) io" where
  "ledger_op f = on_ledger (\<lambda>l. case f l of (x, l') \<Rightarrow> (Inr x, l'))"

section \<open>Adapters\<close>

definition BacktestMarketDataSource ::
  "MarketBar list \<Rightarrow> SymbolInfo \<Rightarrow> pyfloat \<Rightarrow> bt_state MarketDataSource" where
  "BacktestMarketDataSource bars symbol_info spread_multiplier =
     \<lparr> get_bars = (\<lambda>symbol timeframe count. visible_bars bars count),
       get_tick = (\<lambda>symbol. bind_io (current_bar bars) (\<lambda>bar.
          let half_spread = half_spread_price bar symbol_info spread_multiplier
          in return_io \<lparr> tick_symbol = symbol, tick_bid = bar_close bar - half_spread,
                         tick_ask = bar_close bar + half_spread, tick_time = bar_time bar \<rparr>)),
       get_symbol_info = (\<lambda>symbol. return_io symbol_info) \<rparr>"

definition bt_account_state :: "pyfloat \<Rightarrow> (bt_state, exn, AccountState) io" where
  "bt_account_state starting_balance = get_io (\<lambda>s.
     let realized = py_sum (map ct_notional_pnl (bl_closed_trades (bt_ledger s)));
         balance = starting_balance + realized
     in \<lparr> acc_balance = balance, acc_equity = balance, acc_margin_free = balance, acc_trade_mode = DEMO,
          acc_login = None, acc_server = None \<rparr>)"

definition position_state :: "OpenPosition \<Rightarrow> PositionState" where
  "position_state p =
     \<lparr> pos_ticket = bp_ticket p, pos_symbol = bp_symbol p, pos_side = bp_side p, pos_volume = bp_volume p,
       pos_price_open = bp_price_open p, pos_profit = 0, pos_magic = bp_magic p, pos_sl = bp_sl p, pos_tp = bp_tp p \<rparr>"

definition order_state :: "PendingOrder \<Rightarrow> OrderState" where
  "order_state o' =
     \<lparr> ord_ticket = po_ticket o', ord_symbol = po_symbol o', ord_side = po_side o', ord_volume = po_volume o',
       ord_price = po_price o', ord_magic = po_magic o' \<rparr>"

definition BacktestAccountReader :: "pyfloat \<Rightarrow> bt_state AccountReader" where
  "BacktestAccountReader starting_balance =
     \<lparr> get_account_state = bt_account_state starting_balance,
       get_positions = (\<lambda>symbol magic. get_io (\<lambda>s. map position_state (positions_for symbol magic (bt_ledger s)))),
       get_orders = (\<lambda>symbol magic. get_io (\<lambda>s. map order_state (orders_for symbol magic (bt_ledger s)))),
       get_connection_state = return_io \<lparr> cs_connected = True, cs_terminal_build = None,
          cs_detail = [Lit ''backtest replay -- not a real connection''] \<rparr> \<rparr>"

definition bt_submit :: "MarketBar list \<Rightarrow> SymbolInfo \<Rightarrow> pyfloat \<Rightarrow> OrderPlan \<Rightarrow> (bt_state, exn, ExecutionResult) io" where
  "bt_submit bars symbol_info spread_multiplier plan =
     bind_io (current_bar bars) (\<lambda>bar.
       if op_order_type plan = MARKET then
         let half = half_spread_price bar symbol_info spread_multiplier;
             fill_price = (if op_side plan = BUY then bar_close bar + half else bar_close bar - half)
         in bind_io (ledger_op (add_open_position (op_symbol plan) (op_side plan) (op_volume plan) fill_price
                (op_sl plan) (op_tp plan) (op_magic plan) (op_comment plan) (bar_time bar) None)) (\<lambda>ticket.
              return_io ((execution_result (Some plan) True 10009)
                \<lparr>er_ticket := Some ticket, er_deal := Some ticket, er_executed_price := Some fill_price,
                 er_executed_volume := Some (op_volume plan), er_verified := True\<rparr>))
       else (case op_price plan of
           None \<Rightarrow> raise_io ValueError
         | Some price \<Rightarrow>
             bind_io (ledger_op (add_pending_order (op_symbol plan) (op_side plan) (op_volume plan) price
                (op_sl plan) (op_tp plan) (op_magic plan) (op_comment plan) (bar_time bar))) (\<lambda>ticket.
              return_io ((execution_result (Some plan) True 10009)\<lparr>er_ticket := Some ticket, er_verified := True\<rparr>))))"

definition bt_cancel :: "int \<Rightarrow> (bt_state, exn, ExecutionResult) io" where
  "bt_cancel ticket =
     bind_io (ledger_op (\<lambda>l. (map_of (bl_pending_orders l) ticket \<noteq> None,
        l\<lparr>bl_pending_orders := dict_pop ticket (bl_pending_orders l)\<rparr>))) (\<lambda>existed.
       return_io ((execution_result None existed (if existed then 10009 else - 1))
         \<lparr>er_ticket := Some ticket, er_verified := existed\<rparr>))"

definition bt_close_position ::
  "MarketBar list \<Rightarrow> SymbolInfo \<Rightarrow> pyfloat \<Rightarrow> int \<Rightarrow> pyfloat option \<Rightarrow> (bt_state, exn, ExecutionResult) io" where
  "bt_close_position bars symbol_info spread_multiplier ticket volume =
     bind_io (get_io (\<lambda>s. map_of (bl_open_positions (bt_ledger s)) ticket)) (\<lambda>found. case found of
       None \<Rightarrow> return_io ((execution_result None False (- 1))\<lparr>er_ticket := Some ticket, er_verified := False\<rparr>)
     | Some position \<Rightarrow>
         bind_io (current_bar bars) (\<lambda>bar.
           let half = half_spread_price bar symbol_info spread_multiplier;
               close_price = (if bp_side position = BUY then bar_close bar - half else bar_close bar + half)
           in bind_io (on_ledger (ledger_close_position ticket close_price ''MANUAL'' (bar_time bar))) (\<lambda>trade.
                return_io ((execution_result None True 10009)
                  \<lparr>er_ticket := Some ticket, er_deal := Some ticket, er_executed_price := Some close_price,
                   er_executed_volume := Some (ct_volume trade), er_verified := True\<rparr>))))"

definition BacktestOrderExecutor :: "MarketBar list \<Rightarrow> SymbolInfo \<Rightarrow> pyfloat \<Rightarrow> bt_state OrderExecutor" where
  "BacktestOrderExecutor bars symbol_info spread_multiplier =
     \<lparr> submit = bt_submit bars symbol_info spread_multiplier, cancel = bt_cancel,
       close_position = bt_close_position bars symbol_info spread_multiplier \<rparr>"

section \<open>Fills and exits of a bar\<close>

fun check_fills :: "MarketBar \<Rightarrow> (int \<times> PendingOrder) list \<Rightarrow> int set \<Rightarrow> (BacktestLedger, exn, int set) io" where
  "check_fills bar [] just_filled = return_io just_filled"
| "check_fills bar ((ticket, order) # orders) just_filled =
     (if po_symbol order \<noteq> bar_symbol bar then check_fills bar orders just_filled
      else if bar_low bar \<le> po_price order \<and> po_price order \<le> bar_high bar
      then bind_io (fill_pending_order ticket (bar_time bar)) (\<lambda>_. check_fills bar orders (insert ticket just_filled))
      else check_fills bar orders just_filled)"

definition sl_hit :: "MarketBar \<Rightarrow> OpenPosition \<Rightarrow> bool" where
  "sl_hit bar p \<longleftrightarrow> (if bp_side p = BUY then bar_low bar \<le> bp_sl p else bar_high bar \<ge> bp_sl p)"

definition tp_hit :: "MarketBar \<Rightarrow> OpenPosition \<Rightarrow> bool" where
  "tp_hit bar p \<longleftrightarrow> (if bp_side p = BUY then bar_high bar \<ge> bp_tp p else bar_low bar \<le> bp_tp p)"

fun check_exits :: "MarketBar \<Rightarrow> int set \<Rightarrow> (int \<times> OpenPosition) list \<Rightarrow> (BacktestLedger, exn, unit) io" where
  "check_exits bar just_filled [] = return_io ()"
| "check_exits bar just_filled ((ticket, position) # positions) =
     (if ticket \<in> just_filled then check_exits bar just_filled positions
      else if bp_symbol position \<noteq> bar_symbol bar then check_exits bar just_filled positions
      else if sl_hit bar position
      then bind_io (ledger_close_position ticket (bp_sl position) ''SL'' (bar_time bar))
             (\<lambda>_. check_exits bar just_filled positions)
      else if tp_hit bar position
      then bind_io (ledger_close_position ticket (bp_tp position) ''TP'' (bar_time bar))
             (\<lambda>_. check_exits bar just_filled positions)
      else check_exits bar just_filled positions)"

definition check_fills_and_exits :: "MarketBar \<Rightarrow> (BacktestLedger, exn, unit) io" where
  "check_fills_and_exits bar =
     bind_io (get_io bl_pending_orders) (\<lambda>orders.
     bind_io (check_fills bar orders {}) (\<lambda>just_filled.
     bind_io (get_io bl_open_positions) (\<lambda>positions.
       check_exits bar just_filled positions)))"

section \<open>Replay\<close>

record replay_config =
  rp_symbol :: string
  rp_timeframe :: string
  rp_bars_count :: int
  rp_symbol_info :: SymbolInfo
  rp_grid_config :: GridStrategyConfig
  rp_runner_config :: RunnerStrategyConfig
  rp_money_config :: MoneyConfig
  rp_caps :: ExposureCaps
  rp_grid_magic :: int
  rp_runner_magic :: int
  rp_cycle_interval_bars :: int
  rp_spread_multiplier :: pyfloat
  rp_max_efficiency_ratio :: "pyfloat option"
  rp_efficiency_ratio_period :: int

definition skip_grid :: "replay_config \<Rightarrow> MarketBar list \<Rightarrow> (bt_state, exn, bool) io" where
  "skip_grid c bars =
     (case rp_max_efficiency_ratio c of
        None \<Rightarrow> return_io False
      | Some m \<Rightarrow>
          bind_io (visible_bars bars (rp_bars_count c)) (\<lambda>visible.
          bind_io (lift_io (efficiency_ratio visible (rp_efficiency_ratio_period c))) (\<lambda>er.
            return_io (er \<ge> m))))"

definition replay_cycles :: "replay_config \<Rightarrow> MarketBar list \<Rightarrow> (bt_state, exn, unit) io" where
  "replay_cycles c bars =
     (let market_data = BacktestMarketDataSource bars (rp_symbol_info c) (rp_spread_multiplier c);
          account = BacktestAccountReader (fint 10000);
          executor = BacktestOrderExecutor bars (rp_symbol_info c) (rp_spread_multiplier c)
      in bind_io (skip_grid c bars) (\<lambda>skip_grid.
         bind_io (if skip_grid then return_io ()
                  else bind_io (run_grid_cycle market_data account executor (rp_symbol c) (rp_timeframe c)
                         (rp_bars_count c) (rp_grid_config c) (rp_money_config c) (rp_caps c) (rp_grid_magic c) None)
                       (\<lambda>_. return_io ())) (\<lambda>_.
         bind_io (run_runner_cycle market_data account executor (rp_symbol c) (rp_timeframe c)
                    (rp_bars_count c) (rp_runner_config c) (rp_money_config c) (rp_caps c) (rp_runner_magic c) None)
           (\<lambda>_. return_io ()))))"

definition replay_bar :: "replay_config \<Rightarrow> MarketBar list \<Rightarrow> int \<Rightarrow> (bt_state, exn, unit) io" where
  "replay_bar c bars i =
     bind_io (modify_io (\<lambda>s. s\<lparr>bt_index := i\<rparr>)) (\<lambda>_.
     bind_io (current_bar bars) (\<lambda>bar.
     bind_io (on_ledger (check_fills_and_exits bar)) (\<lambda>_.
       if (i - (rp_bars_count c - 1)) mod rp_cycle_interval_bars c = 0 then replay_cycles c bars else return_io ())))"

definition initial_state :: bt_state where
  "initial_state = \<lparr> bt_index = 0, bt_ledger = empty_ledger \<rparr>"

text \<open>\<^verbatim>\<open>for i in range(i, j)\<close>.\<close>

definition replay_range :: "replay_config \<Rightarrow> MarketBar list \<Rightarrow> int \<Rightarrow> int \<Rightarrow> (bt_state, exn, unit) io" where
  "replay_range c bars i j = for_io (replay_bar c bars) [i..j - 1]"

definition run_backtest :: "replay_config \<Rightarrow> MarketBar list \<Rightarrow> BacktestLedger result" where
  "run_backtest c bars =
     (if int (length bars) < rp_bars_count c then Inl ValueError
      else if rp_cycle_interval_bars c < 1 then Inl ValueError
      else if bars = [] then Inl ValueError
      else case replay_range c bars (rp_bars_count c - 1) (int (length bars)) initial_state of
          (Inl e, _) \<Rightarrow> Inl e
        | (Inr _, s) \<Rightarrow> Inr (bt_ledger s))"

section \<open>What a bar does\<close>

definition fills :: "MarketBar \<Rightarrow> int \<times> PendingOrder \<Rightarrow> bool" where
  "fills bar x \<longleftrightarrow> po_symbol (snd x) = bar_symbol bar \<and>
     bar_low bar \<le> po_price (snd x) \<and> po_price (snd x) \<le> bar_high bar"

definition filled :: "MarketBar \<Rightarrow> int \<times> PendingOrder \<Rightarrow> int \<times> OpenPosition" where
  "filled bar x = (fst x,
     \<lparr> bp_ticket = fst x, bp_symbol = po_symbol (snd x), bp_side = po_side (snd x), bp_volume = po_volume (snd x),
       bp_price_open = po_price (snd x), bp_sl = po_sl (snd x), bp_tp = po_tp (snd x), bp_magic = po_magic (snd x),
       bp_comment = po_comment (snd x), bp_opened_at = bar_time bar \<rparr>)"

definition exits :: "MarketBar \<Rightarrow> int \<times> OpenPosition \<Rightarrow> bool" where
  "exits bar x \<longleftrightarrow> bp_symbol (snd x) = bar_symbol bar \<and> (sl_hit bar (snd x) \<or> tp_hit bar (snd x))"

text \<open>The stop wins when a bar spans both levels.\<close>

definition exit_trade :: "MarketBar \<Rightarrow> int \<times> OpenPosition \<Rightarrow> ClosedTrade" where
  "exit_trade bar x =
     (if sl_hit bar (snd x) then trade_of (snd x) (fst x) (bp_sl (snd x)) ''SL'' (bar_time bar)
      else trade_of (snd x) (fst x) (bp_tp (snd x)) ''TP'' (bar_time bar))"

definition after_bar :: "MarketBar \<Rightarrow> BacktestLedger \<Rightarrow> BacktestLedger" where
  "after_bar bar l = l
     \<lparr>bl_pending_orders := filter (\<lambda>x. \<not> fills bar x) (bl_pending_orders l),
      bl_open_positions := filter (\<lambda>x. \<not> exits bar x) (bl_open_positions l) @
        map (filled bar) (filter (fills bar) (bl_pending_orders l)),
      bl_closed_trades := bl_closed_trades l @ map (exit_trade bar) (filter (exits bar) (bl_open_positions l))\<rparr>"

lemma dict_pop_middle:
  assumes "distinct (map fst (xs @ (k, v) # ys))"
  shows "dict_pop k (xs @ (k, v) # ys) = xs @ ys"
proof -
  have "filter (\<lambda>(k', _). k' \<noteq> k) zs = zs" if "k \<notin> fst ` set zs" for zs :: "('a \<times> 'b) list"
    using that by (induction zs) auto
  then show ?thesis using assms by (simp add: dict_pop_def)
qed

lemma map_of_middle: "distinct (map fst (xs @ (k, v) # ys)) \<Longrightarrow> map_of (xs @ (k, v) # ys) k = Some v"
  by (induction xs) auto

lemma check_fills_run:
  assumes "distinct (map fst (done @ orders))" "bl_pending_orders l = done @ orders"
    and "fst ` set orders \<inter> fst ` set (bl_open_positions l) = {}"
  shows "check_fills bar orders just l = (Inr (just \<union> fst ` set (filter (fills bar) orders)),
    l\<lparr>bl_pending_orders := done @ filter (\<lambda>x. \<not> fills bar x) orders,
      bl_open_positions := bl_open_positions l @ map (filled bar) (filter (fills bar) orders)\<rparr>)"
  using assms
proof (induction orders arbitrary: "done" just l)
  case (Cons x orders)
  obtain t o' where x: "x = (t, o')" by fastforce
  show ?case
  proof (cases "fills bar x")
    case True
    let ?l = "l\<lparr>bl_pending_orders := done @ orders, bl_open_positions := bl_open_positions l @ [filled bar x]\<rparr>"
    have "dict_put t p (bl_open_positions l) = bl_open_positions l @ [(t, p)]" for p
      using Cons.prems(3) by (intro dict_put_new) (auto simp: x)
    then have "fill_pending_order t (bar_time bar) l = (Inr (), ?l)"
      using Cons.prems(1,2) dict_pop_middle [of "done" t o' orders] map_of_middle [of "done" t o' orders]
      by (simp add: x fill_pending_order_def add_open_position_def filled_def)
    then have "check_fills bar (x # orders) just l = check_fills bar orders (insert t just) ?l"
      using True by (simp add: x fills_def bind_io_def)
    also have "\<dots> = (Inr (insert t just \<union> fst ` set (filter (fills bar) orders)),
      ?l\<lparr>bl_pending_orders := done @ filter (\<lambda>x. \<not> fills bar x) orders,
        bl_open_positions := bl_open_positions ?l @ map (filled bar) (filter (fills bar) orders)\<rparr>)"
      using Cons.prems by (intro Cons.IH) (auto simp: x filled_def)
    finally show ?thesis using True by (simp add: x)
  next
    case False
    then have "check_fills bar (x # orders) just l = check_fills bar orders just l"
      by (auto simp: x fills_def)
    then show ?thesis
      using False Cons.IH [of "done @ [x]" l just] Cons.prems by simp
  qed
qed (simp add: return_io_def)

lemma check_exits_step:
  assumes "distinct (map fst (done @ (t, p) # ps))" "bl_open_positions l = done @ (t, p) # ps"
    and "t \<notin> just" "exits bar (t, p)" "bp_price_open p \<noteq> bp_sl p"
  shows "check_exits bar just ((t, p) # ps) l = check_exits bar just ps
    (l\<lparr>bl_open_positions := done @ ps, bl_closed_trades := bl_closed_trades l @ [exit_trade bar (t, p)]\<rparr>)"
proof -
  have "\<not> \<bar>bp_price_open p - bp_sl p\<bar> \<le> 0" using assms(5) by (simp add: pyfloat_eq_iff rat_of_arith)
  then have "ledger_close_position t price reason (bar_time bar) l =
      (Inr (trade_of p t price reason (bar_time bar)), l\<lparr>bl_open_positions := done @ ps,
         bl_closed_trades := bl_closed_trades l @ [trade_of p t price reason (bar_time bar)]\<rparr>)" for price reason
    using assms(1,2) dict_pop_middle [of "done" t p ps] map_of_middle [of "done" t p ps]
    by (simp add: ledger_close_position_def Let_def)
  then show ?thesis
    using assms(3,4) by (auto simp: exits_def exit_trade_def bind_io_def)
qed

lemma check_exits_run:
  assumes "distinct (map fst (done @ ps))" "bl_open_positions l = done @ ps"
    and "\<forall>x \<in> set ps. fst x \<notin> just \<and> exits bar x \<longrightarrow> bp_price_open (snd x) \<noteq> bp_sl (snd x)"
  shows "check_exits bar just ps l = (Inr (),
    l\<lparr>bl_open_positions := done @ filter (\<lambda>x. \<not> (fst x \<notin> just \<and> exits bar x)) ps,
      bl_closed_trades := bl_closed_trades l @ map (exit_trade bar) (filter (\<lambda>x. fst x \<notin> just \<and> exits bar x) ps)\<rparr>)"
  using assms
proof (induction ps arbitrary: "done" l)
  case (Cons x ps)
  obtain t p where x: "x = (t, p)" by fastforce
  show ?case
  proof (cases "t \<notin> just \<and> exits bar x")
    case True
    let ?l = "l\<lparr>bl_open_positions := done @ ps, bl_closed_trades := bl_closed_trades l @ [exit_trade bar x]\<rparr>"
    have "check_exits bar just (x # ps) l = check_exits bar just ps ?l"
      using Cons.prems True unfolding x by (intro check_exits_step) auto
    also have "\<dots> = (Inr (),
      ?l\<lparr>bl_open_positions := done @ filter (\<lambda>x. \<not> (fst x \<notin> just \<and> exits bar x)) ps,
        bl_closed_trades := bl_closed_trades ?l @ map (exit_trade bar) (filter (\<lambda>x. fst x \<notin> just \<and> exits bar x) ps)\<rparr>)"
      using Cons.prems by (intro Cons.IH) auto
    finally show ?thesis using True by (simp add: x)
  next
    case False
    then have "check_exits bar just (x # ps) l = check_exits bar just ps l"
      by (auto simp: x exits_def)
    then show ?thesis
      using False Cons.IH [of "done @ [x]" l] Cons.prems by (auto simp: x)
  qed
qed (simp add: return_io_def)

lemma ledger_ok_parts:
  assumes "ledger_ok l"
  shows "distinct (map fst (bl_pending_orders l))" "distinct (map fst (bl_open_positions l))"
    "fst ` set (bl_pending_orders l) \<inter> fst ` set (bl_open_positions l) = {}"
  by (rule assms [unfolded ledger_ok_def ticket_defs, THEN conjunct1])
    (rule assms [unfolded ledger_ok_def ticket_defs, THEN conjunct2, THEN conjunct1],
     rule assms [unfolded ledger_ok_def ticket_defs, THEN conjunct2, THEN conjunct2, THEN conjunct2, THEN conjunct1])

text \<open>After the fills, the exits run over the old positions and the new ones, which they skip.\<close>

lemma check_bar_split:
  fixes bar l
  defines "just \<equiv> fst ` set (filter (fills bar) (bl_pending_orders l))"
    and "l' \<equiv> l\<lparr>bl_pending_orders := filter (\<lambda>x. \<not> fills bar x) (bl_pending_orders l),
      bl_open_positions := bl_open_positions l @ map (filled bar) (filter (fills bar) (bl_pending_orders l))\<rparr>"
  assumes "ledger_ok l"
  shows "check_fills_and_exits bar l = check_exits bar just (bl_open_positions l') l'"
    "distinct (map fst ([] @ bl_open_positions l'))"
    "\<And>x. x \<in> set (bl_open_positions l) \<Longrightarrow> fst x \<notin> just"
    "\<And>x. x \<in> set (map (filled bar) (filter (fills bar) (bl_pending_orders l))) \<Longrightarrow> fst x \<in> just"
proof -
  note ok = ledger_ok_parts [OF assms(3)]
  show apart: "fst x \<notin> just" if "x \<in> set (bl_open_positions l)" for x
    using ok(3) that unfolding just_def by fastforce
  show "fst x \<in> just" if "x \<in> set (map (filled bar) (filter (fills bar) (bl_pending_orders l)))" for x
    using that by (auto simp: filled_def image_iff just_def)
  have "check_fills bar (bl_pending_orders l) {} l = (Inr just, l')"
    using check_fills_run [of "[]" "bl_pending_orders l" l bar "{}"] ok by (simp add: just_def l'_def)
  then show "check_fills_and_exits bar l = check_exits bar just (bl_open_positions l') l'"
    unfolding check_fills_and_exits_def by (simp add: get_io_def bind_io_def)
  have keys: "map fst (map (filled bar) xs) = map fst xs" for xs by (simp add: filled_def)
  have "distinct (map fst (bl_open_positions l))" "distinct (map fst (filter (fills bar) (bl_pending_orders l)))"
    using ok(1,2) by (simp_all add: distinct_map_filter)
  moreover have "set (map fst (bl_open_positions l)) \<inter> set (map fst (filter (fills bar) (bl_pending_orders l))) = {}"
    using apart by (auto simp: just_def)
  ultimately show "distinct (map fst ([] @ bl_open_positions l'))"
    by (simp add: keys l'_def del: map_map)
qed

lemma check_exits_needs_risk:
  assumes "distinct (map fst (done @ ps))" "bl_open_positions l = done @ ps" "check_exits bar just ps l = (r, l')"
    and "\<exists>x \<in> set ps. fst x \<notin> just \<and> exits bar x \<and> bp_price_open (snd x) = bp_sl (snd x)"
  shows "r = Inl ValueError"
  using assms
proof (induction ps arbitrary: "done" l)
  case (Cons x ps)
  obtain t p where x: "x = (t, p)" by fastforce
  note found = dict_pop_middle [of "done" t p ps] map_of_middle [of "done" t p ps]
  consider (skip) "\<not> (t \<notin> just \<and> exits bar x)" | (stop) "t \<notin> just" "exits bar x" "bp_price_open p = bp_sl p"
    | (go) "t \<notin> just" "exits bar x" "bp_price_open p \<noteq> bp_sl p" by blast
  then show ?case
  proof cases
    case skip
    then have "check_exits bar just (x # ps) l = check_exits bar just ps l"
      by (auto simp: x exits_def)
    then show ?thesis
      using skip Cons.IH [of "done @ [x]" l] Cons.prems by (auto simp: x)
  next
    case stop
    have "ledger_close_position t price reason (bar_time bar) l = (Inl ValueError, l\<lparr>bl_open_positions := done @ ps\<rparr>)"
      for price reason
      using Cons.prems(1,2) stop(3) found by (simp add: x ledger_close_position_def Let_def pyfloat_eq_iff rat_of_arith)
    then show ?thesis
      using Cons.prems(3) stop(1,2) by (auto simp: x exits_def bind_io_def split: if_split_asm)
  next
    case go
    let ?l = "l\<lparr>bl_open_positions := done @ ps, bl_closed_trades := bl_closed_trades l @ [exit_trade bar x]\<rparr>"
    have "check_exits bar just (x # ps) l = check_exits bar just ps ?l"
      using Cons.prems go unfolding x by (intro check_exits_step) auto
    moreover have "\<exists>x \<in> set ps. fst x \<notin> just \<and> exits bar x \<and> bp_price_open (snd x) = bp_sl (snd x)"
      using Cons.prems(4) go(3) by (auto simp: x)
    ultimately show ?thesis
      using Cons.IH [of "done" ?l] Cons.prems(1,3) by simp
  qed
qed simp

lemma check_bar_cases:
  assumes "ledger_ok l"
  shows "if \<forall>x \<in> set (bl_open_positions l). exits bar x \<longrightarrow> bp_price_open (snd x) \<noteq> bp_sl (snd x)
    then check_fills_and_exits bar l = (Inr (), after_bar bar l)
    else \<exists>l'. check_fills_and_exits bar l = (Inl ValueError, l')"
proof (cases "\<forall>x \<in> set (bl_open_positions l). exits bar x \<longrightarrow> bp_price_open (snd x) \<noteq> bp_sl (snd x)")
  case True
  let ?jf = "fst ` set (filter (fills bar) (bl_pending_orders l))"
  let ?new = "map (filled bar) (filter (fills bar) (bl_pending_orders l))"
  let ?l = "l\<lparr>bl_pending_orders := filter (\<lambda>x. \<not> fills bar x) (bl_pending_orders l),
      bl_open_positions := bl_open_positions l @ ?new\<rparr>"
  note split = check_bar_split [OF assms, where bar = bar]
  have run: "check_exits bar ?jf (bl_open_positions ?l) ?l = (Inr (),
      ?l\<lparr>bl_open_positions := [] @ filter (\<lambda>x. \<not> (fst x \<notin> ?jf \<and> exits bar x)) (bl_open_positions ?l),
        bl_closed_trades := bl_closed_trades ?l @ map (exit_trade bar) (filter (\<lambda>x. fst x \<notin> ?jf \<and> exits bar x) (bl_open_positions ?l))\<rparr>)"
  proof (rule check_exits_run [OF split(2)])
    show "bl_open_positions ?l = [] @ bl_open_positions ?l" by simp
    show "\<forall>x \<in> set (bl_open_positions ?l). fst x \<notin> ?jf \<and> exits bar x \<longrightarrow> bp_price_open (snd x) \<noteq> bp_sl (snd x)"
      using True split(4) by auto
  qed
  have out: "filter (\<lambda>x. fst x \<notin> ?jf \<and> exits bar x) (bl_open_positions ?l) = filter (exits bar) (bl_open_positions l)"
  proof -
    have "filter (\<lambda>x. fst x \<notin> ?jf \<and> exits bar x) ?new = []" using split(4) by (simp only: filter_empty_conv) blast
    moreover have "filter (\<lambda>x. fst x \<notin> ?jf \<and> exits bar x) (bl_open_positions l) = filter (exits bar) (bl_open_positions l)"
      using split(3) by (intro filter_cong refl) blast
    ultimately show ?thesis by simp
  qed
  have stay: "filter (\<lambda>x. \<not> (fst x \<notin> ?jf \<and> exits bar x)) (bl_open_positions ?l) =
      filter (\<lambda>x. \<not> exits bar x) (bl_open_positions l) @ ?new"
  proof -
    have "filter (\<lambda>x. \<not> (fst x \<notin> ?jf \<and> exits bar x)) ?new = ?new" using split(4) by (simp only: filter_id_conv) blast
    moreover have "filter (\<lambda>x. \<not> (fst x \<notin> ?jf \<and> exits bar x)) (bl_open_positions l) = filter (\<lambda>x. \<not> exits bar x) (bl_open_positions l)"
      using split(3) by (intro filter_cong refl) blast
    ultimately show ?thesis by simp
  qed
  have "check_fills_and_exits bar l = (Inr (), after_bar bar l)"
    unfolding split(1) run out stay by (simp add: after_bar_def)
  then show ?thesis using True by simp
next
  case False
  note split = check_bar_split [OF assms, where bar = bar]
  obtain r l' where run: "check_fills_and_exits bar l = (r, l')" by fastforce
  have "r = Inl ValueError"
    by (rule check_exits_needs_risk [OF split(2) _ run [unfolded split(1)]]) (use False split(3) in auto)
  then show ?thesis using False run by auto
qed

text \<open>
  C15: What one bar does to the ledger, in closed form. Every pending order of the bar's symbol whose
  price the bar reaches becomes a position at that price under its own ticket; every position that
  was open before the bar and whose stop or target the bar reaches leaves at that level, at the stop
  when the bar spans both; a position filled on this bar stays. The only other outcome is the
  exception for a leaving position whose stop equals its entry.
\<close>

theorem bar_in_closed_form:
  assumes "ledger_ok l"
  shows "if \<forall>x \<in> set (bl_open_positions l). exits bar x \<longrightarrow> bp_price_open (snd x) \<noteq> bp_sl (snd x)
    then check_fills_and_exits bar l = (Inr (), after_bar bar l)
    else \<exists>l'. check_fills_and_exits bar l = (Inl ValueError, l')"
  by (rule check_bar_cases [OF assms])

theorem bar_in_closed_form_witness:
  "check_fills_and_exits (sample_bar 1 90) (snd (sample_position empty_ledger)) =
     (Inr (), after_bar (sample_bar 1 90) (snd (sample_position empty_ledger)))"
proof -
  have "ledger_ok (snd (sample_position empty_ledger))"
    unfolding sample_position_def by (rule add_open_ok(1) [OF empty_ledger_ok(1) prod.collapse [symmetric]])
  moreover have "\<forall>x \<in> set (bl_open_positions (snd (sample_position empty_ledger))). bp_price_open (snd x) \<noteq> bp_sl (snd x)"
    by (simp add: sample_position_def add_open_position_def new_ticket_def empty_ledger_def pyfloat_eq_iff fint_def)
  ultimately show ?thesis using bar_in_closed_form [of "snd (sample_position empty_ledger)" "sample_bar 1 90"]
    by (metis (no_types, lifting))
qed

section \<open>No look-ahead\<close>

lemma py_index_prefix: "0 \<le> i \<Longrightarrow> i < int (length xs) \<Longrightarrow> py_index (xs @ ys) i = py_index xs i"
  by (simp add: py_index_def nth_append nat_less_iff)

lemma py_slice_prefix:
  assumes "0 \<le> i" "0 \<le> j" "j \<le> int (length xs)"
  shows "py_slice (xs @ ys) i j = py_slice xs i j"
proof (cases "i \<le> int (length xs)")
  case True
  then show ?thesis using assms by (simp add: py_slice_def py_clip_def nat_le_iff)
next
  case False
  then have "py_clip (length (xs @ ys)) j - py_clip (length (xs @ ys)) i = 0" "py_clip (length xs) j - py_clip (length xs) i = 0"
    using assms by (simp_all add: py_clip_def)
  then show ?thesis by (simp only: py_slice_def take0)
qed

text \<open>The cursor is on one of the bars.\<close>

definition on_bars :: "MarketBar list \<Rightarrow> bt_state \<Rightarrow> bool" where
  "on_bars bars s \<longleftrightarrow> 0 \<le> bt_index s \<and> bt_index s < int (length bars)"

lemma current_bar_agrees: "agree (on_bars bars) (current_bar bars) (current_bar (bars @ future))"
  by (simp add: agree_def on_bars_def current_bar_def py_index_prefix)

lemma visible_bars_agrees: "agree (on_bars bars) (visible_bars bars n) (visible_bars (bars @ future) n)"
  by (simp add: agree_def on_bars_def visible_bars_def get_io_def py_slice_prefix)

lemma on_ledger_agrees: "agree (on_bars bars) (on_ledger m) (on_ledger m)"
  by (simp add: agree_def on_bars_def on_ledger_def split: prod.split)

lemma ledger_op_agrees: "agree (on_bars bars) (ledger_op f) (ledger_op f)"
  unfolding ledger_op_def by (rule on_ledger_agrees)

lemma bt_submit_agrees: "agree (on_bars bars) (bt_submit bars si m plan) (bt_submit (bars @ future) si m plan)"
  unfolding bt_submit_def Let_def by (intro agree_rules current_bar_agrees ledger_op_agrees)

text \<open>From such a state the adapters over the bars and over more bars answer alike.\<close>

interpretation seen: twin_adapters "on_bars bars"
  "BacktestMarketDataSource bars si m" "BacktestMarketDataSource (bars @ future) si m"
  "BacktestAccountReader b" "BacktestAccountReader b"
  "BacktestOrderExecutor bars si m" "BacktestOrderExecutor (bars @ future) si m" for bars future si m b
  by unfold_locales
    (simp_all add: BacktestMarketDataSource_def BacktestAccountReader_def BacktestOrderExecutor_def Let_def
      agree_rules bt_submit_agrees visible_bars_agrees current_bar_agrees)

lemma replay_cycles_agrees: "agree (on_bars bars) (replay_cycles c bars) (replay_cycles c (bars @ future))"
  unfolding replay_cycles_def skip_grid_def Let_def
  by (intro agree_rules visible_bars_agrees seen.grid_agrees seen.runner_agrees)

lemma replay_bar_agrees:
  assumes "0 \<le> i" "i < int (length bars)"
  shows "agree (on_bars bars) (replay_bar c bars i) (replay_bar c (bars @ future) i)"
proof -
  have "agree (on_bars bars) (modify_io (\<lambda>s. s\<lparr>bt_index := i\<rparr>)) (modify_io (\<lambda>s. s\<lparr>bt_index := i\<rparr>))"
    using assms by (simp add: agree_def modify_io_def on_bars_def)
  then show ?thesis
    unfolding replay_bar_def by (intro agree_rules current_bar_agrees on_ledger_agrees replay_cycles_agrees)
qed

lemma replay_range_agrees:
  assumes "0 \<le> i"
  shows "agree (on_bars bars) (replay_range c bars i (int (length bars))) (replay_range c (bars @ future) i (int (length bars)))"
  unfolding replay_range_def by (intro agree_for replay_bar_agrees) (use assms in auto)

text \<open>A replay goes on from a ledger.\<close>

definition ledger_of :: "(exn + unit) \<times> bt_state \<Rightarrow> BacktestLedger result" where
  "ledger_of run = (case run of (Inl e, _) \<Rightarrow> Inl e | (Inr _, s) \<Rightarrow> Inr (bt_ledger s))"

definition resume :: "replay_config \<Rightarrow> MarketBar list \<Rightarrow> int \<Rightarrow> BacktestLedger \<Rightarrow> BacktestLedger result" where
  "resume c bars i l = ledger_of (replay_range c bars i (int (length bars)) \<lparr> bt_index = i - 1, bt_ledger = l \<rparr>)"

lemma run_backtest_ledger_of:
  assumes "1 \<le> rp_cycle_interval_bars c" "1 \<le> rp_bars_count c" "rp_bars_count c \<le> int (length bars)"
  shows "run_backtest c bars = ledger_of (replay_range c bars (rp_bars_count c - 1) (int (length bars)) initial_state)"
  using assms by (auto simp: run_backtest_def ledger_of_def)

text \<open>The position of the cursor before a range does not matter: the first bar sets it.\<close>

lemma replay_range_index:
  "ledger_of (replay_range c bars i j s) = ledger_of (replay_range c bars i j (s\<lparr>bt_index := k\<rparr>))"
proof (cases "i \<le> j - 1")
  case True
  have "replay_bar c bars i s = replay_bar c bars i (s\<lparr>bt_index := k\<rparr>)"
    by (simp add: replay_bar_def modify_io_def bind_io_def [of "\<lambda>s. (Inr (), _ s)"])
  then show ?thesis
    using True by (simp add: replay_range_def upto_rec1 bind_io_def)
qed (simp add: replay_range_def return_io_def ledger_of_def)

lemma for_io_append: "for_io f (xs @ ys) = bind_io (for_io f xs) (\<lambda>_. for_io f ys)"
  by (induction xs) (auto simp: io_simps fun_eq_iff split: prod.split sum.split)

lemma upto_append: "i \<le> j \<Longrightarrow> j \<le> k \<Longrightarrow> [i..k - 1] = [i..j - 1] @ [j..k - 1]" for i j k :: int
  using upto_split1 [of i j "k - 1"] by (cases "j = k") simp_all

lemma replay_extends:
  assumes "1 \<le> rp_bars_count c" "rp_bars_count c \<le> int (length bars)"
  shows "run_backtest c (bars @ future) =
    bind_res (run_backtest c bars) (resume c (bars @ future) (int (length bars)))"
proof (cases "rp_cycle_interval_bars c < 1")
  case True
  then show ?thesis using assms by (auto simp: run_backtest_def)
next
  case False
  have "bars \<noteq> []" using assms by auto
  let ?full = "bars @ future" and ?n = "int (length bars)" and ?i = "rp_bars_count c - 1"
  have start: "on_bars bars initial_state" using \<open>bars \<noteq> []\<close> by (simp add: on_bars_def initial_state_def)
  have "replay_range c ?full ?i (int (length ?full)) =
      bind_io (replay_range c ?full ?i ?n) (\<lambda>_. replay_range c ?full ?n (int (length ?full)))"
    using assms upto_append [of ?i ?n "int (length ?full)"] by (simp add: replay_range_def for_io_append)
  moreover have "replay_range c ?full ?i ?n initial_state = replay_range c bars ?i ?n initial_state"
    by (rule agreeD(1) [OF replay_range_agrees start, symmetric]) (use assms in simp)
  ultimately have run: "replay_range c ?full ?i (int (length ?full)) initial_state =
      (case replay_range c bars ?i ?n initial_state of
         (Inl e, s) \<Rightarrow> (Inl e, s) | (Inr _, s) \<Rightarrow> replay_range c ?full ?n (int (length ?full)) s)"
    by (simp add: bind_io_def split: prod.split sum.split)
  obtain r s where first: "replay_range c bars ?i ?n initial_state = (r, s)" by fastforce
  show ?thesis
  proof (cases r)
    case (Inl e)
    then show ?thesis
      using assms False run first by (simp add: run_backtest_ledger_of ledger_of_def)
  next
    case (Inr u)
    have "ledger_of (replay_range c ?full ?n (int (length ?full)) s) = resume c ?full ?n (bt_ledger s)"
        unfolding resume_def by (subst replay_range_index [where k = "?n - 1"]) (cases s, simp)
    then show ?thesis
      using Inr assms False run first by (simp add: run_backtest_ledger_of) (simp add: ledger_of_def)
  qed
qed

text \<open>
  C5: No look-ahead. A backtest over more bars first does exactly what the backtest over the earlier
  ones does, ledger and exception included, and goes on from there: no order, fill, exit or result
  depends on a bar that comes later.
\<close>

theorem no_look_ahead:
  assumes "1 \<le> rp_bars_count c" "rp_bars_count c \<le> int (length bars)"
  shows "run_backtest c (bars @ future) =
    bind_res (run_backtest c bars) (resume c (bars @ future) (int (length bars)))"
  by (rule replay_extends [OF assms])

definition sample_replay :: replay_config where
  "sample_replay =
     \<lparr> rp_symbol = ''BTCUSD'', rp_timeframe = ''M1'', rp_bars_count = 7, rp_symbol_info = unit_symbol,
       rp_grid_config = default_grid_config, rp_runner_config = short_config, rp_money_config = default_money_config,
       rp_caps = no_caps, rp_grid_magic = 71101, rp_runner_magic = 71102, rp_cycle_interval_bars = 5,
       rp_spread_multiplier = 1, rp_max_efficiency_ratio = None, rp_efficiency_ratio_period = 14 \<rparr>"

theorem no_look_ahead_witness:
  "run_backtest sample_replay (rising @ [sample_bar 1 500]) =
     bind_res (run_backtest sample_replay rising) (resume sample_replay (rising @ [sample_bar 1 500]) 7)"
  using no_look_ahead [of sample_replay rising "[sample_bar 1 500]"] by (simp add: sample_replay_def rising_def)

section \<open>History\<close>

text \<open>What the trades of a replay are, and how old its positions and orders are at an instant.\<close>

definition clean_exit :: "ClosedTrade \<Rightarrow> bool" where
  "clean_exit t \<longleftrightarrow> ticks (ct_opened_at t) < ticks (ct_closed_at t) \<and>
     (ct_close_reason t = ''SL'' \<and> ct_price_close t = ct_sl t \<or> ct_close_reason t = ''TP'' \<and> ct_price_close t = ct_tp t)"

definition history :: "(int \<Rightarrow> int \<Rightarrow> bool) \<Rightarrow> int \<Rightarrow> BacktestLedger \<Rightarrow> bool" where
  "history R now l \<longleftrightarrow> ledger_reachable l \<and>
     (\<forall>x \<in> set (bl_open_positions l). R (ticks (bp_opened_at (snd x))) now) \<and>
     (\<forall>x \<in> set (bl_pending_orders l). R (ticks (po_placed_at (snd x))) now) \<and>
     (\<forall>t \<in> set (bl_closed_trades l). clean_exit t)"

lemma check_fills_reachable:
  "check_fills bar orders just l = (Inr just', l') \<Longrightarrow> ledger_reachable l \<Longrightarrow> ledger_reachable l'"
  by (induction bar orders just arbitrary: l rule: check_fills.induct)
    (auto simp: return_io_def bind_io_Inr split: if_split_asm intro: ledger_reachable.fill)

lemma check_exits_reachable:
  "check_exits bar just ps l = (Inr u, l') \<Longrightarrow> ledger_reachable l \<Longrightarrow> ledger_reachable l'"
  by (induction bar just ps arbitrary: l rule: check_exits.induct)
    (auto simp: return_io_def bind_io_Inr split: if_split_asm intro: ledger_reachable.close)

lemma check_bar_reachable:
  "check_fills_and_exits bar l = (Inr u, l') \<Longrightarrow> ledger_reachable l \<Longrightarrow> ledger_reachable l'"
  unfolding check_fills_and_exits_def
  by (auto simp: bind_io_Inr get_io_def dest: check_fills_reachable check_exits_reachable)

lemma exit_trade_clean:
  assumes "ticks (bp_opened_at (snd x)) < ticks (bar_time bar)"
  shows "clean_exit (exit_trade bar x)"
  using assms by (simp add: clean_exit_def exit_trade_def trade_of_def Let_def)

lemma check_bar_history:
  assumes "check_fills_and_exits bar l = (Inr u, l')" "history (<) (ticks (bar_time bar)) l"
  shows "history (\<le>) (ticks (bar_time bar)) l'"
proof -
  have reach: "ledger_reachable l" using assms(2) by (simp add: history_def)
  have "l' = after_bar bar l"
    using check_bar_cases [OF reachable_tickets [OF reach, THEN conjunct1], of bar] assms(1)
    by (simp split: if_split_asm)
  moreover have "ledger_reachable l'" by (rule check_bar_reachable [OF assms(1) reach])
  ultimately show ?thesis
    using assms(2) by (auto simp: history_def after_bar_def filled_def exit_trade_clean less_imp_le)
qed

lemma history_open:
  assumes "add_open_position symbol side v p sl tp magic cmt opened None l = (t, l')" "history (\<le>) (ticks opened) l"
  shows "history (\<le>) (ticks opened) l'"
proof -
  have "ledger_reachable l'" using assms by (auto simp: history_def intro: ledger_reachable.market)
  moreover obtain p' where "bl_open_positions l' = dict_put t p' (bl_open_positions l)" "bp_opened_at p' = opened"
      "bl_pending_orders l' = bl_pending_orders l" "bl_closed_trades l' = bl_closed_trades l"
    using assms(1) by (auto simp: add_open_position_def new_ticket_def Let_def)
  ultimately show ?thesis
    using assms(2) set_dict_put [of t p' "bl_open_positions l"] by (auto simp: history_def)
qed

lemma history_pending:
  assumes "add_pending_order symbol side v p sl tp magic cmt placed l = (t, l')" "history (\<le>) (ticks placed) l"
  shows "history (\<le>) (ticks placed) l'"
proof -
  have "ledger_reachable l'" using assms by (auto simp: history_def intro: ledger_reachable.pending)
  moreover obtain o' where "bl_pending_orders l' = dict_put t o' (bl_pending_orders l)" "po_placed_at o' = placed"
      "bl_open_positions l' = bl_open_positions l" "bl_closed_trades l' = bl_closed_trades l"
    using assms(1) by (auto simp: add_pending_order_def new_ticket_def Let_def)
  ultimately show ?thesis
    using assms(2) set_dict_put [of t o' "bl_pending_orders l"] by (auto simp: history_def)
qed

text \<open>During the cycles of bar \<open>i\<close>.\<close>

definition now :: "MarketBar list \<Rightarrow> int \<Rightarrow> int" where
  "now bars i = ticks (bar_time (bars ! nat i))"

definition during :: "MarketBar list \<Rightarrow> int \<Rightarrow> bt_state \<Rightarrow> bool" where
  "during bars i s \<longleftrightarrow> 0 \<le> i \<and> i < int (length bars) \<and> bt_index s = i \<and> history (\<le>) (now bars i) (bt_ledger s)"

lemma during_pure: "(\<And>s. P s \<Longrightarrow> snd (m s) = s) \<Longrightarrow> agree P m m"
  by (simp add: agree_def)

lemma during_submit: "agree (during bars i) (bt_submit bars si k plan) (bt_submit bars si k plan)"
  unfolding agree_def
proof (intro allI impI conjI refl)
  fix s
  assume s: "during bars i s"
  let ?bar = "bars ! nat i"
  have bar: "current_bar bars s = (Inr ?bar, s)" using s by (simp add: during_def current_bar_def py_index_def)
  have moved: "during bars i (s\<lparr>bt_ledger := l\<rparr>)" if "history (\<le>) (ticks (bar_time ?bar)) l" for l
    using s that by (simp add: during_def now_def)
  have old: "history (\<le>) (ticks (bar_time ?bar)) (bt_ledger s)" using s by (simp add: during_def now_def)
  have opened: "during bars i (s\<lparr>bt_ledger := snd (add_open_position a b c d e f g h (bar_time ?bar) None (bt_ledger s))\<rparr>)"
    for a b c d e f g h by (rule moved [OF history_open [OF prod.collapse [symmetric] old]])
  have placed: "during bars i (s\<lparr>bt_ledger := snd (add_pending_order a b c d e f g h (bar_time ?bar) (bt_ledger s))\<rparr>)"
    for a b c d e f g h by (rule moved [OF history_pending [OF prod.collapse [symmetric] old]])
  show "during bars i (snd (bt_submit bars si k plan s))"
    unfolding bt_submit_def bind_io_go [where m = "current_bar bars" and s = s, OF bar] Let_def
    using s opened placed
    by (simp add: ledger_op_def on_ledger_def io_simps split_beta split: option.split)
qed

interpretation kept: twin_adapters "during bars i"
  "BacktestMarketDataSource bars si k" "BacktestMarketDataSource bars si k"
  "BacktestAccountReader b" "BacktestAccountReader b"
  "BacktestOrderExecutor bars si k" "BacktestOrderExecutor bars si k" for bars i si k b
  by unfold_locales
    (simp_all add: BacktestMarketDataSource_def BacktestAccountReader_def BacktestOrderExecutor_def Let_def
      agree_rules during_submit visible_bars_def during_pure current_bar_def)

lemma during_cycles: "agree (during bars i) (replay_cycles c bars) (replay_cycles c bars)"
  unfolding replay_cycles_def skip_grid_def visible_bars_def Let_def
  by (intro agree_rules kept.grid_agrees kept.runner_agrees)

lemma replay_bar_history:
  assumes "replay_bar c bars i s = (Inr u, s')" "0 \<le> i" "i < int (length bars)" "history (<) (now bars i) (bt_ledger s)"
  shows "history (\<le>) (now bars i) (bt_ledger s')"
proof -
  let ?bar = "bars ! nat i"
  have bar: "current_bar bars (s\<lparr>bt_index := i\<rparr>) = (Inr ?bar, s\<lparr>bt_index := i\<rparr>)"
    using assms(2,3) by (simp add: current_bar_def py_index_def)
  obtain l where l: "check_fills_and_exits ?bar (bt_ledger s) = (Inr (), l)"
      and run: "(if (i - (rp_bars_count c - 1)) mod rp_cycle_interval_bars c = 0 then replay_cycles c bars else return_io ())
        (s\<lparr>bt_index := i, bt_ledger := l\<rparr>) = (Inr u, s')"
    using assms(1) bar by (auto simp: replay_bar_def modify_io_def bind_io_Inr on_ledger_def split: prod.split_asm)
  have "history (\<le>) (ticks (bar_time ?bar)) l"
    by (rule check_bar_history [OF l]) (use assms(4) in \<open>simp add: now_def\<close>)
  then have d: "during bars i (s\<lparr>bt_index := i, bt_ledger := l\<rparr>)"
    using assms(2,3) by (simp add: during_def now_def)
  have a: "agree (during bars i)
      (if (i - (rp_bars_count c - 1)) mod rp_cycle_interval_bars c = 0 then replay_cycles c bars else return_io ())
      (if (i - (rp_bars_count c - 1)) mod rp_cycle_interval_bars c = 0 then replay_cycles c bars else return_io ())"
    by (intro agree_rules during_cycles)
  have "during bars i s'" by (rule agreeD(2) [OF a d run])
  then show ?thesis by (simp add: during_def)
qed

definition increasing :: "MarketBar list \<Rightarrow> bool" where
  "increasing bars \<longleftrightarrow> sorted_wrt (\<lambda>a b. ticks (bar_time a) < ticks (bar_time b)) bars"

lemma increasing_now: "increasing bars \<Longrightarrow> 0 \<le> i \<Longrightarrow> i + 1 < int (length bars) \<Longrightarrow> now bars i < now bars (i + 1)"
  unfolding increasing_def now_def by (rule sorted_wrt_nth_less) auto

lemma history_later: "history (\<le>) a l \<Longrightarrow> a < b \<Longrightarrow> history (<) b l"
  by (auto simp: history_def)

lemma replay_range_history:
  assumes "replay_range c bars i j s = (Inr u, s')" "increasing bars" "0 \<le> i" "j \<le> int (length bars)"
    and "history (<) (now bars i) (bt_ledger s)"
  shows "\<exists>k. history (\<le>) k (bt_ledger s')"
  using assms
proof (induction "nat (j - i)" arbitrary: i s)
  case 0
  then have "s' = s" by (simp add: replay_range_def return_io_def)
  then show ?case using 0(6) by (intro exI [of _ "now bars i"]) (auto simp: history_def less_imp_le)
next
  case (Suc n)
  then have upto: "[i..j - 1] = i # [i + 1..j - 1]" and range: "0 \<le> i" "i < int (length bars)"
    by (simp_all add: upto_rec1)
  obtain t where t: "replay_bar c bars i s = (Inr (), t)" "replay_range c bars (i + 1) j t = (Inr u, s')"
    using Suc.prems(1) by (auto simp: replay_range_def upto bind_io_Inr)
  have h: "history (\<le>) (now bars i) (bt_ledger t)"
    by (rule replay_bar_history [OF t(1) range Suc.prems(5)])
  show ?case
  proof (cases "i + 1 < j")
    case True
    then have "now bars i < now bars (i + 1)"
      using Suc.prems by (intro increasing_now) auto
    then show ?thesis
      using Suc.hyps(1) [of "i + 1" t] Suc.hyps(2) Suc.prems t(2) history_later [OF h] by simp
  next
    case False
    then have "s' = t" using t(2) by (simp add: replay_range_def return_io_def)
    then show ?thesis using h by blast
  qed
qed

lemma replay_keeps_history:
  assumes "run_backtest c bars = Inr l" "1 \<le> rp_bars_count c" "increasing bars"
  obtains k where "history (\<le>) k l"
proof -
  let ?i = "rp_bars_count c - 1" and ?n = "int (length bars)"
  have bounds: "1 \<le> rp_cycle_interval_bars c" "rp_bars_count c \<le> ?n"
    using assms(1) by (auto simp: run_backtest_def split: if_split_asm)
  then obtain u s where "replay_range c bars ?i ?n initial_state = (Inr u, s)" "l = bt_ledger s"
    using assms(1,2) by (auto simp: run_backtest_ledger_of ledger_of_def split: prod.splits sum.splits)
  moreover have "history (<) (now bars ?i) (bt_ledger initial_state)"
    by (simp add: history_def initial_state_def empty_ledger_def ledger_reachable.start [unfolded empty_ledger_def])
  ultimately obtain k where "history (\<le>) k l"
    using replay_range_history [of c bars ?i ?n initial_state u s] assms(2,3) by auto
  then show thesis by (rule that)
qed

text \<open>
  C12: The ledger a backtest returns accounts for everything it did: every ticket is in exactly one
  of pending, open and closed, and over bars with increasing times every closed trade left at its
  own stop or target, on a later bar than the one it came in on.
\<close>

theorem backtest_ledger_sound:
  assumes "run_backtest c bars = Inr l" "1 \<le> rp_bars_count c" "increasing bars"
  shows "ledger_ok l \<and> pending_tickets l \<union> open_tickets l \<union> closed_tickets l = {1 ..< bl_next_ticket l} \<and>
    (\<forall>t \<in> set (bl_closed_trades l). clean_exit t)"
proof -
  obtain k where "history (\<le>) k l" by (rule replay_keeps_history [OF assms])
  then show ?thesis using reachable_tickets [of l] by (auto simp: history_def)
qed

text \<open>The runner enters on the last of the rising bars; the grid is skipped.\<close>

definition runner_replay :: replay_config where
  "runner_replay = sample_replay\<lparr>rp_max_efficiency_ratio := Some 0\<rparr>"

lemma runner_replay_fields [simp]:
  "rp_symbol runner_replay = ''BTCUSD''" "rp_timeframe runner_replay = ''M1''" "rp_bars_count runner_replay = 7"
  "rp_symbol_info runner_replay = unit_symbol" "rp_runner_config runner_replay = short_config"
  "rp_money_config runner_replay = default_money_config" "rp_caps runner_replay = no_caps"
  "rp_runner_magic runner_replay = 71102" "rp_cycle_interval_bars runner_replay = 5"
  "rp_spread_multiplier runner_replay = 1" "rp_max_efficiency_ratio runner_replay = Some 0"
  "rp_efficiency_ratio_period runner_replay = 14"
  by (simp_all add: runner_replay_def sample_replay_def)

text \<open>The quotes of the last rising bar, and the position of a plan filled there.\<close>

definition rising_tick :: Tick where
  "rising_tick = \<lparr> tick_symbol = ''BTCUSD'', tick_bid = bar_close (sample_bar 6 1) - half_spread_price (sample_bar 6 1) unit_symbol 1,
      tick_ask = bar_close (sample_bar 6 1) + half_spread_price (sample_bar 6 1) unit_symbol 1, tick_time = bar_time (sample_bar 6 1) \<rparr>"

definition rising_ledger :: "OrderPlan \<Rightarrow> BacktestLedger" where
  "rising_ledger plan =
     \<lparr> bl_next_ticket = 2,
       bl_open_positions = [(1, \<lparr> bp_ticket = 1, bp_symbol = op_symbol plan, bp_side = BUY, bp_volume = op_volume plan,
         bp_price_open = tick_ask rising_tick, bp_sl = op_sl plan, bp_tp = op_tp plan, bp_magic = op_magic plan,
         bp_comment = op_comment plan, bp_opened_at = Aware (minutes 6) \<rparr>)],
       bl_pending_orders = [], bl_closed_trades = [] \<rparr>"

lemma runner_replay_run:
  obtains plan signal i where "run_backtest runner_replay rising = Inr (rising_ledger plan)"
    "signal_to_trade_intent signal = Some i" "runner_signal rising short_config = Inr signal"
    "runner_plan rising unit_symbol rising_tick short_config default_money_config no_caps 71102 [] [] i = Inr (Some plan)"
    "op_side plan = BUY"
proof -
  let ?md = "BacktestMarketDataSource rising unit_symbol 1" and ?ex = "BacktestOrderExecutor rising unit_symbol 1"
    and ?s = "\<lparr> bt_index = 6, bt_ledger = empty_ledger \<rparr>"
  obtain signal i where signal: "runner_signal rising short_config = Inr signal" "signal_to_trade_intent signal = Some i"
      and plans: "\<forall>tick magic. \<exists>plan. runner_plan rising unit_symbol tick short_config default_money_config no_caps magic [] [] i = Inr (Some plan) \<and>
       op_side plan = BUY \<and> op_order_type plan = MARKET"
    by (rule rising_plans)
  have bar: "current_bar rising ?s = (Inr (sample_bar 6 1), ?s)"
    by (simp add: current_bar_def py_index_def rising_def)
  have visible: "visible_bars rising 7 ?s = (Inr rising, ?s)"
    by (simp add: visible_bars_def get_io_def py_slice_def py_clip_def rising_def)
  obtain plan where plan: "runner_plan rising unit_symbol rising_tick short_config default_money_config no_caps 71102 [] [] i = Inr (Some plan)"
      "op_order_type plan = MARKET" "op_side plan = BUY" using plans by blast
  let ?l = "rising_ledger plan"
  have time: "bar_time (sample_bar 6 1) = Aware (minutes 6)" by (simp add: sample_bar_def)
  obtain r where sent: "bt_submit rising unit_symbol 1 plan ?s = (Inr r, \<lparr> bt_index = 6, bt_ledger = ?l \<rparr>)"
    unfolding bt_submit_def bind_io_go [where m = "current_bar rising" and s = ?s, OF bar]
    using plan(2,3) by (simp add: Let_def ledger_op_def on_ledger_def add_open_position_def new_ticket_def empty_ledger_def io_simps
        rising_ledger_def rising_tick_def time)
  have "run_runner_cycle ?md (BacktestAccountReader (fint 10000)) ?ex ''BTCUSD'' ''M1'' 7 short_config default_money_config no_caps 71102 None ?s =
      (Inr (Some r), \<lparr> bt_index = 6, bt_ledger = ?l \<rparr>)"
    using bar visible sent signal plan(1) unfolding rising_tick_def
    by (simp add: run_runner_cycle_def own_exposure_def BacktestMarketDataSource_def BacktestAccountReader_def
        BacktestOrderExecutor_def rising_tick_def Let_def bind_io_def return_io_def lift_io_def get_io_def positions_for_def orders_for_def empty_ledger_def)
  moreover have "skip_grid runner_replay rising ?s = (Inr True, ?s)"
    using visible by (simp add: skip_grid_def efficiency_ratio_def rising_def bind_io_def return_io_def lift_io_def)
  ultimately have "replay_cycles runner_replay rising ?s = (Inr (), \<lparr> bt_index = 6, bt_ledger = ?l \<rparr>)"
    by (simp add: replay_cycles_def Let_def bind_io_def return_io_def)
  moreover have "check_fills_and_exits (sample_bar 6 1) empty_ledger = (Inr (), empty_ledger)"
    by (simp add: check_fills_and_exits_def empty_ledger_def io_simps)
  ultimately have "replay_bar runner_replay rising 6 initial_state = (Inr (), \<lparr> bt_index = 6, bt_ledger = ?l \<rparr>)"
    using bar by (simp add: replay_bar_def modify_io_def bind_io_def on_ledger_def initial_state_def)
  then have "replay_range runner_replay rising 6 7 initial_state = (Inr (), \<lparr> bt_index = 6, bt_ledger = ?l \<rparr>)"
    by (simp add: replay_range_def bind_io_def return_io_def)
  then have "run_backtest runner_replay rising = Inr ?l"
    by (simp add: run_backtest_def rising_def)
  then show thesis by (rule that) (use signal plan in simp_all)
qed

theorem backtest_ledger_sound_witness:
  "\<exists>l. run_backtest runner_replay rising = Inr l \<and> open_tickets l = {1}"
proof -
  obtain l where l: "run_backtest runner_replay rising = Inr l" "bl_next_ticket l = 2" "bl_pending_orders l = []" "bl_closed_trades l = []"
    using runner_replay_run by (metis rising_ledger_def BacktestLedger.select_convs)
  have "increasing rising" by (simp add: increasing_def rising_def sample_bar_def)
  then have "open_tickets l = {1 ..< 2}"
    using backtest_ledger_sound [OF l(1)] l by (simp add: ticket_defs)
  also have "\<dots> = {1}" by auto
  finally show ?thesis using l(1) by blast
qed

text \<open>
  The number of bars is not checked: with 0 the replay starts at position -1, which is the last
  bar.
\<close>

lemma zero_bars_start_at_the_end:
  assumes "bars \<noteq> []"
  shows "rp_bars_count c = 0 \<Longrightarrow> [rp_bars_count c - 1..int (length bars) - 1] = - 1 # [0..int (length bars) - 1]"
    "current_bar bars \<lparr> bt_index = - 1, bt_ledger = l \<rparr> = (Inr (last bars), \<lparr> bt_index = - 1, bt_ledger = l \<rparr>)"
proof -
  show "rp_bars_count c = 0 \<Longrightarrow> [rp_bars_count c - 1..int (length bars) - 1] = - 1 # [0..int (length bars) - 1]"
    using upto_rec1 [of "- 1" "int (length bars) - 1"] by simp
  have "nat (int (length bars) - 1) = length bars - 1" by simp
  then show "current_bar bars \<lparr> bt_index = - 1, bt_ledger = l \<rparr> = (Inr (last bars), \<lparr> bt_index = - 1, bt_ledger = l \<rparr>)"
    using assms by (cases bars) (simp_all add: current_bar_def py_index_def last_conv_nth)
qed

end
