(* ===== verification/Backtest_Data.thy ===== *)
theory Backtest_Data
  imports Backtest_Ledger
begin

text \<open>
  The statistics over closed trades in \<^verbatim>\<open>backtest/metrics.py\<close> and the file of bars in
  \<^verbatim>\<open>backtest/market_data_cache.py\<close>. Shown: the drawdown is the largest decline of the
  cumulative curve, bars survive the file, a merge keeps one bar per instant, and a split loses
  nothing but can leave the test part empty.
\<close>

section \<open>Statistics\<close>

definition min_trades_for_a_claim :: int where
  "min_trades_for_a_claim = 30"

definition expectancy_r :: "ClosedTrade list \<Rightarrow> pyfloat result" where
  "expectancy_r trades =
     (if trades = [] then Inl ValueError
      else Inr (py_sum (map ct_r_multiple trades) / fint (int (length trades))))"

text \<open>The loop of \<open>max_drawdown_r\<close>: cumulative R, its peak, the largest decline so far.\<close>

fun drawdown :: "pyfloat \<Rightarrow> pyfloat \<Rightarrow> pyfloat \<Rightarrow> pyfloat list \<Rightarrow> pyfloat" where
  "drawdown cumulative peak max_dd [] = max_dd"
| "drawdown cumulative peak max_dd (r # rs) =
     (let cumulative = cumulative + r; peak = max peak cumulative
      in drawdown cumulative peak (max max_dd (peak - cumulative)) rs)"

definition max_drawdown_r :: "ClosedTrade list \<Rightarrow> pyfloat result" where
  "max_drawdown_r trades =
     (if trades = [] then Inl ValueError else Inr (drawdown 0 0 0 (map ct_r_multiple trades)))"

definition has_minimum_sample :: "ClosedTrade list \<Rightarrow> int \<Rightarrow> bool" where
  "has_minimum_sample trades minimum \<longleftrightarrow> int (length trades) \<ge> minimum"

text \<open>The quotient of two integers is rounded once.\<close>

definition win_rate :: "ClosedTrade list \<Rightarrow> pyfloat result" where
  "win_rate trades =
     (if trades = [] then Inl ValueError
      else Inr (flt (of_nat (length (filter (\<lambda>t. ct_r_multiple t > 0) trades)) / of_nat (length trades))))"

datatype ratio = Finite pyfloat | Infinite

definition profit_factor :: "ClosedTrade list \<Rightarrow> ratio result" where
  "profit_factor trades =
     (if trades = [] then Inl ValueError
      else let rs = map ct_r_multiple trades;
               gross_profit = py_sum (filter (\<lambda>r. r > 0) rs);
               gross_loss = py_sum (map uminus (filter (\<lambda>r. r < 0) rs))
           in Inr (if gross_loss = 0 then (if gross_profit > 0 then Infinite else Finite 0)
                   else Finite (gross_profit / gross_loss)))"

text \<open>The cumulative curve, with its starting point 0.\<close>

fun curve :: "pyfloat \<Rightarrow> pyfloat list \<Rightarrow> pyfloat list" where
  "curve c [] = [c]"
| "curve c (r # rs) = c # curve (c + r) rs"

fun declines :: "pyfloat list \<Rightarrow> pyfloat set" where
  "declines [] = {}"
| "declines (c # cs) = insert 0 ((\<lambda>d. c - d) ` set cs) \<union> declines cs"

lemma finite_declines [simp]: "finite (declines cs)"
  by (induction cs) auto

lemma curve_head: "curve c rs = c # tl (curve c rs)"
  by (cases rs) auto

lemma max_sub: "max a b - c = max (a - c) (b - (c :: pyfloat))"
  using pyfloat_diff_mono [of a b c c] pyfloat_diff_mono [of b a c c] by (auto simp: max_def)

lemma drawdown_le_iff:
  assumes "0 \<le> y"
  shows "drawdown c p m rs \<le> y \<longleftrightarrow> m \<le> y \<and> (\<forall>d \<in> set (tl (curve c rs)). p - d \<le> y) \<and>
    (\<forall>x \<in> declines (tl (curve c rs)). x \<le> y)"
proof (induction rs arbitrary: c p m)
  case (Cons r rs)
  have curve: "curve (c + r) rs = (c + r) # tl (curve (c + r) rs)" by (rule curve_head)
  have "drawdown c p m (r # rs) \<le> y \<longleftrightarrow> m \<le> y \<and> max p (c + r) - (c + r) \<le> y \<and>
      (\<forall>d \<in> set (tl (curve (c + r) rs)). max p (c + r) - d \<le> y) \<and>
      (\<forall>x \<in> declines (tl (curve (c + r) rs)). x \<le> y)"
    using Cons.IH [of "c + r" "max p (c + r)"] by (simp add: Let_def)
  also have "\<dots> \<longleftrightarrow> m \<le> y \<and> (\<forall>d \<in> set (curve (c + r) rs). p - d \<le> y) \<and> (\<forall>x \<in> declines (curve (c + r) rs). x \<le> y)"
    using assms by (subst (3 4) curve) (auto simp: max_sub)
  finally show ?case by simp
qed simp

text \<open>
  The drawdown is the largest decline of the cumulative R curve, over all pairs of a point and a
  later one, with the curve starting at 0: it is never negative and no order of a peak and a trough
  escapes it.
\<close>

theorem drawdown_is_largest_decline:
  "trades \<noteq> [] \<Longrightarrow> max_drawdown_r trades = Inr (Max (declines (curve 0 (map ct_r_multiple trades))))"
proof -
  assume "trades \<noteq> []"
  let ?rs = "map ct_r_multiple trades"
  have curve: "curve 0 ?rs = 0 # tl (curve 0 ?rs)" by (rule curve_head)
  have zero: "0 \<in> declines (curve 0 ?rs)" by (subst curve) simp
  then have nonempty: "declines (curve 0 ?rs) \<noteq> {}" by blast
  have iff: "drawdown 0 0 0 ?rs \<le> y \<longleftrightarrow> (\<forall>x \<in> declines (curve 0 ?rs). x \<le> y)" if "0 \<le> y" for y
    using drawdown_le_iff [OF that, of 0 0 0 ?rs] that by (subst curve) auto
  have low: "0 \<le> Max (declines (curve 0 ?rs))" using zero by (intro Max_ge) auto
  have "0 \<le> drawdown 0 0 0 ?rs"
  proof (rule ccontr)
    assume "\<not> 0 \<le> drawdown 0 0 0 ?rs"
    moreover have "m \<le> drawdown c p m rs" for c p m rs
      by (induction rs arbitrary: c p m) (auto simp: Let_def intro: order_trans [OF max.cobounded1])
    ultimately show False by blast
  qed
  then have "drawdown 0 0 0 ?rs = Max (declines (curve 0 ?rs))"
    using iff [OF low] iff [of "drawdown 0 0 0 ?rs"] nonempty by (intro antisym) auto
  then show ?thesis using \<open>trades \<noteq> []\<close> by (simp add: max_drawdown_r_def)
qed

definition sample_trade :: "pyfloat \<Rightarrow> ClosedTrade" where
  "sample_trade r =
     \<lparr> ct_ticket = 1, ct_symbol = ''S'', ct_side = ''BUY'', ct_volume = 1, ct_price_open = fint 100,
       ct_price_close = fint 90, ct_sl = fint 90, ct_tp = fint 120, ct_magic = 1, ct_comment = ''c'',
       ct_opened_at = Aware 0, ct_closed_at = Aware 1, ct_close_reason = ''SL'', ct_r_multiple = r,
       ct_notional_pnl = 0 \<rparr>"

theorem drawdown_is_largest_decline_witness:
  "max_drawdown_r [sample_trade 1, sample_trade (- 1)] = Inr (Max {0, - 1, 1})"
proof -
  have "declines (curve 0 [1, - 1]) = {0, - 1, 1}"
    by (auto simp: pyfloat_eq_iff rat_of_arith)
  then show ?thesis
    using drawdown_is_largest_decline [of "[sample_trade 1, sample_trade (- 1)]"] by (simp add: sample_trade_def)
qed

section \<open>The file of bars\<close>

text \<open>
  A cell holding a number stands for the text \<^verbatim>\<open>str\<close> writes for it, which \<^verbatim>\<open>float\<close> and
  \<^verbatim>\<open>int\<close> read back exactly.
\<close>

datatype csv_value = Cell_text string | Cell_float pyfloat | Cell_int int

type_synonym csv_table = "(string \<times> csv_value) list list"
type_synonym cache = "(string \<times> csv_table) list"

fun float_of_cell :: "csv_value \<Rightarrow> pyfloat result" where
  "float_of_cell (Cell_text s) = of_option ValueError (float_of_string s)"
| "float_of_cell (Cell_float x) = Inr x"
| "float_of_cell (Cell_int n) = Inr (fint n)"

fun int_of_cell :: "csv_value \<Rightarrow> int result" where
  "int_of_cell (Cell_text s) = of_option ValueError (int_of_string s)"
| "int_of_cell (Cell_float x) = Inl ValueError"
| "int_of_cell (Cell_int n) = Inr n"

fun time_of_cell :: "csv_value \<Rightarrow> datetime result" where
  "time_of_cell (Cell_text s) = of_option ValueError (fromisoformat s)"
| "time_of_cell _ = Inl ValueError"

definition cache_path :: "string \<Rightarrow> string \<Rightarrow> string \<Rightarrow> string" where
  "cache_path base_dir symbol timeframe = base_dir @ ''/'' @ symbol @ ''_'' @ timeframe @ ''.csv''"

definition bar_row :: "MarketBar \<Rightarrow> (string \<times> csv_value) list" where
  "bar_row b =
     [(''time'', Cell_text (isoformat (bar_time b))), (''open'', Cell_float (bar_open b)),
      (''high'', Cell_float (bar_high b)), (''low'', Cell_float (bar_low b)), (''close'', Cell_float (bar_close b)),
      (''tick_volume'', Cell_int (bar_tick_volume b)), (''spread'', Cell_int (bar_spread b))]"

definition save_bars :: "string \<Rightarrow> MarketBar list \<Rightarrow> (cache, exn, unit) io" where
  "save_bars path bars = (\<lambda>files.
     if bars = [] then (Inl ValueError, files)
     else if card (bar_symbol ` set bars) \<noteq> 1 \<or> card (bar_timeframe ` set bars) \<noteq> 1 then (Inl ValueError, files)
     else case sort_by_time bar_time bars of
         Inl e \<Rightarrow> (Inl e, files)
       | Inr ordered \<Rightarrow> (Inr (), dict_put path (map bar_row ordered) files))"

definition row_field :: "(string \<times> csv_value) list \<Rightarrow> string \<Rightarrow> (csv_value \<Rightarrow> 'a result) \<Rightarrow> 'a result" where
  "row_field row k f = bind_res (of_option KeyError (map_of row k)) f"

definition row_bar :: "string \<Rightarrow> string \<Rightarrow> (string \<times> csv_value) list \<Rightarrow> MarketBar result" where
  "row_bar symbol timeframe row =
     bind_res (row_field row ''time'' time_of_cell) (\<lambda>time. bind_res (row_field row ''open'' float_of_cell) (\<lambda>open_price.
     bind_res (row_field row ''high'' float_of_cell) (\<lambda>high. bind_res (row_field row ''low'' float_of_cell) (\<lambda>low.
     bind_res (row_field row ''close'' float_of_cell) (\<lambda>close_price.
     bind_res (row_field row ''tick_volume'' int_of_cell) (\<lambda>tick_volume.
     bind_res (row_field row ''spread'' int_of_cell) (\<lambda>spread.
       Inr \<lparr> bar_symbol = symbol, bar_timeframe = timeframe, bar_time = time, bar_open = open_price,
             bar_high = high, bar_low = low, bar_close = close_price, bar_tick_volume = tick_volume,
             bar_spread = spread \<rparr>)))))))"

definition load_bars :: "string \<Rightarrow> string \<Rightarrow> string \<Rightarrow> (cache, exn, MarketBar list) io" where
  "load_bars path symbol timeframe = (\<lambda>files.
     case map_of files path of
       None \<Rightarrow> (Inr [], files)
     | Some rows \<Rightarrow> (bind_res (traverse (row_bar symbol timeframe) rows) (sort_by_time bar_time), files))"

text \<open>A dict keyed by time, in the order the times first occur; a later bar replaces an earlier one.\<close>

definition bars_by_time :: "MarketBar list \<Rightarrow> (datetime \<times> MarketBar) list \<Rightarrow> (datetime \<times> MarketBar) list" where
  "bars_by_time bars d = foldl (\<lambda>d b. dict_put (bar_time b) b d) d bars"

definition merge_bars :: "MarketBar list \<Rightarrow> MarketBar list \<Rightarrow> MarketBar list result" where
  "merge_bars existing new =
     sort_by_time bar_time (map snd (bars_by_time new (bars_by_time existing [])))"

definition split_index :: "nat \<Rightarrow> pyfloat \<Rightarrow> int" where
  "split_index n train_fraction = max 1 (min (int n - 1) (py_round (fint (int n) * train_fraction)))"

definition split_bars :: "MarketBar list \<Rightarrow> pyfloat \<Rightarrow> (MarketBar list \<times> MarketBar list) result" where
  "split_bars bars train_fraction =
     (if bars = [] then Inl ValueError
      else if \<not> (0 < train_fraction \<and> train_fraction < 1) then Inl ValueError
      else let i = nat (split_index (length bars) train_fraction) in Inr (take i bars, drop i bars))"

section \<open>What the file keeps\<close>

lemma row_bar_inverse:
  assumes "iso_range (bar_time b)"
  shows "row_bar (bar_symbol b) (bar_timeframe b) (bar_row b) = Inr b"
  using assms by (simp add: row_bar_def bar_row_def row_field_def isoformat_roundtrip)

lemma sort_by_time_idem:
  assumes "sort_by_time f xs = Inr ys"
  shows "sort_by_time f ys = Inr ys"
proof -
  have "set ys = set xs" "sorted (map (\<lambda>x. ticks (f x)) ys)" "one_kind (map f xs)"
    using sort_by_time_Inr [OF assms] by simp_all
  then show ?thesis
    by (auto simp: sort_by_time_def one_kind_def list_all_iff sorted_sort_id sort_key_id_if_sorted)
qed

text \<open>
  A file of bars returns what was saved in it: after \<open>save_bars\<close> of bars of one symbol and
  timeframe, \<open>load_bars\<close> with the same names returns exactly these bars, oldest first.
\<close>

theorem bars_roundtrip:
  assumes "save_bars path bars files = (Inr (), files')"
    and "\<forall>b \<in> set bars. bar_symbol b = symbol \<and> bar_timeframe b = timeframe \<and> iso_range (bar_time b)"
  shows "\<exists>ordered. load_bars path symbol timeframe files' = (Inr ordered, files') \<and>
    set ordered = set bars \<and> length ordered = length bars \<and> sorted (map (\<lambda>b. ticks (bar_time b)) ordered)"
proof -
  obtain ordered where ord: "sort_by_time bar_time bars = Inr ordered"
      and files': "files' = dict_put path (map bar_row ordered) files"
    using assms(1) by (auto simp: save_bars_def split: if_splits sum.splits)
  note sorted = sort_by_time_Inr [OF ord]
  have "list_all2 (\<lambda>row b. row_bar symbol timeframe row = Inr b) (map bar_row xs) xs"
    if "set xs \<subseteq> set bars" for xs
    using that assms(2) by (induction xs) (auto simp: row_bar_inverse [of b for b, symmetric])
  then have "traverse (row_bar symbol timeframe) (map bar_row ordered) = Inr ordered"
    using sorted by (simp add: traverse_Inr_iff)
  then have "load_bars path symbol timeframe files' = (Inr ordered, files')"
    using sort_by_time_idem [OF ord] by (simp add: load_bars_def files')
  then show ?thesis using sorted by blast
qed

definition sample_bars :: "MarketBar list" where
  "sample_bars = [\<lparr> bar_symbol = ''S'', bar_timeframe = ''M1'', bar_time = Aware 60000000, bar_open = 1, bar_high = 1,
     bar_low = 1, bar_close = 1, bar_tick_volume = 1, bar_spread = 1 \<rparr>]"

theorem bars_roundtrip_witness:
  "\<exists>files'. save_bars ''p'' sample_bars [] = (Inr (), files') \<and>
     (\<exists>ordered. load_bars ''p'' ''S'' ''M1'' files' = (Inr ordered, files') \<and> length ordered = 1)"
proof -
  have "iso_range (Aware 60000000)" by (simp add: iso_range_def day_us_def) code_simp
  then have "\<forall>b \<in> set sample_bars. bar_symbol b = ''S'' \<and> bar_timeframe b = ''M1'' \<and> iso_range (bar_time b)"
    by (simp add: sample_bars_def)
  moreover obtain files' where run: "save_bars ''p'' sample_bars [] = (Inr (), files')"
    by (auto simp: save_bars_def sample_bars_def sort_by_time_def one_kind_def)
  moreover have "length sample_bars = 1" by (simp add: sample_bars_def)
  ultimately show ?thesis
    using bars_roundtrip [OF run] by metis
qed

definition last_at :: "MarketBar list \<Rightarrow> datetime \<Rightarrow> MarketBar option" where
  "last_at bars t = find (\<lambda>b. bar_time b = t) (rev bars)"

lemma bars_by_time_append: "bars_by_time ys (bars_by_time xs d) = bars_by_time (xs @ ys) d"
  by (simp add: bars_by_time_def)

lemma bars_by_time_facts:
  "map_of (bars_by_time bars []) t = last_at bars t" "distinct (map fst (bars_by_time bars []))"
  "\<forall>(t, b) \<in> set (bars_by_time bars []). bar_time b = t"
proof (induction bars rule: rev_induct)
  case (snoc b bars)
  have step: "bars_by_time (bars @ [b]) [] = dict_put (bar_time b) b (bars_by_time bars [])"
    by (simp add: bars_by_time_def)
  {
    case 1
    show ?case using snoc(1) by (simp add: step last_at_def)
  next
    case 2
    show ?case using snoc(2) by (simp add: step distinct_dict_put)
  next
    case 3
    show ?case using snoc(3) set_dict_put [of "bar_time b" b "bars_by_time bars []"] by (auto simp: step)
  }
qed (simp_all add: bars_by_time_def last_at_def)

lemma bars_by_time_values:
  "b \<in> set (map snd (bars_by_time bars [])) \<longleftrightarrow> last_at bars (bar_time b) = Some b"
proof -
  have "last_at bars (bar_time b) = Some b \<longleftrightarrow> (bar_time b, b) \<in> set (bars_by_time bars [])"
    using bars_by_time_facts(1,2) by (metis map_of_eq_Some_iff)
  then show ?thesis using bars_by_time_facts(3) [of bars] by force
qed

lemma strictly_sorted:
  assumes "distinct (map f xs)" "sorted (map (\<lambda>x. ticks (f x)) xs)" "one_kind (map f xs)"
  shows "sorted_wrt (<) (map (\<lambda>x. ticks (f x)) xs)"
proof -
  have "inj_on ticks (set (map f xs))"
    using assms(3) datetime_eq_ticks by (auto simp: one_kind_def inj_on_def list_all_iff)
  then have "distinct (map ticks (map f xs))" using assms(1) by (simp add: distinct_map comp_inj_on)
  then show ?thesis using assms(2) by (simp add: strict_sorted_iff comp_def)
qed

text \<open>
  A merge holds exactly one bar per instant, in strictly increasing time: the last of the new
  bars at that instant, or the last of the existing ones when no new bar has it.
\<close>

theorem merge_one_bar_per_time:
  assumes "merge_bars existing new = Inr merged"
  shows "sorted_wrt (<) (map (\<lambda>b. ticks (bar_time b)) merged) \<and>
    (\<forall>b. b \<in> set merged \<longleftrightarrow> last_at (existing @ new) (bar_time b) = Some b)"
proof -
  let ?d = "bars_by_time (existing @ new) []"
  have sort: "sort_by_time bar_time (map snd ?d) = Inr merged"
    using assms by (simp add: merge_bars_def bars_by_time_append)
  note m = sort_by_time_Inr [OF sort]
  have keys: "map (\<lambda>x. bar_time (snd x)) ?d = map fst ?d"
    using bars_by_time_facts(3) [of "existing @ new"] by auto
  have "distinct (map bar_time (map snd ?d))"
    unfolding map_map comp_def keys by (rule bars_by_time_facts(2))
  then have "card (bar_time ` set (map snd ?d)) = length (map snd ?d)"
    by (metis distinct_card length_map set_map)
  then have "distinct (map bar_time merged)"
    using m(1,2) by (intro card_distinct) simp
  moreover have "one_kind (map bar_time merged)"
    using m(4) by (simp only: one_kind_def list_all_iff set_map m(1) simp_thms)
  ultimately show ?thesis
    using m bars_by_time_values [of _ "existing @ new"] by (simp add: strictly_sorted)
qed

theorem merge_one_bar_per_time_witness:
  "\<exists>merged. merge_bars sample_bars sample_bars = Inr merged \<and>
     sorted_wrt (<) (map (\<lambda>b. ticks (bar_time b)) merged)"
proof -
  obtain merged where run: "merge_bars sample_bars sample_bars = Inr merged"
    by (auto simp: merge_bars_def sample_bars_def bars_by_time_def sort_by_time_def one_kind_def)
  then show ?thesis using merge_one_bar_per_time by blast
qed

text \<open>
  A split loses and reorders nothing, and its training part is never empty; the test part is
  empty exactly for a single bar, which the code's comment rules out.
\<close>

theorem split_bars_partition:
  assumes "split_bars bars fraction = Inr (train, test)"
  shows "bars = train @ test \<and> train \<noteq> [] \<and> (test = [] \<longleftrightarrow> length bars = 1)"
proof -
  let ?i = "split_index (length bars) fraction"
  have ne: "bars \<noteq> []" and parts: "train = take (nat ?i) bars" "test = drop (nat ?i) bars"
    using assms by (auto simp: split_bars_def Let_def split: if_splits)
  have "1 \<le> ?i" "?i \<le> max 1 (int (length bars) - 1)" by (auto simp: split_index_def)
  moreover have "1 \<le> length bars" using ne by (cases bars) auto
  ultimately show ?thesis using parts ne by auto
qed

theorem split_bars_partition_witness:
  "\<exists>train test. split_bars sample_bars (flt (4 / 5)) = Inr (train, test) \<and> test = []"
proof -
  have "0 < flt (4 / 5)" "flt (4 / 5) < 1"
  proof -
    have "flt (4 / 5) \<le> flt (1 - 1 / 2 ^ 3)" by (rule flt_mono) simp
    also have "rat_of (flt (1 - 1 / 2 ^ 3)) = 1 - 1 / 2 ^ 3" using rnd_dyadic [of 7 3] by simp
    then have "flt (1 - 1 / 2 ^ 3) < 1" by (simp add: pyfloat_less_iff)
    finally show "flt (4 / 5) < 1" .
  qed simp
  then obtain train test where run: "split_bars sample_bars (flt (4 / 5)) = Inr (train, test)"
    by (auto simp: split_bars_def sample_bars_def Let_def)
  moreover have "length sample_bars = 1" by (simp add: sample_bars_def)
  ultimately show ?thesis using split_bars_partition [OF run] by blast
qed

end
