(* ===== verification/Backtest_Studies.thy ===== *)
theory Backtest_Studies
  imports Smoke_Tests Backtest_Engine Backtest_Data "HOL-Library.Multiset"
begin

text \<open>
  The studies over cached bars under \<^verbatim>\<open>scripts/\<close>: the backtest of the production defaults, the
  cost stress test, the parameter sweeps, the validations on the held-out window and the split by
  regime. Their state is the live side, which they ask for the description of the symbol only,
  beside the cache of bars; their reports are their results. Shown: what is swept never depends on
  the held-out window, the split by regime loses no trade and finds the entry bar of every one.
\<close>

section \<open>Instants and samples\<close>

text \<open>\<^verbatim>\<open>datetime(y, m, d, h, mi, s, tzinfo=timezone.utc)\<close>.\<close>

definition utc :: "int \<Rightarrow> int \<Rightarrow> int \<Rightarrow> int \<Rightarrow> int \<Rightarrow> int \<Rightarrow> datetime" where
  "utc y m d h mi s = Aware ((ymd2ord y m d - 719163) * day_us + hours h + minutes mi + seconds s)"

text \<open>\<^verbatim>\<open>[x for x in xs if p(x)]\<close> where the test can raise.\<close>

fun filter_res :: "('a \<Rightarrow> 'e + bool) \<Rightarrow> 'a list \<Rightarrow> 'e + 'a list" where
  "filter_res p [] = Inr []"
| "filter_res p (x # xs) =
     bind_res (p x) (\<lambda>b. bind_res (filter_res p xs) (\<lambda>ys. Inr (if b then x # ys else ys)))"

text \<open>\<^verbatim>\<open>a <= b\<close> of two instants, which raises for a naive one beside an aware one.\<close>

definition dt_le :: "datetime \<Rightarrow> datetime \<Rightarrow> bool result" where
  "dt_le a b = bind_res (of_option TypeError (dt_less b a)) (\<lambda>later. Inr (\<not> later))"

text \<open>\<^verbatim>\<open>statistics.median\<close> of floats.\<close>

definition float_median :: "pyfloat list \<Rightarrow> pyfloat result" where
  "float_median data =
     (let s = sort data; n = length data
      in if n = 0 then Inl ValueError
         else if n mod 2 = 1 then Inr (s ! (n div 2))
         else Inr ((s ! (n div 2 - 1) + s ! (n div 2)) / fint 2))"

section \<open>The shared parts\<close>

definition fetch_symbol_info :: "string \<Rightarrow> 'w env \<Rightarrow> (string \<times> string) list \<Rightarrow> ('w, SymbolInfo) live_io" where
  "fetch_symbol_info symbol env source = script_session env source (\<lambda>env. mcp_get_symbol_info env symbol)"

definition cached_bars :: "string \<Rightarrow> string \<Rightarrow> (cache, exn, MarketBar list) io" where
  "cached_bars symbol timeframe =
     bind_io (load_bars (cache_path ''var/market_data'' symbol timeframe) symbol timeframe) (\<lambda>bars.
       if bars = [] then raise_io RuntimeError else return_io bars)"

text \<open>The production defaults with a fixed lot, one evaluation every five bars.\<close>

definition study_config :: "SymbolInfo \<Rightarrow> replay_config" where
  "study_config symbol_info =
     \<lparr> rp_symbol = ''BTCUSD'', rp_timeframe = ''M1'', rp_bars_count = 100, rp_symbol_info = symbol_info,
       rp_grid_config = default_grid_config, rp_runner_config = default_runner_config,
       rp_money_config = default_money_config\<lparr>mc_lot_size_mode := ''fixed'', mc_fixed_lot := flt (1 / 100)\<rparr>,
       rp_caps = script_caps, rp_grid_magic = 71101, rp_runner_magic = 72101, rp_cycle_interval_bars = 5,
       rp_spread_multiplier = 1, rp_max_efficiency_ratio = None, rp_efficiency_ratio_period = 14 \<rparr>"

text \<open>A line of a report: \<open>None\<close> says that there are no closed trades.\<close>

record trade_row =
  row_trades :: nat
  row_win_percent :: pyfloat
  row_expectancy :: pyfloat
  row_drawdown :: pyfloat
  row_min_sample :: bool

definition trades_row :: "ClosedTrade list \<Rightarrow> trade_row option result" where
  "trades_row trades =
     (if trades = [] then Inr None
      else let wins = length (filter (\<lambda>t. ct_r_multiple t > 0) trades)
           in bind_res (expectancy_r trades) (\<lambda>expectancy.
              bind_res (max_drawdown_r trades) (\<lambda>drawdown.
                Inr (Some \<lparr> row_trades = length trades,
                            row_win_percent = flt (of_nat (100 * wins) / of_nat (length trades)),
                            row_expectancy = expectancy, row_drawdown = drawdown,
                            row_min_sample = has_minimum_sample trades min_trades_for_a_claim \<rparr>))))"

definition trades_of_magic :: "int \<Rightarrow> BacktestLedger \<Rightarrow> ClosedTrade list" where
  "trades_of_magic magic l = filter (\<lambda>t. ct_magic t = magic) (bl_closed_trades l)"

definition magic_row :: "replay_config \<Rightarrow> MarketBar list \<Rightarrow> int \<Rightarrow> trade_row option result" where
  "magic_row c bars magic = bind_res (run_backtest c bars) (\<lambda>l. trades_row (trades_of_magic magic l))"

text \<open>Both strategies of one replay.\<close>

definition both_rows :: "replay_config \<Rightarrow> MarketBar list \<Rightarrow> (trade_row option \<times> trade_row option) result" where
  "both_rows c bars =
     bind_res (run_backtest c bars) (\<lambda>l.
     bind_res (trades_row (trades_of_magic 71101 l)) (\<lambda>grid.
     bind_res (trades_row (trades_of_magic 72101 l)) (\<lambda>runner. Inr (grid, runner))))"

text \<open>A study: the symbol from the terminal, the bars from the cache, the rest from these two alone.\<close>

definition symbol_study ::
  "string \<Rightarrow> 'w env \<Rightarrow> (string \<times> string) list \<Rightarrow> (SymbolInfo \<Rightarrow> MarketBar list \<Rightarrow> 'a result) \<Rightarrow>
   ('w live \<times> cache, exn, 'a) io" where
  "symbol_study symbol env source study =
     bind_io (on_fst (fetch_symbol_info symbol env source)) (\<lambda>symbol_info.
     bind_io (on_snd (cached_bars symbol ''M1'')) (\<lambda>bars. lift_io (study symbol_info bars)))"

definition bar_study ::
  "'w env \<Rightarrow> (string \<times> string) list \<Rightarrow> (SymbolInfo \<Rightarrow> MarketBar list \<Rightarrow> 'a result) \<Rightarrow> ('w live \<times> cache, exn, 'a) io" where
  "bar_study env source study = symbol_study ''BTCUSD'' env source study"

abbreviation train_fraction :: pyfloat where
  "train_fraction \<equiv> flt (4 / 5)"

section \<open>The studies\<close>

text \<open>Open and pending at the end of the replay, and the two rows.\<close>

definition backtest_btcusd_m1 ::
  "'w env \<Rightarrow> (string \<times> string) list \<Rightarrow> ('w live \<times> cache, exn, nat \<times> nat \<times> nat \<times> trade_row option \<times> trade_row option) io" where
  "backtest_btcusd_m1 env source = bar_study env source (\<lambda>symbol_info bars.
     bind_res (run_backtest (study_config symbol_info) bars) (\<lambda>l.
     bind_res (trades_row (trades_of_magic 71101 l)) (\<lambda>grid.
     bind_res (trades_row (trades_of_magic 72101 l)) (\<lambda>runner.
       Inr (length (bl_closed_trades l), length (bl_open_positions l), length (bl_pending_orders l), grid, runner)))))"

definition stress_test ::
  "'w env \<Rightarrow> (string \<times> string) list \<Rightarrow> ('w live \<times> cache, exn, (trade_row option \<times> trade_row option) list) io" where
  "stress_test env source = bar_study env source (\<lambda>symbol_info bars.
     traverse (\<lambda>multiplier. both_rows ((study_config symbol_info)\<lparr>rp_spread_multiplier := multiplier\<rparr>) bars)
       [1, fint 2, fint 5])"

definition threshold_candidates :: "pyfloat option list" where
  "threshold_candidates =
     [None, Some (flt (5 / 1000)), Some (flt (7 / 1000)), Some (flt (8 / 1000)), Some (flt (9 / 1000)), Some (flt (1 / 100)),
      Some (flt (11 / 1000)), Some (flt (12 / 1000)), Some (flt (13 / 1000)), Some (flt (15 / 1000)), Some (flt (17 / 1000)),
      Some (flt (2 / 100))]"

definition regime_filter_rows :: "SymbolInfo \<Rightarrow> MarketBar list \<Rightarrow> trade_row option list result" where
  "regime_filter_rows symbol_info train_bars =
     traverse (\<lambda>threshold. magic_row ((study_config symbol_info)\<lparr>rp_max_efficiency_ratio := threshold\<rparr>) train_bars 71101)
       threshold_candidates"

definition regime_filter_sweep :: "'w env \<Rightarrow> (string \<times> string) list \<Rightarrow> ('w live \<times> cache, exn, trade_row option list) io" where
  "regime_filter_sweep env source = bar_study env source (\<lambda>symbol_info bars.
     bind_res (split_bars bars train_fraction) (\<lambda>(train_bars, _). regime_filter_rows symbol_info train_bars))"

text \<open>The four sweeps; the report of the window first names the bars at both ends of the test window.\<close>

definition runner_sl_candidates :: "pyfloat list" where
  "runner_sl_candidates = [flt (3 / 2), fint 2, flt (5 / 2), fint 3, fint 4]"

definition grid_step_candidates :: "pyfloat list" where
  "grid_step_candidates =
     [flt (15 / 100), flt (2 / 10), flt (25 / 100), flt (3 / 10), flt (4 / 10), flt (5 / 10), flt (6 / 10), flt (8 / 10)]"

definition grid_sl_candidates :: "pyfloat list" where
  "grid_sl_candidates = [1, flt (3 / 2), fint 2, flt (5 / 2), fint 3, fint 4]"

definition coupled_sl :: "pyfloat \<Rightarrow> pyfloat" where
  "coupled_sl step_mult = (step_mult * flt (12 / 10)) / fint 2"

definition tuning_rows :: "SymbolInfo \<Rightarrow> MarketBar list \<Rightarrow> trade_row option list list result" where
  "tuning_rows symbol_info train_bars =
     (let c = study_config symbol_info
      in bind_res (traverse (\<lambda>sl_mult. magic_row
             (c\<lparr>rp_runner_config := default_runner_config\<lparr>rc_sl_atr_mult := sl_mult, rc_tp_atr_mult := sl_mult * fint 2\<rparr>\<rparr>)
             train_bars 72101) runner_sl_candidates) (\<lambda>runner.
         bind_res (traverse (\<lambda>step_mult. magic_row
             (c\<lparr>rp_grid_config := default_grid_config\<lparr>gc_step_mult := step_mult\<rparr>\<rparr>) train_bars 71101) grid_step_candidates) (\<lambda>steps.
         bind_res (traverse (\<lambda>sl_mult. magic_row
             (c\<lparr>rp_grid_config := default_grid_config\<lparr>gc_sl_atr_mult := sl_mult\<rparr>\<rparr>) train_bars 71101) grid_sl_candidates) (\<lambda>stops.
         bind_res (traverse (\<lambda>step_mult. magic_row
             (c\<lparr>rp_grid_config := default_grid_config\<lparr>gc_step_mult := step_mult, gc_sl_atr_mult := coupled_sl step_mult\<rparr>\<rparr>)
             train_bars 71101) grid_step_candidates) (\<lambda>coupled.
           Inr [runner, steps, stops, coupled])))))"

definition ends_of :: "MarketBar list \<Rightarrow> (MarketBar \<times> MarketBar) result" where
  "ends_of bars = bind_res (py_index bars 0) (\<lambda>a. bind_res (py_index bars (- 1)) (\<lambda>b. Inr (a, b)))"

definition tuning_sweep :: "'w env \<Rightarrow> (string \<times> string) list \<Rightarrow> ('w live \<times> cache, exn, trade_row option list list) io" where
  "tuning_sweep env source = bar_study env source (\<lambda>symbol_info bars.
     bind_res (split_bars bars train_fraction) (\<lambda>(train_bars, test_bars).
     bind_res (ends_of test_bars) (\<lambda>_. tuning_rows symbol_info train_bars)))"

text \<open>On the held-out window: the rows of each configuration, as given.\<close>

definition held_out_rows ::
  "(GridStrategyConfig \<times> RunnerStrategyConfig) list \<Rightarrow> SymbolInfo \<Rightarrow> MarketBar list \<Rightarrow> (trade_row option \<times> trade_row option) list result" where
  "held_out_rows configs symbol_info bars =
     bind_res (split_bars bars train_fraction) (\<lambda>(_, test_bars).
     bind_res (ends_of test_bars) (\<lambda>_.
       traverse (\<lambda>(grid_config, runner_config). both_rows
         ((study_config symbol_info)\<lparr>rp_grid_config := grid_config, rp_runner_config := runner_config\<rparr>) test_bars) configs))"

definition test_window_validation ::
  "'w env \<Rightarrow> (string \<times> string) list \<Rightarrow> ('w live \<times> cache, exn, (trade_row option \<times> trade_row option) list) io" where
  "test_window_validation env source = bar_study env source (held_out_rows
     [(default_grid_config, default_runner_config),
      (default_grid_config\<lparr>gc_step_mult := flt (25 / 100)\<rparr>,
       default_runner_config\<lparr>rc_sl_atr_mult := fint 3, rc_tp_atr_mult := fint 6\<rparr>)])"

definition regime_filter_test_window_validation ::
  "'w env \<Rightarrow> (string \<times> string) list \<Rightarrow> ('w live \<times> cache, exn, (trade_row option \<times> trade_row option) list) io" where
  "regime_filter_test_window_validation env source = bar_study env source (held_out_rows
     [(default_grid_config, default_runner_config),
      (default_grid_config\<lparr>gc_max_entry_efficiency_ratio := Some (flt (2 / 10))\<rparr>, default_runner_config)])"

text \<open>The later validation asks nobody: the symbol is written down in the script.\<close>

definition recorded_symbol_info :: SymbolInfo where
  "recorded_symbol_info =
     \<lparr> si_symbol = ''BTCUSD'', si_digits = 2, si_point = flt (1 / 100), si_volume_min = flt (1 / 100), si_volume_max = fint 5,
       si_volume_step = flt (1 / 100), si_stops_level = 10, si_freeze_level = 0, si_filling_modes = [''FOK''], si_spread = 1500 \<rparr>"

definition regime_filter_test_window_validation_0013 :: "(cache, exn, (trade_row option \<times> trade_row option) list) io" where
  "regime_filter_test_window_validation_0013 =
     bind_io (cached_bars ''BTCUSD'' ''M1'') (\<lambda>bars. lift_io (held_out_rows
       [(default_grid_config, default_runner_config),
        (default_grid_config\<lparr>gc_max_entry_efficiency_ratio := Some (flt (2 / 10))\<rparr>, default_runner_config),
        (default_grid_config\<lparr>gc_max_entry_efficiency_ratio := Some (flt (13 / 1000))\<rparr>, default_runner_config)]
       recorded_symbol_info bars))"

section \<open>Regimes\<close>

text \<open>The dict from times to positions: the last bar at a time wins.\<close>

definition time_to_index :: "MarketBar list \<Rightarrow> datetime \<Rightarrow> nat option" where
  "time_to_index bars t =
     (case filter (\<lambda>i. bar_time (bars ! i) = t) [0..<length bars] of [] \<Rightarrow> None | is \<Rightarrow> Some (last is))"

definition regime_window :: "MarketBar list \<Rightarrow> ClosedTrade \<Rightarrow> MarketBar list result" where
  "regime_window bars t =
     bind_res (of_option RuntimeError (time_to_index bars (ct_opened_at t))) (\<lambda>i. Inr (take (i + 1) bars))"

text \<open>The ratio of the bars up to the one a trade came in on.\<close>

definition entry_ratio :: "MarketBar list \<Rightarrow> ClosedTrade \<Rightarrow> (ClosedTrade \<times> pyfloat) result" where
  "entry_ratio bars t = bind_res (regime_window bars t) (\<lambda>w. bind_res (efficiency_ratio w 14) (\<lambda>er. Inr (t, er)))"

record regime_split =
  rs_median :: pyfloat
  rs_ranging :: "ClosedTrade list"
  rs_trending :: "ClosedTrade list"

definition split_by_regime :: "MarketBar list \<Rightarrow> ClosedTrade list \<Rightarrow> regime_split result" where
  "split_by_regime bars trades =
     bind_res (traverse (entry_ratio bars) trades) (\<lambda>er_by_trade.
     bind_res (float_median (map snd er_by_trade)) (\<lambda>median_er.
       Inr \<lparr> rs_median = median_er, rs_ranging = map fst (filter (\<lambda>(_, er). er < median_er) er_by_trade),
             rs_trending = map fst (filter (\<lambda>(_, er). er \<ge> median_er) er_by_trade) \<rparr>))"

text \<open>All the trades of the grid on the training window, the ranging and the trending ones.\<close>

definition regime_analysis ::
  "'w env \<Rightarrow> (string \<times> string) list \<Rightarrow> ('w live \<times> cache, exn, pyfloat \<times> trade_row option \<times> trade_row option \<times> trade_row option) io" where
  "regime_analysis env source = bar_study env source (\<lambda>symbol_info bars.
     bind_res (split_bars bars train_fraction) (\<lambda>(train_bars, _).
     bind_res (run_backtest (study_config symbol_info) train_bars) (\<lambda>l.
     let trades = trades_of_magic 71101 l
     in bind_res (trades_row trades) (\<lambda>every.
        bind_res (split_by_regime train_bars trades) (\<lambda>split.
        bind_res (trades_row (rs_ranging split)) (\<lambda>ranging.
        bind_res (trades_row (rs_trending split)) (\<lambda>trending.
          Inr (rs_median split, every, ranging, trending))))))))"

section \<open>The live-trading window\<close>

definition window_start :: datetime where
  "window_start = utc 2026 8 5 0 0 0"

text \<open>The row, the profit factor and how many positions are still open.\<close>

definition live_window_row :: "replay_config \<Rightarrow> MarketBar list \<Rightarrow> ((trade_row \<times> ratio) option \<times> nat) result" where
  "live_window_row c bars =
     bind_res (run_backtest c bars) (\<lambda>l.
       let trades = trades_of_magic 72101 l;
           still_open = length (filter (\<lambda>x. bp_magic (snd x) = 72101) (bl_open_positions l))
       in bind_res (trades_row trades) (\<lambda>row. case row of
            None \<Rightarrow> Inr (None, still_open)
          | Some r \<Rightarrow> bind_res (profit_factor trades) (\<lambda>f. Inr (Some (r, f), still_open))))"

definition live_window_backtest ::
  "'w env \<Rightarrow> (string \<times> string) list \<Rightarrow> ('w live \<times> cache, exn, ((trade_row \<times> ratio) option \<times> nat) list) io" where
  "live_window_backtest env source = bar_study env source (\<lambda>symbol_info bars.
     bind_res (filter_res (\<lambda>b. dt_le window_start (bar_time b)) bars) (\<lambda>window_bars.
       if window_bars = [] then Inl RuntimeError
       else traverse (\<lambda>runner_config. live_window_row ((study_config symbol_info)\<lparr>rp_runner_config := runner_config\<rparr>) window_bars)
         [default_runner_config, default_runner_config\<lparr>rc_min_stop_distance_fraction_of_price := 0\<rparr>]))"

section \<open>Where a replay enters\<close>

text \<open>Every trade and every open position came in at the time of one of the bars.\<close>

definition entered :: "datetime set \<Rightarrow> BacktestLedger \<Rightarrow> bool" where
  "entered T l \<longleftrightarrow> (\<forall>x \<in> set (bl_open_positions l). bp_opened_at (snd x) \<in> T) \<and>
     (\<forall>t \<in> set (bl_closed_trades l). ct_opened_at t \<in> T)"

definition entering :: "MarketBar list \<Rightarrow> bt_state \<Rightarrow> bool" where
  "entering bars s \<longleftrightarrow> on_bars bars s \<and> entered (bar_time ` set bars) (bt_ledger s)"

lemma entered_open:
  "entered T l \<Longrightarrow> opened \<in> T \<Longrightarrow> entered T (snd (add_open_position symbol side v p sl tp magic cmt opened ticket l))"
  using set_dict_put by (fastforce simp: entered_def add_open_position_def new_ticket_def Let_def split: option.split)

lemma entered_pending: "entered T l \<Longrightarrow> entered T (snd (add_pending_order symbol side v p sl tp magic cmt placed l))"
  by (simp add: entered_def add_pending_order_def new_ticket_def Let_def)

lemma entered_fill: "filled_at \<in> T \<Longrightarrow> agree (entered T) (fill_pending_order ticket filled_at) (fill_pending_order ticket filled_at)"
  by (auto simp: agree_def fill_pending_order_def split: option.split intro!: entered_open) (simp add: entered_def)

lemma entered_close: "agree (entered T) (ledger_close_position ticket price reason exited) (ledger_close_position ticket price reason exited)"
  using map_of_SomeD set_dict_pop
  by (fastforce simp: agree_def entered_def ledger_close_position_def trade_of_def Let_def split: option.split)

lemma entered_bar:
  assumes "bar_time bar \<in> T"
  shows "agree (entered T) (check_fills_and_exits bar) (check_fills_and_exits bar)"
proof -
  have fills: "agree (entered T) (check_fills bar orders just) (check_fills bar orders just)" for orders just
    using assms by (induction bar orders just rule: check_fills.induct) (auto intro!: agree_rules entered_fill)
  have exits: "agree (entered T) (check_exits bar just positions) (check_exits bar just positions)" for just positions
    by (induction bar just positions rule: check_exits.induct) (auto intro!: agree_rules entered_close)
  show ?thesis
    unfolding check_fills_and_exits_def by (intro agree_rules fills exits)
qed

lemma entering_bar: "agree (entering bars) (bind_io (current_bar bars) f) (bind_io (current_bar bars) f)"
  if "\<And>bar. bar \<in> set bars \<Longrightarrow> agree (entering bars) (f bar) (f bar)"
  unfolding agree_def
proof (intro allI impI conjI refl)
  fix s assume s: "entering bars s"
  then have "current_bar bars s = (Inr (bars ! nat (bt_index s)), s)" "bars ! nat (bt_index s) \<in> set bars"
    by (auto simp: entering_def on_bars_def current_bar_def py_index_def)
  then show "entering bars (snd (bind_io (current_bar bars) f s))"
    using that s by (simp add: bind_io_def agree_def)
qed

lemma entering_ledger: "agree (entered (bar_time ` set bars)) m m \<Longrightarrow> agree (entering bars) (on_ledger m) (on_ledger m)"
  by (auto simp: agree_def entering_def on_bars_def on_ledger_def split: prod.split)

lemma entering_op:
  "(\<And>l. entered (bar_time ` set bars) l \<Longrightarrow> entered (bar_time ` set bars) (snd (f l))) \<Longrightarrow>
   agree (entering bars) (ledger_op f) (ledger_op f)"
  unfolding ledger_op_def by (rule entering_ledger) (auto simp: agree_def split: prod.split, metis snd_conv)

lemma entering_submit: "agree (entering bars) (bt_submit bars si k plan) (bt_submit bars si k plan)"
  unfolding bt_submit_def Let_def
  by (intro entering_bar agree_rules entering_op entered_open entered_pending imageI) simp_all

interpretation entry: twin_adapters "entering bars"
  "BacktestMarketDataSource bars si k" "BacktestMarketDataSource bars si k"
  "BacktestAccountReader b" "BacktestAccountReader b"
  "BacktestOrderExecutor bars si k" "BacktestOrderExecutor bars si k" for bars si k b
  by unfold_locales
    (simp_all add: BacktestMarketDataSource_def BacktestAccountReader_def BacktestOrderExecutor_def Let_def
      agree_rules entering_submit entering_bar visible_bars_def)

lemma entering_replay:
  assumes "0 \<le> i" "i < int (length bars)"
  shows "agree (entering bars) (replay_bar c bars i) (replay_bar c bars i)"
proof -
  have "agree (entering bars) (modify_io (\<lambda>s. s\<lparr>bt_index := i\<rparr>)) (modify_io (\<lambda>s. s\<lparr>bt_index := i\<rparr>))"
    using assms by (simp add: agree_def modify_io_def entering_def on_bars_def)
  then show ?thesis
    unfolding replay_bar_def replay_cycles_def skip_grid_def visible_bars_def Let_def
    by (intro agree_bind entering_bar agree_rules entering_ledger entered_bar imageI entry.grid_agrees entry.runner_agrees)
qed

lemma replay_entered:
  assumes "run_backtest c bars = Inr l" "1 \<le> rp_bars_count c"
  shows "entered (bar_time ` set bars) l"
proof -
  let ?i = "rp_bars_count c - 1" and ?n = "int (length bars)"
  have ne: "bars \<noteq> []" and bounds: "1 \<le> rp_cycle_interval_bars c" "rp_bars_count c \<le> ?n"
    using assms by (auto simp: run_backtest_def split: if_split_asm)
  then obtain u s where run: "replay_range c bars ?i ?n initial_state = (Inr u, s)" "l = bt_ledger s"
    using assms by (auto simp: run_backtest_ledger_of ledger_of_def split: prod.splits sum.splits)
  have "entering bars initial_state"
    using ne by (simp add: entering_def on_bars_def entered_def initial_state_def empty_ledger_def)
  moreover have "agree (entering bars) (replay_range c bars ?i ?n) (replay_range c bars ?i ?n)"
    unfolding replay_range_def using assms(2) by (intro agree_for entering_replay) auto
  ultimately have "entering bars s" using run(1) by (auto dest: agreeD(2))
  then show ?thesis using run(2) by (simp add: entering_def)
qed

section \<open>The split by regime\<close>

lemma double_half: "(a + a) / fint 2 = (a :: pyfloat)"
proof -
  have "rnd (2 * rat_of a) = 2 * rat_of a" by (simp add: rnd_double)
  then show ?thesis by (simp add: pyfloat_eq_iff rat_of_arith fint_def)
qed

lemma float_median_le:
  assumes "float_median xs = Inr m"
  shows "m \<le> sort xs ! (length xs div 2)"
proof (cases "length xs mod 2 = 1")
  case False
  let ?a = "sort xs ! (length xs div 2 - 1)" and ?b = "sort xs ! (length xs div 2)"
  have ne: "xs \<noteq> []" using assms by (auto simp: float_median_def Let_def)
  then have "?a \<le> ?b" by (intro sorted_nth_mono) simp_all
  then have "(?a + ?b) / fint 2 \<le> (?b + ?b) / fint 2"
    by (intro pyfloat_divide_right_mono pyfloat_add_mono) simp_all
  then show ?thesis using assms False ne by (simp add: float_median_def Let_def double_half)
qed (use assms in \<open>simp add: float_median_def Let_def split: if_splits\<close>)

text \<open>At most half of a list is below its median.\<close>

lemma below_median:
  assumes "float_median xs = Inr m"
  shows "2 * length (filter (\<lambda>x. x < m) xs) \<le> length xs"
proof -
  let ?s = "sort xs" and ?k = "length xs div 2"
  have "filter (\<lambda>x. x < m) (drop ?k ?s) = []"
  proof (rule filter_False, rule ballI)
    fix x assume "x \<in> set (drop ?k ?s)"
    then obtain j where "j < length xs - ?k" "x = ?s ! (?k + j)" by (auto simp: in_set_conv_nth)
    then have "?s ! ?k \<le> x" by (simp add: sorted_nth_mono)
    then show "\<not> x < m" using float_median_le [OF assms] by simp
  qed
  then have "filter (\<lambda>x. x < m) ?s = filter (\<lambda>x. x < m) (take ?k ?s)"
    by (metis append_Nil2 append_take_drop_id filter_append)
  then have "length (filter (\<lambda>x. x < m) ?s) \<le> ?k"
    using length_filter_le [of "\<lambda>x. x < m" "take ?k ?s"] by simp
  moreover have "length (filter (\<lambda>x. x < m) ?s) = length (filter (\<lambda>x. x < m) xs)"
    by (metis filter_sort length_sort)
  ultimately show ?thesis by simp
qed

lemma time_to_index_found: "t \<in> bar_time ` set bars \<Longrightarrow> time_to_index bars t \<noteq> None"
proof -
  assume "t \<in> bar_time ` set bars"
  then obtain i where "i < length bars" "bar_time (bars ! i) = t" by (auto simp: in_set_conv_nth)
  then have "filter (\<lambda>i. bar_time (bars ! i) = t) [0..<length bars] \<noteq> []" by (auto simp: filter_empty_conv)
  then show ?thesis by (simp add: time_to_index_def split: list.split)
qed

lemma entry_ratios:
  assumes "\<forall>t \<in> set trades. ct_opened_at t \<in> bar_time ` set bars"
  shows "\<exists>ers. traverse (entry_ratio bars) trades = Inr ers \<and> map fst ers = trades"
  using assms
proof (induction trades)
  case (Cons t trades)
  then obtain ers where "traverse (entry_ratio bars) trades = Inr ers" "map fst ers = trades" by auto
  moreover obtain i where "time_to_index bars (ct_opened_at t) = Some i"
    using time_to_index_found Cons.prems by fastforce
  moreover obtain er where "efficiency_ratio (take (i + 1) bars) 14 = Inr er"
    by (cases "efficiency_ratio (take (i + 1) bars) 14") (auto simp: efficiency_ratio_def Let_def split: if_splits)
  ultimately have "entry_ratio bars t = Inr (t, er)" by (simp add: entry_ratio_def regime_window_def)
  with \<open>traverse _ _ = _\<close> \<open>map fst ers = trades\<close> show ?case by simp
qed simp

lemma filter_fst: "mset (map fst (filter (\<lambda>(_, x). P x) xs)) + mset (map fst (filter (\<lambda>(_, x). \<not> P x) xs)) = mset (map fst xs)"
  by (induction xs) auto

text \<open>
  The split by regime accounts for the whole of what it splits. Every trade of a replay came in
  at the time of one of its bars, so the \<^verbatim>\<open>RuntimeError\<close> for a missing bar is never raised: the
  split returns unless there is no trade at all, the ranging and the trending trades together are
  the trades given, and at most half of them are ranging.
\<close>

theorem regime_split_complete:
  assumes "run_backtest c bars = Inr l" "1 \<le> rp_bars_count c"
  shows "\<exists>s. split_by_regime bars (trades_of_magic magic l) =
      (if trades_of_magic magic l = [] then Inl ValueError else Inr s) \<and>
    mset (rs_ranging s) + mset (rs_trending s) = mset (trades_of_magic magic l) \<and>
    2 * length (rs_ranging s) \<le> length (trades_of_magic magic l)"
proof (cases "trades_of_magic magic l = []")
  case True
  then show ?thesis
    by (intro exI [of _ "\<lparr> rs_median = 0, rs_ranging = [], rs_trending = [] \<rparr>"]) (simp add: split_by_regime_def float_median_def)
next
  case False
  let ?trades = "trades_of_magic magic l"
  have "\<forall>t \<in> set ?trades. ct_opened_at t \<in> bar_time ` set bars"
    using replay_entered [OF assms] by (auto simp: entered_def trades_of_magic_def)
  then obtain ers where ers: "traverse (entry_ratio bars) ?trades = Inr ers" "map fst ers = ?trades"
    using entry_ratios by blast
  then have "ers \<noteq> []" using False by auto
  then obtain m where m: "float_median (map snd ers) = Inr m"
    by (cases "length ers mod 2 = 1") (auto simp: float_median_def Let_def)
  have "2 * length (filter (\<lambda>(_, er). er < m) ers) \<le> length ers"
    using below_median [OF m] by (simp add: filter_map comp_def case_prod_unfold)
  moreover have "length ers = length ?trades" using ers(2) by (metis length_map)
  ultimately show ?thesis
    using ers m filter_fst [of "\<lambda>er. er < m" ers] False by (simp add: split_by_regime_def not_less)
qed

text \<open>A replay with one trade: the entry of the rising bars, stopped out on the bar after them.\<close>

definition falling :: "MarketBar list" where
  "falling = rising @ [sample_bar 7 (- 100)]"

lemma falling_trade:
  obtains l t where "run_backtest runner_replay falling = Inr l" "bl_closed_trades l = [t]" "ct_magic t = 71102"
    "ct_opened_at t = Aware (minutes 6)" "ct_closed_at t = Aware (minutes 7)" "bl_pending_orders l = []" "bl_open_positions l = []"
proof -
  obtain plan signal i where run: "run_backtest runner_replay rising = Inr (rising_ledger plan)"
      and i: "signal_to_trade_intent signal = Some i" "runner_signal rising short_config = Inr signal"
      and plan: "runner_plan rising unit_symbol rising_tick short_config default_money_config no_caps 71102 [] [] i = Inr (Some plan)"
      "op_side plan = BUY"
    by (rule runner_replay_run)
  have half: "rnd (1 / 2) = 1 / 2" "rnd (3 / 2) = 3 / 2" "rnd (57 / 2) = 57 / 2" "rnd (59 / 2) = 59 / 2"
    using rnd_dyadic [of 1 1] rnd_dyadic [of 3 1] rnd_dyadic [of 57 1] rnd_dyadic [of 59 1] by simp_all
  have ask: "rat_of (tick_ask rising_tick) = 3 / 2"
    by (simp add: rising_tick_def half_spread_price_def sample_bar_def unit_symbol_def rat_of_arith fint_def half)
  have "flt (1 / 100) \<le> fint 10" unfolding fint_def by (rule flt_mono) simp
  then have d: "compute_stop_distances rising 1 short_config = Inr (fint 10 * fint 3, fint 10 * fint 6)"
    by (simp add: compute_stop_distances_def rising_def Let_def atr_def short_config_def default_runner_config_def sample_bar_def max_def)
  have symbol: "ti_symbol i = ''BTCUSD''"
    using i by (auto simp: runner_signal_def signal_to_trade_intent_def rising_def sample_bar_def result_simps split: if_splits)
  note intent = signal_to_trade_intent_Some [OF i(1)]
  have side: "ti_side i = BUY" and sl: "op_sl plan = py_round_digits (tick_ask rising_tick - fint 10 * fint 3) 0"
      and plan': "op_symbol plan = ''BTCUSD''" "op_magic plan = 71102"
    using plan intent d symbol
    by (auto simp: runner_plan_eq Let_def runner_stops_def market_price_def unit_symbol_def split: if_splits)
  have "rat_of (tick_ask rising_tick - fint 10 * fint 3) = - 57 / 2"
    by (simp add: rat_of_arith ask fint_def half rnd_minus)
  moreover have "round_half_even (57 / 2) = 28" by code_simp
  ultimately have sl': "op_sl plan = fint (- 28)"
    by (simp add: sl py_round_digits_def fint_def round_half_even_minus)
  let ?p = "snd (hd (bl_open_positions (rising_ledger plan)))" and ?bar = "sample_bar 7 (- 100)"
  let ?l = "(rising_ledger plan)\<lparr>bl_open_positions := [], bl_closed_trades := [trade_of ?p 1 (bp_sl ?p) ''SL'' (bar_time ?bar)]\<rparr>"
  have "\<not> \<bar>tick_ask rising_tick - fint (- 28)\<bar> \<le> 0"
    by (simp add: pyfloat_le_iff rat_of_arith ask fint_def half rnd_minus)
  moreover have "fint (- 101) \<le> fint (- 28)" by (rule fint_mono) simp
  ultimately have exit: "check_fills_and_exits ?bar (rising_ledger plan) = (Inr (), ?l)"
    by (simp add: check_fills_and_exits_def rising_ledger_def io_simps sl_hit_def plan' sl' sample_bar_def ledger_close_position_def
        dict_pop_def Let_def)
  have "current_bar falling \<lparr> bt_index = 7, bt_ledger = l \<rparr> = (Inr ?bar, \<lparr> bt_index = 7, bt_ledger = l \<rparr>)" for l
    by (simp add: current_bar_def py_index_def falling_def rising_def)
  then have "resume runner_replay falling 7 (rising_ledger plan) = Inr ?l"
    using exit by (simp add: resume_def replay_range_def falling_def rising_def ledger_of_def replay_bar_def modify_io_def bind_io_def
        on_ledger_def return_io_def)
  then have "run_backtest runner_replay falling = Inr ?l"
    using replay_extends [of runner_replay rising "[?bar]"] run by (simp add: falling_def rising_def)
  then show thesis
    by (rule that [of ?l "trade_of ?p 1 (bp_sl ?p) ''SL'' (bar_time ?bar)"]) (simp_all add: rising_ledger_def trade_of_def Let_def plan' sample_bar_def)
qed

theorem regime_split_complete_witness:
  "\<exists>l s. run_backtest runner_replay falling = Inr l \<and> split_by_regime falling (trades_of_magic 71102 l) = Inr s \<and>
     length (rs_ranging s) + length (rs_trending s) = 1"
proof -
  obtain l t where l: "run_backtest runner_replay falling = Inr l" "bl_closed_trades l = [t]" "ct_magic t = 71102"
    by (rule falling_trade)
  have trades: "trades_of_magic 71102 l = [t]" using l by (simp add: trades_of_magic_def)
  obtain s where "split_by_regime falling [t] = Inr s" "mset (rs_ranging s) + mset (rs_trending s) = {#t#}"
    using regime_split_complete [OF l(1), of 71102] trades by auto
  then show ?thesis
    using l(1) trades by (metis size_mset size_single size_union)
qed

section \<open>What depends on which window\<close>

definition train_part :: "MarketBar list \<Rightarrow> MarketBar list" where
  "train_part bars = take (nat (split_index (length bars) train_fraction)) bars"

definition test_part :: "MarketBar list \<Rightarrow> MarketBar list" where
  "test_part bars = drop (nat (split_index (length bars) train_fraction)) bars"

lemma train_fraction_range: "0 < train_fraction" "train_fraction < 1"
proof -
  have "train_fraction \<le> flt (1 - 1 / 2 ^ 3)" by (rule flt_mono) simp
  also have "rat_of (flt (1 - 1 / 2 ^ 3)) = 1 - 1 / 2 ^ 3" using rnd_dyadic [of 7 3] by simp
  then have "flt (1 - 1 / 2 ^ 3) < 1" by (simp add: pyfloat_less_iff)
  finally show "train_fraction < 1" .
qed simp

lemma split_parts: "bars \<noteq> [] \<Longrightarrow> split_bars bars train_fraction = Inr (train_part bars, test_part bars)"
  using train_fraction_range by (simp add: split_bars_def train_part_def test_part_def Let_def)

abbreviation btc_path :: string where
  "btc_path \<equiv> cache_path ''var/market_data'' ''BTCUSD'' ''M1''"

lemma bar_study_result:
  assumes "load_bars btc_path ''BTCUSD'' ''M1'' c = (Inr bars, c)" "load_bars btc_path ''BTCUSD'' ''M1'' c' = (Inr bars', c')"
    and "bars = [] \<longleftrightarrow> bars' = []" "\<And>si. bars \<noteq> [] \<Longrightarrow> study si bars = study si bars'"
  shows "fst (bar_study env source study (s, c)) = fst (bar_study env source study (s, c'))"
  using assms
  by (auto simp: bar_study_def symbol_study_def cached_bars_def on_fst_def on_snd_def io_simps split: prod.split sum.split)


text \<open>Two bars in the cache: one to train on, one held out.\<close>

definition two_bars :: "int \<Rightarrow> MarketBar list" where
  "two_bars p = [sample_bar 0 5, sample_bar 1 p]"

definition two_bar_cache :: "int \<Rightarrow> cache" where
  "two_bar_cache p = [(btc_path, map bar_row (two_bars p))]"

lemma two_bars_cached: "load_bars btc_path ''BTCUSD'' ''M1'' (two_bar_cache p) = (Inr (two_bars p), two_bar_cache p)"
proof -
  have "iso_range (Aware 60000000)" by (simp add: iso_range_def day_us_def) code_simp
  note range = epoch_ok this
  have "row_bar ''BTCUSD'' ''M1'' (bar_row (sample_bar i q)) = Inr (sample_bar i q)" if "i \<in> {0, 1}" for i q
    using row_bar_inverse [of "sample_bar i q"] range that by (auto simp: sample_bar_def)
  then show ?thesis
    by (simp add: load_bars_def two_bar_cache_def two_bars_def) (simp add: sort_by_time_def one_kind_def sample_bar_def)
qed


section \<open>What the studies change\<close>

text \<open>Nothing but reads on the live side, and the cache stays as it is.\<close>

definition study_effect :: "'w live \<times> cache \<Rightarrow> 'w live \<times> cache \<Rightarrow> bool" where
  "study_effect s t \<longleftrightarrow> calls_only reader_tools (fst s) (fst t) \<and> same_files (fst s) (fst t) \<and> snd t = snd s"

interpretation study: effect study_effect
  by unfold_locales (auto simp: study_effect_def calls.refl files.refl intro: calls.trans files.trans)

lemma session_frames:
  "(\<And>e. keeps (calls_only reader_tools) (body e)) \<Longrightarrow> keeps (calls_only reader_tools) (script_session env source body)"
  "(\<And>e. keeps same_files (body e)) \<Longrightarrow> keeps same_files (script_session env source body)"
proof -
  show "(\<And>e. keeps (calls_only reader_tools) (body e)) \<Longrightarrow> keeps (calls_only reader_tools) (script_session env source body)"
    unfolding keeps_def
  proof (intro allI)
    fix s assume body: "\<And>e. \<forall>s. calls_only reader_tools s (snd (body e s))"
    obtain r t where run: "script_session env source body s = (r, t)" by fastforce
    then have "calls_only reader_tools s t"
    proof (cases rule: session_cases)
      case (ran e s1 t1)
      then have "calls_only reader_tools s t1" using body calls.trans by (metis snd_conv)
      then show ?thesis using ran(4) by (simp add: calls_only_def)
    qed simp
    then show "calls_only reader_tools s (snd (script_session env source body s))" using run by simp
  qed
  show "(\<And>e. keeps same_files (body e)) \<Longrightarrow> keeps same_files (script_session env source body)"
    unfolding keeps_def
  proof (intro allI)
    fix s assume body: "\<And>e. \<forall>s. same_files s (snd (body e s))"
    obtain r t where run: "script_session env source body s = (r, t)" by fastforce
    then have "same_files s t"
    proof (cases rule: session_cases)
      case (ran e s1 t1)
      then have "same_files s t1" using body files.trans by (metis snd_conv)
      then show ?thesis using ran(5) by (simp add: same_files_def)
    qed simp
    then show "same_files s (snd (script_session env source body s))" using run by simp
  qed
qed

lemma symbol_study_reads: "keeps study_effect (symbol_study symbol env source study)"
proof -
  have "keeps (calls_only reader_tools) (fetch_symbol_info symbol env source)" "keeps same_files (fetch_symbol_info symbol env source)"
    unfolding fetch_symbol_info_def by (intro session_frames readers_calls readers_files)+
  then have fetch: "keeps study_effect (on_fst (fetch_symbol_info symbol env source))"
    by (auto simp: keeps_def on_fst_def study_effect_def split: prod.split) (metis snd_conv)+
  have "snd (cached_bars symbol timeframe c) = c" for symbol timeframe c
    by (simp add: cached_bars_def load_bars_def io_simps split: option.split sum.split)
  then have cache: "keeps study_effect (on_snd (cached_bars symbol timeframe))" for symbol timeframe
    by (auto simp: keeps_def on_snd_def study_effect_def calls.refl files.refl split: prod.split) (metis snd_conv)
  show ?thesis unfolding symbol_study_def by (intro study.keeps_rules fetch cache)
qed

lemma study_reads: "keeps study_effect (bar_study env source study)"
  unfolding bar_study_def by (rule symbol_study_reads)

end
