(* ===== verification/Cache_Seed.thy ===== *)
theory Cache_Seed
  imports Backtest_Studies
begin

text \<open>
  The scripts that fill the cache of bars: \<^verbatim>\<open>run_demo_execution_historical_data_cache_seed.py\<close> and
  the two that do so for several timeframes in one session. Shown: a seed adds to the file what it
  fetched and loses none of what was there, it leaves the other files alone, and on the live side it
  and all the studies only read.
\<close>

section \<open>The seeds\<close>

definition bars_path :: "string \<Rightarrow> string \<Rightarrow> string" where
  "bars_path symbol timeframe = cache_path ''var/market_data'' symbol timeframe"

text \<open>The counts before, fetched and after; nothing is saved when nothing came back.\<close>

definition store_fetched :: "string \<Rightarrow> MarketBar list \<Rightarrow> MarketBar list \<Rightarrow> (cache, exn, (nat \<times> nat \<times> nat) option) io" where
  "store_fetched path already_cached fetched =
     (if fetched = [] then return_io None
      else bind_io (lift_io (merge_bars already_cached fetched)) (\<lambda>merged.
           bind_io (save_bars path merged) (\<lambda>_.
             return_io (Some (length already_cached, length fetched, length merged)))))"

text \<open>The session is over before the bars are merged.\<close>

definition historical_data_cache_seed ::
  "'w env \<Rightarrow> (string \<times> string) list \<Rightarrow> ('w live \<times> cache, exn, (nat \<times> nat \<times> nat) option) io" where
  "historical_data_cache_seed env source =
     bind_io (lift_io (load_settings source)) (\<lambda>_.
     bind_io (on_snd (load_bars (bars_path ''BTCUSD'' ''M1'') ''BTCUSD'' ''M1'')) (\<lambda>already_cached.
     bind_io (on_fst (script_session env source (\<lambda>env. mcp_get_bars env ''BTCUSD'' ''M1'' 95000))) (\<lambda>fetched.
       on_snd (store_fetched (bars_path ''BTCUSD'' ''M1'') already_cached fetched))))"

text \<open>A session over a body that also works on the cache: its outcome and the cache leave it together.\<close>

definition carry :: "('a \<times> 'b, 'e, 'x) io \<Rightarrow> 'b \<Rightarrow> ('a, 'e, ('e + 'x) \<times> 'b) io" where
  "carry m c = (\<lambda>s. case m (s, c) of (r, (s', c')) \<Rightarrow> (Inr (r, c'), s'))"

definition session_with_cache ::
  "'w env \<Rightarrow> (string \<times> string) list \<Rightarrow> ('w env \<Rightarrow> ('w live \<times> cache, exn, 'a) io) \<Rightarrow> ('w live \<times> cache, exn, 'a) io" where
  "session_with_cache env source body = (\<lambda>(s, c).
     case script_session env source (\<lambda>e. carry (body e) c) s of
       (Inl e, s') \<Rightarrow> (Inl e, (s', c))
     | (Inr (r, c'), s') \<Rightarrow> (r, (s', c')))"

definition seed_timeframe :: "'w env \<Rightarrow> string \<Rightarrow> string \<Rightarrow> int \<Rightarrow> ('w live \<times> cache, exn, unit) io" where
  "seed_timeframe env symbol timeframe fetch_count =
     bind_io (on_snd (load_bars (bars_path symbol timeframe) symbol timeframe)) (\<lambda>already_cached.
     bind_io (on_fst (mcp_get_bars env symbol timeframe fetch_count)) (\<lambda>fetched.
     bind_io (on_snd (store_fetched (bars_path symbol timeframe) already_cached fetched)) (\<lambda>_. return_io ())))"

definition experiment4_cache_seed :: "'w env \<Rightarrow> (string \<times> string) list \<Rightarrow> ('w live \<times> cache, exn, unit) io" where
  "experiment4_cache_seed env source = session_with_cache env source (\<lambda>env.
     for_io (\<lambda>timeframe. seed_timeframe env ''BTCUSD'' timeframe 60000) [''M15'', ''H1''])"

definition xauusd_cache_seed :: "'w env \<Rightarrow> (string \<times> string) list \<Rightarrow> ('w live \<times> cache, exn, unit) io" where
  "xauusd_cache_seed env source = session_with_cache env source (\<lambda>env.
     for_io (\<lambda>(timeframe, fetch_count). seed_timeframe env ''XAUUSD'' timeframe fetch_count)
       [(''M1'', 95000), (''M15'', 60000), (''H1'', 60000)])"

section \<open>What a seed keeps\<close>

lemma loaded_names:
  assumes "load_bars path symbol timeframe c = (Inr bars, c')"
  shows "\<forall>b \<in> set bars. bar_symbol b = symbol \<and> bar_timeframe b = timeframe"
proof (cases "map_of c path")
  case (Some rows)
  then obtain bs where bs: "traverse (row_bar symbol timeframe) rows = Inr bs" "sort_by_time bar_time bs = Inr bars"
    using assms by (auto simp: load_bars_def result_simps)
  have "\<forall>b \<in> set bs. bar_symbol b = symbol \<and> bar_timeframe b = timeframe"
    using bs(1) by (induction rows arbitrary: bs) (auto simp: result_simps row_bar_def)
  then show ?thesis using sort_by_time_Inr(1) [OF bs(2)] by simp
qed (use assms in \<open>simp add: load_bars_def\<close>)

lemma find_SomeD: "find P xs = Some x \<Longrightarrow> P x \<and> x \<in> set xs"
  by (induction xs) (auto split: if_splits)

lemma last_at_Some: "last_at bars t = Some b \<Longrightarrow> b \<in> set bars \<and> bar_time b = t"
  unfolding last_at_def by (drule find_SomeD) simp

lemma last_at_exists: "t \<in> bar_time ` set bars \<Longrightarrow> \<exists>b. last_at bars t = Some b"
  unfolding last_at_def by (cases "find (\<lambda>b. bar_time b = t) (rev bars)") (auto simp: find_None_iff)

lemma last_at_append:
  "last_at (xs @ ys) t = (case last_at ys t of None \<Rightarrow> last_at xs t | Some b \<Rightarrow> Some b)"
proof -
  have "find P (xs @ ys) = (case find P xs of None \<Rightarrow> find P ys | Some b \<Rightarrow> Some b)" for P and xs ys :: "MarketBar list"
    by (induction xs) auto
  then show ?thesis by (simp add: last_at_def split: option.split)
qed

lemma saved_in_order:
  assumes "save_bars path bars c = (Inr u, c')" "sort_by_time bar_time bars = Inr bars"
    and "\<forall>b \<in> set bars. bar_symbol b = symbol \<and> bar_timeframe b = timeframe \<and> iso_range (bar_time b)"
  shows "c' = dict_put path (map bar_row bars) c" "load_bars path symbol timeframe c' = (Inr bars, c')"
proof -
  show c': "c' = dict_put path (map bar_row bars) c"
    using assms(1,2) by (auto simp: save_bars_def split: if_splits)
  have "list_all2 (\<lambda>row b. row_bar symbol timeframe row = Inr b) (map bar_row xs) xs" if "set xs \<subseteq> set bars" for xs
    using that assms(3) by (induction xs) (auto simp: row_bar_inverse [of b for b, symmetric])
  then have "traverse (row_bar symbol timeframe) (map bar_row bars) = Inr bars" by (simp add: traverse_Inr_iff)
  then show "load_bars path symbol timeframe c' = (Inr bars, c')" using assms(2) by (simp add: load_bars_def c')
qed

lemma merged_in_order:
  assumes "merge_bars cached fetched = Inr merged"
  shows "sort_by_time bar_time merged = Inr merged"
proof -
  have "sort_by_time bar_time (map snd (bars_by_time fetched (bars_by_time cached []))) = Inr merged"
    using assms by (simp add: merge_bars_def)
  then show ?thesis by (rule sort_by_time_idem)
qed

text \<open>
  C33: A seed loses nothing. The bars fetched are merged into the file of their symbol and timeframe
  and into no other: afterwards it holds exactly one bar for every instant that was cached or
  fetched, in strictly increasing time, the fetched one where there is one and the cached one
  otherwise, and reading it back gives these bars. With nothing fetched, and when merging or saving
  raises, no file changes.
\<close>

theorem cache_seed_loses_nothing:
  assumes "load_bars (bars_path symbol timeframe) symbol timeframe c = (Inr cached, c)"
    and "store_fetched (bars_path symbol timeframe) cached fetched c = (r, c')"
    and "\<forall>b \<in> set fetched. bar_symbol b = symbol \<and> bar_timeframe b = timeframe"
    and "\<forall>b \<in> set cached \<union> set fetched. iso_range (bar_time b)"
  shows "(\<forall>path. path \<noteq> bars_path symbol timeframe \<longrightarrow> map_of c' path = map_of c path) \<and>
    (r = Inr None \<or> isl r \<longrightarrow> c' = c) \<and>
    (\<forall>counts. r = Inr (Some counts) \<longrightarrow>
      (\<exists>merged. load_bars (bars_path symbol timeframe) symbol timeframe c' = (Inr merged, c') \<and>
        sorted_wrt (<) (map (\<lambda>b. ticks (bar_time b)) merged) \<and>
        bar_time ` set merged = bar_time ` (set cached \<union> set fetched) \<and>
        (\<forall>b \<in> set merged. case last_at fetched (bar_time b) of
           Some f \<Rightarrow> b = f | None \<Rightarrow> last_at cached (bar_time b) = Some b)))"
proof (cases "fetched = []")
  case True
  then show ?thesis using assms(2) by (auto simp: store_fetched_def return_io_def)
next
  case False
  let ?p = "bars_path symbol timeframe"
  show ?thesis
  proof (cases "merge_bars cached fetched")
    case (Inl e)
    then show ?thesis using assms(2) False by (auto simp: store_fetched_def io_simps)
  next
    case (Inr merged)
    show ?thesis
    proof (cases "save_bars ?p merged c")
      case (Pair q d)
      show ?thesis
      proof (cases q)
        case Inl': (Inl e)
        then have "d = c" using Pair by (auto simp: save_bars_def split: if_splits sum.splits)
        then show ?thesis using assms(2) False Inr Pair Inl' by (auto simp: store_fetched_def io_simps)
      next
        case Inr': (Inr u)
        note m = merge_one_bar_per_time [OF Inr]
        have member: "b \<in> set merged \<longleftrightarrow> last_at (cached @ fetched) (bar_time b) = Some b" for b using m by blast
        then have from': "set merged \<subseteq> set cached \<union> set fetched" using last_at_Some [of "cached @ fetched"] by fastforce
        then have "\<forall>b \<in> set merged. bar_symbol b = symbol \<and> bar_timeframe b = timeframe \<and> iso_range (bar_time b)"
          using assms(3,4) loaded_names [OF assms(1)] by blast
        note saved = saved_in_order [OF Pair [unfolded Inr'] merged_in_order [OF Inr] this]
        have out: "c' = d" "\<not> isl r" "r \<noteq> Inr None"
          using assms(2) False Inr Pair Inr' by (auto simp: store_fetched_def io_simps)
        have "bar_time ` (set cached \<union> set fetched) \<subseteq> bar_time ` set merged"
        proof
          fix t assume "t \<in> bar_time ` (set cached \<union> set fetched)"
          then have "t \<in> bar_time ` set (cached @ fetched)" by simp
          then obtain b where b: "last_at (cached @ fetched) t = Some b" using last_at_exists by blast
          then have "bar_time b = t" using last_at_Some by blast
          then show "t \<in> bar_time ` set merged" using b member by blast
        qed
        then have times: "bar_time ` set merged = bar_time ` (set cached \<union> set fetched)" using from' by blast
        have "\<forall>b \<in> set merged. case last_at fetched (bar_time b) of Some f \<Rightarrow> b = f | None \<Rightarrow> last_at cached (bar_time b) = Some b"
          using member by (auto simp: last_at_append split: option.split_asm option.split)
        then show ?thesis using out saved m times by auto
      qed
    qed
  qed
qed

theorem cache_seed_loses_nothing_witness:
  "\<exists>counts c'. store_fetched btc_path (two_bars 7) [sample_bar 2 9] (two_bar_cache 7) = (Inr (Some counts), c') \<and>
     (\<exists>merged. load_bars btc_path ''BTCUSD'' ''M1'' c' = (Inr merged, c') \<and>
        bar_time ` set merged = {Aware 0, Aware (minutes 1), Aware (minutes 2)})"
proof -
  have "iso_range (Aware (minutes 1))" "iso_range (Aware (minutes 2))"
    by (simp_all add: iso_range_def day_us_def) (code_simp, code_simp)
  note range = epoch_ok this
  have kind: "one_kind [Aware 0, Aware (minutes 1), Aware (minutes 2)]" by (simp add: one_kind_def)
  have "merge_bars (two_bars 7) [sample_bar 2 9] = Inr (two_bars 7 @ [sample_bar 2 9])"
    by (simp add: merge_bars_def bars_by_time_def two_bars_def sample_bar_def sort_by_time_def one_kind_def)
  then have run: "store_fetched btc_path (two_bars 7) [sample_bar 2 9] (two_bar_cache 7) =
      (Inr (Some (2, 1, 3)), dict_put btc_path (map bar_row (two_bars 7 @ [sample_bar 2 9])) (two_bar_cache 7))"
    by (simp add: store_fetched_def io_simps save_bars_def two_bars_def sample_bar_def sort_by_time_def one_kind_def)
  have "\<forall>b \<in> set (two_bars 7) \<union> set [sample_bar 2 9]. iso_range (bar_time b)"
    using range by (simp add: two_bars_def sample_bar_def)
  then obtain merged where "load_bars btc_path ''BTCUSD'' ''M1'' (dict_put btc_path (map bar_row (two_bars 7 @ [sample_bar 2 9])) (two_bar_cache 7)) =
      (Inr merged, dict_put btc_path (map bar_row (two_bars 7 @ [sample_bar 2 9])) (two_bar_cache 7))"
      "bar_time ` set merged = bar_time ` (set (two_bars 7) \<union> set [sample_bar 2 9])"
    using cache_seed_loses_nothing [of "''BTCUSD''" "''M1''", OF two_bars_cached [of 7, folded bars_path_def] run [folded bars_path_def]]
    by (auto simp: bars_path_def sample_bar_def)
  moreover have "bar_time ` (set (two_bars 7) \<union> set [sample_bar 2 9]) = {Aware 0, Aware (minutes 1), Aware (minutes 2)}"
    by (auto simp: two_bars_def sample_bar_def)
  ultimately show ?thesis using run by metis
qed

section \<open>What the scripts change\<close>

definition live_reads :: "'w live \<times> cache \<Rightarrow> 'w live \<times> cache \<Rightarrow> bool" where
  "live_reads s t \<longleftrightarrow> calls_only reader_tools (fst s) (fst t) \<and> same_files (fst s) (fst t)"

interpretation seed: effect live_reads
  by unfold_locales (auto simp: live_reads_def calls.refl files.refl intro: calls.trans files.trans)

lemma on_parts_read:
  "keeps (calls_only reader_tools) m \<Longrightarrow> keeps same_files m \<Longrightarrow> keeps live_reads (on_fst m)"
  "keeps live_reads (on_snd n)"
  by (auto simp: keeps_def on_fst_def on_snd_def live_reads_def calls.refl files.refl split: prod.split) (metis snd_conv)+

lemma carry_reads:
  assumes "keeps live_reads m"
  shows "keeps (calls_only reader_tools) (carry m c)" "keeps same_files (carry m c)"
  using assms by (auto simp: keeps_def carry_def live_reads_def split: prod.split) (metis fst_conv snd_conv)+

lemma session_reads:
  assumes "\<And>e. keeps live_reads (body e)"
  shows "keeps live_reads (session_with_cache env source body)"
proof -
  have "keeps (calls_only reader_tools) (script_session env source (\<lambda>e. carry (body e) c))"
      "keeps same_files (script_session env source (\<lambda>e. carry (body e) c))" for c
    by (intro session_frames carry_reads assms)+
  then show ?thesis
    by (auto simp: keeps_def session_with_cache_def live_reads_def split: prod.split sum.split) (metis snd_conv)+
qed

lemma seed_timeframe_reads: "keeps live_reads (seed_timeframe env symbol timeframe n)"
  unfolding seed_timeframe_def by (intro seed.keeps_rules on_parts_read readers_calls readers_files)

text \<open>
  C34: The studies observe and nothing else. Each of them reaches the server only through the
  read-only tools although its session could trade, writes no order record and leaves the cache as
  it is; the seeds, which write the cache, only read on the live side too.
\<close>

theorem studies_only_observe:
  "keeps study_effect (backtest_btcusd_m1 env source) \<and> keeps study_effect (stress_test env source) \<and>
   keeps study_effect (tuning_sweep env source) \<and> keeps study_effect (regime_filter_sweep env source) \<and>
   keeps study_effect (regime_analysis env source) \<and> keeps study_effect (test_window_validation env source) \<and>
   keeps study_effect (regime_filter_test_window_validation env source) \<and> keeps study_effect (live_window_backtest env source) \<and>
   keeps live_reads (historical_data_cache_seed env source) \<and> keeps live_reads (experiment4_cache_seed env source) \<and>
   keeps live_reads (xauusd_cache_seed env source)"
proof -
  have "keeps (calls_only reader_tools) (script_session env source (\<lambda>env. mcp_get_bars env ''BTCUSD'' ''M1'' 95000))"
      "keeps same_files (script_session env source (\<lambda>env. mcp_get_bars env ''BTCUSD'' ''M1'' 95000))"
    by (intro session_frames readers_calls readers_files)+
  then have "keeps live_reads (historical_data_cache_seed env source)"
    unfolding historical_data_cache_seed_def by (intro seed.keeps_rules on_parts_read)
  moreover have "keeps live_reads (experiment4_cache_seed env source)" "keeps live_reads (xauusd_cache_seed env source)"
    unfolding experiment4_cache_seed_def xauusd_cache_seed_def
    by (intro session_reads seed.keeps_rules seed_timeframe_reads)+
  ultimately show ?thesis
    by (simp add: backtest_btcusd_m1_def stress_test_def tuning_sweep_def regime_filter_sweep_def regime_analysis_def
        test_window_validation_def regime_filter_test_window_validation_def live_window_backtest_def study_reads)
qed

end
