(* ===== verification/Watched_Replay.thy ===== *)
theory Watched_Replay
  imports Cache_Seed "HOL-Library.Sublist"
begin

text \<open>
  A replay whose runner cycles are observed or steered from outside, the way the experiments under
  \<^verbatim>\<open>scripts/\<close> do it: a handler on the logger of \<^verbatim>\<open>pipeline/runner_cycle.py\<close> sees the
  message of every cycle that submits nothing, and a patched \<^verbatim>\<open>runner_signal\<close> replaces the signal.
  Shown: the unpatched cycle with a handler is the cycle of the pipeline, a handler changes nothing
  in the ledger, and the submissions of a replay are its runner cycles less those with a message.
\<close>

section \<open>The runner cycle with its messages\<close>

text \<open>\<^verbatim>\<open>repr\<close> of a tuple of reasons, none of which holds a quote.\<close>

definition reasons_text :: "fstring list \<Rightarrow> fstring" where
  "reasons_text reasons =
     [Lit ''('']
     @ f_join '', '' (map (\<lambda>r. [Lit [char_of (39 :: nat)]] @ r @ [Lit [char_of (39 :: nat)]]) reasons)
     @ [Lit (if length reasons = 1 then '',)'' else '')'')]"

definition flat_message :: "string \<Rightarrow> fstring" where
  "flat_message symbol = [Lit (''[RUNNER] '' @ symbol @ '' FLAT, no action'')]"

definition rejected_message :: "string \<Rightarrow> Side \<Rightarrow> RiskDecision \<Rightarrow> fstring" where
  "rejected_message symbol side d =
     [Lit (''[RUNNER] '' @ symbol @ '' '' @ side_str side @ '' rejected (''
        @ (case rd_blocking_guard d of None \<Rightarrow> ''None'' | Some g \<Rightarrow> g) @ ''): '')] @ reasons_text (rd_reasons d)"

definition unplanned_message :: "string \<Rightarrow> Side \<Rightarrow> fstring" where
  "unplanned_message symbol side =
     [Lit (''[RUNNER] '' @ symbol @ '' '' @ side_str side @ '' price could not be planned, skipping'')]"

text \<open>A directional signal to the plan, or to the message of what stopped it.\<close>

definition planned_or_message ::
  "string \<Rightarrow> MarketBar list \<Rightarrow> SymbolInfo \<Rightarrow> Tick \<Rightarrow> RunnerStrategyConfig \<Rightarrow> MoneyConfig \<Rightarrow> ExposureCaps \<Rightarrow> int \<Rightarrow>
   PositionState list \<Rightarrow> OrderState list \<Rightarrow> TradeIntent \<Rightarrow> (fstring + OrderPlan) result" where
  "planned_or_message symbol bars symbol_info tick runner_config money_config caps magic positions pending_orders intent =
     (let sized = to_sized_intent intent (decide_lot money_config no_lot_inputs);
          exposure_decision = check_exposure_cap (open_lots_of positions) (pending_lots_of pending_orders) (szi_volume sized) caps;
          position_limit_decision = check_position_limit positions (rc_max_concurrent_positions runner_config)
      in bind_res (combine [exposure_decision, position_limit_decision]) (\<lambda>combined.
         if \<not> rd_approved combined then Inr (Inl (rejected_message symbol (ti_side intent) combined))
         else bind_res (compute_stop_distances bars (si_point symbol_info) runner_config) (\<lambda>(sl_distance, tp_distance).
           let reference_price = (if ti_side intent = BUY then tick_ask tick else tick_bid tick);
               (sl, tp) = runner_stops symbol_info (ti_side intent) reference_price sl_distance tp_distance
           in bind_res (build_order_plan sized combined symbol_info tick magic (Some ''runner'') default_deviation sl tp) (\<lambda>plan.
              Inr (case plan of None \<Rightarrow> Inl (unplanned_message symbol (ti_side intent)) | Some p \<Rightarrow> Inr p)))))"

text \<open>\<open>signal_of\<close> stands where the cycle looks up \<^verbatim>\<open>runner_signal\<close>, \<open>heard\<close> for the handlers.\<close>

definition watched_cycle ::
  "'s MarketDataSource \<Rightarrow> 's AccountReader \<Rightarrow> 's OrderExecutor \<Rightarrow> string \<Rightarrow> string \<Rightarrow> int \<Rightarrow> RunnerStrategyConfig \<Rightarrow>
   MoneyConfig \<Rightarrow> ExposureCaps \<Rightarrow> int \<Rightarrow> (MarketBar list \<Rightarrow> ('s, exn, Signal) io) \<Rightarrow> (fstring \<Rightarrow> ('s, exn, unit) io) \<Rightarrow>
   ('s, exn, ExecutionResult option) io" where
  "watched_cycle market_data account executor symbol timeframe bars_count runner_config money_config caps magic signal_of heard =
     bind_io (get_bars market_data symbol timeframe bars_count) (\<lambda>bars.
     bind_io (signal_of bars) (\<lambda>signal.
       case signal_to_trade_intent signal of
         None \<Rightarrow> bind_io (heard (flat_message symbol)) (\<lambda>_. return_io None)
       | Some intent \<Rightarrow>
           bind_io (get_symbol_info market_data symbol) (\<lambda>symbol_info.
           bind_io (get_tick market_data symbol) (\<lambda>tick.
           bind_io (own_exposure account None symbol magic) (\<lambda>(positions, pending_orders).
           bind_io (lift_io (planned_or_message symbol bars symbol_info tick runner_config money_config caps magic
                       positions pending_orders intent)) (\<lambda>outcome.
             case outcome of
               Inl message \<Rightarrow> bind_io (heard message) (\<lambda>_. return_io None)
             | Inr plan \<Rightarrow> bind_io (submit executor plan) (\<lambda>result. return_io (Some result))))))))"

lemma plan_again:
  "bind_res (bind_res r (\<lambda>plan. Inr (case plan of None \<Rightarrow> Inl m | Some p \<Rightarrow> Inr p)))
     (\<lambda>x. Inr (case x of Inl _ \<Rightarrow> None | Inr p \<Rightarrow> Some p)) = r"
  by (cases r) (simp_all split: option.split)

lemma planned_or_message_plan:
  "runner_plan bars si tick rc mc caps magic positions orders i =
     bind_res (planned_or_message symbol bars si tick rc mc caps magic positions orders i)
       (\<lambda>x. Inr (case x of Inl _ \<Rightarrow> None | Inr p \<Rightarrow> Some p))"
proof (cases "rd_approved (check_exposure_cap (open_lots_of positions) (pending_lots_of orders)
      (szi_volume (to_sized_intent i (decide_lot mc no_lot_inputs))) caps) \<and>
    rd_approved (check_position_limit positions (rc_max_concurrent_positions rc))")
  case True
  show ?thesis
  proof (cases "compute_stop_distances bars (si_point si) rc")
    case (Inr d)
    then show ?thesis
      using True by (cases d) (simp add: runner_plan_def planned_or_message_def Let_def combine_pair split_beta plan_again)
  qed (use True in \<open>simp add: runner_plan_def planned_or_message_def Let_def combine_pair\<close>)
next
  case False
  then show ?thesis by (simp only: runner_plan_def planned_or_message_def Let_def combine_pair) simp
qed

text \<open>Unpatched and unheard it is the cycle of the pipeline.\<close>

lemma watched_cycle_plain:
  "watched_cycle md acc ex symbol timeframe n rc mc caps magic (\<lambda>bars. lift_io (runner_signal bars rc)) (\<lambda>_. return_io ()) =
   run_runner_cycle md acc ex symbol timeframe n rc mc caps magic None"
proof -
  have lifted: "bind_io (lift_io (bind_res r (\<lambda>x. Inr (f x)))) g = bind_io (lift_io r) (\<lambda>x. g (f x))" for r :: "exn + 'x" and f g
    by (cases r) (simp_all add: fun_eq_iff io_simps)
  have skip: "bind_io (return_io u) g = g u" for u g by (simp add: io_simps fun_eq_iff)
  have cases: "(case (case x of Inl (_ :: fstring) \<Rightarrow> None | Inr p \<Rightarrow> Some p) of None \<Rightarrow> g | Some p \<Rightarrow> h p) =
      (case x of Inl _ \<Rightarrow> g | Inr p \<Rightarrow> h p)" for x and g h
    by (cases x) simp_all
  show ?thesis
    unfolding watched_cycle_def run_runner_cycle_def planned_or_message_plan [where symbol = symbol] lifted skip cases ..
qed

section \<open>The replay\<close>

definition executor_fst :: "'a OrderExecutor \<Rightarrow> ('a \<times> 'b) OrderExecutor" where
  "executor_fst ex =
     \<lparr> submit = (\<lambda>plan. on_fst (submit ex plan)), cancel = (\<lambda>t. on_fst (cancel ex t)),
       close_position = (\<lambda>t v. on_fst (close_position ex t v)) \<rparr>"

text \<open>The cycles of one bar: \<open>run_backtest\<close>'s, beside the state of what watches or steers them.\<close>

definition watched_cycles ::
  "replay_config \<Rightarrow> MarketBar list \<Rightarrow> (MarketBar list \<Rightarrow> (bt_state \<times> 'x, exn, Signal) io) \<Rightarrow>
   (fstring \<Rightarrow> (bt_state \<times> 'x, exn, unit) io) \<Rightarrow> (bt_state \<times> 'x, exn, unit) io" where
  "watched_cycles c bars signal_of heard =
     (let market_data = market_data_fst (BacktestMarketDataSource bars (rp_symbol_info c) (rp_spread_multiplier c));
          account = account_fst (BacktestAccountReader (fint 10000));
          executor = executor_fst (BacktestOrderExecutor bars (rp_symbol_info c) (rp_spread_multiplier c))
      in bind_io (on_fst (skip_grid c bars)) (\<lambda>skip_grid.
         bind_io (if skip_grid then return_io ()
                  else bind_io (run_grid_cycle market_data account executor (rp_symbol c) (rp_timeframe c)
                         (rp_bars_count c) (rp_grid_config c) (rp_money_config c) (rp_caps c) (rp_grid_magic c) None)
                       (\<lambda>_. return_io ())) (\<lambda>_.
         bind_io (watched_cycle market_data account executor (rp_symbol c) (rp_timeframe c)
                    (rp_bars_count c) (rp_runner_config c) (rp_money_config c) (rp_caps c) (rp_runner_magic c) signal_of heard)
           (\<lambda>_. return_io ()))))"

definition watched_bar ::
  "replay_config \<Rightarrow> MarketBar list \<Rightarrow> (MarketBar list \<Rightarrow> (bt_state \<times> 'x, exn, Signal) io) \<Rightarrow>
   (fstring \<Rightarrow> (bt_state \<times> 'x, exn, unit) io) \<Rightarrow> int \<Rightarrow> (bt_state \<times> 'x, exn, unit) io" where
  "watched_bar c bars signal_of heard i =
     bind_io (on_fst (modify_io (\<lambda>s. s\<lparr>bt_index := i\<rparr>))) (\<lambda>_.
     bind_io (on_fst (current_bar bars)) (\<lambda>bar.
     bind_io (on_fst (on_ledger (check_fills_and_exits bar))) (\<lambda>_.
       if (i - (rp_bars_count c - 1)) mod rp_cycle_interval_bars c = 0 then watched_cycles c bars signal_of heard
       else return_io ())))"

definition watched_backtest ::
  "replay_config \<Rightarrow> MarketBar list \<Rightarrow> (MarketBar list \<Rightarrow> (bt_state \<times> 'x, exn, Signal) io) \<Rightarrow>
   (fstring \<Rightarrow> (bt_state \<times> 'x, exn, unit) io) \<Rightarrow> 'x \<Rightarrow> (BacktestLedger \<times> 'x) result" where
  "watched_backtest c bars signal_of heard x =
     (if int (length bars) < rp_bars_count c then Inl ValueError
      else if rp_cycle_interval_bars c < 1 then Inl ValueError
      else if bars = [] then Inl ValueError
      else case for_io (watched_bar c bars signal_of heard) [rp_bars_count c - 1..int (length bars) - 1] (initial_state, x) of
          (Inl e, _) \<Rightarrow> Inl e
        | (Inr _, (s, x')) \<Rightarrow> Inr (bt_ledger s, x'))"

text \<open>A handler beside the unpatched signal.\<close>

definition plain_signal :: "RunnerStrategyConfig \<Rightarrow> MarketBar list \<Rightarrow> (bt_state \<times> 'x, exn, Signal) io" where
  "plain_signal runner_config bars = lift_io (runner_signal bars runner_config)"

definition handler :: "(fstring \<Rightarrow> 'x \<Rightarrow> 'x) \<Rightarrow> fstring \<Rightarrow> (bt_state \<times> 'x, exn, unit) io" where
  "handler emit message = on_snd (modify_io (emit message))"

section \<open>A handler changes nothing\<close>

text \<open>The first component of what a program does on a pair, as a program on its own.\<close>

definition shadows :: "('a \<times> 'b, 'e, 'x) io \<Rightarrow> ('a, 'e, 'x) io \<Rightarrow> bool" where
  "shadows n m \<longleftrightarrow> (\<forall>a b. m a = (fst (n (a, b)), fst (snd (n (a, b)))))"

lemma shadowsD: "shadows n m \<Longrightarrow> n (a, b) = (r, (a', b')) \<Longrightarrow> m a = (r, a')"
  unfolding shadows_def by (metis fst_conv snd_conv)

named_theorems shadow_rules \<open>composition of programs and their shadows\<close>

lemma shadow_pure [shadow_rules]:
  "shadows (return_io x) (return_io x)" "shadows (raise_io e) (raise_io e)" "shadows (lift_io r) (lift_io r)"
  "shadows (on_fst m) m" "shadows (handler emit message) (return_io ())" "shadows (plain_signal rc bars) (lift_io (runner_signal bars rc))"
  by (simp_all add: shadows_def io_simps on_fst_def on_snd_def handler_def plain_signal_def split: prod.split)

lemma shadow_bind [shadow_rules]:
  assumes "shadows n m" "\<And>x. shadows (g x) (f x)"
  shows "shadows (bind_io n g) (bind_io m f)"
  unfolding shadows_def
proof (intro allI)
  fix a b
  obtain r a' b' where n: "n (a, b) = (r, (a', b'))" by (metis prod.collapse)
  then have "m a = (r, a')" by (rule shadowsD [OF assms(1)])
  moreover have "f x a' = (fst (g x (a', b')), fst (snd (g x (a', b'))))" for x
    using assms(2) unfolding shadows_def by blast
  ultimately show "bind_io m f a = (fst (bind_io n g (a, b)), fst (snd (bind_io n g (a, b))))"
    using n by (cases r) (simp_all add: bind_io_def)
qed

lemma shadow_cases [shadow_rules]:
  "shadows n m \<Longrightarrow> shadows n' m' \<Longrightarrow> shadows (if b then n else n') (if b then m else m')"
  "shadows n m \<Longrightarrow> (\<And>x. shadows (g x) (f x)) \<Longrightarrow> shadows (case v of None \<Rightarrow> n | Some x \<Rightarrow> g x) (case v of None \<Rightarrow> m | Some x \<Rightarrow> f x)"
  "(\<And>e. shadows (g e) (f e)) \<Longrightarrow> (\<And>x. shadows (g' x) (f' x)) \<Longrightarrow>
     shadows (case w of Inl e \<Rightarrow> g e | Inr x \<Rightarrow> g' x) (case w of Inl e \<Rightarrow> f e | Inr x \<Rightarrow> f' x)"
  "(\<And>a b. shadows (k a b) (h a b)) \<Longrightarrow> shadows (case p of (a, b) \<Rightarrow> k a b) (case p of (a, b) \<Rightarrow> h a b)"
  by (simp_all split: option.split sum.split prod.split)

lemma shadow_try [shadow_rules]: "shadows n m \<Longrightarrow> shadows (try_io n) (try_io m)"
  unfolding shadows_def try_io_def split_beta by (metis fst_conv snd_conv)

lemma shadow_for [shadow_rules]: "(\<And>x. shadows (g x) (f x)) \<Longrightarrow> shadows (for_io g xs) (for_io f xs)"
  by (induction xs) (auto intro: shadow_rules)

lemma shadow_exposure: "shadows (own_exposure (account_fst acc) None symbol magic) (own_exposure acc None symbol magic)"
  unfolding own_exposure_def by (simp add: account_fst_def) (intro shadow_rules)

lemma shadow_grid:
  "shadows (run_grid_cycle (market_data_fst md) (account_fst acc) (executor_fst ex) symbol timeframe n gc mc caps magic None)
     (run_grid_cycle md acc ex symbol timeframe n gc mc caps magic None)"
proof -
  have sides: "shadows (grid_sides plan_of (executor_fst ex) intents results errors) (grid_sides plan_of ex intents results errors)"
    for plan_of intents results errors
    by (induction intents arbitrary: results errors)
      (auto simp: except_else_io_def executor_fst_def intro!: shadow_rules)
  show ?thesis
    unfolding run_grid_cycle_def Let_def
    by (intro shadow_rules shadow_exposure sides; simp add: market_data_fst_def shadow_rules)
qed

lemma shadow_runner:
  "shadows (watched_cycle (market_data_fst md) (account_fst acc) (executor_fst ex) symbol timeframe n rc mc caps magic
       (plain_signal rc) (handler emit))
     (run_runner_cycle md acc ex symbol timeframe n rc mc caps magic None)"
  unfolding watched_cycle_plain [symmetric] watched_cycle_def
  by (intro shadow_rules shadow_exposure; simp add: market_data_fst_def executor_fst_def shadow_rules)

lemma shadow_bar: "shadows (watched_bar c bars (plain_signal (rp_runner_config c)) (handler emit) i) (replay_bar c bars i)"
  unfolding watched_bar_def replay_bar_def watched_cycles_def replay_cycles_def Let_def
  by (intro shadow_rules shadow_grid shadow_runner)

text \<open>The ledger of a replay with a handler is the ledger of the replay.\<close>

lemma watched_ledger:
  "bind_res (watched_backtest c bars (plain_signal (rp_runner_config c)) (handler emit) x) (\<lambda>(l, _). Inr l) = run_backtest c bars"
proof -
  let ?n = "for_io (watched_bar c bars (plain_signal (rp_runner_config c)) (handler emit))
      [rp_bars_count c - 1..int (length bars) - 1] (initial_state, x)"
  have "shadows (for_io (watched_bar c bars (plain_signal (rp_runner_config c)) (handler emit)) is) (for_io (replay_bar c bars) is)" for "is"
    by (intro shadow_for shadow_bar)
  then have "replay_range c bars (rp_bars_count c - 1) (int (length bars)) initial_state = (fst ?n, fst (snd ?n))"
    by (simp add: shadows_def replay_range_def)
  then show ?thesis
    by (cases ?n) (auto simp: watched_backtest_def run_backtest_def split: sum.split)
qed

section \<open>Every cycle is a message or a submission\<close>

context quiet_reads
begin

lemma sides_keep_when:
  assumes "\<And>plan. op_order_type plan = LIMIT \<Longrightarrow> op_magic plan = magic \<Longrightarrow> keeps R (submit executor plan)"
    and "\<forall>i \<in> set intents. limit_intent i"
  shows "keeps R (grid_sides (grid_side_plan levels si tick mc caps magic open_lots orders) executor intents results errors)"
  using assms(2)
proof (induction intents arbitrary: results errors)
  case (Cons i intents)
  have "keeps R (grid_sides (grid_side_plan levels si tick mc caps magic open_lots orders) executor (i # intents) results errors)"
    if "grid_side_plan levels si tick mc caps magic open_lots orders i = Inr (Some plan)" for plan
  proof -
    have "op_order_type plan = LIMIT" "op_magic plan = magic"
      using that Cons.prems by (auto elim!: grid_side_plan_Some [rotated] simp: grid_plan_def)
    then show ?thesis
      using that Cons.prems by (simp add: except_else_io_def) (intro keeps_rules Cons.IH assms(1) allI impI; simp split: sum.split; intro conjI allI impI keeps_rules Cons.IH; simp)
  qed
  then show ?case
    using Cons.prems by (cases "grid_side_plan levels si tick mc caps magic open_lots orders i") (auto simp: Cons.IH keeps_pure split: option.split)
qed (simp add: keeps_pure)

lemma grid_keeps_when:
  assumes "\<And>plan. op_order_type plan = LIMIT \<Longrightarrow> op_magic plan = magic \<Longrightarrow> keeps R (submit executor plan)"
  shows "keeps R (run_grid_cycle market_data account executor symbol timeframe n gc mc caps magic state_store)"
proof -
  have sides: "keeps R (case grid_levels_to_trade_intents levels ''grid'' of (buy, sell) \<Rightarrow>
      bind_io (grid_sides (grid_side_plan levels si tick mc caps magic open_lots orders) executor [buy, sell] [] [])
        (\<lambda>(results, errors). if errors \<noteq> [] then raise_io (GridCycleError results errors) else return_io results))"
    for levels si tick open_lots orders
  proof (cases "grid_levels_to_trade_intents levels ''grid''")
    case (Pair buy sell)
    then have "keeps R (grid_sides (grid_side_plan levels si tick mc caps magic open_lots orders) executor [buy, sell] [] [])"
      using grid_intents [OF Pair] by (intro sides_keep_when [OF assms]) simp_all
    then show ?thesis
      by (simp only: Pair prod.case) (intro keeps_rules)
  qed
  show ?thesis
    unfolding run_grid_cycle_def Let_def by (intro sides quiet_bars quiet_info quiet_tick quiet_exposure keeps_rules)
qed

end

text \<open>The plan of a runner cycle is a market order with its own magic number.\<close>

lemma planned_is_market:
  assumes "signal_to_trade_intent signal = Some i"
    and "planned_or_message symbol bars si tick rc mc caps magic positions orders i = Inr (Inr plan)"
  shows "op_order_type plan = MARKET" "op_magic plan = magic"
proof -
  have "runner_plan bars si tick rc mc caps magic positions orders i = Inr (Some plan)"
    using planned_or_message_plan [of bars si tick rc mc caps magic positions orders i symbol] assms(2) by simp
  then show "op_order_type plan = MARKET" "op_magic plan = magic"
    using signal_to_trade_intent_Some [OF assms(1)] by (auto simp: runner_plan_eq Let_def result_simps split_beta split: if_split_asm)
qed

text \<open>Trades and open positions of a magic number.\<close>

definition admitted :: "int \<Rightarrow> BacktestLedger \<Rightarrow> nat" where
  "admitted magic l = length (filter (\<lambda>t. ct_magic t = magic) (bl_closed_trades l)) +
     length (filter (\<lambda>x. bp_magic (snd x) = magic) (bl_open_positions l))"

definition unplaced :: "int \<Rightarrow> BacktestLedger \<Rightarrow> bool" where
  "unplaced magic l \<longleftrightarrow> ledger_reachable l \<and> (\<forall>x \<in> set (bl_pending_orders l). po_magic (snd x) \<noteq> magic)"

lemma admitted_after_bar:
  assumes "check_fills_and_exits bar l = (Inr u, l')" "unplaced magic l"
  shows "admitted magic l' = admitted magic l" "unplaced magic l'"
proof -
  have reach: "ledger_reachable l" using assms(2) by (simp add: unplaced_def)
  have l': "l' = after_bar bar l"
    using check_bar_cases [OF reachable_tickets [OF reach, THEN conjunct1], of bar] assms(1)
    by (simp split: if_split_asm)
  have trade: "ct_magic (exit_trade bar x) = bp_magic (snd x)" for x by (simp add: exit_trade_def trade_of_def Let_def)
  have "filter (\<lambda>x. bp_magic (snd x) = magic) (map (filled bar) (filter (fills bar) (bl_pending_orders l))) = []"
    using assms(2) by (auto simp: filter_empty_conv filled_def unplaced_def)
  moreover have "length (filter (\<lambda>x. bp_magic (snd x) = magic) ps) =
      length (filter (\<lambda>x. bp_magic (snd x) = magic) (filter (\<lambda>x. \<not> exits bar x) ps)) +
      length (filter (\<lambda>t. ct_magic t = magic) (map (exit_trade bar) (filter (exits bar) ps)))" for ps
    by (induction ps) (simp_all add: trade)
  ultimately show "admitted magic l' = admitted magic l" by (simp add: admitted_def l' after_bar_def)
  have "ledger_reachable l'" by (rule check_bar_reachable [OF assms(1) reach])
  then show "unplaced magic l'" using assms(2) by (auto simp: unplaced_def l' after_bar_def)
qed

lemma admitted_pending:
  assumes "unplaced magic l" "m \<noteq> magic"
  shows "admitted magic (snd (add_pending_order symbol side v p sl tp m cmt placed l)) = admitted magic l"
    "unplaced magic (snd (add_pending_order symbol side v p sl tp m cmt placed l))"
proof -
  have "ledger_reachable (snd (add_pending_order symbol side v p sl tp m cmt placed l))"
    using ledger_reachable.pending [OF _ prod.collapse [symmetric]] assms(1) by (simp add: unplaced_def)
  then show "unplaced magic (snd (add_pending_order symbol side v p sl tp m cmt placed l))"
    using assms set_dict_put by (fastforce simp: unplaced_def add_pending_order_def new_ticket_def Let_def)
qed (simp add: admitted_def add_pending_order_def new_ticket_def Let_def)

lemma admitted_open:
  assumes "unplaced magic l"
  shows "admitted magic (snd (add_open_position symbol side v p sl tp magic cmt opened None l)) = admitted magic l + 1"
    "unplaced magic (snd (add_open_position symbol side v p sl tp magic cmt opened None l))"
proof -
  have reach: "ledger_reachable l" using assms by (simp add: unplaced_def)
  then have "bl_next_ticket l \<notin> fst ` set (bl_open_positions l)"
    using reachable_tickets [OF reach] by (auto simp: ticket_defs)
  then have "dict_put (bl_next_ticket l) q (bl_open_positions l) = bl_open_positions l @ [(bl_next_ticket l, q)]" for q
    by (rule dict_put_new)
  then show "admitted magic (snd (add_open_position symbol side v p sl tp magic cmt opened None l)) = admitted magic l + 1"
    by (simp add: admitted_def add_open_position_def new_ticket_def Let_def)
  have "ledger_reachable (snd (add_open_position symbol side v p sl tp magic cmt opened None l))"
    using ledger_reachable.market [OF reach prod.collapse [symmetric]] .
  then show "unplaced magic (snd (add_open_position symbol side v p sl tp magic cmt opened None l))"
    using assms by (simp add: unplaced_def add_open_position_def new_ticket_def Let_def)
qed

section \<open>Counting along a replay\<close>

text \<open>What keeps an invariant and a number, and what adds to the number when it returns.\<close>

definition steady :: "('s \<Rightarrow> bool) \<Rightarrow> ('s \<Rightarrow> int) \<Rightarrow> 's \<Rightarrow> 's \<Rightarrow> bool" where
  "steady I f s s' \<longleftrightarrow> (I s \<longrightarrow> I s' \<and> f s' = f s)"

interpretation steady: effect "steady I f" for I f
  by unfold_locales (auto simp: steady_def)

definition tally :: "('s \<Rightarrow> bool) \<Rightarrow> ('s \<Rightarrow> int) \<Rightarrow> int \<Rightarrow> ('s, 'e, 'a) io \<Rightarrow> bool" where
  "tally I f n m \<longleftrightarrow> (\<forall>s x s'. I s \<longrightarrow> m s = (Inr x, s') \<longrightarrow> I s' \<and> f s' = f s + n)"

lemma tallyD: "tally I f n m \<Longrightarrow> m s = (Inr x, s') \<Longrightarrow> I s \<Longrightarrow> I s' \<and> f s' = f s + n"
  unfolding tally_def by blast

lemma tally_steady: "keeps (steady I f) m \<Longrightarrow> tally I f 0 m"
  unfolding tally_def steady_def by (auto dest: keepsD)

lemma tally_bind:
  assumes "tally I f a m" "\<And>x. tally I f b (g x)"
  shows "tally I f (a + b) (bind_io m g)"
  unfolding tally_def
proof (intro allI impI)
  fix s x s'
  assume "I s" "bind_io m g s = (Inr x, s')"
  from this(2) show "I s' \<and> f s' = f s + (a + b)"
  proof (cases rule: bind_ioE)
    case (go y u)
    then have "I u \<and> f u = f s + a" using tallyD [OF assms(1)] \<open>I s\<close> by blast
    then show ?thesis using tallyD [OF assms(2) go(2)] by simp
  qed simp
qed

lemma tally_after: "keeps (steady I f) m \<Longrightarrow> (\<And>x. tally I f n (g x)) \<Longrightarrow> tally I f n (bind_io m g)"
  using tally_bind [OF tally_steady] by fastforce

lemma tally_before: "tally I f n m \<Longrightarrow> (\<And>x. keeps (steady I f) (g x)) \<Longrightarrow> tally I f n (bind_io m g)"
  using tally_bind [OF _ tally_steady] by fastforce

lemma tally_for: "(\<And>i. i \<in> set is \<Longrightarrow> tally I f (n i) (m i)) \<Longrightarrow> tally I f (\<Sum>i\<leftarrow>is. n i) (for_io m is)"
  by (induction "is") (auto intro!: tally_bind tally_steady steady.keeps_pure)

text \<open>Reads of a replay leave its state as it is.\<close>

lemma steady_fst: "(\<And>s. snd (m s) = s) \<Longrightarrow> keeps (steady I f) (on_fst m)"
  by (auto simp: keeps_def steady_def on_fst_def split: prod.split) (metis snd_conv)+

lemma current_bar_still: "snd (current_bar bars s) = s"
  by (simp add: current_bar_def)

interpretation replay_reads: quiet_reads "steady I f" "market_data_fst (BacktestMarketDataSource bars si m)"
  "account_fst (BacktestAccountReader b)" None for I f bars si m b
  by unfold_locales
    (simp_all add: market_data_fst_def account_fst_def BacktestMarketDataSource_def BacktestAccountReader_def steady_fst
      current_bar_def visible_bars_def io_simps Let_def split: sum.split)

text \<open>The submissions of a magic number and a count kept by what watches the replay.\<close>

definition seen_ledger :: "int \<Rightarrow> bt_state \<times> 'x \<Rightarrow> bool" where
  "seen_ledger magic = (\<lambda>(s, x). unplaced magic (bt_ledger s))"

definition seen_count :: "int \<Rightarrow> ('x \<Rightarrow> int) \<Rightarrow> bt_state \<times> 'x \<Rightarrow> int" where
  "seen_count magic k = (\<lambda>(s, x). int (admitted magic (bt_ledger s)) + k x)"

abbreviation seen :: "int \<Rightarrow> ('x \<Rightarrow> int) \<Rightarrow> bt_state \<times> 'x \<Rightarrow> bt_state \<times> 'x \<Rightarrow> bool" where
  "seen magic k \<equiv> steady (seen_ledger magic) (seen_count magic k)"

abbreviation counts :: "int \<Rightarrow> ('x \<Rightarrow> int) \<Rightarrow> int \<Rightarrow> (bt_state \<times> 'x, exn, 'a) io \<Rightarrow> bool" where
  "counts magic k \<equiv> tally (seen_ledger magic) (seen_count magic k)"

lemma seen_fst:
  assumes "\<And>s. unplaced magic (bt_ledger s) \<Longrightarrow>
      unplaced magic (bt_ledger (snd (m s))) \<and> admitted magic (bt_ledger (snd (m s))) = admitted magic (bt_ledger s)"
  shows "keeps (seen magic k) (on_fst m)"
  using assms by (auto simp: keeps_def steady_def seen_ledger_def seen_count_def on_fst_def split: prod.split) (metis snd_conv)+

lemma seen_limit:
  assumes "op_order_type plan = LIMIT" "op_magic plan \<noteq> magic"
  shows "keeps (seen magic k) (submit (executor_fst (BacktestOrderExecutor bars si m)) plan)"
proof -
  have "unplaced magic (bt_ledger (snd (bt_submit bars si m plan s))) \<and>
      admitted magic (bt_ledger (snd (bt_submit bars si m plan s))) = admitted magic (bt_ledger s)"
    if "unplaced magic (bt_ledger s)" for s
    using assms that admitted_pending [OF that assms(2)]
    by (simp add: bt_submit_def current_bar_def ledger_op_def on_ledger_def io_simps split_beta split: sum.split option.split)
  then show ?thesis by (simp add: executor_fst_def BacktestOrderExecutor_def) (rule seen_fst)
qed

lemma counts_market:
  assumes "op_order_type plan = MARKET" "op_magic plan = magic"
  shows "counts magic k 1 (submit (executor_fst (BacktestOrderExecutor bars si m)) plan)"
proof -
  have "unplaced magic (bt_ledger s') \<and> admitted magic (bt_ledger s') = admitted magic (bt_ledger s) + 1"
    if "unplaced magic (bt_ledger s)" "bt_submit bars si m plan s = (Inr r, s')" for s r s'
    using assms that admitted_open [OF that(1)]
    by (auto simp: bt_submit_def current_bar_def ledger_op_def on_ledger_def io_simps split_beta Let_def split: sum.split_asm)
  then show ?thesis
    by (auto simp: tally_def seen_ledger_def seen_count_def executor_fst_def BacktestOrderExecutor_def on_fst_def
        split: prod.split_asm)
qed

definition one_of_messages :: "string \<Rightarrow> fstring \<Rightarrow> bool" where
  "one_of_messages symbol message \<longleftrightarrow>
     message = flat_message symbol \<or> (\<exists>side d. \<not> rd_approved d \<and> message = rejected_message symbol side d) \<or>
     (\<exists>side. message = unplanned_message symbol side)"

lemma planned_message:
  assumes "planned_or_message symbol bars si tick rc mc caps magic positions orders i = Inr (Inl message)"
  shows "one_of_messages symbol message"
proof (rule ccontr)
  assume not: "\<not> one_of_messages symbol message"
  then have "rejected_message symbol (ti_side i) d = message \<Longrightarrow> rd_approved d" for d unfolding one_of_messages_def by blast
  moreover have "unplanned_message symbol (ti_side i) \<noteq> message" using not unfolding one_of_messages_def by blast
  ultimately show False
    using assms unfolding planned_or_message_def
    by (cases "combine [check_exposure_cap (open_lots_of positions) (pending_lots_of orders)
          (szi_volume (to_sized_intent i (decide_lot mc no_lot_inputs))) caps,
          check_position_limit positions (rc_max_concurrent_positions rc)]")
      (auto simp: Let_def result_simps split_beta split: if_split_asm sum.split_asm option.split_asm)
qed

lemma watched_cycle_counts:
  assumes signal: "\<And>bars. keeps (seen magic k) (signal_of bars)"
    and heard: "\<And>message. one_of_messages symbol message \<Longrightarrow> counts magic k 1 (heard message)"
  shows "counts magic k 1 (watched_cycle (market_data_fst (BacktestMarketDataSource bars si m))
      (account_fst (BacktestAccountReader b)) (executor_fst (BacktestOrderExecutor bars si m))
      symbol timeframe n rc mc caps magic signal_of heard)"
proof -
  have outcome: "counts magic k 1 (bind_io (lift_io (planned_or_message symbol bs info tick rc mc caps magic positions orders intent))
      (\<lambda>outcome. case outcome of
          Inl message \<Rightarrow> bind_io (heard message) (\<lambda>_. return_io None)
        | Inr plan \<Rightarrow> bind_io (submit (executor_fst (BacktestOrderExecutor bars si m)) plan) (\<lambda>result. return_io (Some result))))"
    if "signal_to_trade_intent signal = Some intent" for bs info tick positions orders signal intent
  proof (cases "planned_or_message symbol bs info tick rc mc caps magic positions orders intent")
    case (Inl e)
    then show ?thesis by (simp add: tally_def io_simps)
  next
    case (Inr outcome)
    show ?thesis
    proof (cases outcome)
      case (Inl message)
      then have "counts magic k 1 (heard message)" using \<open>_ = Inr outcome\<close> planned_message by (intro heard) blast
      then show ?thesis
        unfolding \<open>_ = Inr outcome\<close> Inl by (simp, intro tally_before steady.keeps_pure)
    next
      case plan: (Inr plan)
      then have "counts magic k 1 (submit (executor_fst (BacktestOrderExecutor bars si m)) plan)"
        using Inr by (intro counts_market planned_is_market [OF that, of symbol bs info tick rc mc caps magic positions orders]) simp_all
      then show ?thesis
        unfolding Inr plan by (simp, intro tally_before steady.keeps_pure)
    qed
  qed
  have signalled: "counts magic k 1 (case signal_to_trade_intent signal of
        None \<Rightarrow> bind_io (heard (flat_message symbol)) (\<lambda>_. return_io None)
      | Some intent \<Rightarrow> g intent)" if "\<And>intent. signal_to_trade_intent signal = Some intent \<Longrightarrow> counts magic k 1 (g intent)" for signal g
    using that heard [of "flat_message symbol"]
    by (cases "signal_to_trade_intent signal") (auto simp: one_of_messages_def intro!: tally_before steady.keeps_pure)
  show ?thesis
    unfolding watched_cycle_def
    apply (intro tally_after signal replay_reads.quiet_bars replay_reads.quiet_info replay_reads.quiet_tick replay_reads.quiet_exposure signalled)
    apply (clarsimp simp: outcome)
    done
qed

definition cycle_ticks :: "replay_config \<Rightarrow> int \<Rightarrow> int" where
  "cycle_ticks c i = (if (i - (rp_bars_count c - 1)) mod rp_cycle_interval_bars c = 0 then 1 else 0)"

lemma watched_bar_counts:
  assumes signal: "\<And>bars. keeps (seen (rp_runner_magic c) k) (signal_of bars)"
    and heard: "\<And>message. one_of_messages (rp_symbol c) message \<Longrightarrow> counts (rp_runner_magic c) k 1 (heard message)"
    and magics: "rp_grid_magic c \<noteq> rp_runner_magic c"
  shows "counts (rp_runner_magic c) k (cycle_ticks c i) (watched_bar c bars signal_of heard i)"
proof -
  let ?seen = "seen (rp_runner_magic c) k"
  have skip: "keeps ?seen (on_fst (skip_grid c bars))"
    by (rule steady_fst) (simp add: skip_grid_def visible_bars_def current_bar_def io_simps split: option.split sum.split)
  have grid: "keeps ?seen (run_grid_cycle (market_data_fst (BacktestMarketDataSource bars (rp_symbol_info c) m))
      (account_fst (BacktestAccountReader b)) (executor_fst (BacktestOrderExecutor bars (rp_symbol_info c) m))
      symbol timeframe n gc mc caps (rp_grid_magic c) None)" for m b symbol timeframe n gc mc caps
    by (rule replay_reads.grid_keeps_when) (metis seen_limit magics)
  have cycles: "counts (rp_runner_magic c) k 1 (watched_cycles c bars signal_of heard)"
    unfolding watched_cycles_def Let_def
    by (intro tally_after skip tally_before [OF watched_cycle_counts [OF signal heard]] steady.keeps_pure)
      (auto intro: grid steady.keeps_rules)
  have index: "keeps ?seen (on_fst (modify_io (\<lambda>s. s\<lparr>bt_index := i\<rparr>)))"
    by (rule seen_fst) (simp add: modify_io_def)
  have bar: "keeps ?seen (on_fst (current_bar bars))" by (rule steady_fst) (rule current_bar_still)
  have ledger: "counts (rp_runner_magic c) k 0 (on_fst (on_ledger (check_fills_and_exits bar)))" for bar
    using admitted_after_bar
    by (auto simp: tally_def seen_ledger_def seen_count_def on_fst_def on_ledger_def split: prod.split_asm)
  have tick: "counts (rp_runner_magic c) k (cycle_ticks c i)
      (if (i - (rp_bars_count c - 1)) mod rp_cycle_interval_bars c = 0 then watched_cycles c bars signal_of heard
       else return_io ())"
    by (simp add: cycle_ticks_def cycles tally_steady steady.keeps_pure)
  show ?thesis
    unfolding watched_bar_def
    by (rule tally_after [OF index], rule tally_after [OF bar]) (rule tally_bind [OF ledger tick, unfolded add_0])
qed

text \<open>How many runner cycles a replay has.\<close>

definition py_range_len :: "int \<Rightarrow> int \<Rightarrow> int \<Rightarrow> int result" where
  "py_range_len start stop step =
     (if step = 0 then Inl ValueError
      else if step > 0 then Inr (max 0 ((stop - start + step - 1) div step))
      else Inr (max 0 ((start - stop - step - 1) div - step)))"

definition total_cycles :: "int \<Rightarrow> int \<Rightarrow> int \<Rightarrow> int result" where
  "total_cycles n_bars bars_count cycle_interval_bars = py_range_len (bars_count - 1) n_bars cycle_interval_bars"

lemma div_up:
  assumes "k > 0"
  shows "(n + k - 1) div k = n div k + (if n mod k = 0 then 0 else 1 :: int)"
proof -
  have "n + k - 1 = (n mod k + k - 1) + k * (n div k)" using mult_div_mod_eq [of k n] by linarith
  then have "(n + k - 1) div k = n div k + (n mod k + k - 1) div k" using assms by (metis add.commute div_mult_self2 less_irrefl)
  moreover have "(n mod k + k - 1) div k = (if n mod k = 0 then 0 else 1)"
    using assms pos_mod_bound [OF assms, of n] pos_mod_sign [OF assms, of n]
    by (auto simp: div_pos_pos_trivial intro: int_div_pos_eq [of _ _ _ "n mod k - 1"])
  ultimately show ?thesis by simp
qed

lemma ticks_counted:
  assumes "k > 0"
  shows "(\<Sum>i\<leftarrow>[a..a + int n - 1]. if (i - a) mod k = 0 then 1 else 0) = (int n + k - 1) div (k :: int)"
proof (induction n)
  case (Suc n)
  have "[a..a + int (Suc n) - 1] = [a..a + int n - 1] @ [a + int n]"
    using upto_rec2 [of a "a + int n"] by simp
  moreover have "int (Suc n) + k - 1 = int n + k" by simp
  ultimately show ?case using Suc assms div_up [of k "int n"] by simp
qed (use assms in \<open>simp add: div_pos_pos_trivial\<close>)

text \<open>A replay ends with a message or a submission for each of its cycles.\<close>

lemma watched_backtest_counts:
  assumes "\<And>bars. keeps (seen (rp_runner_magic c) k) (signal_of bars)"
    and "\<And>message. one_of_messages (rp_symbol c) message \<Longrightarrow> counts (rp_runner_magic c) k 1 (heard message)"
    and "rp_grid_magic c \<noteq> rp_runner_magic c"
    and returned: "watched_backtest c bars signal_of heard x = Inr (l, x')"
  shows "total_cycles (int (length bars)) (rp_bars_count c) (rp_cycle_interval_bars c) =
      Inr (int (admitted (rp_runner_magic c) l) + k x' - k x)"
proof -
  let ?a = "rp_bars_count c - 1" and ?k = "rp_cycle_interval_bars c"
  define n where "n = nat (int (length bars) - ?a)"
  have interval: "?k > 0" and "int (length bars) \<ge> rp_bars_count c"
    using returned by (auto simp: watched_backtest_def split: if_split_asm)
  then have length: "int (length bars) = ?a + int n" by (simp add: n_def)
  obtain u s where run: "for_io (watched_bar c bars signal_of heard) [?a..int (length bars) - 1] (initial_state, x) = (Inr u, (s, x'))"
      and l: "l = bt_ledger s"
    using returned by (auto simp: watched_backtest_def split: if_split_asm sum.split_asm prod.split_asm)
  have sum: "counts (rp_runner_magic c) k (\<Sum>i\<leftarrow>[?a..int (length bars) - 1]. cycle_ticks c i)
      (for_io (watched_bar c bars signal_of heard) [?a..int (length bars) - 1])"
    by (rule tally_for) (rule watched_bar_counts [OF assms(1-3)])
  have "unplaced (rp_runner_magic c) (bt_ledger initial_state)" "admitted (rp_runner_magic c) (bt_ledger initial_state) = 0"
    by (simp_all add: unplaced_def initial_state_def admitted_def empty_ledger_def ledger_reachable.start [unfolded empty_ledger_def])
  then have "int (admitted (rp_runner_magic c) l) + k x' = k x + (\<Sum>i\<leftarrow>[?a..int (length bars) - 1]. cycle_ticks c i)"
    using tallyD [OF sum run] by (simp add: seen_ledger_def seen_count_def l)
  moreover have "(\<Sum>i\<leftarrow>[?a..int (length bars) - 1]. cycle_ticks c i) = (int n + ?k - 1) div ?k"
    unfolding cycle_ticks_def length by (rule ticks_counted [OF interval])
  moreover have "total_cycles (int (length bars)) (rp_bars_count c) ?k = Inr ((int n + ?k - 1) div ?k)"
    using interval length by (simp add: total_cycles_def py_range_len_def pos_imp_zdiv_nonneg_iff)
  ultimately show ?thesis by simp
qed

end
