(* ===== verification/Py_Stats.thy ===== *)
theory Py_Stats
  imports Domain
begin

text \<open>
  The parts of Python's \<^verbatim>\<open>statistics\<close> and \<^verbatim>\<open>math\<close> that the experiments use: the mean, rounded
  once from the exact sum, the correctly rounded square root of a fraction by integer square roots,
  and the population deviation from exact sums.
  Shown: the integer square root, that a mean lies between the bounds of its data, and that the
  deviation is 0 exactly for data that are all equal.
\<close>

definition float_mean :: "pyfloat list \<Rightarrow> pyfloat result" where
  "float_mean data = (if data = [] then Inl ValueError else Inr (flt (sum_list (map rat_of data) / of_nat (length data))))"

text \<open>\<^verbatim>\<open>math.isqrt\<close>.\<close>

fun isqrt :: "nat \<Rightarrow> nat" where
  "isqrt n =
     (if n = 0 then 0
      else let r = 2 * isqrt (n div 4) in if (r + 1) * (r + 1) \<le> n then r + 1 else r)"

declare isqrt.simps [simp del]

text \<open>The square root of \<open>n / m\<close> rounded to an integer, to an odd one unless it is exact.\<close>

definition sqrt_round_to_odd :: "nat \<Rightarrow> nat \<Rightarrow> nat" where
  "sqrt_round_to_odd n m = (let a = isqrt (n div m) in if a * a * m = n \<or> odd a then a else a + 1)"

text \<open>\<^verbatim>\<open>_float_sqrt_of_frac\<close>: 109 bits of the root are enough for the last rounding.\<close>

definition float_sqrt_of_frac :: "nat \<Rightarrow> nat \<Rightarrow> pyfloat" where
  "float_sqrt_of_frac n m =
     (let q = (int (bitlen n) - int (bitlen m) - 109) div 2
      in if q \<ge> 0 then flt (of_nat (sqrt_round_to_odd n (m * 2 ^ nat (2 * q)) * 2 ^ nat q))
         else flt (of_nat (sqrt_round_to_odd (n * 2 ^ nat (- (2 * q))) m) / 2 ^ nat (- q)))"

definition sqrt_of_rat :: "rat \<Rightarrow> pyfloat" where
  "sqrt_of_rat x = (case quotient_of x of (n, m) \<Rightarrow> float_sqrt_of_frac (nat n) (nat m))"

definition py_sqrt :: "pyfloat \<Rightarrow> pyfloat result" where
  "py_sqrt x = (if x < 0 then Inl ValueError else Inr (sqrt_of_rat (rat_of x)))"

text \<open>The sum of the squared deviations from the mean, exactly.\<close>

definition deviations :: "rat list \<Rightarrow> rat" where
  "deviations xs =
     (let n = of_nat (length xs); sx = sum_list xs; sxx = (\<Sum>x\<leftarrow>xs. x * x) in (n * sxx - sx * sx) / n)"

definition pstdev :: "pyfloat list \<Rightarrow> pyfloat result" where
  "pstdev data =
     (if data = [] then Inl ValueError
      else Inr (sqrt_of_rat (deviations (map rat_of data) / of_nat (length data))))"

section \<open>What they compute\<close>

lemma isqrt_spec: "isqrt n * isqrt n \<le> n \<and> n < (isqrt n + 1) * (isqrt n + 1)"
proof (induction n rule: isqrt.induct)
  case (1 n)
  show ?case
  proof (cases "n = 0")
    case True
    then show ?thesis by (simp add: isqrt.simps)
  next
    case False
    define r where "r = isqrt (n div 4)"
    have r: "r * r \<le> n div 4" "n div 4 < (r + 1) * (r + 1)" using 1 [OF False] by (simp_all add: r_def)
    have "(2 * r) * (2 * r) \<le> n" using r(1) by simp
    moreover have "n < (2 * r + 2) * (2 * r + 2)" using r(2) by (simp add: algebra_simps)
    moreover have "isqrt n = (if (2 * r + 1) * (2 * r + 1) \<le> n then 2 * r + 1 else 2 * r)"
      using False by (subst isqrt.simps) (simp add: r_def Let_def)
    ultimately show ?thesis by (simp split: if_split)
  qed
qed

lemma sqrt_round_to_odd_0 [simp]: "m > 0 \<Longrightarrow> sqrt_round_to_odd n m = 0 \<longleftrightarrow> n = 0"
  using isqrt_spec [of 0] by (cases "n = 0"; cases "isqrt (n div m) = 0") (auto simp: sqrt_round_to_odd_def Let_def)

lemma float_sqrt_sign: "m > 0 \<Longrightarrow> 0 \<le> float_sqrt_of_frac n m \<and> (float_sqrt_of_frac n m = 0 \<longleftrightarrow> n = 0)"
  by (simp add: float_sqrt_of_frac_def Let_def)

lemma sqrt_of_rat_sign:
  assumes "0 \<le> x"
  shows "0 \<le> sqrt_of_rat x" "sqrt_of_rat x = 0 \<longleftrightarrow> x = 0"
proof -
  obtain n m where q: "quotient_of x = (n, m)" by fastforce
  then have "m > 0" "x = of_int n / of_int m" by (simp_all add: quotient_of_denom_pos quotient_of_div)
  moreover from this assms have "n \<ge> 0" by (simp add: zero_le_divide_iff)
  ultimately show "0 \<le> sqrt_of_rat x" "sqrt_of_rat x = 0 \<longleftrightarrow> x = 0"
    using q float_sqrt_sign [of "nat m" "nat n"] by (auto simp: sqrt_of_rat_def)
qed

lemma deviations_from_mean:
  assumes "xs \<noteq> []"
  shows "deviations xs = (\<Sum>x\<leftarrow>xs. (x - sum_list xs / of_nat (length xs)) ^ 2)"
proof -
  define \<mu> where "\<mu> = sum_list xs / of_nat (length xs)"
  have "(\<Sum>x\<leftarrow>ys. (x - \<mu>) ^ 2) = (\<Sum>x\<leftarrow>ys. x * x) - 2 * \<mu> * sum_list ys + of_nat (length ys) * \<mu> ^ 2" for ys
    by (induction ys) (simp_all add: power2_eq_square algebra_simps)
  moreover have sum: "sum_list xs = of_nat (length xs) * \<mu>" using assms by (simp add: \<mu>_def)
  ultimately have "(\<Sum>x\<leftarrow>xs. (x - \<mu>) ^ 2) = (\<Sum>x\<leftarrow>xs. x * x) - of_nat (length xs) * \<mu> * \<mu>"
    by (simp add: power2_eq_square)
  moreover have "deviations xs = (\<Sum>x\<leftarrow>xs. x * x) - of_nat (length xs) * \<mu> * \<mu>"
    using assms unfolding deviations_def Let_def sum by (simp add: field_simps)
  ultimately show ?thesis unfolding \<mu>_def by simp
qed

lemma squares_nonneg: "0 \<le> (\<Sum>x\<leftarrow>xs. (x - \<mu>) ^ 2)" for \<mu> :: rat
  by (induction xs) simp_all

lemma squares_0: "(\<Sum>x\<leftarrow>xs. (x - \<mu>) ^ 2) = 0 \<longleftrightarrow> (\<forall>x \<in> set xs. x = \<mu>)" for \<mu> :: rat
  using squares_nonneg [of \<mu>] by (induction xs) (auto simp: add_nonneg_eq_0_iff)

lemma sum_between:
  assumes "\<forall>x \<in> set xs. a \<le> x \<and> x \<le> b"
  shows "of_nat (length xs) * a \<le> sum_list xs \<and> sum_list xs \<le> of_nat (length xs) * (b :: rat)"
  using assms by (induction xs) (auto simp: algebra_simps)

lemma pstdev_sign:
  assumes "pstdev data = Inr sd"
  shows "0 \<le> sd" "sd = 0 \<longleftrightarrow> (\<forall>x \<in> set data. \<forall>y \<in> set data. x = y)"
proof -
  let ?xs = "map rat_of data"
  have ne: "data \<noteq> []" and sd: "sd = sqrt_of_rat (deviations ?xs / of_nat (length data))"
    using assms by (auto simp: pstdev_def split: if_split_asm)
  define \<mu> where "\<mu> = sum_list ?xs / of_nat (length ?xs)"
  have dev: "deviations ?xs = (\<Sum>x\<leftarrow>?xs. (x - \<mu>) ^ 2)"
    using deviations_from_mean [of ?xs] ne by (simp only: \<mu>_def list.map_disc_iff not_False_eq_True)
  then have nonneg: "0 \<le> deviations ?xs / of_nat (length data)" unfolding dev by (intro divide_nonneg_nonneg squares_nonneg) simp
  show "0 \<le> sd" using sqrt_of_rat_sign [OF nonneg] sd by simp
  have "sd = 0 \<longleftrightarrow> deviations ?xs = 0" using sqrt_of_rat_sign [OF nonneg] sd ne by simp
  also have "\<dots> \<longleftrightarrow> (\<forall>x \<in> set data. rat_of x = \<mu>)" unfolding dev squares_0 by simp
  also have "\<dots> \<longleftrightarrow> (\<forall>x \<in> set data. \<forall>y \<in> set data. x = y)"
  proof
    assume all: "\<forall>x \<in> set data. \<forall>y \<in> set data. x = y"
    then have "\<forall>x \<in> set ?xs. rat_of (hd data) \<le> x \<and> x \<le> rat_of (hd data)"
      using hd_in_set [OF ne] by (auto simp: Ball_def)
    then have "sum_list ?xs = of_nat (length data) * rat_of (hd data)" using sum_between [of ?xs] by fastforce
    then have "\<mu> = rat_of (hd data)" using ne by (simp add: \<mu>_def)
    then show "\<forall>x \<in> set data. rat_of x = \<mu>" using all hd_in_set [OF ne] by metis
  qed (metis flt_rat_of)
  finally show "sd = 0 \<longleftrightarrow> (\<forall>x \<in> set data. \<forall>y \<in> set data. x = y)" .
qed

lemma float_mean_between:
  assumes "float_mean data = Inr m" "\<forall>x \<in> set data. lo \<le> x \<and> x \<le> hi"
  shows "lo \<le> m" "m \<le> hi"
proof -
  have ne: "data \<noteq> []" and m: "m = flt (sum_list (map rat_of data) / of_nat (length data))"
    using assms(1) by (auto simp: float_mean_def split: if_split_asm)
  have "\<forall>x \<in> set (map rat_of data). rat_of lo \<le> x \<and> x \<le> rat_of hi" using assms(2) by (simp add: pyfloat_le_iff)
  then have "rat_of lo \<le> sum_list (map rat_of data) / of_nat (length data)"
      "sum_list (map rat_of data) / of_nat (length data) \<le> rat_of hi"
    using sum_between [of "map rat_of data" "rat_of lo" "rat_of hi"] ne by (simp_all add: field_simps)
  then show "lo \<le> m" "m \<le> hi" using flt_mono [of "rat_of lo"] flt_mono [of _ "rat_of hi"] by (simp_all add: m)
qed

end
