(* ===== verification/Concurrency_Study.thy ===== *)
theory Concurrency_Study
  imports Watched_Replay Py_Stats "HOL-Library.Product_Lexorder" "HOL-Library.Multiset"
begin

text \<open>
  \<^verbatim>\<open>scripts/run_demo_execution_check_20260813_experiment1_concurrency.py\<close>: replays at several
  position limits with a log handler that counts what became of every runner cycle.
  Shown: the number of admissions inferred from the log is the number in the ledger, and the peak
  it reports is the largest number of positions sharing an instant.
\<close>

section \<open>The log handler\<close>

record cycle_counter =
  rcc_flat :: int
  rcc_position_limit :: int
  rcc_exposure_cap :: int
  rcc_other :: int
  rcc_could_not_plan :: int

definition new_counter :: cycle_counter where
  "new_counter = \<lparr> rcc_flat = 0, rcc_position_limit = 0, rcc_exposure_cap = 0, rcc_other = 0, rcc_could_not_plan = 0 \<rparr>"

text \<open>\<^verbatim>\<open>needle in message\<close>, for a needle that numbers and the joints between the parts cannot hold.\<close>

definition mentions :: "string \<Rightarrow> fstring \<Rightarrow> bool" where
  "mentions needle message \<longleftrightarrow>
     list_ex (\<lambda>f. case f of Lit s \<Rightarrow> sublist needle s | F_val (JStr s) \<Rightarrow> sublist needle s | _ \<Rightarrow> False) message"

definition emit :: "fstring \<Rightarrow> cycle_counter \<Rightarrow> cycle_counter" where
  "emit msg counter =
     (if \<not> mentions ''[RUNNER]'' msg then counter
      else if mentions ''FLAT, no action'' msg then counter\<lparr>rcc_flat := rcc_flat counter + 1\<rparr>
      else if mentions ''rejected ('' msg then
        (if mentions ''position_limit'' msg then counter\<lparr>rcc_position_limit := rcc_position_limit counter + 1\<rparr>
         else if mentions ''max_open_lots'' msg then counter\<lparr>rcc_exposure_cap := rcc_exposure_cap counter + 1\<rparr>
         else counter\<lparr>rcc_other := rcc_other counter + 1\<rparr>)
      else if mentions ''could not be planned'' msg then counter\<lparr>rcc_could_not_plan := rcc_could_not_plan counter + 1\<rparr>
      else counter)"

definition rejected_total :: "cycle_counter \<Rightarrow> int" where
  "rejected_total counter =
     rcc_position_limit counter + rcc_exposure_cap counter + rcc_other counter + rcc_could_not_plan counter"

section \<open>The peak\<close>

text \<open>The sort compares the instants first, which raises when both kinds of \<^verbatim>\<open>datetime\<close> occur.\<close>

fun peak_of :: "int \<Rightarrow> int \<Rightarrow> (datetime \<times> int) list \<Rightarrow> int" where
  "peak_of running peak [] = peak"
| "peak_of running peak ((_, delta) # events) = peak_of (running + delta) (max peak (running + delta)) events"

definition span_events :: "(datetime \<times> datetime) list \<Rightarrow> (datetime \<times> int) list" where
  "span_events spans = concat (map (\<lambda>(opened, closed_at). [(opened, 1), (closed_at, - 1)]) spans)"

definition event_key :: "datetime \<times> int \<Rightarrow> int \<times> int" where
  "event_key e = (ticks (fst e), - snd e)"

definition max_concurrent :: "ClosedTrade list \<Rightarrow> datetime list \<Rightarrow> datetime \<Rightarrow> int result" where
  "max_concurrent trades still_open_opened_at window_end =
     (let events = span_events (map (\<lambda>t. (ct_opened_at t, ct_closed_at t)) trades) @
                   span_events (map (\<lambda>opened_at. (opened_at, window_end)) still_open_opened_at)
      in if one_kind (map fst events) then Inr (peak_of 0 0 (sort_key event_key events)) else Inl TypeError)"

section \<open>One run\<close>

record concurrency_run =
  cr_trade_count :: nat
  cr_still_open :: nat
  cr_total_cycles :: int
  cr_counter :: cycle_counter
  cr_directional_signals :: int
  cr_admitted_inferred :: int
  cr_admitted_actual :: int
  cr_pct_blocked :: pyfloat
  cr_holding_minutes :: "pyfloat list"
  cr_peak_concurrent :: int
  cr_expectancy_r :: "pyfloat option"
  cr_max_drawdown_r :: "pyfloat option"
  cr_win_rate :: "pyfloat option"
  cr_profit_factor :: "ratio option"
  cr_min_sample_met :: bool

text \<open>\<^verbatim>\<open>(closed_at - opened_at).total_seconds() / 60\<close>\<close>

definition holding_time :: "ClosedTrade \<Rightarrow> pyfloat result" where
  "holding_time t =
     bind_res (of_option TypeError (dt_diff (ct_closed_at t) (ct_opened_at t))) (\<lambda>held.
       Inr (flt (of_int held / 10 ^ 6) / fint 60))"

definition when_trades :: "ClosedTrade list \<Rightarrow> (ClosedTrade list \<Rightarrow> 'a result) \<Rightarrow> 'a option result" where
  "when_trades trades f = (if trades = [] then Inr None else bind_res (f trades) (\<lambda>x. Inr (Some x)))"

definition concurrency_row :: "replay_config \<Rightarrow> int \<Rightarrow> datetime \<Rightarrow> BacktestLedger \<Rightarrow> cycle_counter \<Rightarrow> concurrency_run result" where
  "concurrency_row c n_bars window_end ledger counter =
     (let trades = trades_of_magic (rp_runner_magic c) ledger;
          still_open = filter (\<lambda>x. bp_magic (snd x) = rp_runner_magic c) (bl_open_positions ledger)
      in bind_res (total_cycles n_bars (rp_bars_count c) (rp_cycle_interval_bars c)) (\<lambda>cycles.
         let directional_signals = cycles - rcc_flat counter
         in bind_res (traverse holding_time trades) (\<lambda>holding_minutes.
            bind_res (max_concurrent trades (map (\<lambda>x. bp_opened_at (snd x)) still_open) window_end) (\<lambda>peak.
            bind_res (when_trades trades expectancy_r) (\<lambda>expectancy.
            bind_res (when_trades trades max_drawdown_r) (\<lambda>drawdown.
            bind_res (when_trades trades win_rate) (\<lambda>rate.
            bind_res (when_trades trades profit_factor) (\<lambda>factor.
              Inr \<lparr> cr_trade_count = length trades, cr_still_open = length still_open, cr_total_cycles = cycles,
                    cr_counter = counter, cr_directional_signals = directional_signals,
                    cr_admitted_inferred = directional_signals - rejected_total counter,
                    cr_admitted_actual = int (length trades) + int (length still_open),
                    cr_pct_blocked = (if directional_signals = 0 then 0
                      else flt (of_int (100 * rcc_position_limit counter) / of_int directional_signals)),
                    cr_holding_minutes = holding_minutes, cr_peak_concurrent = peak, cr_expectancy_r = expectancy,
                    cr_max_drawdown_r = drawdown, cr_win_rate = rate, cr_profit_factor = factor,
                    cr_min_sample_met = (trades \<noteq> [] \<and> has_minimum_sample trades min_trades_for_a_claim) \<rparr>))))))))"

text \<open>The handler is attached for the replay and detached after it, so each run has its own counter.\<close>

definition counted_run :: "replay_config \<Rightarrow> MarketBar list \<Rightarrow> datetime \<Rightarrow> concurrency_run result" where
  "counted_run c bars window_end =
     bind_res (watched_backtest c bars (plain_signal (rp_runner_config c)) (handler emit) new_counter) (\<lambda>(ledger, counter).
       concurrency_row c (int (length bars)) window_end ledger counter)"

definition run_one :: "SymbolInfo \<Rightarrow> RunnerStrategyConfig \<Rightarrow> MarketBar list \<Rightarrow> datetime \<Rightarrow> concurrency_run result" where
  "run_one symbol_info runner_config bars window_end =
     counted_run ((study_config symbol_info)\<lparr>rp_runner_config := runner_config\<rparr>) bars window_end"

text \<open>What \<^verbatim>\<open>_print_result\<close> adds: whether the two counts match, and mean, median and maximum of the holding times.\<close>

record concurrency_report =
  cp_run :: concurrency_run
  cp_matches :: bool
  cp_holding :: "(pyfloat \<times> pyfloat \<times> pyfloat) option"

definition report_result :: "concurrency_run \<Rightarrow> concurrency_report result" where
  "report_result r =
     bind_res (if cr_holding_minutes r = [] then Inr None
               else bind_res (float_mean (cr_holding_minutes r)) (\<lambda>mean.
                    bind_res (float_median (cr_holding_minutes r)) (\<lambda>middle.
                      Inr (Some (mean, middle, fold max (tl (cr_holding_minutes r)) (hd (cr_holding_minutes r))))))) (\<lambda>holding.
       Inr \<lparr> cp_run = r, cp_matches = (cr_admitted_inferred r = cr_admitted_actual r), cp_holding = holding \<rparr>)"

definition concurrency_levels :: "int list" where
  "concurrency_levels = [1, 2, 3, 5]"

definition held_out_start :: datetime where
  "held_out_start = utc 2026 7 22 22 47 0"

definition held_out_end :: datetime where
  "held_out_end = utc 2026 8 5 8 0 0"

definition within_held_out :: "MarketBar \<Rightarrow> bool result" where
  "within_held_out b =
     bind_res (dt_le held_out_start (bar_time b)) (\<lambda>late.
       if late then dt_le (bar_time b) held_out_end else Inr False)"

definition concurrency_study ::
  "'w env \<Rightarrow> (string \<times> string) list \<Rightarrow> ('w live \<times> cache, exn, concurrency_report list) io" where
  "concurrency_study env source = bar_study env source (\<lambda>symbol_info all_bars.
     bind_res (filter_res (\<lambda>b. of_option TypeError (dt_less (bar_time b) held_out_start)) all_bars) (\<lambda>train_bars.
     bind_res (filter_res within_held_out all_bars) (\<lambda>test_bars.
       if train_bars = [] \<or> test_bars = [] then Inl RuntimeError
       else traverse (\<lambda>(bars, window_end, floor_value, cap).
              bind_res (run_one symbol_info (default_runner_config
                  \<lparr>rc_min_stop_distance_fraction_of_price := floor_value, rc_max_concurrent_positions := cap\<rparr>) bars window_end)
                report_result)
            [(bars, window_end, floor_value, cap).
               (bars, window_end) \<leftarrow> [(train_bars, held_out_start), (test_bars, held_out_end)],
               floor_value \<leftarrow> [flt (1 / 100), 0], cap \<leftarrow> concurrency_levels])))"

section \<open>Every message counts once\<close>

lemma sublist_after: "sublist xs zs \<Longrightarrow> sublist xs (ys @ zs)"
  by (meson sublist_append_leftI sublist_order.order.trans)

lemma mentions_simps:
  "mentions needle [] = False" "mentions needle (Lit s # message) = (sublist needle s \<or> mentions needle message)"
  by (simp_all add: mentions_def)

lemma counter_total: "rejected_total (counter\<lparr>rcc_flat := n\<rparr>) = rejected_total counter"
  by (simp add: rejected_total_def)

lemma emit_counts:
  assumes "one_of_messages symbol message"
  shows "rcc_flat (emit message counter) + rejected_total (emit message counter) = rcc_flat counter + rejected_total counter + 1"
proof -
  note texts = flat_message_def rejected_message_def unplanned_message_def mentions_simps sublist_Cons_right sublist_after
  have runner: "mentions ''[RUNNER]'' message"
    using assms unfolding one_of_messages_def by (auto simp: texts)
  have "mentions ''FLAT, no action'' message \<or> mentions ''rejected ('' message \<or> mentions ''could not be planned'' message"
    using assms unfolding one_of_messages_def by (auto simp: texts)
  then show ?thesis using runner by (auto simp: emit_def rejected_total_def)
qed

lemma emit_count: "one_of_messages symbol message \<Longrightarrow>
    counts magic (\<lambda>counter. rcc_flat counter + rejected_total counter) 1 (handler emit message)"
  using emit_counts [of symbol message]
  by (auto simp: tally_def handler_def on_snd_def modify_io_def seen_ledger_def seen_count_def)

lemma plain_signal_seen: "keeps (seen magic k) (plain_signal rc bars)"
  unfolding plain_signal_def by (rule steady.keeps_pure)

text \<open>
  C17: The cross-check of the study always holds: the admissions inferred from the log, the cycles
  less the flat and the rejected ones, are the trades and open positions of the runner in the ledger.
\<close>

theorem log_counts_admissions:
  assumes "counted_run c bars window_end = Inr r" "rp_grid_magic c \<noteq> rp_runner_magic c"
  shows "cr_admitted_inferred r = cr_admitted_actual r"
proof -
  obtain l k where run: "watched_backtest c bars (plain_signal (rp_runner_config c)) (handler emit) new_counter = Inr (l, k)"
      and row: "concurrency_row c (int (length bars)) window_end l k = Inr r"
    using assms(1) by (auto simp: counted_run_def result_simps)
  have "total_cycles (int (length bars)) (rp_bars_count c) (rp_cycle_interval_bars c) =
      Inr (int (admitted (rp_runner_magic c) l) + (rcc_flat k + rejected_total k) - (rcc_flat new_counter + rejected_total new_counter))"
    by (rule watched_backtest_counts [OF plain_signal_seen emit_count assms(2) run])
  then show ?thesis
    using row by (auto simp: concurrency_row_def Let_def result_simps admitted_def trades_of_magic_def new_counter_def rejected_total_def)
qed

text \<open>The replay with one trade, counted.\<close>

lemma falling_counted:
  obtains r where "counted_run runner_replay falling (Aware (minutes 7)) = Inr r" "cr_trade_count r = 1" "cr_still_open r = 0"
proof -
  obtain l t where l: "run_backtest runner_replay falling = Inr l" "bl_closed_trades l = [t]" "ct_magic t = 71102"
      "ct_opened_at t = Aware (minutes 6)" "ct_closed_at t = Aware (minutes 7)" "bl_open_positions l = []"
    by (rule falling_trade)
  then obtain k where "watched_backtest runner_replay falling (plain_signal (rp_runner_config runner_replay)) (handler emit) new_counter = Inr (l, k)"
    using watched_ledger [of runner_replay falling emit new_counter] by (auto simp: result_simps split: prod.split_asm)
  moreover have "\<exists>r. concurrency_row runner_replay n (Aware (minutes 7)) l k = Inr r \<and> cr_trade_count r = 1 \<and> cr_still_open r = 0" for n
    using l by (simp add: concurrency_row_def trades_of_magic_def total_cycles_def py_range_len_def holding_time_def max_concurrent_def
        span_events_def one_kind_def when_trades_def expectancy_r_def max_drawdown_r_def win_rate_def profit_factor_def Let_def
        result_simps of_option_def)
  ultimately show thesis using that by (auto simp: counted_run_def)
qed

theorem log_counts_admissions_witness:
  "\<exists>r. counted_run runner_replay falling (Aware (minutes 7)) = Inr r \<and> cr_admitted_inferred r = cr_admitted_actual r"
proof -
  obtain r where "counted_run runner_replay falling (Aware (minutes 7)) = Inr r" by (rule falling_counted)
  then show ?thesis using log_counts_admissions [of runner_replay falling "Aware (minutes 7)" r]
    by (simp add: runner_replay_def sample_replay_def)
qed

section \<open>The peak is the largest overlap\<close>

definition deltas :: "('a \<times> int) list \<Rightarrow> int" where
  "deltas es = (\<Sum>e\<leftarrow>es. snd e)"

lemma peak_of_bounds: "peak \<le> peak_of running peak es" "k < length es \<Longrightarrow> running + deltas (take (Suc k) es) \<le> peak_of running peak es"
proof (induction es arbitrary: running peak k)
  case (Cons e es)
  obtain t d where e: "e = (t, d)" by fastforce
  {
    case 1
    show ?case using Cons.IH(1) [of "max peak (running + d)" "running + d"] by (simp add: e)
  next
    case 2
    show ?case
    proof (cases k)
      case 0
      then show ?thesis using Cons.IH(1) [of "max peak (running + d)" "running + d"] by (simp add: e deltas_def)
    next
      case (Suc k')
      then show ?thesis using Cons.IH(2) [of k' "running + d" "max peak (running + d)"] 2 by (simp add: e deltas_def)
    qed
  }
qed simp_all

lemma peak_of_attained:
  "peak_of running peak es = peak \<or> (\<exists>k < length es. peak_of running peak es = running + deltas (take (Suc k) es))"
proof (induction es arbitrary: running peak)
  case (Cons e es)
  obtain t d where e: "e = (t, d)" by fastforce
  from Cons [of "running + d" "max peak (running + d)"] show ?case
  proof (elim disjE exE conjE)
    assume "peak_of (running + d) (max peak (running + d)) es = max peak (running + d)"
    then show ?thesis by (auto simp: e deltas_def max_def)
  next
    fix k assume "k < length es"
      and "peak_of (running + d) (max peak (running + d)) es = running + d + deltas (take (Suc k) es)"
    then have "Suc k < length (e # es) \<and> peak_of running peak (e # es) = running + deltas (take (Suc (Suc k)) (e # es))"
      by (simp add: e deltas_def)
    then show ?thesis by blast
  qed
qed simp

text \<open>How many spans hold an instant.\<close>

definition overlap :: "int \<Rightarrow> (datetime \<times> datetime) list \<Rightarrow> int" where
  "overlap \<tau> spans = int (length (filter (\<lambda>(a, b). ticks a \<le> \<tau> \<and> \<tau> \<le> ticks b) spans))"

definition before :: "int \<Rightarrow> datetime \<times> int \<Rightarrow> bool" where
  "before \<tau> e \<longleftrightarrow> event_key e \<le> (\<tau>, - 1)"

lemma deltas_perm: "mset xs = mset ys \<Longrightarrow> deltas (filter P xs) = deltas (filter P ys)"
  unfolding deltas_def by (metis mset_filter mset_map sum_mset_sum_list)

lemma overlap_deltas:
  assumes "\<forall>(a, b) \<in> set spans. ticks a \<le> ticks b"
  shows "deltas (filter (before \<tau>) (span_events spans)) = overlap \<tau> spans"
  using assms by (induction spans) (auto simp: deltas_def overlap_def span_events_def before_def event_key_def split: if_splits)

lemma span_deltas: "e \<in> set (span_events spans) \<Longrightarrow> snd e = 1 \<or> snd e = - 1"
  by (auto simp: span_events_def)

lemma sorted_prefix:
  fixes key :: "'a \<Rightarrow> 'b :: linorder"
  assumes "sorted (map key xs)"
  shows "filter (\<lambda>x. key x \<le> v) xs = take (length (filter (\<lambda>x. key x \<le> v) xs)) xs"
  using assms
proof (induction xs)
  case (Cons x xs)
  then show ?case
  proof (cases "key x \<le> v")
    case False
    then have "\<not> key y \<le> v" if "y \<in> set xs" for y using Cons.prems that by fastforce
    then show ?thesis using False by (simp add: filter_empty_conv)
  qed simp
qed simp

lemma before_prefix: "sorted (map event_key es) \<Longrightarrow> filter (before \<tau>) es = take (length (filter (before \<tau>) es)) es"
  using sorted_prefix [of event_key es "(\<tau>, - 1)"] unfolding before_def [abs_def] .

lemma deltas_append: "deltas (xs @ ys) = deltas xs + deltas ys"
  by (simp add: deltas_def)

lemma deltas_sign: "\<forall>e \<in> set es. snd e = 1 \<Longrightarrow> deltas es \<ge> 0" "\<forall>e \<in> set es. snd e = - 1 \<Longrightarrow> deltas es \<le> 0"
  by (induction es) (auto simp: deltas_def)

text \<open>In sorted events no prefix exceeds the one that ends with the openings at its last instant.\<close>

lemma prefix_below:
  assumes "sorted (map event_key es)" "\<forall>e \<in> set es. snd e = 1 \<or> snd e = - 1" "k < length es"
  shows "deltas (take (Suc k) es) \<le> deltas (filter (before (ticks (fst (es ! k)))) es)"
proof -
  define \<tau> where "\<tau> = ticks (fst (es ! k))"
  define n where "n = length (filter (before \<tau>) es)"
  have keys: "event_key (es ! i) \<le> event_key (es ! j)" if "i \<le> j" "j < length es" for i j
    using sorted_nth_mono [OF assms(1), of i j] that by simp
  have upto: "filter (before \<tau>) es = take n es"
    using before_prefix [OF assms(1)] by (simp only: n_def)
  have short: "n \<le> length es" unfolding n_def by (rule length_filter_le)
  have low: "before \<tau> (es ! i)" if "i < n" for i
  proof -
    have "i < length es" using that length_filter_le unfolding n_def by (rule less_le_trans)
    then have "es ! i \<in> set (take n es)" using that by (auto simp: in_set_conv_nth)
    then show ?thesis unfolding upto [symmetric] by simp
  qed
  have high: "\<not> before \<tau> (es ! i)" if "n \<le> i" "i < length es" for i
  proof
    assume "before \<tau> (es ! i)"
    then have "before \<tau> (es ! j)" if "j \<le> i" for j
      using keys [OF that \<open>i < length es\<close>] unfolding before_def by (rule order_trans [rotated])
    then have "before \<tau> e" if "e \<in> set (take (Suc i) es)" for e
      using that by (auto simp: in_set_conv_nth less_Suc_eq_le)
    then have "filter (before \<tau>) (take (Suc i) es) = take (Suc i) es" by simp
    then have "length (filter (before \<tau>) (take (Suc i) es @ drop (Suc i) es)) \<ge> Suc i"
      using \<open>i < length es\<close> by (simp only: filter_append length_append) simp
    then show False using that by (simp add: n_def)
  qed
  show ?thesis
  proof (cases "Suc k \<le> n")
    case True
    have "snd e = 1" if e: "e \<in> set (drop (Suc k) (take n es))" for e
    proof -
      obtain i where "i < min (length es) n - Suc k" "e = es ! Suc (k + i)"
        using e True short by (auto simp: in_set_conv_nth)
      then have "\<exists>i. i < n \<and> k < i \<and> i < length es \<and> e = es ! i" by (intro exI [of _ "Suc (k + i)"]) auto
      then obtain i where "i < n" "k < i" "i < length es" "e = es ! i" by blast
      then have "event_key (es ! k) \<le> event_key e" "event_key e \<le> (\<tau>, - 1)" using keys [of k i] low [of i] by (auto simp: before_def)
      then show ?thesis using assms(2) \<open>e = es ! i\<close> \<open>i < length es\<close> nth_mem by (force simp: event_key_def \<tau>_def)
    qed
    then have "deltas (drop (Suc k) (take n es)) \<ge> 0" by (intro deltas_sign) blast
    moreover have "take n es = take (Suc k) es @ drop (Suc k) (take n es)" using True by (metis append_take_drop_id min.absorb1 take_take)
    ultimately show ?thesis unfolding \<tau>_def [symmetric] upto by (metis deltas_append le_add_same_cancel1)
  next
    case False
    have "snd e = - 1" if e: "e \<in> set (drop n (take (Suc k) es))" for e
    proof -
      obtain i where "i < min (length es) (Suc k) - n" "e = es ! (n + i)"
        using e False short assms(3) by (auto simp: in_set_conv_nth)
      then have "\<exists>i. n \<le> i \<and> i \<le> k \<and> e = es ! i" by (intro exI [of _ "n + i"]) auto
      then obtain i where "n \<le> i" "i \<le> k" "e = es ! i" by blast
      then have "\<not> event_key e \<le> (\<tau>, - 1)" "event_key e \<le> event_key (es ! k)" using keys [of i k] high [of i] assms(3) by (auto simp: before_def)
      moreover have "snd (es ! k) = 1 \<or> snd (es ! k) = - 1" "snd e = 1 \<or> snd e = - 1"
        using assms(2,3) \<open>e = es ! i\<close> \<open>i \<le> k\<close> by auto
      ultimately show ?thesis by (auto simp: event_key_def \<tau>_def)
    qed
    then have "deltas (drop n (take (Suc k) es)) \<le> 0" by (intro deltas_sign) blast
    moreover have "take (Suc k) es = take n es @ drop n (take (Suc k) es)" using False by (metis append_take_drop_id min.absorb1 nat_le_linear take_take)
    ultimately show ?thesis unfolding \<tau>_def [symmetric] upto by (metis add_le_same_cancel1 deltas_append)
  qed
qed

lemma peak_is_overlap:
  assumes "\<forall>(a, b) \<in> set spans. ticks a \<le> ticks b" and "mset events = mset (span_events spans)"
  shows "overlap \<tau> spans \<le> peak_of 0 0 (sort_key event_key events)"
    "peak_of 0 0 (sort_key event_key events) = 0 \<or> (\<exists>\<tau>. peak_of 0 0 (sort_key event_key events) \<le> overlap \<tau> spans)"
proof -
  let ?es = "sort_key event_key events"
  have perm: "deltas (filter (before \<tau>) ?es) = overlap \<tau> spans" for \<tau>
    using overlap_deltas [OF assms(1), of \<tau>] deltas_perm [of ?es "span_events spans"] assms(2) by simp
  have units: "\<forall>e \<in> set ?es. snd e = 1 \<or> snd e = - 1"
    using span_deltas assms(2) by (metis mset_eq_setD set_sort)
  define n where "n = length (filter (before \<tau>) ?es)"
  have "filter (before \<tau>) ?es = take n ?es"
    unfolding n_def by (rule before_prefix) (rule sorted_sort_key)
  then have "overlap \<tau> spans = deltas (take n ?es)" using perm by metis
  moreover have "n \<le> length ?es" by (metis length_filter_le n_def)
  ultimately show "overlap \<tau> spans \<le> peak_of 0 0 ?es"
    using peak_of_bounds(1) [of 0 0 ?es] peak_of_bounds(2) [of "n - 1" ?es 0 0] by (cases n) (simp_all add: deltas_def)
  show "peak_of 0 0 ?es = 0 \<or> (\<exists>\<tau>. peak_of 0 0 ?es \<le> overlap \<tau> spans)"
    using peak_of_attained [of 0 0 ?es] prefix_below [OF sorted_sort_key units] perm by (metis add_0)
qed

text \<open>The spans of a run's positions, those still open ending with the window.\<close>

definition spans_of :: "int \<Rightarrow> datetime \<Rightarrow> BacktestLedger \<Rightarrow> (datetime \<times> datetime) list" where
  "spans_of magic window_end l =
     map (\<lambda>t. (ct_opened_at t, ct_closed_at t)) (trades_of_magic magic l) @
     map (\<lambda>x. (bp_opened_at (snd x), window_end)) (filter (\<lambda>x. bp_magic (snd x) = magic) (bl_open_positions l))"

text \<open>
  Over increasing bars none of which is after the window's end, the peak a run reports is the
  largest number of the runner's positions, closed and still open, whose spans share an instant.
\<close>

theorem peak_is_largest_overlap:
  assumes "counted_run c bars window_end = Inr r" "1 \<le> rp_bars_count c" "increasing bars"
    and "\<forall>b \<in> set bars. ticks (bar_time b) \<le> ticks window_end"
  shows "\<exists>l. run_backtest c bars = Inr l \<and>
    (\<forall>\<tau>. overlap \<tau> (spans_of (rp_runner_magic c) window_end l) \<le> cr_peak_concurrent r) \<and>
    (cr_peak_concurrent r = 0 \<or>
     (\<exists>\<tau>. overlap \<tau> (spans_of (rp_runner_magic c) window_end l) = cr_peak_concurrent r))"
proof -
  obtain l k where run: "watched_backtest c bars (plain_signal (rp_runner_config c)) (handler emit) new_counter = Inr (l, k)"
      and row: "concurrency_row c (int (length bars)) window_end l k = Inr r"
    using assms(1) by (auto simp: counted_run_def result_simps)
  have ledger: "run_backtest c bars = Inr l"
    using watched_ledger [of c bars emit new_counter] run by simp
  let ?magic = "rp_runner_magic c"
  let ?spans = "spans_of ?magic window_end l"
  let ?events = "span_events (map (\<lambda>t. (ct_opened_at t, ct_closed_at t)) (trades_of_magic ?magic l)) @
      span_events (map (\<lambda>opened_at. (opened_at, window_end))
        (map (\<lambda>x. bp_opened_at (snd x)) (filter (\<lambda>x. bp_magic (snd x) = ?magic) (bl_open_positions l))))"
  have peak: "cr_peak_concurrent r = peak_of 0 0 (sort_key event_key ?events)"
    using row by (clarsimp simp: concurrency_row_def Let_def result_simps) (simp add: max_concurrent_def Let_def split: if_split_asm)
  obtain n where "history (\<le>) n l" by (rule replay_keeps_history [OF ledger assms(2,3)])
  then have "\<forall>t \<in> set (bl_closed_trades l). ticks (ct_opened_at t) \<le> ticks (ct_closed_at t)"
    by (auto simp: history_def clean_exit_def)
  moreover have "\<forall>x \<in> set (bl_open_positions l). ticks (bp_opened_at (snd x)) \<le> ticks window_end"
    using replay_entered [OF ledger assms(2)] assms(4) by (auto simp: entered_def)
  ultimately have ordered: "\<forall>(a, b) \<in> set ?spans. ticks a \<le> ticks b"
    by (auto simp: spans_of_def trades_of_magic_def)
  have "mset ?events = mset (span_events ?spans)"
    by (simp add: spans_of_def span_events_def comp_def)
  then show ?thesis
    using ledger peak_is_overlap [OF ordered] unfolding peak by (meson order_antisym)
qed

theorem peak_is_largest_overlap_witness:
  "\<exists>r l. counted_run runner_replay falling (Aware (minutes 7)) = Inr r \<and> run_backtest runner_replay falling = Inr l \<and>
     overlap (minutes 6) (spans_of 71102 (Aware (minutes 7)) l) \<le> cr_peak_concurrent r"
proof -
  obtain r where r: "counted_run runner_replay falling (Aware (minutes 7)) = Inr r" by (rule falling_counted)
  have "increasing falling" "\<forall>b \<in> set falling. ticks (bar_time b) \<le> ticks (Aware (minutes 7))"
    by (simp_all add: increasing_def falling_def rising_def sample_bar_def)
  then show ?thesis using peak_is_largest_overlap [OF r] r by auto
qed

text \<open>
  The sort puts openings before closings of the same instant, so a position that closes on the bar
  on which the next one opens counts as simultaneous with it, though the replay closes first: the
  peak can exceed the position limit.
\<close>

lemma touching_trades_overlap:
  assumes "ct_opened_at t = Aware 0" "ct_closed_at t = Aware 1" "ct_opened_at u = Aware 1" "ct_closed_at u = Aware 2"
  shows "max_concurrent [t, u] [] window_end = Inr 2"
  by (simp add: max_concurrent_def span_events_def assms one_kind_def event_key_def less_eq_prod_def)

end
