(* ===== verification/Py_Random.thy ===== *)
theory Py_Random
  imports Py_Builtins "HOL-Library.Word"
begin

text \<open>
  \<^verbatim>\<open>random.Random(seed)\<close> of Python for an integer seed: the Mersenne Twister MT19937 seeded by
  an array of 32-bit words, and \<^verbatim>\<open>random()\<close> with 53 bits. The state is the window of the last
  624 words of the recurrence, so a draw drops the oldest word and appends the next.
  Shown: the window keeps its length and a draw is a float of the half-open unit interval.
\<close>

unbundle bit_operations_syntax

type_synonym mt_state = "32 word list"

text \<open>\<^verbatim>\<open>init_genrand(19650218)\<close>.\<close>

fun mt_genrand :: "nat \<Rightarrow> nat \<Rightarrow> 32 word \<Rightarrow> 32 word list" where
  "mt_genrand 0 i x = []"
| "mt_genrand (Suc n) i x = x # mt_genrand n (i + 1) (1812433253 * (x XOR drop_bit 30 x) + of_nat (i + 1))"

text \<open>The two mixing loops of \<^verbatim>\<open>init_by_array\<close>; after the last word the first one takes its value.\<close>

definition mt_wrap :: "mt_state \<Rightarrow> nat \<Rightarrow> mt_state \<times> nat" where
  "mt_wrap mt i = (if i \<ge> 624 then (mt[0 := mt ! 623], 1) else (mt, i))"

definition mt_mixed :: "32 word \<Rightarrow> mt_state \<Rightarrow> nat \<Rightarrow> 32 word" where
  "mt_mixed factor mt i = mt ! i XOR ((mt ! (i - 1) XOR drop_bit 30 (mt ! (i - 1))) * factor)"

definition mix_key :: "32 word list \<Rightarrow> mt_state \<times> nat \<times> nat \<Rightarrow> mt_state \<times> nat \<times> nat" where
  "mix_key key = (\<lambda>(mt, i, j).
     case mt_wrap (mt[i := mt_mixed 1664525 mt i + key ! j + of_nat j]) (i + 1) of (mt, i) \<Rightarrow>
       (mt, i, if j + 1 \<ge> length key then 0 else j + 1))"

definition mix_index :: "mt_state \<times> nat \<Rightarrow> mt_state \<times> nat" where
  "mix_index = (\<lambda>(mt, i). mt_wrap (mt[i := mt_mixed 1566083941 mt i - of_nat i]) (i + 1))"

definition init_by_array :: "32 word list \<Rightarrow> mt_state" where
  "init_by_array key =
     (case (mix_key key ^^ max 624 (length key)) (mt_genrand 624 0 19650218, 1, 0) of (mt, i, _) \<Rightarrow>
      case (mix_index ^^ 623) (mt, i) of (mt, _) \<Rightarrow> mt[0 := 0x80000000])"

text \<open>The key of an integer is its absolute value in words of 32 bits, the low one first.\<close>

fun seed_key :: "nat \<Rightarrow> 32 word list" where
  "seed_key n = of_nat n # (if n < 2 ^ 32 then [] else seed_key (n div 2 ^ 32))"

declare seed_key.simps [simp del]

definition random_seed :: "int \<Rightarrow> mt_state" where
  "random_seed seed = init_by_array (seed_key (nat \<bar>seed\<bar>))"

definition mt_temper :: "32 word \<Rightarrow> 32 word" where
  "mt_temper y =
     (let y = y XOR drop_bit 11 y;
          y = y XOR (push_bit 7 y AND 0x9d2c5680);
          y = y XOR (push_bit 15 y AND 0xefc60000)
      in y XOR drop_bit 18 y)"

definition mt_next :: "mt_state \<Rightarrow> 32 word" where
  "mt_next mt =
     (let y = (mt ! 0 AND 0x80000000) OR (mt ! 1 AND 0x7fffffff)
      in mt ! 397 XOR drop_bit 1 y XOR (if y AND 1 = 0 then 0 else 0x9908b0df))"

definition genrand_uint32 :: "mt_state \<Rightarrow> 32 word \<times> mt_state" where
  "genrand_uint32 mt = (mt_temper (mt_next mt), tl mt @ [mt_next mt])"

definition random_float :: "mt_state \<Rightarrow> pyfloat \<times> mt_state" where
  "random_float mt =
     (case genrand_uint32 mt of (u, mt) \<Rightarrow> case genrand_uint32 mt of (v, mt) \<Rightarrow>
        (flt ((of_nat (unat (drop_bit 5 u)) * 67108864 + of_nat (unat (drop_bit 6 v))) / 9007199254740992), mt))"

lemma drop_bit_range: "unat (drop_bit k (w :: 32 word)) < 2 ^ (32 - k)" if "k \<le> 32"
proof -
  have "unat w < 2 ^ LENGTH(32)" by (rule unsigned_less)
  then have "unat w < 2 ^ (32 - k) * 2 ^ k" using that by (simp flip: power_add)
  moreover have "unat (drop_bit k w) = unat w div 2 ^ k" by (simp only: unat_drop_bit_eq) (rule drop_bit_eq_div)
  ultimately show ?thesis by (simp only: less_mult_imp_div_less)
qed

lemma draw_bound:
  fixes a b :: nat
  assumes "a < 2 ^ 27" "b < 2 ^ 26"
  shows "int (a * 67108864 + b) \<le> 2 ^ 53 - 1"
  using assms by simp

lemma draw_float: "0 \<le> n \<Longrightarrow> n \<le> 2 ^ 53 - 1 \<Longrightarrow> flt (of_int n / 2 ^ 53) < 1"
  using rnd_dyadic [of n 53] by (simp add: pyfloat_less_iff divide_less_eq)

text \<open>A draw is at least 0 and below 1.\<close>

lemma random_float_range: "0 \<le> fst (random_float mt)" "fst (random_float mt) < 1"
proof -
  define u where "u = fst (genrand_uint32 mt)"
  define v where "v = fst (genrand_uint32 (snd (genrand_uint32 mt)))"
  let ?q = "(of_nat (unat (drop_bit 5 u)) * 67108864 + of_nat (unat (drop_bit 6 v))) / 9007199254740992 :: rat"
  have r: "fst (random_float mt) = flt ?q" by (simp only: random_float_def u_def v_def split_beta fst_conv)
  have "0 \<le> ?q" by (intro divide_nonneg_nonneg add_nonneg_nonneg mult_nonneg_nonneg of_nat_0_le_iff) simp_all
  from flt_mono [OF this] show "0 \<le> fst (random_float mt)" unfolding r flt_01 .
  let ?n = "unat (drop_bit 5 u) * 67108864 + unat (drop_bit 6 v)"
  have "unat (drop_bit 5 u) < 2 ^ 27" "unat (drop_bit 6 v) < 2 ^ 26" using drop_bit_range [of 5 u] drop_bit_range [of 6 v] by simp_all
  then have n: "int ?n \<le> 2 ^ 53 - 1" by (rule draw_bound)
  have "?q = of_int (int ?n) / 2 ^ 53"
    by (simp only: of_int_of_nat_eq of_nat_add of_nat_mult of_nat_numeral power_numeral) simp
  then show "fst (random_float mt) < 1" unfolding r by (simp only: draw_float n of_nat_0_le_iff)
qed

lemma genrand_length: "length mt = 624 \<Longrightarrow> length (snd (genrand_uint32 mt)) = 624"
  by (simp add: genrand_uint32_def)

end
