(* ===== verification/Edge_Experiments.thy ===== *)
theory Edge_Experiments
  imports Concurrency_Study Py_Random
begin

text \<open>
  The edge tests \<^verbatim>\<open>..._experiment2_edge_test.py\<close> for BTCUSD and XAUUSD: the replay with the real
  runner signal against replays whose signal is replaced by a seeded random direction.
  Shown: the band of the random runs holds its mean and is one point exactly when its deviation is
  0, the z-score has the sign of the difference, and an infinite profit factor ends the BTCUSD test.
\<close>

section \<open>The random direction\<close>

definition random_signal :: "int \<Rightarrow> MarketBar list \<Rightarrow> (bt_state \<times> mt_state, exn, Signal) io" where
  "random_signal seed bars =
     bind_io (on_snd (\<lambda>rng. case random_float rng of (u, rng) \<Rightarrow> (Inr u, rng))) (\<lambda>u.
       if bars = [] then raise_io IndexError
       else return_io \<lparr> sig_symbol = bar_symbol (last bars), sig_strategy_name = ''runner'',
              sig_direction = (if u < flt (1 / 2) then LONG else SHORT), sig_timestamp = bar_time (last bars),
              sig_rationale = [Lit ''random seed='', f_int seed] \<rparr>)"

text \<open>The replay while \<^verbatim>\<open>runner_signal\<close> is patched, with a generator of its own.\<close>

definition patched_backtest :: "int \<Rightarrow> replay_config \<Rightarrow> MarketBar list \<Rightarrow> BacktestLedger result" where
  "patched_backtest seed c bars =
     bind_res (watched_backtest c bars (random_signal seed) (\<lambda>_. return_io ()) (random_seed seed)) (\<lambda>(l, _). Inr l)"

definition seeds :: "int list" where
  "seeds = [0..19]"

section \<open>Results of a run\<close>

record edge_stats =
  eg_trade_count :: nat
  eg_expectancy_r :: "pyfloat option"
  eg_max_drawdown_r :: "pyfloat option"
  eg_win_rate :: "pyfloat option"
  eg_profit_factor :: "ratio option"
  eg_min_sample_met :: bool

definition edge_stats_of :: "ClosedTrade list \<Rightarrow> edge_stats result" where
  "edge_stats_of trades =
     (if trades = []
      then Inr \<lparr> eg_trade_count = 0, eg_expectancy_r = None, eg_max_drawdown_r = None, eg_win_rate = None,
                 eg_profit_factor = None, eg_min_sample_met = False \<rparr>
      else bind_res (expectancy_r trades) (\<lambda>expectancy.
           bind_res (max_drawdown_r trades) (\<lambda>drawdown.
           bind_res (win_rate trades) (\<lambda>rate.
           bind_res (profit_factor trades) (\<lambda>factor.
             Inr \<lparr> eg_trade_count = length trades, eg_expectancy_r = Some expectancy, eg_max_drawdown_r = Some drawdown,
                   eg_win_rate = Some rate, eg_profit_factor = Some factor,
                   eg_min_sample_met = has_minimum_sample trades min_trades_for_a_claim \<rparr>)))))"

record edge_run =
  ed_stats :: edge_stats
  ed_still_open :: nat
  ed_avg_holding :: "pyfloat option"
  ed_median_holding :: "pyfloat option"

text \<open>\<^verbatim>\<open>_run\<close> of the BTCUSD test.\<close>

definition edge_run_of :: "BacktestLedger \<Rightarrow> edge_run result" where
  "edge_run_of ledger =
     (let trades = trades_of_magic 72101 ledger;
          still_open = length (filter (\<lambda>x. bp_magic (snd x) = 72101) (bl_open_positions ledger))
      in bind_res (traverse holding_time trades) (\<lambda>holding.
         bind_res (edge_stats_of trades) (\<lambda>stats.
         bind_res (if holding = [] then Inr None else bind_res (float_mean holding) (\<lambda>m. Inr (Some m))) (\<lambda>mean.
         bind_res (if holding = [] then Inr None else bind_res (float_median holding) (\<lambda>m. Inr (Some m))) (\<lambda>middle.
           Inr \<lparr> ed_stats = stats, ed_still_open = still_open, ed_avg_holding = mean, ed_median_holding = middle \<rparr>)))))"

section \<open>The band of the random runs\<close>

datatype band = No_band | Band (bd_mean: pyfloat) (bd_sd: pyfloat) (bd_low: pyfloat) (bd_high: pyfloat) | Infinite_band

fun py_min :: "pyfloat list \<Rightarrow> pyfloat" where
  "py_min [] = 0"
| "py_min (x # xs) = fold min xs x"

fun py_max :: "pyfloat list \<Rightarrow> pyfloat" where
  "py_max [] = 0"
| "py_max (x # xs) = fold max xs x"

definition spread_of :: "pyfloat list \<Rightarrow> pyfloat result" where
  "spread_of vals = (if length vals > 1 then pstdev vals else Inr 0)"

definition float_band :: "pyfloat list \<Rightarrow> band result" where
  "float_band vals =
     (if vals = [] then Inr No_band
      else bind_res (float_mean vals) (\<lambda>mean.
           bind_res (spread_of vals) (\<lambda>sd. Inr (Band mean sd (py_min vals) (py_max vals)))))"

text \<open>
  A profit factor can be infinite. \<^verbatim>\<open>statistics.mean\<close> then is infinite, while \<^verbatim>\<open>statistics.pstdev\<close>
  asks the infinite sum of squares, a float, for its numerator, which floats do not have.
\<close>

definition ratio_band :: "ratio list \<Rightarrow> band result" where
  "ratio_band vals =
     (if Infinite \<in> set vals then if length vals > 1 then Inl AttributeError else Inr Infinite_band
      else float_band (map (\<lambda>r. case r of Finite x \<Rightarrow> x | Infinite \<Rightarrow> 0) vals))"

record edge_comparison =
  ec_delta :: pyfloat
  ec_z :: "pyfloat option"
  ec_outside_range :: bool

text \<open>No z-score stands for the \<^verbatim>\<open>nan\<close> of a band without spread.\<close>

definition compare_edge :: "pyfloat list \<Rightarrow> pyfloat option \<Rightarrow> edge_comparison option result" where
  "compare_edge vals actual =
     (case actual of
        None \<Rightarrow> Inr None
      | Some re \<Rightarrow>
          if vals = [] then Inr None
          else bind_res (float_mean vals) (\<lambda>mean.
               bind_res (spread_of vals) (\<lambda>sd.
                 Inr (Some \<lparr> ec_delta = re - mean, ec_z = (if sd > 0 then Some ((re - mean) / sd) else None),
                             ec_outside_range = (re < py_min vals \<or> re > py_max vals) \<rparr>))))"

record 'a edge_report =
  eo_real :: 'a
  eo_random :: "'a list"
  eo_bands :: "band list"
  eo_trade_counts :: "(pyfloat \<times> nat \<times> nat) option"
  eo_comparison :: "edge_comparison option"

section \<open>The test for BTCUSD\<close>

definition edge_config :: "SymbolInfo \<Rightarrow> replay_config" where
  "edge_config symbol_info =
     (study_config symbol_info)\<lparr>rp_runner_config := default_runner_config
        \<lparr>rc_min_stop_distance_fraction_of_price := 0, rc_max_concurrent_positions := 1\<rparr>\<rparr>"

definition edge_window :: "replay_config \<Rightarrow> MarketBar list \<Rightarrow> edge_run edge_report result" where
  "edge_window c bars =
     bind_res (bind_res (run_backtest c bars) edge_run_of) (\<lambda>actual.
     bind_res (traverse (\<lambda>seed. bind_res (patched_backtest seed c bars) edge_run_of) seeds) (\<lambda>baseline.
       let stats = map ed_stats baseline;
           exp_vals = somes (map eg_expectancy_r stats);
           counts = map eg_trade_count stats
       in bind_res (float_band exp_vals) (\<lambda>exp_band.
          bind_res (float_band (somes (map eg_win_rate stats))) (\<lambda>wr_band.
          bind_res (ratio_band (somes (map eg_profit_factor stats))) (\<lambda>pf_band.
          bind_res (float_band (somes (map eg_max_drawdown_r stats))) (\<lambda>dd_band.
          bind_res (compare_edge exp_vals (eg_expectancy_r (ed_stats actual))) (\<lambda>comparison.
            Inr \<lparr> eo_real = actual, eo_random = baseline, eo_bands = [exp_band, wr_band, pf_band, dd_band],
                  eo_trade_counts = Some (flt (of_nat (sum_list counts) / of_nat (length counts)), fold min counts (hd counts),
                     fold max counts (hd counts)),
                  eo_comparison = comparison \<rparr>)))))))"

text \<open>Each window is printed before any is replayed, which raises for an empty one.\<close>

definition edge_windows :: "(MarketBar list \<Rightarrow> 'a result) \<Rightarrow> MarketBar list list \<Rightarrow> 'a list result" where
  "edge_windows test windows = (if [] \<in> set windows then Inl IndexError else traverse test windows)"

definition edge_test ::
  "'w env \<Rightarrow> (string \<times> string) list \<Rightarrow> ('w live \<times> cache, exn, edge_run edge_report list) io" where
  "edge_test env source = bar_study env source (\<lambda>symbol_info all_bars.
     bind_res (filter_res (\<lambda>b. of_option TypeError (dt_less (bar_time b) held_out_start)) all_bars) (\<lambda>train_bars.
     bind_res (filter_res within_held_out all_bars) (\<lambda>test_bars.
     bind_res (filter_res (\<lambda>b. of_option TypeError (dt_less held_out_end (bar_time b))) all_bars) (\<lambda>live_bars.
       edge_windows (edge_window (edge_config symbol_info)) [train_bars, test_bars, live_bars]))))"

section \<open>The test for XAUUSD\<close>

definition chronological_thirds :: "'a list \<Rightarrow> 'a list list" where
  "chronological_thirds bars =
     (let n = length bars; a = n div 3; b = 2 * n div 3 in [take a bars, drop a (take b bars), drop b bars])"

definition gold_config :: "SymbolInfo \<Rightarrow> replay_config" where
  "gold_config symbol_info = (study_config symbol_info)\<lparr>rp_symbol := ''XAUUSD''\<rparr>"

definition gold_run_of :: "BacktestLedger \<Rightarrow> (edge_stats \<times> edge_stats) result" where
  "gold_run_of ledger =
     bind_res (edge_stats_of (trades_of_magic 72101 ledger)) (\<lambda>runner.
     bind_res (edge_stats_of (trades_of_magic 71101 ledger)) (\<lambda>grid. Inr (runner, grid)))"

definition gold_window :: "replay_config \<Rightarrow> MarketBar list \<Rightarrow> (edge_stats \<times> edge_stats) edge_report result" where
  "gold_window c bars =
     bind_res (bind_res (run_backtest c bars) gold_run_of) (\<lambda>actual.
     bind_res (traverse (\<lambda>seed. bind_res (patched_backtest seed c bars) gold_run_of) seeds) (\<lambda>baseline.
       let exp_vals = somes (map (eg_expectancy_r \<circ> fst) baseline)
       in bind_res (float_band exp_vals) (\<lambda>exp_band.
          bind_res (compare_edge exp_vals (eg_expectancy_r (fst actual))) (\<lambda>comparison.
            Inr \<lparr> eo_real = actual, eo_random = baseline, eo_bands = [exp_band],
                  eo_trade_counts = None,
                  eo_comparison = comparison \<rparr>))))"

definition gold_edge_test ::
  "'w env \<Rightarrow> (string \<times> string) list \<Rightarrow> ('w live \<times> cache, exn, (edge_stats \<times> edge_stats) edge_report list) io" where
  "gold_edge_test env source = symbol_study ''XAUUSD'' env source (\<lambda>symbol_info all_bars.
     edge_windows (gold_window (gold_config symbol_info)) (chronological_thirds all_bars))"

section \<open>What the comparison says\<close>

lemma py_min_max:
  assumes "vals \<noteq> []"
  shows "py_min vals \<in> set vals" "py_max vals \<in> set vals" "\<forall>x \<in> set vals. py_min vals \<le> x \<and> x \<le> py_max vals"
proof -
  obtain v vs where vals: "vals = v # vs" using assms by (cases vals) auto
  have "fold min vs v \<in> set (v # vs) \<and> (\<forall>x \<in> set (v # vs). fold min vs v \<le> x)"
    by (induction vs arbitrary: v) (fastforce simp: min_def)+
  moreover have "fold max vs v \<in> set (v # vs) \<and> (\<forall>x \<in> set (v # vs). x \<le> fold max vs v)"
    by (induction vs arbitrary: v) (fastforce simp: max_def)+
  ultimately show "py_min vals \<in> set vals" "py_max vals \<in> set vals" "\<forall>x \<in> set vals. py_min vals \<le> x \<and> x \<le> py_max vals"
    unfolding vals by auto
qed

lemma spread_of_sign:
  assumes "spread_of vals = Inr sd" "vals \<noteq> []"
  shows "0 \<le> sd" "sd = 0 \<longleftrightarrow> py_min vals = py_max vals"
proof -
  note range = py_min_max [OF assms(2)]
  have equal: "(\<forall>x \<in> set vals. \<forall>y \<in> set vals. x = y) \<longleftrightarrow> py_min vals = py_max vals"
    using range by (metis order_antisym)
  have "0 \<le> sd \<and> (sd = 0 \<longleftrightarrow> py_min vals = py_max vals)"
  proof (cases "length vals > 1")
    case True
    then have "pstdev vals = Inr sd" using assms(1) by (simp add: spread_of_def)
    then show ?thesis using pstdev_sign equal by blast
  next
    case False
    then obtain v where "vals = [v]" using assms(2) by (cases vals) auto
    then show ?thesis using assms(1) by (simp add: spread_of_def)
  qed
  then show "0 \<le> sd" "sd = 0 \<longleftrightarrow> py_min vals = py_max vals" by blast+
qed

lemma z_sign:
  fixes sd :: pyfloat
  assumes "sd > 0"
  shows "re > m \<Longrightarrow> (re - m) / sd > 0" "re < m \<Longrightarrow> (re - m) / sd < 0"
  using assms by (simp_all add: pyfloat_less_iff rat_of_arith zero_less_divide_iff divide_less_0_iff)

lemma stats_total: "vals \<noteq> [] \<Longrightarrow> \<exists>m. float_mean vals = Inr m" "vals \<noteq> [] \<Longrightarrow> \<exists>sd. spread_of vals = Inr sd"
  by (simp_all add: float_mean_def spread_of_def pstdev_def)

lemma float_band_total: "\<exists>b. float_band vals = Inr b"
  using stats_total [of vals] by (auto simp: float_band_def result_simps)

text \<open>
  What an edge test reports about its random runs is consistent: the mean of the band lies
  within its range, the deviation is 0 exactly for a range of one point, there is a z-score exactly
  when the range is wider, and a real expectancy above the range has a positive one, below it a
  negative one.
\<close>

theorem edge_comparison_sound:
  assumes "compare_edge vals (Some re) = Inr (Some k)"
  shows "\<exists>m sd. float_band vals = Inr (Band m sd (py_min vals) (py_max vals)) \<and>
    py_min vals \<le> m \<and> m \<le> py_max vals \<and> 0 \<le> sd \<and> (sd = 0 \<longleftrightarrow> py_min vals = py_max vals) \<and>
    (ec_z k = None \<longleftrightarrow> py_min vals = py_max vals) \<and>
    (re > py_max vals \<longrightarrow> ec_outside_range k \<and> (\<forall>z. ec_z k = Some z \<longrightarrow> z > 0)) \<and>
    (re < py_min vals \<longrightarrow> ec_outside_range k \<and> (\<forall>z. ec_z k = Some z \<longrightarrow> z < 0))"
proof -
  have ne: "vals \<noteq> []" using assms by (auto simp: compare_edge_def)
  obtain m sd where m: "float_mean vals = Inr m" and sd: "spread_of vals = Inr sd" using stats_total [OF ne] by blast
  have k: "k = \<lparr> ec_delta = re - m, ec_z = (if sd > 0 then Some ((re - m) / sd) else None),
      ec_outside_range = (re < py_min vals \<or> re > py_max vals) \<rparr>"
    using assms ne m sd by (simp add: compare_edge_def)
  have mean: "py_min vals \<le> m" "m \<le> py_max vals" using float_mean_between [OF m] py_min_max(3) [OF ne] by blast+
  note spread = spread_of_sign [OF sd ne]
  have "re > m" if "re > py_max vals" using that mean by simp
  moreover have "re < m" if "re < py_min vals" using that mean by simp
  ultimately have "(re > py_max vals \<longrightarrow> (\<forall>z. ec_z k = Some z \<longrightarrow> z > 0)) \<and> (re < py_min vals \<longrightarrow> (\<forall>z. ec_z k = Some z \<longrightarrow> z < 0))"
    using z_sign [of sd] by (simp add: k)
  moreover have "ec_z k = None \<longleftrightarrow> py_min vals = py_max vals" using spread by (simp add: k) (metis order_less_le)
  moreover have "float_band vals = Inr (Band m sd (py_min vals) (py_max vals))" using m sd ne by (simp add: float_band_def)
  moreover have "re > py_max vals \<or> re < py_min vals \<longrightarrow> ec_outside_range k" by (simp add: k)
  ultimately show ?thesis using mean spread by (intro exI [of _ m] exI [of _ sd] conjI impI) simp_all
qed

theorem edge_comparison_sound_witness:
  "\<exists>k. compare_edge [0, 1] (Some (fint 2)) = Inr (Some k) \<and> (\<exists>m. py_min [0, 1] \<le> m \<and> m \<le> py_max [0, 1]) \<and> ec_outside_range k"
proof -
  obtain k where k: "compare_edge [0, 1] (Some (fint 2)) = Inr (Some k)"
    using stats_total [of "[0, 1]"] by (auto simp: compare_edge_def)
  have "fint 2 > py_max [0, 1]" by (simp add: pyfloat_less_iff fint_def)
  then show ?thesis using edge_comparison_sound [OF k] k by blast
qed

text \<open>
  Two random runs with trades, one of which never lost, end the BTCUSD test: the band of the profit
  factors raises, after all the replays of the window, and nothing of it is reported.
\<close>

lemma infinite_factor_ends_edge_test:
  assumes "bind_res (run_backtest c bars) edge_run_of = Inr actual"
    and "traverse (\<lambda>seed. bind_res (patched_backtest seed c bars) edge_run_of) seeds = Inr runs"
    and "Infinite \<in> set (somes (map (eg_profit_factor \<circ> ed_stats) runs))"
    and "length (somes (map (eg_profit_factor \<circ> ed_stats) runs)) > 1"
  shows "edge_window c bars = Inl AttributeError"
proof -
  have "\<exists>b. float_band vals = Inr b" for vals by (rule float_band_total)
  then obtain b where "\<And>vals. float_band vals = Inr (b vals)" by metis
  then show ?thesis using assms by (simp add: edge_window_def ratio_band_def Let_def)
qed

lemma thirds_complete: "concat (chronological_thirds bars) = bars"
proof -
  have "length bars div 3 \<le> 2 * length bars div 3" by linarith
  then show ?thesis
    by (simp add: chronological_thirds_def Let_def) (metis append.assoc append_take_drop_id min.absorb1 take_take)
qed

lemma edge_tests_observe:
  "keeps study_effect (edge_test env source)" "keeps study_effect (gold_edge_test env source)"
  "keeps study_effect (concurrency_study env source)"
  unfolding edge_test_def gold_edge_test_def concurrency_study_def by (rule study_reads symbol_study_reads)+

end
