(* ===== verification/Cost_Edge.thy ===== *)
theory Cost_Edge
  imports Edge_Experiments
begin

text \<open>
  \<^verbatim>\<open>scripts/run_demo_execution_check_20260813_experiment5_cost_edge_test.py\<close>: a replay of its own
  over the executor and the ledger of the backtest that enters on every bar and leaves on the next
  one, its baselines, and the classification of what it finds.
  Shown: such a replay has one trade for every bar it can enter on, each closed by the forced exit
  or by a stop; which flags give which class; and that the best class asks for no gain.
\<close>

section \<open>Signals\<close>

type_synonym 'x bar_signal = "MarketBar \<Rightarrow> MarketBar \<Rightarrow> int \<Rightarrow> 'x \<Rightarrow> Direction \<times> 'x"

definition fade_last_bar :: "'x bar_signal" where
  "fade_last_bar bar prev_bar index x =
     (let ret = bar_close bar - bar_close prev_bar
      in (if ret > 0 then SHORT else if ret < 0 then LONG else LONG, x))"

definition always_long :: "'x bar_signal" where
  "always_long bar prev_bar index x = (LONG, x)"

definition always_short :: "'x bar_signal" where
  "always_short bar prev_bar index x = (SHORT, x)"

definition random_bar_signal :: "mt_state bar_signal" where
  "random_bar_signal bar prev_bar index rng =
     (case random_float rng of (u, rng) \<Rightarrow> (if u < flt (1 / 2) then LONG else SHORT, rng))"

section \<open>The replay with a holding time of one bar\<close>

definition nominal_config :: RunnerStrategyConfig where
  "nominal_config = default_runner_config
     \<lparr>rc_atr_period := 14, rc_sl_atr_mult := fint 50, rc_tp_atr_mult := fint 50,
      rc_min_stop_distance_fraction_of_price := flt (1 / 20)\<rparr>"

definition candidate_plan :: "Side \<Rightarrow> pyfloat \<Rightarrow> pyfloat \<Rightarrow> OrderPlan" where
  "candidate_plan side sl tp =
     \<lparr> op_symbol = ''BTCUSD'', op_order_type = MARKET, op_side = side, op_volume = flt (1 / 100), op_price = None,
       op_sl = sl, op_tp = tp, op_deviation = 150, op_magic = 75105, op_comment = ''exp5_fade1bar'',
       op_filling_mode = None, op_expiry = None \<rparr>"

definition candidate_entry ::
  "MarketBar list \<Rightarrow> 'x bar_signal \<Rightarrow> pyfloat \<Rightarrow> int \<Rightarrow> MarketBar \<Rightarrow> (bt_state \<times> 'x, exn, unit) io" where
  "candidate_entry bars signal spread_multiplier i bar =
     bind_io (lift_io (py_index bars (i - 1))) (\<lambda>prev_bar.
     bind_io (on_snd (\<lambda>x. case signal bar prev_bar i x of (d, x) \<Rightarrow> (Inr d, x))) (\<lambda>direction.
       let side = (if direction = LONG then BUY else SELL)
       in bind_io (lift_io (compute_stop_distances (py_slice bars (i - 14) (i + 1)) (si_point recorded_symbol_info) nominal_config))
            (\<lambda>(sl_distance, tp_distance).
            let half = half_spread_price bar recorded_symbol_info spread_multiplier;
                reference_price = (if side = BUY then bar_close bar + half else bar_close bar - half);
                (sl, tp) = runner_stops recorded_symbol_info side reference_price sl_distance tp_distance
            in bind_io (on_fst (bt_submit bars recorded_symbol_info spread_multiplier (candidate_plan side sl tp)))
                 (\<lambda>_. return_io ()))))"

text \<open>The positions of the bar before are closed, unless its stops were already hit.\<close>

definition close_all_open :: "MarketBar list \<Rightarrow> pyfloat \<Rightarrow> (bt_state, exn, unit) io" where
  "close_all_open bars spread_multiplier =
     bind_io (get_io (\<lambda>s. map fst (bl_open_positions (bt_ledger s)))) (\<lambda>tickets.
       for_io (\<lambda>ticket. bind_io (bt_close_position bars recorded_symbol_info spread_multiplier ticket None) (\<lambda>_. return_io ())) tickets)"

definition candidate_bar ::
  "MarketBar list \<Rightarrow> 'x bar_signal \<Rightarrow> pyfloat \<Rightarrow> int \<Rightarrow> (bt_state \<times> 'x, exn, unit) io" where
  "candidate_bar bars signal spread_multiplier i =
     bind_io (on_fst (modify_io (\<lambda>s. s\<lparr>bt_index := i\<rparr>))) (\<lambda>_.
     bind_io (lift_io (py_index bars i)) (\<lambda>bar.
     bind_io (on_fst (on_ledger (check_fills_and_exits bar))) (\<lambda>_.
     bind_io (on_fst (close_all_open bars spread_multiplier)) (\<lambda>_.
       if i = int (length bars) - 1 then return_io () else candidate_entry bars signal spread_multiplier i bar))))"

record run_result =
  rr_trade_count :: nat
  rr_manual_closes :: nat
  rr_sl_tp_leaks :: nat
  rr_expectancy_r :: "pyfloat option"
  rr_win_rate :: "pyfloat option"
  rr_profit_factor :: "ratio option"
  rr_max_drawdown_r :: "pyfloat option"
  rr_min_sample_met :: bool

definition candidate_result :: "ClosedTrade list \<Rightarrow> run_result result" where
  "candidate_result trades =
     (let manual = length (filter (\<lambda>t. ct_close_reason t = ''MANUAL'') trades);
          leaked = length (filter (\<lambda>t. ct_close_reason t \<in> {''SL'', ''TP''}) trades)
      in bind_res (edge_stats_of trades) (\<lambda>s.
           Inr \<lparr> rr_trade_count = eg_trade_count s, rr_manual_closes = manual, rr_sl_tp_leaks = leaked,
                 rr_expectancy_r = eg_expectancy_r s, rr_win_rate = eg_win_rate s, rr_profit_factor = eg_profit_factor s,
                 rr_max_drawdown_r = eg_max_drawdown_r s, rr_min_sample_met = eg_min_sample_met s \<rparr>))"

definition run_candidate :: "MarketBar list \<Rightarrow> 'x bar_signal \<Rightarrow> 'x \<Rightarrow> pyfloat \<Rightarrow> run_result result" where
  "run_candidate bars signal x spread_multiplier =
     (if int (length bars) < 17 then candidate_result []
      else case for_io (candidate_bar bars signal spread_multiplier) [15..int (length bars) - 1] (initial_state, x) of
          (Inl e, _) \<Rightarrow> Inl e
        | (Inr _, (s, _)) \<Rightarrow> candidate_result (bl_closed_trades (bt_ledger s)))"

section \<open>The comparison with the baselines\<close>

record cost_summary =
  cs_real_expectancy :: "pyfloat option"
  cs_beats_long :: bool
  cs_beats_short :: bool
  cs_beats_random :: bool
  cs_comparison :: "edge_comparison option"
  cs_trade_count :: nat
  cs_min_sample_met :: bool

definition beats :: "pyfloat option \<Rightarrow> pyfloat option \<Rightarrow> bool" where
  "beats a b \<longleftrightarrow> (case (a, b) of (Some x, Some y) \<Rightarrow> x > y | _ \<Rightarrow> False)"

definition cost_row :: "MarketBar list \<Rightarrow> pyfloat \<Rightarrow> cost_summary result" where
  "cost_row bars spread_multiplier =
     bind_res (run_candidate bars fade_last_bar () spread_multiplier) (\<lambda>faded.
     bind_res (run_candidate bars always_long () spread_multiplier) (\<lambda>long_r.
     bind_res (run_candidate bars always_short () spread_multiplier) (\<lambda>short_r.
     bind_res (traverse (\<lambda>seed. run_candidate bars random_bar_signal (random_seed seed) spread_multiplier) seeds) (\<lambda>runs.
       let exp_vals = somes (map rr_expectancy_r runs); real_exp = rr_expectancy_r faded
       in bind_res (float_band exp_vals) (\<lambda>b.
          bind_res (compare_edge exp_vals real_exp) (\<lambda>comparison.
            Inr \<lparr> cs_real_expectancy = real_exp, cs_beats_long = beats real_exp (rr_expectancy_r long_r),
                  cs_beats_short = beats real_exp (rr_expectancy_r short_r),
                  cs_beats_random = beats real_exp (case b of Band mean _ _ _ \<Rightarrow> Some mean | _ \<Rightarrow> None),
                  cs_comparison = comparison, cs_trade_count = rr_trade_count faded,
                  cs_min_sample_met = rr_min_sample_met faded \<rparr>))))))"

text \<open>A window at no cost and at the real one.\<close>

type_synonym window_summary = "cost_summary \<times> cost_summary"

definition window_rows :: "MarketBar list \<Rightarrow> window_summary result" where
  "window_rows bars =
     bind_res (cost_row bars 0) (\<lambda>zero_cost. bind_res (cost_row bars 1) (\<lambda>real_cost. Inr (zero_cost, real_cost)))"

definition beats_all :: "cost_summary \<Rightarrow> bool" where
  "beats_all s \<longleftrightarrow> cs_beats_long s \<and> cs_beats_short s \<and> cs_beats_random s"

datatype edge_class = Class_A | Class_B | Class_C | Class_D

definition classify_edge :: "window_summary list \<Rightarrow> edge_class" where
  "classify_edge summary =
     (let zero_cost_all_beat = (\<forall>w \<in> set summary. beats_all (fst w));
          real_cost_all_beat = (\<forall>w \<in> set summary. beats_all (snd w));
          real_cost_any_beat = (\<exists>w \<in> set summary. beats_all (snd w));
          min_sample_all = (\<forall>w \<in> set summary. cs_min_sample_met (snd w))
      in if real_cost_all_beat \<and> min_sample_all then Class_A
         else if zero_cost_all_beat \<and> \<not> real_cost_any_beat then Class_C
         else if real_cost_any_beat \<or> zero_cost_all_beat then Class_B
         else Class_D)"

definition real_cost_signs :: "window_summary list \<Rightarrow> int list" where
  "real_cost_signs summary = map (\<lambda>w. if beats (cs_real_expectancy (snd w)) (Some 0) then 1 else - 1) summary"

definition analyze_timeframe :: "string \<Rightarrow> (cache, exn, window_summary list) io" where
  "analyze_timeframe timeframe =
     bind_io (cached_bars ''BTCUSD'' timeframe) (\<lambda>all_bars.
       lift_io (traverse (\<lambda>bars. if bars = [] then Inl IndexError else window_rows bars) (chronological_thirds all_bars)))"

definition cost_edge_test :: "(cache, exn, (string \<times> edge_class \<times> int list) list) io" where
  "cost_edge_test =
     bind_io (analyze_timeframe ''M15'') (\<lambda>m15.
     bind_io (analyze_timeframe ''H1'') (\<lambda>h1.
       return_io [(''M15'', classify_edge m15, real_cost_signs m15), (''H1'', classify_edge h1, real_cost_signs h1)]))"

section \<open>One trade for every bar\<close>

definition named_reason :: "ClosedTrade \<Rightarrow> bool" where
  "named_reason t \<longleftrightarrow> ct_close_reason t \<in> {''MANUAL'', ''SL'', ''TP''}"

definition held_ledger :: "bt_state \<times> 'x \<Rightarrow> bool" where
  "held_ledger = (\<lambda>(s, x). ledger_reachable (bt_ledger s) \<and> bl_pending_orders (bt_ledger s) = [] \<and>
     (\<forall>t \<in> set (bl_closed_trades (bt_ledger s)). named_reason t))"

definition next_ticket :: "bt_state \<times> 'x \<Rightarrow> int" where
  "next_ticket = (\<lambda>(s, x). bl_next_ticket (bt_ledger s))"

text \<open>With nothing pending, the tickets issued are the open positions and the trades.\<close>

lemma tickets_used:
  assumes "ledger_reachable l" "bl_pending_orders l = []"
  shows "int (length (bl_open_positions l)) + int (length (bl_closed_trades l)) = bl_next_ticket l - 1"
proof -
  have ok: "ledger_ok l" and all: "open_tickets l \<union> closed_tickets l = {1 ..< bl_next_ticket l}"
    using reachable_tickets [OF assms(1)] assms(2) by (auto simp: pending_tickets_def)
  have disjoint: "open_tickets l \<inter> closed_tickets l = {}" and "1 \<le> bl_next_ticket l"
    and "distinct (map fst (bl_open_positions l))" "distinct (map ct_ticket (bl_closed_trades l))"
    using ok unfolding ledger_ok_def by blast+
  then have "card (open_tickets l) = length (bl_open_positions l)" "card (closed_tickets l) = length (bl_closed_trades l)"
    using distinct_card by (fastforce simp: ticket_defs)+
  moreover have "card (open_tickets l \<union> closed_tickets l) = card (open_tickets l) + card (closed_tickets l)"
    using disjoint by (intro card_Un_disjoint) (simp_all add: ticket_defs)
  ultimately show ?thesis using \<open>1 \<le> _\<close> unfolding all by simp
qed

lemma check_bar_held: "tally held_ledger next_ticket 0 (on_fst (on_ledger (check_fills_and_exits bar)))"
  unfolding tally_def
proof (intro allI impI)
  fix s :: "bt_state \<times> 'x" and u s'
  assume held: "held_ledger s" and run: "on_fst (on_ledger (check_fills_and_exits bar)) s = (Inr u, s')"
  obtain b x where s: "s = (b, x)" by (cases s)
  obtain l' where check: "check_fills_and_exits bar (bt_ledger b) = (Inr u, l')" and s': "s' = (b\<lparr>bt_ledger := l'\<rparr>, x)"
    using run by (auto simp: s on_fst_def on_ledger_def split: prod.split_asm)
  have reach: "ledger_reachable (bt_ledger b)" using held by (simp add: s held_ledger_def)
  then have "l' = after_bar bar (bt_ledger b)"
    using check_bar_cases [OF reachable_tickets [OF reach, THEN conjunct1], of bar] check by (simp split: if_split_asm)
  moreover have "named_reason (exit_trade bar x)" for x
    by (simp add: named_reason_def exit_trade_def trade_of_def Let_def)
  ultimately show "held_ledger s' \<and> next_ticket s' = next_ticket s + 0"
    using held check_bar_reachable [OF check reach] by (auto simp: s s' held_ledger_def next_ticket_def after_bar_def)
qed

lemma close_held:
  assumes "bt_close_position bars si m ticket None b = (Inr r, b')" "held_ledger (b, x)"
  shows "held_ledger (b', x)" "next_ticket (b', x) = next_ticket (b, x)"
    "bl_open_positions (bt_ledger b') = dict_pop ticket (bl_open_positions (bt_ledger b))"
proof -
  have "held_ledger (b', x) \<and> next_ticket (b', x) = next_ticket (b, x) \<and>
      bl_open_positions (bt_ledger b') = dict_pop ticket (bl_open_positions (bt_ledger b))"
  proof (cases "map_of (bl_open_positions (bt_ledger b)) ticket")
    case None
    then have "\<forall>y \<in> set (bl_open_positions (bt_ledger b)). fst y \<noteq> ticket" by (metis map_of_eq_None_iff image_eqI)
    then have "dict_pop ticket (bl_open_positions (bt_ledger b)) = bl_open_positions (bt_ledger b)"
      by (auto simp: dict_pop_def filter_id_conv)
    moreover have "b' = b" using assms(1) None by (simp add: bt_close_position_def io_simps)
    ultimately show ?thesis using assms(2) by simp
  next
    case (Some p)
    then obtain price and bar :: MarketBar and trade l' where close: "ledger_close_position ticket price ''MANUAL'' (bar_time bar) (bt_ledger b) = (Inr trade, l')"
        and b': "b' = b\<lparr>bt_ledger := l'\<rparr>"
      using assms(1) by (auto simp: bt_close_position_def current_bar_def on_ledger_def io_simps Let_def split: sum.split_asm prod.split_asm)
    have l': "l' = (bt_ledger b)\<lparr>bl_open_positions := dict_pop ticket (bl_open_positions (bt_ledger b)),
        bl_closed_trades := bl_closed_trades (bt_ledger b) @ [trade]\<rparr>" and "ct_close_reason trade = ''MANUAL''"
      using close Some by (auto simp: ledger_close_position_def trade_of_def Let_def split: if_split_asm)
    moreover have "ledger_reachable l'"
      using ledger_reachable.close [OF _ close] assms(2) by (simp add: held_ledger_def)
    ultimately show ?thesis using assms(2) by (auto simp: held_ledger_def next_ticket_def b' named_reason_def)
  qed
  then show "held_ledger (b', x)" "next_ticket (b', x) = next_ticket (b, x)"
    "bl_open_positions (bt_ledger b') = dict_pop ticket (bl_open_positions (bt_ledger b))" by blast+
qed

lemma close_each_held:
  assumes "for_io (\<lambda>ticket. bind_io (bt_close_position bars si m ticket None) (\<lambda>_. return_io ())) tickets b = (Inr u, b')"
    and "held_ledger (b, x)"
  shows "held_ledger (b', x) \<and> next_ticket (b', x) = next_ticket (b, x) \<and>
    bl_open_positions (bt_ledger b') = filter (\<lambda>y. fst y \<notin> set tickets) (bl_open_positions (bt_ledger b))"
  using assms
proof (induction tickets arbitrary: b)
  case Nil
  then show ?case by (simp add: io_simps)
next
  case (Cons t tickets)
  obtain r b1 where one: "bt_close_position bars si m t None b = (Inr r, b1)"
      and rest: "for_io (\<lambda>ticket. bind_io (bt_close_position bars si m ticket None) (\<lambda>_. return_io ())) tickets b1 = (Inr u, b')"
    using Cons.prems(1) by (auto simp: bind_io_Inr return_io_def)
  note c = close_held [OF one Cons.prems(2)]
  show ?case
    using Cons.IH [OF rest c(1)] c(2,3) by (simp add: dict_pop_def case_prod_beta conj_commute)
qed

lemma close_all_held:
  assumes "close_all_open bars m b = (Inr u, b')" "held_ledger (b, x)"
  shows "held_ledger (b', x)" "next_ticket (b', x) = next_ticket (b, x)" "bl_open_positions (bt_ledger b') = []"
proof -
  have "for_io (\<lambda>ticket. bind_io (bt_close_position bars recorded_symbol_info m ticket None) (\<lambda>_. return_io ()))
      (map fst (bl_open_positions (bt_ledger b))) b = (Inr u, b')"
    using assms(1) by (simp add: close_all_open_def bind_io_def get_io_def)
  from close_each_held [OF this assms(2)] show "held_ledger (b', x)" "next_ticket (b', x) = next_ticket (b, x)"
    "bl_open_positions (bt_ledger b') = []" by (simp_all add: filter_empty_conv)
qed

lemma close_all_tally: "tally held_ledger next_ticket 0 (on_fst (close_all_open bars m))"
  using close_all_held by (fastforce simp: tally_def on_fst_def split: prod.split_asm)

lemma entry_held: "tally held_ledger next_ticket 1 (candidate_entry bars signal m i bar)"
proof -
  have submit: "tally held_ledger next_ticket 1 (on_fst (bt_submit bars si m (candidate_plan side sl tp)))" for si side sl tp
    unfolding tally_def
  proof (intro allI impI)
    fix s :: "bt_state \<times> 'x" and r s'
    assume held: "held_ledger s" and run: "on_fst (bt_submit bars si m (candidate_plan side sl tp)) s = (Inr r, s')"
    obtain b x where s: "s = (b, x)" by (cases s)
    obtain v p now t l' where opened: "add_open_position ''BTCUSD'' side v p sl tp 75105 ''exp5_fade1bar'' now None (bt_ledger b) = (t, l')"
        and s': "s' = (b\<lparr>bt_ledger := l'\<rparr>, x)"
      using run by (auto simp: s on_fst_def bt_submit_def candidate_plan_def current_bar_def ledger_op_def on_ledger_def io_simps Let_def
          split: sum.split_asm prod.split_asm)
    then have "ledger_reachable l'" using held ledger_reachable.market [OF _ opened] by (simp add: s held_ledger_def)
    then show "held_ledger s' \<and> next_ticket s' = next_ticket s + 1"
      using held opened by (auto simp: s s' held_ledger_def next_ticket_def add_open_position_def new_ticket_def Let_def)
  qed
  have call: "keeps (steady held_ledger next_ticket) (on_snd g)" for g :: "('x, exn, Direction) io"
    by (auto simp: keeps_def steady_def on_snd_def held_ledger_def next_ticket_def split: prod.split)
  show ?thesis
    unfolding candidate_entry_def Let_def split_beta
    by (rule tally_after [OF steady.keeps_pure(3)], rule tally_after [OF call], rule tally_after [OF steady.keeps_pure(3)],
        rule tally_before [OF submit steady.keeps_pure(1)])
qed

lemma candidate_bar_held:
  "tally held_ledger next_ticket (if i = int (length bars) - 1 then 0 else 1) (candidate_bar bars signal m i)"
proof -
  have index: "keeps (steady held_ledger next_ticket) (on_fst (modify_io (\<lambda>s. s\<lparr>bt_index := i\<rparr>)))"
    by (auto simp: keeps_def steady_def on_fst_def modify_io_def held_ledger_def next_ticket_def)
  have "tally held_ledger next_ticket (if i = int (length bars) - 1 then 0 else 1)
      (if i = int (length bars) - 1 then return_io () else candidate_entry bars signal m i bar)" for bar
    by (simp add: entry_held tally_steady steady.keeps_pure)
  note last = tally_bind [OF check_bar_held tally_bind [OF close_all_tally this], unfolded add_0]
  show ?thesis
    unfolding candidate_bar_def by (rule tally_after [OF index], rule tally_after [OF steady.keeps_pure(3)]) (rule last)
qed

text \<open>After the last bar nothing is open.\<close>

lemma last_bar_flat:
  fixes x x' :: 'x
  assumes "candidate_bar bars signal m (int (length bars) - 1) (b, x) = (Inr u, (b', x'))" "held_ledger (b, x)"
  shows "bl_open_positions (bt_ledger b') = []"
proof -
  let ?i = "int (length bars) - 1"
  have index: "bind_io (on_fst (modify_io f)) g (b, x) = g () (f b, x)" for f and g :: "unit \<Rightarrow> (bt_state \<times> 'x, exn, unit) io"
    by (simp add: bind_io_def on_fst_def modify_io_def)
  obtain bar where bar: "py_index bars ?i = Inr bar"
    using assms(1) by (cases "py_index bars ?i") (simp_all add: candidate_bar_def index raise_io_def)
  have run: "bind_io (on_fst (on_ledger (check_fills_and_exits bar))) (\<lambda>_.
      bind_io (on_fst (close_all_open bars m)) (\<lambda>_. return_io ())) (b\<lparr>bt_index := ?i\<rparr>, x) = (Inr u, (b', x'))"
    using assms(1) by (simp add: candidate_bar_def index bar)
  obtain v s where check: "on_fst (on_ledger (check_fills_and_exits bar)) (b\<lparr>bt_index := ?i\<rparr>, x) = (Inr v, s)"
      and close: "on_fst (close_all_open bars m) s = (Inr u, (b', x'))"
    using run by (auto simp: bind_io_Inr return_io_def)
  have "held_ledger (b\<lparr>bt_index := ?i\<rparr>, x)" using assms(2) by (simp add: held_ledger_def)
  with tallyD [OF check_bar_held check] have "held_ledger s" by blast
  moreover obtain b1 where "s = (b1, x')" and all: "close_all_open bars m b1 = (Inr u, b')"
    using close by (cases s) (auto simp: on_fst_def split: prod.split_asm)
  ultimately show ?thesis using close_all_held(3) [OF all, where x = x'] by simp
qed

lemma sum_but_last: "(\<Sum>i\<leftarrow>[a..b]. if i = b then 0 else 1) = (if a \<le> b then b - a else (0 :: int))"
proof (cases "a \<le> b")
  case True
  have "(\<Sum>i\<leftarrow>is. if i = b then 0 else 1) = int (length is)" if "b \<notin> set is" for "is" :: "int list"
    using that by (induction "is") auto
  from this [of "[a..b - 1]"] show ?thesis using True by (simp add: upto_rec2)
qed simp

text \<open>
  C18: The replay with a holding time of one bar is what its design says: whatever the signal, when it
  returns it has one trade for every bar from the 16th to the last but one, and each of them is
  either the forced exit on the next bar or a leak through the nominal stops; none is unaccounted for.
\<close>

theorem one_trade_per_bar:
  assumes "run_candidate bars signal x m = Inr r" "17 \<le> length bars"
  shows "rr_trade_count r = length bars - 16 \<and> rr_manual_closes r + rr_sl_tp_leaks r = rr_trade_count r"
proof -
  let ?n = "int (length bars)" and ?bar = "candidate_bar bars signal m"
  obtain u s x' where run: "for_io ?bar [15..?n - 1] (initial_state, x) = (Inr u, (s, x'))"
      and r: "candidate_result (bl_closed_trades (bt_ledger s)) = Inr r"
    using assms by (auto simp: run_candidate_def split: sum.split_asm prod.split_asm)
  have start: "held_ledger (initial_state, x)" "next_ticket (initial_state, x) = 1"
    by (simp_all add: held_ledger_def next_ticket_def initial_state_def empty_ledger_def ledger_reachable.start [unfolded empty_ledger_def])
  have sum: "tally held_ledger next_ticket (\<Sum>i\<leftarrow>[15..?n - 1]. if i = ?n - 1 then 0 else 1) (for_io ?bar [15..?n - 1])"
    by (rule tally_for) (rule candidate_bar_held)
  have held: "held_ledger (s, x')" and tickets: "bl_next_ticket (bt_ledger s) = ?n - 15"
    using tallyD [OF sum run] start assms(2) by (auto simp: sum_but_last next_ticket_def)
  have flat: "bl_open_positions (bt_ledger s) = []"
  proof -
    have "[15..?n - 1] = [15..?n - 2] @ [?n - 1]" using assms(2) upto_rec2 [of 15 "?n - 1"] by simp
    then obtain v b1 x1 where init: "for_io ?bar [15..?n - 2] (initial_state, x) = (Inr v, (b1, x1))"
        and last: "?bar (?n - 1) (b1, x1) = (Inr u, (s, x'))"
      using run by (auto simp: for_io_append bind_io_Inr return_io_def)
    have "tally held_ledger next_ticket (\<Sum>i\<leftarrow>[15..?n - 2]. if i = ?n - 1 then 0 else 1) (for_io ?bar [15..?n - 2])"
      by (rule tally_for) (rule candidate_bar_held)
    from tallyD [OF this init start(1)] have "held_ledger (b1, x1)" by blast
    then show ?thesis by (rule last_bar_flat [OF last])
  qed
  let ?trades = "bl_closed_trades (bt_ledger s)"
  have count: "int (length ?trades) = ?n - 16"
    using tickets_used [of "bt_ledger s"] held tickets flat by (simp add: held_ledger_def)
  have "length (filter (\<lambda>t. ct_close_reason t = ''MANUAL'') ts) + length (filter (\<lambda>t. ct_close_reason t \<in> {''SL'', ''TP''}) ts) = length ts"
    if "\<forall>t \<in> set ts. named_reason t" for ts
    using that by (induction ts) (auto simp: named_reason_def)
  from this [of ?trades] have "length (filter (\<lambda>t. ct_close_reason t = ''MANUAL'') ?trades) +
      length (filter (\<lambda>t. ct_close_reason t \<in> {''SL'', ''TP''}) ?trades) = length ?trades"
    using held by (simp add: held_ledger_def)
  moreover have "rr_trade_count r = length ?trades" "rr_manual_closes r = length (filter (\<lambda>t. ct_close_reason t = ''MANUAL'') ?trades)"
      "rr_sl_tp_leaks r = length (filter (\<lambda>t. ct_close_reason t \<in> {''SL'', ''TP''}) ?trades)"
    using r by (auto simp: candidate_result_def edge_stats_of_def result_simps Let_def split: if_split_asm)
  ultimately show ?thesis using count by simp
qed

text \<open>Seventeen bars at one price: the only entry is closed on the last bar, where it came in.\<close>

definition still_bar :: "int \<Rightarrow> MarketBar" where
  "still_bar i =
     \<lparr> bar_symbol = ''BTCUSD'', bar_timeframe = ''M15'', bar_time = Aware (minutes (15 * i)), bar_open = 0,
       bar_high = 0, bar_low = 0, bar_close = 0, bar_tick_volume = 1, bar_spread = 1 \<rparr>"

definition still_bars :: "MarketBar list" where
  "still_bars = map still_bar [0..16]"

lemma still_bars_at: "0 \<le> i \<Longrightarrow> i \<le> 16 \<Longrightarrow> py_index still_bars i = Inr (still_bar i)"
  by (simp add: py_index_def still_bars_def)

lemma zero_sum: "neumaier 0 0 (replicate n 0) = 0"
  by (induction n) (simp_all add: Let_def)

lemma still_atr: "atr (map still_bar is) 14 = Inr 0"
proof -
  have "true_ranges (map still_bar is) = replicate (length is) 0"
    unfolding true_ranges_def by (rule replicate_eqI) (auto simp: true_range_def still_bar_def)
  moreover have "py_sum (replicate n 0) = 0" for n
    by (cases n) (simp_all add: py_sum_def zero_sum)
  ultimately show ?thesis by (simp add: atr_def py_from_def)
qed

lemma still_stops:
  obtains d where "compute_stop_distances (map still_bar (i # is)) (si_point recorded_symbol_info) nominal_config = Inr (d, d)"
    "py_round_digits d 2 > 0" "py_round_digits (- d) 2 < 0"
proof -
  let ?d = "fint 10 * flt (1 / 100) * fint 50"
  have floor: "max (fint 10 * flt (1 / 100)) (0 * rc_min_stop_distance_fraction_of_price nominal_config) = fint 10 * flt (1 / 100)"
  proof -
    have "0 \<le> fint 10 * flt (1 / 100)" by (simp add: pyfloat_le_iff rat_of_arith fint_def)
    then show ?thesis by simp
  qed
  have stops: "compute_stop_distances (map still_bar (i # is)) (si_point recorded_symbol_info) nominal_config = Inr (?d, ?d)"
    using still_atr [of "i # is"] floor
    by (simp add: compute_stop_distances_def nominal_config_def default_runner_config_def recorded_symbol_info_def Let_def still_bar_def last_map)
  have "fint 3 \<le> ?d"
  proof -
    have e: "rnd (1 / 128) = 1 / 128" "rnd (5 / 64) = 5 / 64" "rnd (125 / 32) = 125 / 32"
      using rnd_dyadic [of 1 7] rnd_dyadic [of 5 6] rnd_dyadic [of 125 5] by simp_all
    have "rat_of (flt (1 / 128) * fint 10 * fint 50) = 125 / 32" by (simp add: rat_of_arith fint_def e)
    then have "fint 3 \<le> flt (1 / 128) * fint 10 * fint 50" by (simp add: pyfloat_le_iff fint_def)
    also have "\<dots> \<le> flt (1 / 100) * fint 10 * fint 50"
      by (intro pyfloat_mult_right_mono flt_mono) (simp_all add: fint_def)
    finally show ?thesis by (simp add: pyfloat_mult_commute)
  qed
  moreover have "py_round_digits (fint 3) 2 = fint 3" "py_round_digits (- fint 3) 2 = - fint 3"
    using round_half_even_of_int [of 300] by (simp_all add: py_round_digits_def fint_def round_half_even_minus flt_minus)
  moreover have three: "0 < fint 3" "- fint 3 < 0" by (simp_all add: fint_def)
  ultimately have "fint 3 \<le> py_round_digits ?d 2" "py_round_digits (- ?d) 2 \<le> - fint 3"
    using py_round_digits_mono [of "fint 3" ?d 2] py_round_digits_mono [of "- ?d" "- fint 3" 2] by (simp_all add: pyfloat_minus_mono)
  then have "0 < py_round_digits ?d 2" "py_round_digits (- ?d) 2 < 0"
    using less_le_trans [OF three(1)] le_less_trans [OF _ three(2)] by blast+
  then show thesis by (rule that [OF stops])
qed

lemma still_run:
  obtains r where "run_candidate still_bars always_long () 0 = Inr r"
proof -
  obtain d where d: "compute_stop_distances (map still_bar (1 # [2..15])) (si_point recorded_symbol_info) nominal_config = Inr (d, d)"
      "py_round_digits d 2 > 0" "py_round_digits (- d) 2 < 0"
    by (rule still_stops)
  let ?p = "\<lparr> bp_ticket = 1, bp_symbol = ''BTCUSD'', bp_side = BUY, bp_volume = flt (1 / 100), bp_price_open = 0,
      bp_sl = py_round_digits (- d) 2, bp_tp = py_round_digits d 2, bp_magic = 75105, bp_comment = ''exp5_fade1bar'',
      bp_opened_at = bar_time (still_bar 15) \<rparr>"
  let ?l = "empty_ledger\<lparr>bl_next_ticket := 2, bl_open_positions := [(1, ?p)]\<rparr>"
  let ?t = "trade_of ?p 1 0 ''MANUAL'' (bar_time (still_bar 16))"
  have slice: "py_slice still_bars (15 - 14) (15 + 1) = map still_bar (1 # [2..15])"
    unfolding still_bars_def by (simp add: py_slice_def py_clip_def) code_simp
  have half: "half_spread_price (still_bar i) recorded_symbol_info 0 = 0" for i
    by (simp add: half_spread_price_def)
  have fields: "bar_close (still_bar i) = 0" "bar_high (still_bar i) = 0" "bar_low (still_bar i) = 0" "bar_symbol (still_bar i) = ''BTCUSD''" for i
    by (simp_all add: still_bar_def)
  have digits: "si_digits recorded_symbol_info = 2" by (simp add: recorded_symbol_info_def)
  have signs: "\<not> 0 \<le> py_round_digits (- d) 2" "\<not> py_round_digits d 2 \<le> 0" "py_round_digits (- d) 2 \<noteq> 0"
    using d(2,3) by auto
  note run = candidate_bar_def candidate_entry_def close_all_open_def bt_close_position_def bt_submit_def candidate_plan_def
    check_fills_and_exits_def ledger_op_def on_ledger_def on_fst_def on_snd_def current_bar_def io_simps Let_def
    still_bars_at fields half digits always_long_def runner_stops_def add_open_position_def new_ticket_def empty_ledger_def
    ledger_close_position_def dict_pop_def sl_hit_def tp_hit_def
  have "candidate_bar still_bars always_long 0 15 (initial_state, ()) = (Inr (), (\<lparr> bt_index = 15, bt_ledger = ?l \<rparr>, ()))"
    using d(1) slice by (simp add: run initial_state_def) (simp add: still_bars_def)
  moreover have "candidate_bar still_bars always_long 0 16 (\<lparr> bt_index = 15, bt_ledger = ?l \<rparr>, ()) =
      (Inr (), (\<lparr> bt_index = 16, bt_ledger = ?l\<lparr>bl_open_positions := [], bl_closed_trades := [?t]\<rparr> \<rparr>, ()))"
    by (simp add: run signs) (simp add: still_bars_def)
  moreover have "[15..int (length still_bars) - 1] = [15, 16]" by (simp add: still_bars_def upto_rec_numeral)
  moreover have "\<exists>r. candidate_result [t] = Inr r" for t
    by (simp add: candidate_result_def edge_stats_of_def expectancy_r_def max_drawdown_r_def win_rate_def profit_factor_def Let_def)
  moreover have "\<not> int (length still_bars) < 17" by (simp add: still_bars_def)
  ultimately show thesis using that by (auto simp: run_candidate_def bind_io_def return_io_def)
qed

theorem one_trade_per_bar_witness:
  "\<exists>r. run_candidate still_bars always_long () 0 = Inr r \<and> rr_trade_count r = 1"
proof -
  obtain r where r: "run_candidate still_bars always_long () 0 = Inr r" by (rule still_run)
  have "length still_bars = 17" by (simp add: still_bars_def)
  then show ?thesis using one_trade_per_bar [OF r] r by simp
qed

section \<open>The classes\<close>

text \<open>What the best and the worst class ask for.\<close>

lemma classify_edge_iff:
  "classify_edge ws = Class_A \<longleftrightarrow> (\<forall>w \<in> set ws. beats_all (snd w) \<and> cs_min_sample_met (snd w))"
  "classify_edge ws = Class_D \<longleftrightarrow>
     (\<forall>w \<in> set ws. \<not> beats_all (snd w)) \<and> (\<exists>w \<in> set ws. \<not> beats_all (fst w))"
  by (auto simp: classify_edge_def Let_def)

text \<open>
  The documented class A asks for gains of the same sign; the signs are printed and not asked for:
  windows that all lose, less than the baselines, are a robust edge. The reason given for class D
  is that not even a majority of the windows beats the baselines at no cost; two of three may.
\<close>

lemma losing_edge_is_robust:
  assumes "\<forall>w \<in> set ws. beats_all (snd w) \<and> cs_min_sample_met (snd w) \<and> (\<exists>e < 0. cs_real_expectancy (snd w) = Some e)"
  shows "classify_edge ws = Class_A \<and> real_cost_signs ws = replicate (length ws) (- 1)"
proof -
  have "real_cost_signs ws = replicate (length ws) (- 1)"
    unfolding real_cost_signs_def by (rule replicate_eqI) (use assms in \<open>auto simp: beats_def\<close>)
  then show ?thesis using assms by (simp add: classify_edge_iff)
qed

lemma majority_can_be_class_D:
  assumes "beats_all (fst v)" "beats_all (fst w)" "\<not> beats_all (fst u)" "\<not> beats_all (snd v)" "\<not> beats_all (snd w)" "\<not> beats_all (snd u)"
  shows "classify_edge [v, w, u] = Class_D"
  using assms by (simp add: classify_edge_def Let_def)

end
