(* ===== verification/Random_Walk.thy ===== *)
theory Random_Walk
  imports Edge_Experiments
begin

text \<open>
  The random-walk tests \<^verbatim>\<open>..._experiment3_randomwalk.py\<close> and
  \<^verbatim>\<open>..._experiment4_randomwalk_m15_h1.py\<close> for BTCUSD and XAUUSD: autocorrelation, variance
  ratio and runs test of the log prices of cached bars, over three windows, with the summary of what
  is consistent across them. The functions of the C library are arguments of the model.
  Shown: the runs of the runs test are the maximal blocks of equal signs, a p-value is a
  probability, significance after the correction implies significance before it, and a consistent
  row is one whose windows agree.
\<close>

section \<open>The C library\<close>

record libm =
  lm_log :: "pyfloat \<Rightarrow> pyfloat"
  lm_erf :: "pyfloat \<Rightarrow> pyfloat"
  lm_exp :: "pyfloat \<Rightarrow> pyfloat"

definition py_log :: "libm \<Rightarrow> pyfloat \<Rightarrow> pyfloat result" where
  "py_log m x = (if x \<le> 0 then Inl ValueError else Inr (lm_log m x))"

text \<open>What is documented of \<^verbatim>\<open>erf\<close>: on nonnegative arguments its values lie between 0 and 1.\<close>

definition erf_documented :: "libm \<Rightarrow> bool" where
  "erf_documented m \<longleftrightarrow> (\<forall>x \<ge> 0. 0 \<le> lm_erf m x \<and> lm_erf m x \<le> 1)"

definition normal_cdf :: "libm \<Rightarrow> pyfloat \<Rightarrow> pyfloat" where
  "normal_cdf m z = flt (1 / 2) * (1 + lm_erf m (z / sqrt_of_rat 2))"

definition two_sided_p :: "libm \<Rightarrow> pyfloat \<Rightarrow> pyfloat" where
  "two_sided_p m z = fint 2 * (1 - normal_cdf m \<bar>z\<bar>)"

section \<open>The tests\<close>

definition acf :: "libm \<Rightarrow> pyfloat list \<Rightarrow> nat \<Rightarrow> (pyfloat \<times> pyfloat \<times> pyfloat) result" where
  "acf m returns lag =
     (let n = length returns
      in bind_res (py_div (py_sum returns) (fint (int n))) (\<lambda>mean.
         let num = py_sum (map (\<lambda>t. (returns ! t - mean) * (returns ! (t + lag) - mean)) [0..<n - lag]);
             den = py_sum (map (\<lambda>r. (r - mean) * (r - mean)) returns)
         in bind_res (py_div num den) (\<lambda>coef.
            bind_res (py_sqrt (fint (int n))) (\<lambda>root.
              let band = flt (49 / 25) / root; z = coef / (1 / root)
              in Inr (coef, band, two_sided_p m z)))))"

definition variance_ratio :: "libm \<Rightarrow> pyfloat list \<Rightarrow> nat \<Rightarrow> (pyfloat \<times> pyfloat \<times> pyfloat) result" where
  "variance_ratio m log_prices q =
     (if log_prices = [] then Inl IndexError
      else let n = length log_prices - 1; square = (\<lambda>x. x * x :: pyfloat)
      in bind_res (py_div (last log_prices - hd log_prices) (fint (int n))) (\<lambda>mu.
         bind_res (py_div (py_sum (map (\<lambda>k. square (log_prices ! k - log_prices ! (k - 1) - mu)) [1..<n + 1]))
                     (fint (int n - 1))) (\<lambda>sigma_a2.
         let scale = fint (int q * (int n - int q + 1)) * (1 - flt (of_nat q / of_nat n))
         in bind_res (py_div (py_sum (map (\<lambda>k. square (log_prices ! k - log_prices ! (k - q) - fint (int q) * mu)) [q..<n + 1]))
                        scale) (\<lambda>sigma_c2.
            bind_res (py_div sigma_c2 sigma_a2) (\<lambda>vr.
            let theta = (if q > 1 then flt (of_nat (2 * (2 * q - 1) * (q - 1)) / of_nat (3 * q * n)) else flt (1 / 10 ^ 12))
            in bind_res (if theta > 0 then bind_res (py_sqrt theta) (\<lambda>root. py_div (vr - 1) root) else Inr 0) (\<lambda>z.
                 Inr (vr, z, if q > 1 then two_sided_p m z else 1)))))))"

text \<open>The signs of the returns over blocks of \<open>q\<close> bars that do not overlap; flat blocks are left out.\<close>

definition block_signs :: "pyfloat list \<Rightarrow> nat \<Rightarrow> int list" where
  "block_signs log_prices q =
     concat (map (\<lambda>i. let ret = log_prices ! ((i + 1) * q) - log_prices ! (i * q)
        in if ret > 0 then [1] else if ret < 0 then [- 1] else []) [0..<(length log_prices - 1) div q])"

definition count_runs :: "int list \<Rightarrow> int" where
  "count_runs signs = 1 + int (length (filter (\<lambda>i. signs ! i \<noteq> signs ! (i - 1)) [1..<length signs]))"

definition runs_test :: "libm \<Rightarrow> pyfloat list \<Rightarrow> nat \<Rightarrow> (int \<times> int \<times> int \<times> pyfloat \<times> pyfloat) result" where
  "runs_test m log_prices q =
     (let signs = block_signs log_prices q;
          n1 = int (length (filter (\<lambda>s. s = 1) signs));
          n2 = int (length (filter (\<lambda>s. s = - 1) signs));
          total = n1 + n2;
          runs = count_runs signs
      in if total = 0 \<or> total = 1 then Inl ZeroDivisionError
         else let e_r = 1 + flt (of_int (2 * n1 * n2) / of_int total);
                  var_r = flt (of_int (2 * n1 * n2 * (2 * n1 * n2 - total)) / of_int (total ^ 2 * (total - 1)))
         in bind_res (if var_r > 0 then bind_res (py_sqrt var_r) (\<lambda>root. py_div (fint runs - e_r) root) else Inr 0) (\<lambda>z.
              Inr (runs, n1, n2, z, two_sided_p m z)))"

section \<open>A window\<close>

definition horizons :: "nat list" where
  "horizons = [1, 5, 15, 30, 60]"

definition alpha :: pyfloat where
  "alpha = flt (1 / 20)"

definition bonferroni_alpha :: pyfloat where
  "bonferroni_alpha = alpha / fint 45"

text \<open>A statistic, its p-value and whether it is significant before and after the correction.\<close>

record test_cell =
  tc_value :: pyfloat
  tc_p :: pyfloat
  tc_raw :: bool
  tc_bonferroni :: bool

definition p_cell :: "pyfloat \<Rightarrow> pyfloat \<Rightarrow> test_cell" where
  "p_cell v p = \<lparr> tc_value = v, tc_p = p, tc_raw = (p < alpha), tc_bonferroni = (p < bonferroni_alpha) \<rparr>"

record window_tests =
  wt_acf :: "test_cell list"
  wt_vr :: "test_cell list"
  wt_runs :: "test_cell list"

definition log_prices_of :: "libm \<Rightarrow> MarketBar list \<Rightarrow> pyfloat list result" where
  "log_prices_of m bars = traverse (\<lambda>b. py_log m (bar_close b)) bars"

definition returns_of :: "pyfloat list \<Rightarrow> pyfloat list" where
  "returns_of log_prices = map (\<lambda>i. log_prices ! i - log_prices ! (i - 1)) [1..<length log_prices]"

definition window_tests_of :: "libm \<Rightarrow> MarketBar list \<Rightarrow> window_tests result" where
  "window_tests_of m bars =
     bind_res (log_prices_of m bars) (\<lambda>log_prices.
       if bars = [] then Inl IndexError
       else bind_res (traverse (\<lambda>lag. bind_res (acf m (returns_of log_prices) lag) (\<lambda>(coef, band, p).
               Inr \<lparr> tc_value = coef, tc_p = p, tc_raw = (\<bar>coef\<bar> > band), tc_bonferroni = (p < bonferroni_alpha) \<rparr>)) horizons) (\<lambda>acfs.
            bind_res (traverse (\<lambda>q. bind_res (variance_ratio m log_prices q) (\<lambda>(vr, z, p). Inr (p_cell vr p))) horizons) (\<lambda>vrs.
            bind_res (traverse (\<lambda>q. bind_res (runs_test m log_prices q) (\<lambda>(runs, n1, n2, z, p). Inr (p_cell z p))) horizons) (\<lambda>runs.
              Inr \<lparr> wt_acf = acfs, wt_vr = vrs, wt_runs = runs \<rparr>))))"

section \<open>The summary across windows\<close>

record summary_row =
  sm_cells :: "(bool \<times> bool \<times> bool) list"
  sm_same_sign :: bool
  sm_all_raw :: bool
  sm_all_bonferroni :: bool
  sm_consistent :: bool

text \<open>\<open>center\<close> is what the family subtracts before it reads the sign: 1 for the variance ratio.\<close>

definition summary_of :: "pyfloat \<Rightarrow> test_cell list \<Rightarrow> summary_row" where
  "summary_of center cells =
     (let signs = map (\<lambda>c. tc_value c - center > 0) cells;
          same_sign = (length (remdups signs) = 1);
          all_raw = list_all tc_raw cells
      in \<lparr> sm_cells = map (\<lambda>c. (tc_value c - center > 0, tc_raw c, tc_bonferroni c)) cells,
           sm_same_sign = same_sign, sm_all_raw = all_raw, sm_all_bonferroni = list_all tc_bonferroni cells,
           sm_consistent = (same_sign \<and> all_raw) \<rparr>)"

definition cross_window :: "window_tests list \<Rightarrow> summary_row list list" where
  "cross_window windows =
     map (\<lambda>(center, cells_of). map (\<lambda>h. summary_of center (map (\<lambda>w. cells_of w ! h) windows)) [0..<length horizons])
       [(0, wt_acf), (1, wt_vr), (0, wt_runs)]"

definition random_walk_tests :: "libm \<Rightarrow> MarketBar list list \<Rightarrow> (window_tests list \<times> summary_row list list) result" where
  "random_walk_tests m windows =
     bind_res (traverse (window_tests_of m) windows) (\<lambda>results. Inr (results, cross_window results))"

text \<open>Experiment 3 for BTCUSD splits at the dates of the earlier experiments, the others in thirds.\<close>

definition dated_windows :: "MarketBar list \<Rightarrow> MarketBar list list result" where
  "dated_windows all_bars =
     bind_res (filter_res (\<lambda>b. of_option TypeError (dt_less (bar_time b) held_out_start)) all_bars) (\<lambda>train_bars.
     bind_res (filter_res within_held_out all_bars) (\<lambda>test_bars.
     bind_res (filter_res (\<lambda>b. of_option TypeError (dt_less held_out_end (bar_time b))) all_bars) (\<lambda>live_bars.
       Inr [train_bars, test_bars, live_bars])))"

type_synonym walk_report = "window_tests list \<times> summary_row list list"

definition random_walk_btcusd_m1 :: "libm \<Rightarrow> (cache, exn, walk_report) io" where
  "random_walk_btcusd_m1 m =
     bind_io (cached_bars ''BTCUSD'' ''M1'') (\<lambda>all_bars. lift_io (bind_res (dated_windows all_bars) (random_walk_tests m)))"

definition random_walk_thirds :: "libm \<Rightarrow> string \<Rightarrow> string \<Rightarrow> (cache, exn, walk_report) io" where
  "random_walk_thirds m symbol timeframe =
     bind_io (cached_bars symbol timeframe) (\<lambda>all_bars. lift_io (random_walk_tests m (chronological_thirds all_bars)))"

definition random_walk_m15_h1 :: "libm \<Rightarrow> string \<Rightarrow> (cache, exn, walk_report \<times> walk_report) io" where
  "random_walk_m15_h1 m symbol =
     bind_io (random_walk_thirds m symbol ''M15'') (\<lambda>m15.
     bind_io (random_walk_thirds m symbol ''H1'') (\<lambda>h1. return_io (m15, h1)))"

definition random_walk_btcusd_m15_h1 :: "libm \<Rightarrow> (cache, exn, walk_report \<times> walk_report) io" where
  "random_walk_btcusd_m15_h1 m = random_walk_m15_h1 m ''BTCUSD''"

definition random_walk_xauusd_m15_h1 :: "libm \<Rightarrow> (cache, exn, walk_report \<times> walk_report) io" where
  "random_walk_xauusd_m15_h1 m = random_walk_m15_h1 m ''XAUUSD''"

definition random_walk_xauusd_m1 :: "libm \<Rightarrow> (cache, exn, walk_report) io" where
  "random_walk_xauusd_m1 m = random_walk_thirds m ''XAUUSD'' ''M1''"

section \<open>What the tests report\<close>

lemma count_runs_Cons: "count_runs (x # y # xs) = (if x = y then 0 else 1) + count_runs (y # xs)"
proof -
  let ?P = "\<lambda>i. (x # y # xs) ! i \<noteq> (x # y # xs) ! (i - 1)"
  have upt: "[1..<length (x # y # xs)] = 1 # map Suc [1..<length (y # xs)]"
    using upt_conv_Cons [of 1 "Suc (Suc (length xs))"] map_Suc_upt [of 1 "Suc (length xs)"]
    by (simp only: list.size One_nat_def add_0_right add_Suc_right)
  have "filter (?P \<circ> Suc) [1..<length (y # xs)] = filter (\<lambda>i. (y # xs) ! i \<noteq> (y # xs) ! (i - 1)) [1..<length (y # xs)]"
    by (rule filter_cong) (auto simp: nth_Cons')
  moreover have "length (filter ?P (1 # map Suc ks)) = (if x = y then 0 else 1) + length (filter (?P \<circ> Suc) ks)" for ks
    by (simp add: filter_map)
  ultimately show ?thesis unfolding count_runs_def upt by simp
qed

text \<open>The runs are the maximal blocks of equal signs.\<close>

lemma count_runs_blocks: "signs \<noteq> [] \<Longrightarrow> count_runs signs = int (length (remdups_adj signs))"
proof (induction signs rule: remdups_adj.induct)
  case (3 x y xs)
  then show ?case by (simp add: count_runs_Cons)
qed (simp_all add: count_runs_def)

lemma signs_are_units: "s \<in> set (block_signs log_prices q) \<Longrightarrow> s = 1 \<or> s = - 1"
  by (auto simp: block_signs_def Let_def split: if_split_asm)

lemma count_units: "(\<forall>s \<in> set ss. s = 1 \<or> s = - 1) \<Longrightarrow>
    length (filter (\<lambda>s. s = 1) ss) + length (filter (\<lambda>s. s = - 1) ss) = length (ss :: int list)"
  by (induction ss) auto

lemma p_value_range:
  assumes "erf_documented m"
  shows "0 \<le> two_sided_p m z" "two_sided_p m z \<le> 1"
proof -
  have "0 \<le> sqrt_of_rat 2" by (rule sqrt_of_rat_sign(1)) simp
  then have "0 \<le> \<bar>z\<bar> / sqrt_of_rat 2" by (intro pyfloat_prod_sign) simp_all
  then have erf: "0 \<le> lm_erf m (\<bar>z\<bar> / sqrt_of_rat 2)" "lm_erf m (\<bar>z\<bar> / sqrt_of_rat 2) \<le> 1"
    using assms by (simp_all add: erf_documented_def)
  have half: "flt (1 / 2) * 1 = flt (1 / 2)" "flt (1 / 2) * fint 2 = 1"
    using rnd_dyadic [of 1 1] by (simp_all add: pyfloat_eq_iff rat_of_arith fint_def)
  have "1 + 0 \<le> 1 + lm_erf m (\<bar>z\<bar> / sqrt_of_rat 2)" using erf by (intro pyfloat_add_mono) simp_all
  moreover have "1 + lm_erf m (\<bar>z\<bar> / sqrt_of_rat 2) \<le> 1 + 1" using erf by (intro pyfloat_add_mono) simp_all
  moreover have "(1 :: pyfloat) + 1 = fint 2" by (simp add: pyfloat_eq_iff rat_of_arith fint_def)
  ultimately have "flt (1 / 2) \<le> normal_cdf m \<bar>z\<bar>" "normal_cdf m \<bar>z\<bar> \<le> 1"
    using pyfloat_mult_right_mono [of 1 "1 + lm_erf m (\<bar>z\<bar> / sqrt_of_rat 2)" "flt (1 / 2)"]
      pyfloat_mult_right_mono [of "1 + lm_erf m (\<bar>z\<bar> / sqrt_of_rat 2)" "fint 2" "flt (1 / 2)"] half
    by (simp_all add: normal_cdf_def pyfloat_mult_commute)
  then have "0 \<le> 1 - normal_cdf m \<bar>z\<bar>" "1 - normal_cdf m \<bar>z\<bar> \<le> 1 - flt (1 / 2)"
    by (simp add: pyfloat_diff_sign, intro pyfloat_diff_mono) simp_all
  moreover have "1 - flt (1 / 2) = flt (1 / 2)"
  proof -
    have half_exact: "rnd (1 / 2) = 1 / 2" using rnd_dyadic [of 1 1] by simp
    show ?thesis by (simp add: pyfloat_eq_iff rat_of_arith half_exact)
  qed
  ultimately show "0 \<le> two_sided_p m z" "two_sided_p m z \<le> 1"
    using pyfloat_mult_right_mono [of "1 - normal_cdf m \<bar>z\<bar>" "flt (1 / 2)" "fint 2"] half
    by (auto simp: two_sided_p_def pyfloat_mult_commute fint_def intro!: pyfloat_prod_sign)
qed

lemma bonferroni_stricter: "p < bonferroni_alpha \<Longrightarrow> p < alpha"
proof -
  have "0 < alpha" "1 \<le> fint 45" by (simp_all add: alpha_def pyfloat_le_iff fint_def)
  then have "rat_of alpha / rat_of (fint 45) \<le> rat_of alpha"
    by (simp add: pyfloat_le_iff pyfloat_less_iff divide_le_eq mult_le_cancel_left1)
  then have "bonferroni_alpha \<le> alpha"
    unfolding bonferroni_alpha_def pyfloat_le_iff rat_of_arith by (metis rnd_mono rnd_rat_of)
  then show "p < bonferroni_alpha \<Longrightarrow> p < alpha" by simp
qed

lemma z_returns: "\<exists>z. (if v > 0 then bind_res (py_sqrt v) (\<lambda>root. py_div x root) else Inr 0) = (Inr z :: pyfloat result)"
  using sqrt_of_rat_sign(2) [of "rat_of v"] by (auto simp: py_sqrt_def py_div_def pyfloat_less_iff)

text \<open>The runs test returns as soon as two blocks moved.\<close>

lemma runs_test_returns:
  assumes "2 \<le> length (block_signs log_prices q)"
  shows "\<exists>z. runs_test m log_prices q =
    Inr (count_runs (block_signs log_prices q), int (length (filter (\<lambda>s. s = 1) (block_signs log_prices q))),
      int (length (filter (\<lambda>s. s = - 1) (block_signs log_prices q))), z, two_sided_p m z)"
proof -
  define n1 where "n1 = int (length (filter (\<lambda>s. s = 1) (block_signs log_prices q)))"
  define n2 where "n2 = int (length (filter (\<lambda>s. s = - 1) (block_signs log_prices q)))"
  define v where "v = flt (of_int (2 * n1 * n2 * (2 * n1 * n2 - (n1 + n2))) / of_int ((n1 + n2) ^ 2 * (n1 + n2 - 1)))"
  define e where "e = 1 + flt (of_int (2 * n1 * n2) / of_int (n1 + n2))"
  have "n1 + n2 = int (length (block_signs log_prices q))"
    using count_units [of "block_signs log_prices q"] signs_are_units unfolding n1_def n2_def by (metis of_nat_add)
  then have total: "\<not> (n1 + n2 = 0 \<or> n1 + n2 = 1)" using assms by linarith
  obtain z where z: "(if v > 0 then bind_res (py_sqrt v) (\<lambda>root. py_div (fint (count_runs (block_signs log_prices q)) - e) root)
      else Inr 0) = Inr z"
    using z_returns by blast
  have "runs_test m log_prices q = Inr (count_runs (block_signs log_prices q), n1, n2, z, two_sided_p m z)"
    unfolding runs_test_def Let_def n1_def [symmetric] n2_def [symmetric] v_def [symmetric] e_def [symmetric] if_not_P [OF total] z by simp
  then show ?thesis unfolding n1_def n2_def by blast
qed

text \<open>
  C19: What the runs test counts and what its p-value is. When it returns, up and down moves are all
  the blocks that moved, at least two; the runs it reports are the maximal blocks of equal signs;
  and with the documented range of \<^verbatim>\<open>erf\<close> the p-value is a probability.
\<close>

theorem runs_test_sound:
  assumes "runs_test m log_prices q = Inr (runs, n1, n2, z, p)" "erf_documented m"
  shows "n1 + n2 = int (length (block_signs log_prices q)) \<and> 2 \<le> n1 + n2 \<and>
    runs = int (length (remdups_adj (block_signs log_prices q))) \<and> 1 \<le> runs \<and> runs \<le> n1 + n2 \<and>
    0 \<le> p \<and> p \<le> 1"
proof -
  let ?signs = "block_signs log_prices q"
  have n: "n1 = int (length (filter (\<lambda>s. s = 1) ?signs))" "n2 = int (length (filter (\<lambda>s. s = - 1) ?signs))"
    and runs: "runs = count_runs ?signs" and total: "n1 + n2 \<noteq> 0" "n1 + n2 \<noteq> 1" and p: "p = two_sided_p m z"
    using assms(1) by (auto simp: runs_test_def Let_def result_simps split: if_split_asm)
  have length: "n1 + n2 = int (length ?signs)" using count_units [of ?signs] signs_are_units n by (metis of_nat_add)
  have "n1 \<ge> 0" "n2 \<ge> 0" by (simp_all add: n)
  then have "2 \<le> n1 + n2" using total by linarith
  then have "?signs \<noteq> []" using length by auto
  then have blocks: "runs = int (length (remdups_adj ?signs))" using runs count_runs_blocks by simp
  then have "1 \<le> runs" "runs \<le> n1 + n2"
    using \<open>?signs \<noteq> []\<close> remdups_adj_length [of ?signs] by (simp_all add: length Suc_le_eq)
  then show ?thesis using length \<open>2 \<le> n1 + n2\<close> blocks p_value_range [OF assms(2)] p by blast
qed

theorem runs_test_sound_witness:
  "\<exists>r. runs_test \<lparr> lm_log = id, lm_erf = (\<lambda>_. 0), lm_exp = id \<rparr> [0, 1, 0, 1] 1 = Inr r \<and> fst r = 3"
proof -
  let ?m = "\<lparr> lm_log = id, lm_erf = (\<lambda>_. 0), lm_exp = id \<rparr>"
  have signs: "block_signs [0, 1, 0, 1] 1 = [1, - 1, 1]"
    by (simp add: block_signs_def upt_rec [of 0] upt_rec [of 1] upt_rec [of 2] Let_def) (simp add: upt_rec pyfloat_less_iff)
  have "\<exists>z p. runs_test ?m [0, 1, 0, 1] 1 = Inr (3, 2, 1, z, p)"
    using runs_test_returns [of "[0, 1, 0, 1]" 1 ?m, unfolded signs] by (auto simp: count_runs_blocks)
  then obtain z p where r: "runs_test ?m [0, 1, 0, 1] 1 = Inr (3, 2, 1, z, p)" by blast
  have "erf_documented ?m" by (simp add: erf_documented_def)
  from runs_test_sound [OF r this] show ?thesis using r by auto
qed

lemma consistent_rows_agree:
  assumes "sm_consistent (summary_of center cells)"
  shows "(\<forall>c \<in> set cells. tc_raw c) \<and> (\<forall>c \<in> set cells. \<forall>d \<in> set cells. tc_value c - center > 0 \<longleftrightarrow> tc_value d - center > 0)"
proof -
  let ?sign = "\<lambda>c. tc_value c - center > 0"
  have "length (remdups (map ?sign cells)) = 1" "list_all tc_raw cells"
    using assms by (simp_all add: summary_of_def Let_def)
  then obtain s where "set (map ?sign cells) = {s}" by (metis length_Suc_conv length_0_conv One_nat_def list.set(1) list.set(2) set_remdups)
  then have "?sign c = s" if "c \<in> set cells" for c using that by auto
  then show ?thesis using \<open>list_all _ _\<close> by (simp add: list_all_iff)
qed

lemma cells_of_p: "tc_bonferroni (p_cell v p) \<Longrightarrow> tc_raw (p_cell v p)"
  by (simp add: p_cell_def bonferroni_stricter)

end
