(* ===== verification/Seasonality.thy ===== *)
theory Seasonality
  imports Random_Walk
begin

text \<open>
  \<^verbatim>\<open>scripts/run_demo_execution_check_20260814_session_seasonality_test.py\<close>: returns grouped by
  session and by weekday, the Kruskal-Wallis test on mid-ranks with a tie correction, and the
  chi-square test of reversals against sessions.
  Shown: the ranks are the mid-ranks, the number of smaller values plus half of one more than the
  number of equal ones; every return is in one session and on one weekday or weekend; and a test
  with an empty group does not return.
\<close>

section \<open>Buckets\<close>

definition hour_of :: "datetime \<Rightarrow> int" where
  "hour_of t = (ticks t mod day_us) div hours 1"

text \<open>The epoch was a Thursday.\<close>

definition weekday_of :: "datetime \<Rightarrow> int" where
  "weekday_of t = (ticks t div day_us + 3) mod 7"

definition session_bounds :: "(string \<times> int \<times> int) list" where
  "session_bounds = [(''ASIAN'', 0, 8), (''LONDON'', 8, 16), (''NY'', 16, 24)]"

definition session_names :: "string list" where
  "session_names = map fst session_bounds"

definition session_bucket :: "int \<Rightarrow> string result" where
  "session_bucket hour =
     (case find (\<lambda>(name, start, stop). start \<le> hour \<and> hour < stop) session_bounds of
        Some (name, _) \<Rightarrow> Inr name
      | None \<Rightarrow> Inl AssertionError)"

section \<open>Ranks\<close>

text \<open>The last index of the block of vals equal to the one at \<open>i\<close>.\<close>

function tie_end :: "pyfloat list \<Rightarrow> nat \<Rightarrow> nat \<Rightarrow> nat" where
  "tie_end vs i j = (if j + 1 < length vs \<and> vs ! (j + 1) = vs ! i then tie_end vs i (j + 1) else j)"
  by pat_completeness auto
termination by (relation "measure (\<lambda>(vs, i, j). length vs - j)") auto

declare tie_end.simps [simp del]

lemma tie_end_ge: "j \<le> tie_end vs i j"
proof (induction vs i j rule: tie_end.induct)
  case (1 vs i j)
  show ?case
  proof (cases "j + 1 < length vs \<and> vs ! (j + 1) = vs ! i")
    case True
    then show ?thesis using "1.IH" by (subst tie_end.simps) (simp add: Suc_leD)
  next
    case False
    then show ?thesis by (subst tie_end.simps) auto
  qed
qed

function rank_loop :: "pyfloat list \<Rightarrow> nat list \<Rightarrow> pyfloat list \<Rightarrow> nat \<Rightarrow> pyfloat list" where
  "rank_loop vals order ranks i =
     (if i < length order
      then let j = tie_end (map ((!) vals) order) i i;
               avg_rank = fint (int (i + 1 + j + 1)) / fint 2
           in rank_loop vals order (fold (\<lambda>m ranks. ranks[order ! m := avg_rank]) [i..<j + 1] ranks) (j + 1)
      else ranks)"
  by pat_completeness auto
termination
proof (relation "measure (\<lambda>(vals, order, ranks, i). length order - i)")
  show "((vals, order, fold (\<lambda>m ranks. ranks[order ! m := a]) [i..<j + 1] ranks, j + 1), vals, order, ranks, i)
      \<in> measure (\<lambda>(vals, order, ranks, i). length order - i)"
    if "i < length order" "j = tie_end (map ((!) vals) order) i i" for vals order ranks i j a
    using that tie_end_ge [of i "map ((!) vals) order" i] by auto
qed simp

declare rank_loop.simps [simp del]

definition rank_with_ties :: "pyfloat list \<Rightarrow> pyfloat list" where
  "rank_with_ties vals =
     rank_loop vals (sort_key ((!) vals) [0..<length vals]) (replicate (length vals) 0) 0"

section \<open>The tests\<close>

fun chi2_terms :: "pyfloat \<Rightarrow> nat list \<Rightarrow> pyfloat \<Rightarrow> pyfloat \<Rightarrow> pyfloat" where
  "chi2_terms x [] term acc = acc"
| "chi2_terms x (i # ks) term acc =
     (let term = term * ((x / fint 2) / fint (int i)) in chi2_terms x ks term (acc + term))"

definition chi2_sf_even_df :: "libm \<Rightarrow> pyfloat \<Rightarrow> int \<Rightarrow> pyfloat result" where
  "chi2_sf_even_df m x df =
     (if df < 2 \<or> df mod 2 \<noteq> 0 then Inl ValueError
      else if x \<le> 0 then Inr 1
      else Inr (lm_exp m (- x / fint 2) * chi2_terms x [1..<nat (df div 2)] 1 (0 + 1)))"

function tie_sum :: "pyfloat list \<Rightarrow> int \<Rightarrow> nat \<Rightarrow> int" where
  "tie_sum vs acc i =
     (if i < length vs
      then let j = tie_end vs i i; t = int (j - i + 1)
           in tie_sum vs (if t > 1 then acc + (t ^ 3 - t) else acc) (j + 1)
      else acc)"
  by pat_completeness auto
termination
proof (relation "measure (\<lambda>(vs, acc, i). length vs - i)")
  show "((vs, a, j + 1), vs, acc, i) \<in> measure (\<lambda>(vs, acc, i). length vs - i)"
    if "i < length vs" "j = tie_end vs i i" for vs acc a i j
    using that tie_end_ge [of i vs i] by auto
qed simp

declare tie_sum.simps [simp del]

fun rank_sums :: "pyfloat list \<Rightarrow> nat list \<Rightarrow> pyfloat list" where
  "rank_sums ranks [] = []"
| "rank_sums ranks (n # sizes) = py_sum (take n ranks) # rank_sums (drop n ranks) sizes"

definition kruskal_wallis :: "libm \<Rightarrow> pyfloat list list \<Rightarrow> (pyfloat \<times> pyfloat \<times> int) result" where
  "kruskal_wallis m groups =
     (let df = int (length groups) - 1; all_vals = concat groups; sizes = map length groups;
          n = int (length all_vals); ranks = rank_with_ties all_vals; ties = tie_sum (sort all_vals) 0 0
      in bind_res (py_div (fint 12) (fint (n * (n + 1)))) (\<lambda>factor.
         bind_res (traverse (\<lambda>(rs, gs). py_div (rs * rs) (fint (int gs))) (zip (rank_sums ranks sizes) sizes)) (\<lambda>terms.
           let h_raw = factor * py_sum terms - fint (3 * (n + 1));
               tie_correction = (if n > 1 then 1 - flt (of_int ties / of_int (n ^ 3 - n)) else 1);
               h = (if tie_correction > 0 then h_raw / tie_correction else h_raw);
               h = max h 0
           in bind_res (chi2_sf_even_df m h df) (\<lambda>p. Inr (h, p, df)))))"

definition chi_square_term :: "int \<Rightarrow> int \<Rightarrow> int \<Rightarrow> int \<Rightarrow> pyfloat result" where
  "chi_square_term row_total col_total grand_total obs =
     (if grand_total = 0 then Inl ZeroDivisionError
      else let expected = flt (of_int (row_total * col_total) / of_int grand_total); d = fint obs - expected
           in Inr (if expected > 0 then d * d / expected else 0))"

definition chi_square_independence :: "libm \<Rightarrow> (int \<times> int) list \<Rightarrow> (pyfloat \<times> pyfloat option \<times> int) result" where
  "chi_square_independence m table =
     (let col_totals = (sum_list (map fst table), sum_list (map snd table));
          grand_total = sum_list (map (\<lambda>(a, b). a + b) table);
          cells = concat (map (\<lambda>(a, b). [(a + b, fst col_totals, a), (a + b, snd col_totals, b)]) table);
          df = int (length table) - 1
      in bind_res (traverse (\<lambda>(row, col, obs). chi_square_term row col grand_total obs) cells) (\<lambda>terms.
         let chi2 = foldl (+) 0 terms
         in bind_res (if df \<ge> 2 \<and> df mod 2 = 0 then bind_res (chi2_sf_even_df m chi2 df) (\<lambda>p. Inr (Some p)) else Inr None) (\<lambda>p.
              Inr (chi2, p, df))))"

section \<open>A window\<close>

record season_report =
  sn_session_sizes :: "nat list"
  sn_weekday_sizes :: "nat list"
  sn_weekend :: nat
  sn_tests :: "(pyfloat \<times> pyfloat \<times> int) list"
  sn_reversals :: "(int \<times> int) list"
  sn_chi2 :: "pyfloat \<times> pyfloat option \<times> int"

text \<open>The vals of the pairs with a given key, in order.\<close>

definition grouped :: "'k list \<Rightarrow> ('k \<times> 'v) list \<Rightarrow> 'v list list" where
  "grouped ks pairs = map (\<lambda>k. map snd (filter (\<lambda>(k', _). k' = k) pairs)) ks"

definition bonferroni_30 :: pyfloat where
  "bonferroni_30 = alpha / fint 30"

definition reversal_pairs :: "pyfloat list \<Rightarrow> string list \<Rightarrow> (string \<times> bool) list" where
  "reversal_pairs returns sessions =
     concat (map (\<lambda>i. if returns ! (i - 1) = 0 \<or> returns ! i = 0 then []
        else [(sessions ! i, (returns ! (i - 1) > 0) \<noteq> (returns ! i > 0))]) [1..<length returns])"

definition reversal_table :: "(string \<times> bool) list \<Rightarrow> (int \<times> int) list" where
  "reversal_table pairs =
     map (\<lambda>bs. (int (length (filter id bs)), int (length (filter Not bs)))) (grouped session_names pairs)"

definition season_window :: "libm \<Rightarrow> MarketBar list \<Rightarrow> season_report result" where
  "season_window m bars =
     bind_res (log_prices_of m bars) (\<lambda>log_prices.
       if bars = [] then Inl IndexError
       else let returns = returns_of log_prices; return_bars = tl bars
       in bind_res (traverse (\<lambda>b. session_bucket (hour_of (bar_time b))) return_bars) (\<lambda>sessions.
          let by_session = grouped session_names (zip sessions returns);
              days = zip (map (\<lambda>b. weekday_of (bar_time b)) return_bars) returns;
              by_weekday = grouped [0..4] days;
              reversals = reversal_table (reversal_pairs returns sessions)
          in bind_res (traverse (kruskal_wallis m) [by_session, map (map abs) by_session, by_weekday, map (map abs) by_weekday]) (\<lambda>tests.
             bind_res (chi_square_independence m reversals) (\<lambda>chi2.
               Inr \<lparr> sn_session_sizes = map length by_session, sn_weekday_sizes = map length by_weekday,
                     sn_weekend = length (filter (\<lambda>(d, _). \<not> d < 5) days), sn_tests = tests,
                     sn_reversals = reversals, sn_chi2 = chi2 \<rparr>))))"

text \<open>Which tests are significant after the correction for 2 symbols, 3 windows and 5 tests.\<close>

definition significant_tests :: "season_report \<Rightarrow> bool list" where
  "significant_tests r =
     map (\<lambda>(h, p, df). p < bonferroni_30) (sn_tests r) @
     [case sn_chi2 r of (_, Some p, _) \<Rightarrow> p < bonferroni_30 | _ \<Rightarrow> False]"

definition season_symbol :: "libm \<Rightarrow> string \<Rightarrow> (cache, exn, season_report list) io" where
  "season_symbol m symbol =
     bind_io (cached_bars symbol ''M1'') (\<lambda>all_bars. lift_io (traverse (season_window m) (chronological_thirds all_bars)))"

definition session_seasonality :: "libm \<Rightarrow> (cache, exn, season_report list \<times> season_report list) io" where
  "session_seasonality m =
     bind_io (season_symbol m ''BTCUSD'') (\<lambda>btcusd. bind_io (season_symbol m ''XAUUSD'') (\<lambda>xauusd. return_io (btcusd, xauusd)))"

section \<open>Ranks are mid-ranks\<close>

lemma tie_end_block:
  assumes "i \<le> j" "j < length vs" "\<forall>k. i \<le> k \<and> k \<le> j \<longrightarrow> vs ! k = vs ! i"
  shows "tie_end vs i j < length vs \<and> (\<forall>k. i \<le> k \<and> k \<le> tie_end vs i j \<longrightarrow> vs ! k = vs ! i) \<and>
    (tie_end vs i j + 1 < length vs \<longrightarrow> vs ! (tie_end vs i j + 1) \<noteq> vs ! i)"
  using assms
proof (induction vs i j rule: tie_end.induct)
  case (1 vs i j)
  show ?case
  proof (cases "j + 1 < length vs \<and> vs ! (j + 1) = vs ! i")
    case True
    then have eq: "\<forall>k. i \<le> k \<and> k \<le> j + 1 \<longrightarrow> vs ! k = vs ! i" using "1.prems"(3) by (metis Suc_eq_plus1 le_Suc_eq)
    have "i \<le> j + 1" "j + 1 < length vs" using True "1.prems"(1) by simp_all
    note step = "1.IH" [OF True this eq]
    have "tie_end vs i j = tie_end vs i (j + 1)" using True by (simp add: tie_end.simps [of vs i j])
    then show ?thesis by (rule ssubst) (rule step)
  next
    case False
    then have "tie_end vs i j = j" by (subst tie_end.simps) auto
    then show ?thesis by (rule ssubst) (use "1.prems" False in blast)
  qed
qed

definition mid_rank :: "pyfloat list \<Rightarrow> pyfloat \<Rightarrow> pyfloat" where
  "mid_rank vals v =
     fint (int (2 * length (filter (\<lambda>x. x < v) vals) + length (filter (\<lambda>x. x = v) vals) + 1)) / fint 2"

text \<open>In a sorted list the block of a value tells how many are below it.\<close>

lemma block_counts:
  fixes vs :: "pyfloat list"
  assumes "sorted vs" "i \<le> j" "j < length vs" "\<forall>k. i \<le> k \<and> k \<le> j \<longrightarrow> vs ! k = vs ! i"
    and "i = 0 \<or> vs ! (i - 1) < vs ! i" "j + 1 < length vs \<longrightarrow> vs ! (j + 1) \<noteq> vs ! i"
  shows "length (filter (\<lambda>x. x < vs ! i) vs) = i" "length (filter (\<lambda>x. x = vs ! i) vs) = j - i + 1"
proof -
  have low: "vs ! k < vs ! i" if "k < i" for k
  proof (rule le_less_trans)
    show "vs ! k \<le> vs ! (i - 1)" using that assms(2,3) by (intro sorted_nth_mono [OF assms(1)]) simp_all
    show "vs ! (i - 1) < vs ! i" using that assms(5) by simp
  qed
  have high: "vs ! i < vs ! k" if "j < k" "k < length vs" for k
  proof -
    have "vs ! i \<le> vs ! (j + 1)" "vs ! (j + 1) \<le> vs ! k" using that assms(1,2) by (simp_all add: sorted_nth_mono)
    moreover have "vs ! (j + 1) \<noteq> vs ! i" using that assms(6) by simp
    ultimately show ?thesis by simp
  qed
  have "{k. k < length vs \<and> vs ! k < vs ! i} = {..<i}"
  proof (intro set_eqI iffI; clarsimp)
    show "k < i" if "vs ! k < vs ! i" "k < length vs" for k
      using that high [of k] assms(4) by (metis less_asym linorder_not_le order_less_irrefl)
    show "k < length vs \<and> vs ! k < vs ! i" if "k < i" for k using low [OF that] that assms(2,3) by simp
  qed
  then show "length (filter (\<lambda>x. x < vs ! i) vs) = i" by (simp add: length_filter_conv_card)
  have "{k. k < length vs \<and> vs ! k = vs ! i} = {i..j}"
  proof (intro set_eqI iffI; clarsimp)
    show "i \<le> k \<and> k \<le> j" if "vs ! k = vs ! i" "k < length vs" for k
      using that high [of k] low [of k] by (metis linorder_not_le order_less_irrefl)
    show "k < length vs \<and> vs ! k = vs ! i" if "i \<le> k" "k \<le> j" for k
      using that assms(3) assms(4) [rule_format, of k] by simp
  qed
  then show "length (filter (\<lambda>x. x = vs ! i) vs) = j - i + 1" using assms(2) by (simp only: length_filter_conv_card card_atLeastAtMost)
qed

lemma fold_ranks:
  assumes "distinct order" "\<forall>x \<in> set order. x < length ranks" "j < length order" "k < length order"
  shows "fold (\<lambda>m ranks. ranks[order ! m := a]) [i..<j + 1] ranks ! (order ! k) =
    (if i \<le> k \<and> k \<le> j then a else ranks ! (order ! k))"
  using assms(2,3)
proof (induction j)
  case 0
  then show ?case using assms(1,4) by (cases i) (auto simp: nth_list_update nth_eq_iff_index_eq)
next
  case (Suc j)
  have length: "length (fold (\<lambda>m ranks. ranks[order ! m := a]) ks ranks) = length ranks" for ks
    by (induction ks arbitrary: ranks) auto
  show ?case using Suc assms(1,4) by (auto simp: nth_list_update nth_eq_iff_index_eq length le_Suc_eq)
qed

lemma length_fold_ranks: "length (fold (\<lambda>m ranks. ranks[order ! m := a]) ks ranks) = length ranks"
  by (induction ks arbitrary: ranks) auto

text \<open>The ranks below \<open>i\<close> are the mid-ranks, and \<open>i\<close> starts a block.\<close>

lemma rank_loop_mid:
  assumes "distinct order" "\<forall>x \<in> set order. x < length ranks"
    and "sorted (map ((!) vals) order)" "mset (map ((!) vals) order) = mset vals"
    and "i = 0 \<or> i \<ge> length order \<or> vals ! (order ! (i - 1)) < vals ! (order ! i)"
    and "\<forall>k < min i (length order). ranks ! (order ! k) = mid_rank vals (vals ! (order ! k))"
    and "k < length order"
  shows "rank_loop vals order ranks i ! (order ! k) = mid_rank vals (vals ! (order ! k))"
  using assms
proof (induction vals order ranks i rule: rank_loop.induct)
  case (1 vals order ranks i)
  show ?case
  proof (cases "i < length order")
    case False
    then show ?thesis using "1.prems" by (subst rank_loop.simps) simp
  next
    case True
    define vs where "vs = map ((!) vals) order"
    define j where "j = tie_end vs i i"
    define r where "r = fint (int (i + 1 + j + 1)) / fint 2"
    have vs: "vs ! k = vals ! (order ! k)" if "k < length order" for k using that by (simp add: vs_def)
    have len: "length vs = length order" by (simp add: vs_def)
    note ends = tie_end_block [of i i vs, folded j_def]
    have "i < length vs" "\<forall>k. i \<le> k \<and> k \<le> i \<longrightarrow> vs ! k = vs ! i" using True len le_antisym [of i] by auto
    note ends = ends [OF order_refl this]
    have block: "i \<le> j" "j < length vs" "\<forall>k. i \<le> k \<and> k \<le> j \<longrightarrow> vs ! k = vs ! i" "j + 1 < length vs \<longrightarrow> vs ! (j + 1) \<noteq> vs ! i"
      using tie_end_ge [of i vs i] ends unfolding j_def by blast+
    have start: "i = 0 \<or> vs ! (i - 1) < vs ! i" using "1.prems"(5) True by (auto simp: vs)
    have sorted: "sorted vs" using "1.prems"(3) by (simp add: vs_def)
    have count: "length (filter P vs) = length (filter P vals)" for P
      using "1.prems"(4) by (metis mset_filter size_mset vs_def)
    have mid: "mid_rank vals (vs ! i) = r"
      using block_counts [OF sorted block(1,2,3) start block(4)] block(1) by (simp add: mid_rank_def count r_def)
    have ranks: "fold (\<lambda>m ranks. ranks[order ! m := r]) [i..<j + 1] ranks ! (order ! k) = mid_rank vals (vals ! (order ! k))"
      if "k < min (j + 1) (length order)" for k
    proof (cases "i \<le> k")
      case True
      then have "vals ! (order ! k) = vs ! i" using that vs [of k] block(3) [rule_format, of k] by simp
      then show ?thesis using fold_ranks [OF "1.prems"(1,2), of j k r i] True that block(2) len mid by simp
    next
      case False
      then show ?thesis using fold_ranks [OF "1.prems"(1,2), of j k r i] that block(2) len "1.prems"(6) by simp
    qed
    have next_start: "j + 1 = 0 \<or> j + 1 \<ge> length order \<or> vals ! (order ! (j + 1 - 1)) < vals ! (order ! (j + 1))"
    proof (cases "j + 1 < length order")
      case True
      have "vs ! i \<le> vs ! (j + 1)" using sorted block(1) True len by (intro sorted_nth_mono) simp_all
      moreover have "vs ! j = vs ! i" using block(1) block(3) [rule_format, of j] by simp
      ultimately show ?thesis using block(4) True len vs [of j] vs [of "j + 1"] by simp
    qed simp
    have "rank_loop vals order ranks i = rank_loop vals order (fold (\<lambda>m ranks. ranks[order ! m := r]) [i..<j + 1] ranks) (j + 1)"
      using True by (subst rank_loop.simps) (simp add: Let_def j_def vs_def r_def)
    moreover have "rank_loop vals order (fold (\<lambda>m ranks. ranks[order ! m := r]) [i..<j + 1] ranks) (j + 1) ! (order ! k) =
        mid_rank vals (vals ! (order ! k))"
    proof (rule "1.IH" [OF True, of j r])
      show "j = tie_end (map ((!) vals) order) i i" by (simp only: j_def vs_def)
      show "r = fint (int (i + 1 + j + 1)) / fint 2" by (rule r_def)
      show "\<forall>x \<in> set order. x < length (fold (\<lambda>m ranks. ranks[order ! m := r]) [i..<j + 1] ranks)"
        unfolding length_fold_ranks by (rule "1.prems"(2))
      show "\<forall>k < min (j + 1) (length order). fold (\<lambda>m ranks. ranks[order ! m := r]) [i..<j + 1] ranks ! (order ! k) =
          mid_rank vals (vals ! (order ! k))"
        using ranks by blast
    qed (use "1.prems" next_start in blast)+
    ultimately show ?thesis by simp
  qed
qed

text \<open>
  C20: the ranks given by the loop over blocks of ties are, for every value, the number of values
  below it plus half of one more than the number of values equal to it, in the order of the values.
\<close>

theorem ranks_are_mid_ranks: "rank_with_ties vals = map (mid_rank vals) vals"
proof (rule nth_equalityI)
  have length: "length (rank_loop vals order ranks i) = length ranks" for order ranks i
    by (induction vals order ranks i rule: rank_loop.induct) (subst rank_loop.simps, simp add: Let_def length_fold_ranks)
  then show same_length: "length (rank_with_ties vals) = length (map (mid_rank vals) vals)" by (simp add: rank_with_ties_def)
  fix n assume "n < length (rank_with_ties vals)"
  then have n: "n < length vals" using same_length by simp
  define order where "order = sort_key ((!) vals) [0..<length vals]"
  have perm: "set order = {0..<length vals}" "distinct order" "mset order = mset [0..<length vals]" by (simp_all add: order_def)
  then obtain k where k: "k < length order" "order ! k = n" using n by (metis atLeastLessThan_iff in_set_conv_nth le0)
  have "mset (map ((!) vals) order) = mset (map ((!) vals) [0..<length vals])" using perm(3) by (metis mset_map)
  then have same: "mset (map ((!) vals) order) = mset vals" by (simp only: map_nth)
  have "rank_loop vals order (replicate (length vals) 0) 0 ! (order ! k) = mid_rank vals (vals ! (order ! k))"
    using perm by (intro rank_loop_mid [OF _ _ _ same _ _ k(1)]) (simp_all add: order_def)
  then show "rank_with_ties vals ! n = map (mid_rank vals) vals ! n" using n k(2) by (simp add: rank_with_ties_def order_def)
qed

section \<open>Groups\<close>

lemma hour_of_range: "0 \<le> hour_of t \<and> hour_of t < 24"
proof -
  have "0 \<le> ticks t mod day_us" "ticks t mod day_us < 24 * hours 1" by (simp_all add: day_us_def)
  then show ?thesis unfolding hour_of_def by (simp add: div_pos_geq pos_imp_zdiv_nonneg_iff int_div_less_self div_less_iff_less_mult)
qed

lemma session_of_hour: "0 \<le> h \<Longrightarrow> h < 24 \<Longrightarrow> \<exists>name \<in> set session_names. session_bucket h = Inr name"
  by (auto simp: session_bucket_def session_bounds_def session_names_def)

text \<open>An empty group ends the rank test.\<close>

lemma kruskal_wallis_needs_groups:
  assumes "kruskal_wallis m groups = Inr r" shows "[] \<notin> set groups"
proof
  assume "[] \<in> set groups"
  then have "0 \<in> set (map length groups)" by force
  moreover have "length (rank_sums ranks sizes) = length sizes" for ranks sizes by (induction ranks sizes rule: rank_sums.induct) simp_all
  ultimately obtain rs where "(rs, 0) \<in> set (zip (rank_sums (rank_with_ties (concat groups)) (map length groups)) (map length groups))"
    by (metis in_set_impl_in_set_zip2)
  moreover obtain terms where "traverse (\<lambda>(rs, gs). py_div (rs * rs) (fint (int gs)))
      (zip (rank_sums (rank_with_ties (concat groups)) (map length groups)) (map length groups)) = Inr terms"
    using assms by (auto simp: kruskal_wallis_def Let_def result_simps)
  ultimately show False by (auto simp: traverse_Inr_iff py_div_def list_all2_conv_all_nth in_set_conv_nth split: if_splits)
qed

text \<open>Groups by distinct keys that include every key share out the pairs.\<close>

lemma grouped_sizes:
  assumes "distinct ks"
  shows "sum_list (map length (grouped ks pairs)) = length (filter (\<lambda>(k, v). k \<in> set ks) pairs)"
proof (induction pairs)
  case Nil
  show ?case by (induction ks) (simp_all add: grouped_def)
next
  case (Cons p pairs)
  have "sum_list (map (\<lambda>k. if fst p = k then 1 else 0) ks) = (if fst p \<in> set ks then 1 else 0 :: nat)"
    using assms by (induction ks) auto
  moreover have "sum_list (map length (grouped ks (p # pairs))) =
      sum_list (map (\<lambda>k. if fst p = k then 1 else 0) ks) + sum_list (map length (grouped ks pairs))"
    by (induction ks) (auto simp: grouped_def split: prod.splits)
  ultimately show ?case using Cons by (auto split: prod.splits)
qed

text \<open>A window that is reported has its returns in the three sessions, and on the weekdays or a weekend, none empty.\<close>

lemma season_window_groups:
  assumes "season_window m bars = Inr r"
  shows "sum_list (sn_session_sizes r) = length bars - 1" "sum_list (sn_weekday_sizes r) + sn_weekend r = length bars - 1"
    "0 \<notin> set (sn_session_sizes r)" "0 \<notin> set (sn_weekday_sizes r)"
proof -
  have some: "bars \<noteq> []" using assms by (auto simp: season_window_def bind_res_eq_Inr)
  obtain log_prices sessions tests chi2 where logs: "log_prices_of m bars = Inr log_prices"
    and sessions: "traverse (\<lambda>b. session_bucket (hour_of (bar_time b))) (tl bars) = Inr sessions"
    and tests: "traverse (kruskal_wallis m) (let by_session = grouped session_names (zip sessions (returns_of log_prices));
        by_weekday = grouped [0..4] (zip (map (\<lambda>b. weekday_of (bar_time b)) (tl bars)) (returns_of log_prices))
      in [by_session, map (map abs) by_session, by_weekday, map (map abs) by_weekday]) = Inr tests"
    and r: "r = \<lparr> sn_session_sizes = map length (grouped session_names (zip sessions (returns_of log_prices))),
       sn_weekday_sizes = map length (grouped [0..4] (zip (map (\<lambda>b. weekday_of (bar_time b)) (tl bars)) (returns_of log_prices))),
       sn_weekend = length (filter (\<lambda>(d, _). \<not> d < 5) (zip (map (\<lambda>b. weekday_of (bar_time b)) (tl bars)) (returns_of log_prices))),
       sn_tests = tests, sn_reversals = reversal_table (reversal_pairs (returns_of log_prices) sessions), sn_chi2 = chi2 \<rparr>"
    using assms some by (simp only: season_window_def Let_def bind_res_eq_Inr if_False) (elim exE conjE, rule that, assumption+, unfold Let_def, assumption, simp only: sum.inject, erule sym)
  have sizes: "length sessions = length bars - 1" "length (returns_of log_prices) = length bars - 1"
    using traverse_length [OF sessions] traverse_length [OF logs [unfolded log_prices_of_def]] by (simp_all add: returns_of_def)
  have "s \<in> set session_names" if "session_bucket (hour_of t) = Inr s" for s t
    using session_of_hour [of "hour_of t"] hour_of_range [of t] that by auto
  then have "set sessions \<subseteq> set session_names"
    using sessions unfolding traverse_Inr_iff by (auto simp: list_all2_conv_all_nth in_set_conv_nth) metis
  then have "filter (\<lambda>(k, v). k \<in> set session_names) (zip sessions (returns_of log_prices)) = zip sessions (returns_of log_prices)"
    by (auto simp: filter_id_conv dest: set_zip_leftD)
  then show "sum_list (sn_session_sizes r) = length bars - 1"
    using grouped_sizes [of session_names "zip sessions (returns_of log_prices)"] sizes r by (simp add: session_names_def session_bounds_def)
  define days where "days = zip (map (\<lambda>b. weekday_of (bar_time b)) (tl bars)) (returns_of log_prices)"
  have "filter (\<lambda>(d, _). d \<in> set [0..4]) days = filter (\<lambda>(d, _). d < 5) days"
    by (rule filter_cong) (auto simp: days_def weekday_of_def dest!: set_zip_leftD)
  then show "sum_list (sn_weekday_sizes r) + sn_weekend r = length bars - 1"
    using grouped_sizes [of "[0..4]" days] sum_length_filter_compl [of "\<lambda>(d, _). d < 5" days] sizes r
    by (simp add: days_def case_prod_unfold)
  show "0 \<notin> set (sn_session_sizes r)" "0 \<notin> set (sn_weekday_sizes r)"
    using tests unfolding Let_def traverse_Inr_iff by (auto simp: list_all2_Cons1 r dest!: kruskal_wallis_needs_groups)
qed

end
