(* ===== verification/Launcher.thy ===== *)
theory Launcher
  imports Readers
begin

text \<open>
  The processes around the server: \<^verbatim>\<open>scripts/run_metatrader_mcp_stdio.py\<close>, which starts the
  server for a client, \<^verbatim>\<open>scripts/metatrader_mcp_extended_server.py\<close>, the server it starts,
  and \<^verbatim>\<open>scripts/phase3_readonly_verification.py\<close>, a client without the package's gate. What
  third-party packages do (reading \<^verbatim>\<open>.env\<close>, the terminal, its tables) is an argument.
  Shown: the launcher starts nothing but a server for a demo account, the credentials reach the
  server through the environment and nothing else depends on them; the added tools have every column
  the account reader reads; the verification script calls only tools that cannot trade.
\<close>

section \<open>The launcher\<close>

type_synonym environ = "(string \<times> string) list"

text \<open>What the launcher finds on the machine; the file is the dict \<^verbatim>\<open>dotenv\<close> reads from it.\<close>

record stdio_host =
  sh_dotenv_installed :: bool
  sh_env_file :: "environ option"
  sh_server_exists :: bool
  sh_executable :: string
  sh_server_path :: string

datatype fail = Dotenv_missing | Vars_missing "string list" | Not_demo string | Server_missing

definition required_vars :: "string list" where
  "required_vars = [''MT5_DEMO_LOGIN'', ''MT5_DEMO_PASSWORD'', ''MT5_DEMO_SERVER'', ''MT5_ACCOUNT_KIND'']"

text \<open>\<^verbatim>\<open>load_dotenv(..., override=False)\<close> sets what is not set.\<close>

definition add_missing :: "environ \<Rightarrow> environ \<Rightarrow> environ" where
  "add_missing dotfile env = fold (\<lambda>(k, v) env. if map_of env k = None then dict_put k v env else env) dotfile env"

definition load_env :: "stdio_host \<Rightarrow> environ \<Rightarrow> fail + environ" where
  "load_env h env =
     (if \<not> sh_dotenv_installed h then Inl Dotenv_missing
      else Inr (case sh_env_file h of None \<Rightarrow> env | Some dotfile \<Rightarrow> add_missing dotfile env))"

definition is_set :: "environ \<Rightarrow> string \<Rightarrow> bool" where
  "is_set env k \<longleftrightarrow> (case map_of env k of None \<Rightarrow> False | Some v \<Rightarrow> v \<noteq> '''')"

definition child_argv :: "stdio_host \<Rightarrow> environ \<Rightarrow> string list" where
  "child_argv h env =
     [sh_executable h, sh_server_path h, ''--transport'', ''stdio''] @
     (if is_set env ''MT5_PATH'' then [''--path'', the (map_of env ''MT5_PATH'')] else [])"

text \<open>The command line and the environment of the child, or the reason on the error stream.\<close>

definition launch_checked :: "stdio_host \<Rightarrow> environ \<Rightarrow> fail + (string list \<times> environ)" where
  "launch_checked h env =
     (let missing = filter (\<lambda>name. \<not> is_set env name) required_vars
      in if missing \<noteq> [] then Inl (Vars_missing missing)
         else if map_of env ''MT5_ACCOUNT_KIND'' \<noteq> Some ''DEMO'' then Inl (Not_demo (the (map_of env ''MT5_ACCOUNT_KIND'')))
         else if \<not> sh_server_exists h then Inl Server_missing
         else Inr (child_argv h env, env))"

definition stdio_main :: "stdio_host \<Rightarrow> environ \<Rightarrow> fail + (string list \<times> environ)" where
  "stdio_main h env = bind_res (load_env h env) (launch_checked h)"

definition stdio_exit :: "(string list \<Rightarrow> environ \<Rightarrow> int) \<Rightarrow> stdio_host \<Rightarrow> environ \<Rightarrow> int" where
  "stdio_exit run h env = (case stdio_main h env of Inl _ \<Rightarrow> 1 | Inr (argv, env) \<Rightarrow> run argv env)"

section \<open>The server\<close>

record server_args =
  sa_login :: "string option"
  sa_password :: "string option"
  sa_server :: "string option"
  sa_path :: "string option"
  sa_transport :: "string option"
  sa_host :: "string option"
  sa_port :: "int option"

definition no_args :: server_args where
  "no_args = \<lparr> sa_login = None, sa_password = None, sa_server = None, sa_path = None, sa_transport = None,
     sa_host = None, sa_port = None \<rparr>"

text \<open>
  Command lines of whole option names, each with a value that does not begin with a dash; the other
  forms argparse knows have no value here.
\<close>

definition plain_value :: "string \<Rightarrow> bool" where
  "plain_value v \<longleftrightarrow> v = [] \<or> hd v \<noteq> CHR ''-''"

definition set_arg :: "string \<Rightarrow> string \<Rightarrow> server_args \<Rightarrow> server_args option" where
  "set_arg name v a =
     (if name = ''--login'' then Some (a\<lparr>sa_login := Some v\<rparr>)
      else if name = ''--password'' then Some (a\<lparr>sa_password := Some v\<rparr>)
      else if name = ''--server'' then Some (a\<lparr>sa_server := Some v\<rparr>)
      else if name = ''--path'' then Some (a\<lparr>sa_path := Some v\<rparr>)
      else if name = ''--transport'' then
        (if v \<in> {''sse'', ''stdio'', ''streamable-http''} then Some (a\<lparr>sa_transport := Some v\<rparr>) else None)
      else if name = ''--host'' then Some (a\<lparr>sa_host := Some v\<rparr>)
      else if name = ''--port'' then map_option (\<lambda>n. a\<lparr>sa_port := Some n\<rparr>) (int_of_string v)
      else None)"

fun parse_server_args :: "string list \<Rightarrow> server_args \<Rightarrow> server_args option" where
  "parse_server_args [] a = Some a"
| "parse_server_args [name] a = None"
| "parse_server_args (name # v # rest) a =
     (if plain_value v then Option.bind (set_arg name v a) (parse_server_args rest) else None)"

text \<open>\<^verbatim>\<open>args.x or os.environ.get(k)\<close>, then \<^verbatim>\<open>if x: os.environ[name] = x\<close>.\<close>

definition or_environ :: "string option \<Rightarrow> environ \<Rightarrow> string \<Rightarrow> string option" where
  "or_environ arg env k = (case arg of Some v \<Rightarrow> if v \<noteq> '''' then Some v else map_of env k | None \<Rightarrow> map_of env k)"

definition export :: "string \<Rightarrow> string option \<Rightarrow> environ \<Rightarrow> environ" where
  "export name v env = (case v of Some x \<Rightarrow> if x \<noteq> '''' then dict_put name x env else env | None \<Rightarrow> env)"

definition server_environ :: "environ option \<Rightarrow> server_args \<Rightarrow> environ \<Rightarrow> environ" where
  "server_environ dotfile args env =
     (let env = (case dotfile of None \<Rightarrow> env | Some f \<Rightarrow> add_missing f env);
          login = or_environ (sa_login args) env ''MT5_DEMO_LOGIN'';
          password = or_environ (sa_password args) env ''MT5_DEMO_PASSWORD'';
          server = or_environ (sa_server args) env ''MT5_DEMO_SERVER''
      in export ''MT5_PATH'' (sa_path args) (export ''server'' server (export ''password'' password (export ''login'' login env))))"

text \<open>
  \<open>resolve\<close> is the package's \<^verbatim>\<open>resolve_transport_config\<close>; the result is what
  \<^verbatim>\<open>run_mcp\<close> gets, and the environment it runs in.
\<close>

definition server_main ::
  "(string option \<Rightarrow> string option \<Rightarrow> int option \<Rightarrow> 'c) \<Rightarrow> environ option \<Rightarrow> string list \<Rightarrow> environ \<Rightarrow> ('c \<times> environ) option" where
  "server_main resolve dotfile argv env =
     Option.bind (parse_server_args argv no_args) (\<lambda>args.
       Some (resolve (sa_transport args) (sa_host args) (sa_port args), server_environ dotfile args env))"

section \<open>The added tools\<close>

definition positions_columns_mapping :: "(string \<times> string) list" where
  "positions_columns_mapping =
     [(''ticket'', ''id''), (''time'', ''time''), (''symbol'', ''symbol''), (''type'', ''type''), (''volume'', ''volume''),
      (''price_open'', ''open''), (''sl'', ''stop_loss''), (''tp'', ''take_profit''), (''profit'', ''profit''),
      (''magic'', ''magic''), (''comment'', ''comment'')]"

definition orders_columns_mapping :: "(string \<times> string) list" where
  "orders_columns_mapping =
     [(''ticket'', ''id''), (''time_setup'', ''time''), (''symbol'', ''symbol''), (''type'', ''type''),
      (''volume_current'', ''volume''), (''price_open'', ''open''), (''sl'', ''stop_loss''), (''tp'', ''take_profit''),
      (''state'', ''state''), (''type_time'', ''type_time''), (''type_filling'', ''type_filling''),
      (''time_expiration'', ''expiration''), (''magic'', ''magic''), (''comment'', ''comment'')]"

text \<open>The terminal and the tables the client package makes of what it returns.\<close>

record 'raw terminal =
  tm_symbol_info :: "string \<Rightarrow> json"
  tm_positions_get :: "string option \<Rightarrow> 'raw"
  tm_orders_get :: "string option \<Rightarrow> 'raw"
  tm_positions_csv :: "(string \<times> string) list \<Rightarrow> 'raw \<Rightarrow> string"
  tm_orders_csv :: "(string \<times> string) list \<Rightarrow> 'raw \<Rightarrow> string"

definition nonempty_name :: "string option \<Rightarrow> string option" where
  "nonempty_name symbol_name = (case symbol_name of Some s \<Rightarrow> if s \<noteq> '''' then Some s else None | None \<Rightarrow> None)"

definition tool_get_symbol_info :: "'raw terminal \<Rightarrow> string \<Rightarrow> json" where
  "tool_get_symbol_info t symbol_name = tm_symbol_info t symbol_name"

definition get_positions_with_magic :: "'raw terminal \<Rightarrow> string option \<Rightarrow> string" where
  "get_positions_with_magic t symbol_name =
     tm_positions_csv t positions_columns_mapping (tm_positions_get t (nonempty_name symbol_name))"

definition get_pending_orders_with_magic :: "'raw terminal \<Rightarrow> string option \<Rightarrow> string" where
  "get_pending_orders_with_magic t symbol_name =
     tm_orders_csv t orders_columns_mapping (tm_orders_get t (nonempty_name symbol_name))"

text \<open>A table is documented to have a row per entry with the columns of the mapping, after an index.\<close>

definition table_documented :: "((string \<times> string) list \<Rightarrow> 'raw \<Rightarrow> string) \<Rightarrow> bool" where
  "table_documented csv \<longleftrightarrow>
     (\<forall>columns raw. \<exists>rows. parse_dataframe_csv (csv columns raw) = Inr rows \<and>
        (\<forall>row \<in> set rows. set (map snd columns) \<subseteq> dom (map_of row)))"

section \<open>The verification script\<close>

definition tool_allowlist :: "string list" where
  "tool_allowlist = [''get_account_info'', ''get_all_symbols'', ''get_symbol_price'', ''get_candles_latest'', ''get_all_positions'']"

definition fields_to_redact :: "string list" where
  "fields_to_redact = [''login'', ''server'']"

definition redaction :: json where
  "redaction = JStr ''<redacted: mirrors .env value>''"

definition redact_account_info :: "(string \<times> json) list \<Rightarrow> (string \<times> json) list" where
  "redact_account_info info = map (\<lambda>(k, v). (k, if lower k \<in> set fields_to_redact then redaction else v)) info"

text \<open>A session without the package's client: the server, the calls and what was printed of replies.\<close>

record 'w plain_session =
  ps_server :: 'w
  ps_calls :: "(string \<times> (string \<times> json) list) list"
  ps_printed :: "json list"

type_synonym 'w plain_server = "string \<Rightarrow> (string \<times> json) list \<Rightarrow> 'w \<Rightarrow> block list result \<times> 'w"

definition p3_call_tool :: "'w plain_server \<Rightarrow> string \<Rightarrow> (string \<times> json) list \<Rightarrow> ('w plain_session, exn, string) io" where
  "p3_call_tool server name arguments = (\<lambda>s.
     if name \<notin> set tool_allowlist then (Inl RuntimeError, s)
     else case server name arguments (ps_server s) of (r, w) \<Rightarrow>
       (bind_res r (\<lambda>content. Inr (text_of content)), s\<lparr>ps_server := w, ps_calls := (name, arguments) # ps_calls s\<rparr>))"

definition print_json :: "json \<Rightarrow> ('w plain_session, exn, unit) io" where
  "print_json j = modify_io (\<lambda>s. s\<lparr>ps_printed := j # ps_printed s\<rparr>)"

text \<open>An account reply that is no object raises; one that is no JSON is not printed.\<close>

definition p3_account :: "'w plain_server \<Rightarrow> ('w plain_session, exn, unit) io" where
  "p3_account server =
     bind_io (p3_call_tool server ''get_account_info'' []) (\<lambda>raw.
       case json_loads raw of
         None \<Rightarrow> return_io ()
       | Some (JObj info) \<Rightarrow> print_json (JObj (redact_account_info info))
       | Some _ \<Rightarrow> raise_io TypeError)"

definition p3_symbols :: "'w plain_server \<Rightarrow> ('w plain_session, exn, unit) io" where
  "p3_symbols server =
     bind_io (p3_call_tool server ''get_all_symbols'' []) (\<lambda>raw.
       case json_loads raw of
         None \<Rightarrow> print_json (JStr (take 500 raw))
       | Some (JList symbols) \<Rightarrow> print_json (JList (take 10 symbols))
       | Some (JStr symbols) \<Rightarrow> print_json (JStr (take 10 symbols))
       | Some _ \<Rightarrow> raise_io TypeError)"

definition p3_show :: "'w plain_server \<Rightarrow> string \<Rightarrow> (string \<times> json) list \<Rightarrow> ('w plain_session, exn, unit) io" where
  "p3_show server name arguments = bind_io (p3_call_tool server name arguments) (\<lambda>raw. print_json (JStr raw))"

definition phase3_main :: "'w plain_server \<Rightarrow> ('w plain_session, exn, unit) io" where
  "phase3_main server =
     bind_io (p3_account server) (\<lambda>_. bind_io (p3_symbols server) (\<lambda>_.
     bind_io (p3_show server ''get_symbol_price'' [(''symbol_name'', JStr ''BTCUSD'')]) (\<lambda>_.
     bind_io (p3_show server ''get_candles_latest''
        [(''symbol_name'', JStr ''BTCUSD''), (''timeframe'', JStr ''M1''), (''count'', JInt 5)]) (\<lambda>_.
     p3_show server ''get_all_positions'' []))))"

section \<open>What the launcher starts\<close>

lemma map_of_add_missing:
  "map_of (add_missing dotfile env) k = (case map_of env k of None \<Rightarrow> map_of dotfile k | Some v \<Rightarrow> Some v)"
proof (induction dotfile arbitrary: env)
  case (Cons p dotfile)
  show ?case using Cons [of "case p of (k, v) \<Rightarrow> if map_of env k = None then dict_put k v env else env"]
    by (cases p) (auto simp: add_missing_def split: option.splits)
qed (simp add: add_missing_def split: option.splits)

text \<open>The launcher reads a variable through \<open>map_of\<close> only.\<close>

lemma load_env_get:
  "load_env h env = Inr env' \<Longrightarrow> map_of env k = Some v \<Longrightarrow> map_of env' k = Some v"
  by (auto simp: load_env_def map_of_add_missing split: if_splits option.splits)

lemma stdio_main_Inr:
  assumes "stdio_main h env = Inr (argv, env')"
  shows "load_env h env = Inr env'" "argv = child_argv h env'" "\<forall>k \<in> set required_vars. is_set env' k"
    "map_of env' ''MT5_ACCOUNT_KIND'' = Some ''DEMO''" "sh_server_exists h"
  using assms by (auto simp: stdio_main_def launch_checked_def Let_def result_simps filter_empty_conv split: if_splits)

definition credential_vars :: "string list" where
  "credential_vars = [''MT5_DEMO_LOGIN'', ''MT5_DEMO_PASSWORD'', ''MT5_DEMO_SERVER'']"

lemma credential_put:
  assumes "k \<in> set credential_vars" "v \<noteq> ''''" "is_set env k"
  shows "map_of (add_missing dotfile (dict_put k v env)) j = (if j = k then Some v else map_of (add_missing dotfile env) j)"
    "is_set (dict_put k v env) j = is_set env j" "is_set (add_missing dotfile (dict_put k v env)) j = is_set (add_missing dotfile env) j"
  using assms by (auto simp: map_of_add_missing is_set_def split: option.splits)


definition sample_host :: stdio_host where
  "sample_host = \<lparr> sh_dotenv_installed = True, sh_env_file = Some [(''MT5_ACCOUNT_KIND'', ''DEMO''), (''MT5_PATH'', ''C:/terminal64.exe'')],
     sh_server_exists = True, sh_executable = ''python'', sh_server_path = ''metatrader_mcp_extended_server.py'' \<rparr>"

definition sample_environ :: environ where
  "sample_environ = [(''MT5_DEMO_LOGIN'', ''5''), (''MT5_DEMO_PASSWORD'', ''secret''), (''MT5_DEMO_SERVER'', ''Demo'')]"


lemma map_of_export: "map_of (export name v env) k = (if k = name \<and> v \<noteq> None \<and> v \<noteq> Some '''' then v else map_of env k)"
  by (auto simp: export_def split: option.splits)

text \<open>
  C36: The server the launcher starts runs on standard input and output, with the login, the
  password and the server name of the launcher's environment, none of them empty, and only where
  that environment names a demo account.
\<close>

theorem launch_end_to_end:
  assumes "stdio_main h env = Inr (argv, env')"
    and "\<forall>p. map_of env' ''MT5_PATH'' = Some p \<longrightarrow> plain_value p"
  shows "\<exists>final. server_main resolve dotfile (drop 2 argv) env' = Some (resolve (Some ''stdio'') None None, final) \<and>
    (\<forall>(name, k) \<in> set (zip [''login'', ''password'', ''server''] credential_vars). map_of final name = map_of env' k \<and> is_set final name) \<and>
    map_of final ''MT5_ACCOUNT_KIND'' = Some ''DEMO''"
proof -
  note run = stdio_main_Inr [OF assms(1)]
  define args where "args = no_args\<lparr>sa_transport := Some ''stdio'',
    sa_path := (if is_set env' ''MT5_PATH'' then map_of env' ''MT5_PATH'' else None)\<rparr>"
  have "parse_server_args (drop 2 argv) no_args = Some args"
    using assms(2) by (auto simp: run(2) child_argv_def set_arg_def plain_value_def args_def is_set_def no_args_def split: option.splits)
  then have main: "server_main resolve dotfile (drop 2 argv) env' = Some (resolve (Some ''stdio'') None None, server_environ dotfile args env')"
    by (simp add: server_main_def args_def no_args_def)
  have set: "is_set env' ''MT5_DEMO_LOGIN''" "is_set env' ''MT5_DEMO_PASSWORD''" "is_set env' ''MT5_DEMO_SERVER''"
    using run(3) by (simp_all add: required_vars_def)
  define e where "e = (case dotfile of None \<Rightarrow> env' | Some f \<Rightarrow> add_missing f env')"
  have seen: "map_of e k = map_of env' k" if "map_of env' k \<noteq> None" for k
    using that by (auto simp: e_def map_of_add_missing split: option.splits)
  have eq: "server_environ dotfile args env' = export ''MT5_PATH'' (sa_path args) (export ''server'' (map_of e ''MT5_DEMO_SERVER'')
      (export ''password'' (map_of e ''MT5_DEMO_PASSWORD'') (export ''login'' (map_of e ''MT5_DEMO_LOGIN'') e)))"
    by (simp add: server_environ_def Let_def e_def or_environ_def args_def no_args_def)
  have known: "map_of e k = map_of env' k \<and> map_of e k \<noteq> None \<and> map_of e k \<noteq> Some ''''" if "is_set env' k" for k
    using that seen [of k] by (auto simp: is_set_def split: option.splits)
  have logins: "map_of (server_environ dotfile args env') ''login'' = map_of e ''MT5_DEMO_LOGIN''"
    "map_of (server_environ dotfile args env') ''password'' = map_of e ''MT5_DEMO_PASSWORD''"
    "map_of (server_environ dotfile args env') ''server'' = map_of e ''MT5_DEMO_SERVER''"
  proof -
    obtain a b c where "map_of e ''MT5_DEMO_LOGIN'' = Some a" "a \<noteq> ''''" "map_of e ''MT5_DEMO_PASSWORD'' = Some b" "b \<noteq> ''''"
        "map_of e ''MT5_DEMO_SERVER'' = Some c" "c \<noteq> ''''"
      using known [OF set(1)] known [OF set(2)] known [OF set(3)] by fastforce
    then show "map_of (server_environ dotfile args env') ''login'' = map_of e ''MT5_DEMO_LOGIN''"
      "map_of (server_environ dotfile args env') ''password'' = map_of e ''MT5_DEMO_PASSWORD''"
      "map_of (server_environ dotfile args env') ''server'' = map_of e ''MT5_DEMO_SERVER''"
      by (simp_all add: eq map_of_export)
  qed
  have final: "map_of (server_environ dotfile args env') name = map_of env' k \<and> is_set (server_environ dotfile args env') name"
    if "(name, k) \<in> set (zip [''login'', ''password'', ''server''] credential_vars)" for name k
  proof -
    have "(name, k) = (''login'', ''MT5_DEMO_LOGIN'') \<or> (name, k) = (''password'', ''MT5_DEMO_PASSWORD'') \<or>
        (name, k) = (''server'', ''MT5_DEMO_SERVER'')"
      using that by (simp add: credential_vars_def)
    then have "map_of (server_environ dotfile args env') name = map_of e k \<and> is_set env' k"
      using set logins by (elim disjE) simp_all
    then show ?thesis using known [of k] by (auto simp: is_set_def)
  qed
  have kind: "map_of (server_environ dotfile args env') ''MT5_ACCOUNT_KIND'' = Some ''DEMO''"
    using run(4) seen [of "''MT5_ACCOUNT_KIND''"] by (simp add: eq map_of_export)
  show ?thesis using main final kind by blast
qed

theorem launch_end_to_end_witness:
  "\<exists>final. server_main (\<lambda>t h p. t) None [''--transport'', ''stdio'', ''--path'', ''C:/terminal64.exe'']
      (add_missing (the (sh_env_file sample_host)) sample_environ) = Some (Some ''stdio'', final) \<and> map_of final ''login'' = Some ''5''"
proof -
  let ?env = "add_missing (the (sh_env_file sample_host)) sample_environ"
  have run: "stdio_main sample_host sample_environ = Inr (child_argv sample_host ?env, ?env)" by code_simp
  have path: "map_of ?env ''MT5_PATH'' = Some ''C:/terminal64.exe''" "map_of ?env ''MT5_DEMO_LOGIN'' = Some ''5''"
    "drop 2 (child_argv sample_host ?env) = [''--transport'', ''stdio'', ''--path'', ''C:/terminal64.exe'']" by code_simp+
  obtain final where final: "server_main (\<lambda>t h p. t) None (drop 2 (child_argv sample_host ?env)) ?env = Some (Some ''stdio'', final)"
      "\<forall>(name, k) \<in> set (zip [''login'', ''password'', ''server''] credential_vars). map_of final name = map_of ?env k \<and> is_set final name"
    using launch_end_to_end [OF run, of "\<lambda>t h p. t" None] path(1) by (auto simp: plain_value_def)
  then have "map_of final ''login'' = Some ''5''" using path(2) by (simp add: credential_vars_def)
  then show ?thesis using final(1) path(3) by auto
qed

section \<open>The tools have what the reader reads\<close>

lemma cell_present: "k \<in> dom (map_of row) \<Longrightarrow> \<exists>c. cell row k = Inr c"
  by (auto simp: cell_def)

text \<open>With the documented columns no row of positions or orders lacks a column the reader reads.\<close>

lemma tables_have_columns:
  assumes "table_documented (tm_positions_csv t)" "table_documented (tm_orders_csv t)"
  shows "\<exists>rows. parse_dataframe_csv (get_positions_with_magic t name) = Inr rows \<and>
      (\<forall>row \<in> set rows. \<forall>k \<in> {''id'', ''symbol'', ''type'', ''volume'', ''open'', ''profit'', ''magic'', ''stop_loss'', ''take_profit''}.
        \<exists>c. cell row k = Inr c)"
    "\<exists>rows. parse_dataframe_csv (get_pending_orders_with_magic t name) = Inr rows \<and>
      (\<forall>row \<in> set rows. \<forall>k \<in> {''id'', ''symbol'', ''type'', ''volume'', ''open'', ''magic''}. \<exists>c. cell row k = Inr c)"
proof -
  obtain rows where "parse_dataframe_csv (get_positions_with_magic t name) = Inr rows"
      "\<forall>row \<in> set rows. set (map snd positions_columns_mapping) \<subseteq> dom (map_of row)"
    using assms(1) unfolding table_documented_def get_positions_with_magic_def by blast
  then show "\<exists>rows. parse_dataframe_csv (get_positions_with_magic t name) = Inr rows \<and>
      (\<forall>row \<in> set rows. \<forall>k \<in> {''id'', ''symbol'', ''type'', ''volume'', ''open'', ''profit'', ''magic'', ''stop_loss'', ''take_profit''}.
        \<exists>c. cell row k = Inr c)"
    by (intro exI [of _ rows]) (auto simp: positions_columns_mapping_def intro!: cell_present)
  obtain rows where "parse_dataframe_csv (get_pending_orders_with_magic t name) = Inr rows"
      "\<forall>row \<in> set rows. set (map snd orders_columns_mapping) \<subseteq> dom (map_of row)"
    using assms(2) unfolding table_documented_def get_pending_orders_with_magic_def by blast
  then show "\<exists>rows. parse_dataframe_csv (get_pending_orders_with_magic t name) = Inr rows \<and>
      (\<forall>row \<in> set rows. \<forall>k \<in> {''id'', ''symbol'', ''type'', ''volume'', ''open'', ''magic''}. \<exists>c. cell row k = Inr c)"
    by (intro exI [of _ rows]) (auto simp: orders_columns_mapping_def intro!: cell_present)
qed

section \<open>The verification script cannot trade\<close>

definition allowlisted :: "'w plain_session \<Rightarrow> 'w plain_session \<Rightarrow> bool" where
  "allowlisted s t \<longleftrightarrow> (\<exists>new. ps_calls t = new @ ps_calls s \<and> fst ` set new \<subseteq> set tool_allowlist)"

interpretation plain: effect allowlisted
proof unfold_locales
  show "allowlisted s s" for s :: "'w plain_session"
    by (auto simp: allowlisted_def)
  show "allowlisted s u" if st: "allowlisted s t" and tu: "allowlisted t u" for s t u :: "'w plain_session"
  proof -
    obtain a where "ps_calls t = a @ ps_calls s" "fst ` set a \<subseteq> set tool_allowlist" using st by (auto simp: allowlisted_def)
    moreover obtain b where "ps_calls u = b @ ps_calls t" "fst ` set b \<subseteq> set tool_allowlist" using tu by (auto simp: allowlisted_def)
    ultimately show ?thesis unfolding allowlisted_def by (intro exI [of _ "b @ a"]) auto
  qed
qed

lemma allowlist_read_only: "set tool_allowlist \<subseteq> set read_only_tools"
  by (simp add: tool_allowlist_def read_only_tools_def)

lemma p3_call_allowlisted: "keeps allowlisted (p3_call_tool server name args)"
  by (auto simp: keeps_def p3_call_tool_def allowlisted_def split: prod.splits)

lemma print_allowlisted: "keeps allowlisted (print_json j)"
  by (auto simp: keeps_def print_json_def allowlisted_def io_simps)

lemma phase3_allowlisted: "keeps allowlisted (phase3_main server)"
  unfolding phase3_main_def p3_account_def p3_symbols_def p3_show_def
  by (auto intro!: plain.keeps_rules p3_call_allowlisted print_allowlisted split: option.splits json.splits)

text \<open>A redacted account does not depend on the values redacted.\<close>

lemma redaction_hides:
  assumes "lower k \<in> set fields_to_redact" "k \<in> fst ` set info"
  shows "redact_account_info (dict_put k v info) = redact_account_info info"
  using assms(2)
proof (induction info)
  case (Cons p info)
  then show ?case using assms(1) by (cases p) (auto simp: redact_account_info_def)
qed simp



end
