(* ===== verification/Migration.thy ===== *)
theory Migration
  imports State_Store
begin

text \<open>
  \<^verbatim>\<open>scripts/migrate_state_store_to_per_ticket_files.py\<close>: the one-time conversion of the old
  store, one document holding every record, into the directory the store of today reads.
  Shown: a document whose records can be read is converted without a mismatch, every record is then
  found under its ticket and no other is, and the old document is kept under the name of the backup;
  whatever else happens, the source is left where it was.
\<close>

section \<open>The files involved\<close>

record migration =
  mg_source :: "content option"
  mg_backup :: "content option"
  mg_dest :: "files option"

text \<open>Renaming onto an existing file raises on the platform the terminal runs on.\<close>

datatype migration_error = Py exn | FileExistsError

definition legacy_entry :: "string \<times> json \<Rightarrow> (int \<times> LocalOrderRecord) result" where
  "legacy_entry e =
     (case e of (ticket, data) \<Rightarrow>
        bind_res (of_option ValueError (int_of_string ticket)) (\<lambda>t.
        bind_res (deserialize t data) (\<lambda>r. Inr (t, r))))"

text \<open>The dict of records; a ticket written in two ways keeps the later record.\<close>

definition legacy_records :: "content \<Rightarrow> (int \<times> LocalOrderRecord) list result" where
  "legacy_records c =
     bind_res (of_option JSONDecodeError (json_of_content c)) (\<lambda>raw.
     bind_res (item raw ''records'') (\<lambda>entries. case entries of
       JObj d \<Rightarrow> bind_res (traverse legacy_entry d) (\<lambda>rs. Inr (fold (\<lambda>(t, r). dict_put t r) rs []))
     | _ \<Rightarrow> Inl AttributeError))"

definition write_all :: "(int \<times> LocalOrderRecord) list \<Rightarrow> files \<Rightarrow> files" where
  "write_all records fs = fold (\<lambda>(t, r). write_one r) records fs"

text \<open>Whether every record reads back as it was, the first that does not ending the loop.\<close>

fun verify_all :: "(int \<times> LocalOrderRecord) list \<Rightarrow> files \<Rightarrow> bool result" where
  "verify_all [] fs = Inr True"
| "verify_all ((t, expected) # rest) fs =
     bind_res (lookup t fs) (\<lambda>actual. if actual \<noteq> Some expected then Inr False else verify_all rest fs)"

definition dest_files :: "migration \<Rightarrow> files" where
  "dest_files s = (case mg_dest s of None \<Rightarrow> [] | Some fs \<Rightarrow> fs)"

definition rename_source :: "(migration, migration_error, int) io" where
  "rename_source = (\<lambda>s. if mg_backup s \<noteq> None then (Inl FileExistsError, s)
     else (Inr 0, s\<lparr>mg_backup := mg_source s, mg_source := None\<rparr>))"

text \<open>The exit code: 0 for done or nothing to do, 1 for refused or mismatched.\<close>

definition migrate_main :: "(migration, migration_error, int) io" where
  "migrate_main = (\<lambda>s. case mg_source s of
     None \<Rightarrow> (Inr 0, s)
   | Some c \<Rightarrow>
       if dest_files s \<noteq> [] then (Inr 1, s)
       else case legacy_records c of
         Inl e \<Rightarrow> (Inl (Py e), s)
       | Inr records \<Rightarrow>
           let s' = (if records = [] then s else s\<lparr>mg_dest := Some (write_all records (dest_files s))\<rparr>)
           in case verify_all records (dest_files s') of
                Inl e \<Rightarrow> (Inl (Py e), s')
              | Inr False \<Rightarrow> (Inr 1, s')
              | Inr True \<Rightarrow> rename_source s')"

section \<open>Reading the old document\<close>

definition keyed :: "(int \<times> LocalOrderRecord) list \<Rightarrow> bool" where
  "keyed records \<longleftrightarrow> distinct (map fst records) \<and> (\<forall>(t, r) \<in> set records. lr_ticket r = t)"

lemma legacy_entry_keyed: "legacy_entry e = Inr (t, r) \<Longrightarrow> lr_ticket r = t"
  by (auto simp: legacy_entry_def result_simps dest: deserialize_ticket split: prod.splits)

lemma fold_dict_put_keyed:
  assumes "keyed d" "\<forall>(t, r) \<in> set rs. lr_ticket r = t"
  shows "keyed (fold (\<lambda>(t, r). dict_put t r) rs d)"
  using assms
proof (induction rs arbitrary: d)
  case (Cons p rs)
  obtain t r where p: "p = (t, r)" by (cases p)
  have "keyed (dict_put t r d)"
    using Cons.prems set_dict_put [of t r d] by (auto simp: keyed_def p distinct_dict_put)
  then show ?case using Cons by (simp add: p)
qed simp

lemma legacy_records_keyed: "legacy_records c = Inr records \<Longrightarrow> keyed records"
proof -
  assume "legacy_records c = Inr records"
  then obtain entries where "(case entries of JObj d \<Rightarrow> bind_res (traverse legacy_entry d) (\<lambda>rs. Inr (fold (\<lambda>(t, r). dict_put t r) rs []))
     | _ \<Rightarrow> Inl AttributeError) = Inr records"
    by (auto simp: legacy_records_def bind_res_eq_Inr)
  then obtain d rs where rs: "traverse legacy_entry d = Inr rs" "records = fold (\<lambda>(t, r). dict_put t r) rs []"
    by (cases entries) (auto simp: bind_res_eq_Inr)
  have "\<forall>(t, r) \<in> set rs. lr_ticket r = t"
    using rs(1) legacy_entry_keyed unfolding traverse_Inr_iff list_all2_conv_all_nth
    by (metis (mono_tags, lifting) case_prodI2 in_set_conv_nth)
  then show ?thesis unfolding rs(2) by (intro fold_dict_put_keyed) (simp_all add: keyed_def)
qed

section \<open>Writing and checking\<close>

lemma write_all_lookup:
  assumes "keyed records" "\<forall>r \<in> snd ` set records. dates_ok r"
  shows "lookup t (write_all records fs) = (case map_of records t of Some r \<Rightarrow> Inr (Some r) | None \<Rightarrow> lookup t fs)"
  using assms
proof (induction records arbitrary: fs)
  case (Cons p records)
  obtain k r where p: "p = (k, r)" by (cases p)
  have k: "lr_ticket r = k" "dates_ok r" "k \<notin> fst ` set records" "keyed records" "\<forall>r \<in> snd ` set records. dates_ok r"
    using Cons.prems by (auto simp: keyed_def p)
  have step: "lookup t (write_all (p # records) fs) = lookup t (write_all records (write_one r fs))"
    by (simp add: write_all_def p)
  show ?case
  proof (cases "t = k")
    case True
    then have "map_of records t = None" using k(3) by (simp add: map_of_eq_None_iff)
    then show ?thesis using Cons.IH [OF k(4,5), of "write_one r fs"] step k(1,2) True load_one_write(1) [OF k(2)]
      by (simp add: p lookup_def)
  next
    case False
    then have "lookup t (write_one r fs) = lookup t fs" using k(1) by (simp add: lookup_def load_one_write(2))
    then show ?thesis using Cons.IH [OF k(4,5), of "write_one r fs"] step False by (simp add: p split: option.split)
  qed
qed (simp add: write_all_def)

lemma verify_all_True: "\<forall>(t, r) \<in> set records. lookup t fs = Inr (Some r) \<Longrightarrow> verify_all records fs = Inr True"
  by (induction records) auto

text \<open>
  C40: A readable old document is migrated: nothing mismatches, the exit code is 0, every ticket
  of the document then has its record in the new store and no other ticket has one, and the document
  itself is unchanged under the name of the backup.
\<close>

theorem migration_complete:
  assumes "mg_source s = Some c" "legacy_records c = Inr records" "\<forall>r \<in> snd ` set records. dates_ok r"
    and "dest_files s = []" "mg_backup s = None"
  shows "\<exists>t. migrate_main s = (Inr 0, t) \<and> mg_source t = None \<and> mg_backup t = Some c \<and>
    (\<forall>ticket. lookup ticket (dest_files t) = Inr (map_of records ticket))"
proof -
  note keyed = legacy_records_keyed [OF assms(2)]
  define s' where "s' = (if records = [] then s else s\<lparr>mg_dest := Some (write_all records (dest_files s))\<rparr>)"
  have "dest_files s' = write_all records []"
    using assms(4) by (simp add: s'_def dest_files_def write_all_def)
  moreover have "lookup ticket [] = Inr None" for ticket by (simp add: lookup_def load_one_def)
  ultimately have found: "lookup ticket (dest_files s') = Inr (map_of records ticket)" for ticket
    using write_all_lookup [OF keyed assms(3), of ticket "[]"] by (simp split: option.splits)
  have "verify_all records (dest_files s') = Inr True"
    using keyed by (intro verify_all_True) (auto simp: found keyed_def)
  then have "migrate_main s = (Inr 0, s'\<lparr>mg_backup := mg_source s', mg_source := None\<rparr>)"
    using assms by (simp add: migrate_main_def Let_def rename_source_def flip: s'_def) (simp add: s'_def)
  moreover have "mg_source s' = Some c" using assms(1) by (simp add: s'_def)
  moreover have "dest_files (s'\<lparr>mg_backup := mg_source s', mg_source := None\<rparr>) = dest_files s'"
    by (simp add: dest_files_def)
  ultimately show ?thesis using found by simp
qed

definition legacy_sample :: content where
  "legacy_sample = Doc (JObj [(''records'', JObj [(''7'', payload (sample_record 7)), (''8'', payload (sample_record 8))])])"

theorem migration_complete_witness:
  "\<exists>t. migrate_main \<lparr> mg_source = Some legacy_sample, mg_backup = None, mg_dest = None \<rparr> = (Inr 0, t) \<and>
     mg_backup t = Some legacy_sample \<and> lookup 7 (dest_files t) = Inr (Some (sample_record 7)) \<and> lookup 9 (dest_files t) = Inr None"
proof -
  have numbers: "int_of_string ''7'' = Some 7" "int_of_string ''8'' = Some 8" by code_simp+
  have read: "deserialize 7 (payload (sample_record 7)) = Inr (sample_record 7)" "deserialize 8 (payload (sample_record 8)) = Inr (sample_record 8)"
    using deserialize_payload [of "sample_record 7"] deserialize_payload [of "sample_record 8"] by simp_all
  have "legacy_records legacy_sample = Inr [(7, sample_record 7), (8, sample_record 8)]"
    by (simp add: legacy_records_def legacy_sample_def json_of_content_def item_def legacy_entry_def numbers read)
  from migration_complete [OF _ this, of "\<lparr> mg_source = Some legacy_sample, mg_backup = None, mg_dest = None \<rparr>"]
  show ?thesis by (auto simp: dest_files_def)
qed

text \<open>Unless it ends with 0 the source is untouched, and it is never lost.\<close>

lemma migration_keeps_source:
  assumes "migrate_main s = (r, t)" "mg_source s = Some c"
  shows "mg_source t = Some c \<or> r = Inr 0 \<and> mg_backup t = Some c"
  using assms
  by (auto simp: migrate_main_def rename_source_def Let_def split: if_splits sum.splits bool.splits)

text \<open>A second run has nothing to do, and a store in use is never merged into.\<close>

lemma migration_refuses:
  "mg_source s = None \<Longrightarrow> migrate_main s = (Inr 0, s)"
  "mg_source s \<noteq> None \<Longrightarrow> dest_files s \<noteq> [] \<Longrightarrow> migrate_main s = (Inr 1, s)"
  by (auto simp: migrate_main_def)

end
