(* ===== verification/Disconnect_Test.thy ===== *)
theory Disconnect_Test
  imports Maintenance
begin

text \<open>
  \<^verbatim>\<open>scripts/run_demo_execution_mcp_disconnect_smoke_test.py\<close>: the script connects, finds the
  processes it started by comparing two listings, kills them in the middle of a call and looks at what
  the next call does. The operating system is an argument: what the listing prints, what a kill does.
  Shown: only processes that appeared between the listings are killed, after they were found to have a
  single root that is a launcher with the interpreter asked for; a single root makes a tree unless the
  parents run in a circle, which the check does not exclude; only the account is read.
  The time limits of the listing, of the calls and of the whole run are left out.
\<close>

section \<open>Processes\<close>

datatype kill = Tree_kill int | Hard_kill int

fun kill_pid :: "kill \<Rightarrow> int" where
  "kill_pid (Tree_kill p) = p"
| "kill_pid (Hard_kill p) = p"

text \<open>A dict from process ids to command lines and parents.\<close>

type_synonym procs = "(int \<times> string \<times> int option) list"

text \<open>
  \<open>ma_listing\<close> gives the return code and the output of the listing for a marker; \<open>ma_done\<close> says
  whether a call started now is over when the delay is.
\<close>

record 'o machine =
  ma_listing :: "string \<Rightarrow> 'o \<Rightarrow> (int \<times> string) \<times> 'o"
  ma_kill :: "kill \<Rightarrow> 'o \<Rightarrow> 'o"
  ma_done :: "'o \<Rightarrow> bool"

datatype raced = Completed_before | Completed_despite | Race_raised exn

text \<open>The machine with what the script did to it and noted of it.\<close>

record 'o hunt =
  hu_os :: 'o
  hu_kills :: "kill list"
  hu_tree :: "int list option"
  hu_raced :: "raced option"
  hu_orphans :: "int list"
  hu_post :: "(exn + AccountState) option"

definition on_machine :: "'o env \<Rightarrow> 'o hunt env" where
  "on_machine env =
     \<lparr> e_registry = e_registry env, e_timeout = e_timeout env, e_account_kind = e_account_kind env,
       e_server = (\<lambda>name args w. case e_server env name args (hu_os w) of (r, os) \<Rightarrow> (r, w\<lparr>hu_os := os\<rparr>)),
       e_connect = (\<lambda>w. case e_connect env (hu_os w) of (r, os) \<Rightarrow> (r, w\<lparr>hu_os := os\<rparr>)),
       e_sleep = (\<lambda>d w. w\<lparr>hu_os := e_sleep env d (hu_os w)\<rparr>), e_clock = e_clock env \<rparr>"

definition wrapper_marker :: string where
  "wrapper_marker = ''run_metatrader_mcp_stdio.py''"

definition server_marker :: string where
  "server_marker = ''metatrader_mcp_extended_server.py''"

definition process_entry :: "json \<Rightarrow> (int \<times> string \<times> int option) result" where
  "process_entry p =
     bind_res (bind_res (item p ''ProcessId'') int_of_json) (\<lambda>pid.
     bind_res (get_item p ''CommandLine'') (\<lambda>line.
     bind_res (case line of None \<Rightarrow> Inr '''' | Some j \<Rightarrow> if truthy j then as_str j else Inr '''') (\<lambda>line.
     bind_res (get_item p ''ParentProcessId'') (\<lambda>parent.
     bind_res (case parent of None \<Rightarrow> Inr None | Some JNull \<Rightarrow> Inr None | Some j \<Rightarrow> bind_res (int_of_json j) (\<lambda>q. Inr (Some q)))
       (\<lambda>parent. Inr (pid, line, parent))))))"

definition parse_processes :: "int \<times> string \<Rightarrow> procs result" where
  "parse_processes out =
     (case out of (returncode, stdout) \<Rightarrow>
        if returncode \<noteq> 0 \<or> strip stdout = '''' then Inr []
        else bind_res (of_option JSONDecodeError (json_loads stdout)) (\<lambda>parsed.
          bind_res (case parsed of JObj d \<Rightarrow> Inr [JObj d] | JList ps \<Rightarrow> Inr ps | _ \<Rightarrow> Inl TypeError) (\<lambda>ps.
          bind_res (traverse process_entry ps) (\<lambda>entries. Inr (fold (\<lambda>(k, v). dict_put k v) entries [])))))"

definition find_processes :: "'o machine \<Rightarrow> string \<Rightarrow> ('o hunt, procs) live_io" where
  "find_processes machine marker = (\<lambda>s. case ma_listing machine marker (hu_os (l_server s)) of (out, os) \<Rightarrow>
     (parse_processes out, s\<lparr>l_server := (l_server s)\<lparr>hu_os := os\<rparr>\<rparr>))"

definition do_kill :: "'o machine \<Rightarrow> kill \<Rightarrow> ('o hunt, unit) live_io" where
  "do_kill machine k =
     modify_io (\<lambda>s. s\<lparr>l_server := (l_server s)\<lparr>hu_os := ma_kill machine k (hu_os (l_server s)),
                                            hu_kills := k # hu_kills (l_server s)\<rparr>\<rparr>)"

definition pids :: "procs \<Rightarrow> int set" where
  "pids ps = fst ` set ps"

definition diff_new_pids :: "procs \<Rightarrow> procs \<Rightarrow> procs" where
  "diff_new_pids before after = filter (\<lambda>(pid, _). pid \<notin> pids before) after"

definition new_procs :: "procs \<Rightarrow> procs \<Rightarrow> procs" where
  "new_procs new_wrapper new_server = fold (\<lambda>(k, v). dict_put k v) new_server new_wrapper"

text \<open>The processes of the set whose parent is not in it.\<close>

definition roots :: "procs \<Rightarrow> int list" where
  "roots ps = map fst (filter (\<lambda>(pid, line, parent). case parent of None \<Rightarrow> True | Some q \<Rightarrow> q \<notin> pids ps) ps)"

definition check_tree :: "string \<Rightarrow> procs \<Rightarrow> procs \<Rightarrow> int result" where
  "check_tree python new_wrapper new_server =
     (let ps = new_procs new_wrapper new_server
      in case roots ps of
           [rt] \<Rightarrow>
             if rt \<notin> pids new_wrapper then Inl RuntimeError
             else if \<not> sublist python (fst (the (map_of ps rt))) then Inl RuntimeError
             else if new_server = [] then Inl RuntimeError
             else Inr rt
         | _ \<Rightarrow> Inl RuntimeError)"

section \<open>The script\<close>

definition jot :: "('o hunt \<Rightarrow> 'o hunt) \<Rightarrow> ('o hunt, unit) live_io" where
  "jot f = modify_io (\<lambda>s. s\<lparr>l_server := f (l_server s)\<rparr>)"

text \<open>
  The call raced against the kill. A call that is over before the kill is noted as completed, whether
  it returned or raised; one that is not is answered by the machine after the kill.
\<close>

definition race :: "'o machine \<Rightarrow> int \<Rightarrow> 'o hunt env \<Rightarrow> ('o hunt, unit) live_io" where
  "race machine rt env =
     bind_io (get_io (\<lambda>s. ma_done machine (hu_os (l_server s)))) (\<lambda>finished.
       if finished then
         bind_io (try_io (mcp_get_account_state env)) (\<lambda>_.
         bind_io (sleep env (flt (1 / 5))) (\<lambda>_.
         bind_io (do_kill machine (Tree_kill rt)) (\<lambda>_. jot (hu_raced_update (\<lambda>_. Some Completed_before)))))
       else
         bind_io (sleep env (flt (1 / 5))) (\<lambda>_.
         bind_io (do_kill machine (Tree_kill rt)) (\<lambda>_.
         bind_io (try_io (mcp_get_account_state env)) (\<lambda>r.
           jot (hu_raced_update (\<lambda>_. Some (case r of Inl e \<Rightarrow> Race_raised e | Inr _ \<Rightarrow> Completed_despite)))))))"

definition kill_survivors :: "'o machine \<Rightarrow> int list \<Rightarrow> 'o hunt env \<Rightarrow> ('o hunt, unit) live_io" where
  "kill_survivors machine tree env =
     bind_io (sleep env 1) (\<lambda>_.
     bind_io (find_processes machine wrapper_marker) (\<lambda>ws.
     bind_io (find_processes machine server_marker) (\<lambda>ss.
       let still_present = filter (\<lambda>p. p \<in> pids ws \<union> pids ss) tree
       in bind_io (for_io (\<lambda>p. do_kill machine (Hard_kill p)) still_present) (\<lambda>_. jot (hu_orphans_update (\<lambda>_. still_present))))))"

definition kill_phase :: "'o machine \<Rightarrow> int \<Rightarrow> int list \<Rightarrow> 'o hunt env \<Rightarrow> ('o hunt, unit) live_io" where
  "kill_phase machine rt tree env =
     bind_io (jot (hu_tree_update (\<lambda>_. Some tree))) (\<lambda>_.
     bind_io (race machine rt env) (\<lambda>_.
     bind_io (kill_survivors machine tree env) (\<lambda>_.
     bind_io (try_io (mcp_get_account_state env)) (\<lambda>r. jot (hu_post_update (\<lambda>_. Some r))))))"

definition connected :: "'o machine \<Rightarrow> string \<Rightarrow> procs \<Rightarrow> procs \<Rightarrow> 'o hunt env \<Rightarrow> ('o hunt, unit) live_io" where
  "connected machine python baseline_wrapper baseline_server env =
     bind_io (mcp_get_account_state env) (\<lambda>_.
     bind_io (find_processes machine wrapper_marker) (\<lambda>after_wrapper.
     bind_io (find_processes machine server_marker) (\<lambda>after_server.
       let new_wrapper = diff_new_pids baseline_wrapper after_wrapper; new_server = diff_new_pids baseline_server after_server
       in bind_io (lift_io (check_tree python new_wrapper new_server)) (\<lambda>rt.
            kill_phase machine rt (map fst (new_procs new_wrapper new_server)) env))))"

definition baseline :: "'o machine \<Rightarrow> ('o hunt, procs \<times> procs) live_io" where
  "baseline machine =
     bind_io (find_processes machine wrapper_marker) (\<lambda>ws.
     bind_io (find_processes machine server_marker) (\<lambda>ss. return_io (ws, ss)))"

definition disconnect_run :: "'o machine \<Rightarrow> string \<Rightarrow> 'o env \<Rightarrow> (string \<times> string) list \<Rightarrow> ('o hunt, unit) live_io" where
  "disconnect_run machine python env source =
     bind_io (baseline machine) (\<lambda>(ws, ss). script_session (on_machine env) source (connected machine python ws ss))"

text \<open>The safety net of \<^verbatim>\<open>finally\<close>: what is left of the tree is killed one by one.\<close>

definition safety_net :: "'o machine \<Rightarrow> ('o hunt, unit) live_io" where
  "safety_net machine =
     bind_io (get_io (\<lambda>s. case hu_tree (l_server s) of None \<Rightarrow> [] | Some tree \<Rightarrow> tree)) (\<lambda>tree.
       for_io (\<lambda>p.
         bind_io (find_processes machine wrapper_marker) (\<lambda>ws.
         bind_io (find_processes machine server_marker) (\<lambda>ss.
           if p \<in> pids ws \<union> pids ss then do_kill machine (Hard_kill p) else return_io ()))) tree)"

definition disconnect_smoke_test :: "'o machine \<Rightarrow> string \<Rightarrow> 'o env \<Rightarrow> (string \<times> string) list \<Rightarrow> ('o hunt, unit) live_io" where
  "disconnect_smoke_test machine python env source =
     bind_io (lift_io (load_settings source)) (\<lambda>_.
     bind_io (try_io (disconnect_run machine python env source)) (\<lambda>r.
     bind_io (safety_net machine) (\<lambda>_. lift_io r)))"

section \<open>A single root\<close>

text \<open>From a process to its parent, within the set.\<close>

definition parent_rel :: "procs \<Rightarrow> (int \<times> int) set" where
  "parent_rel ps = {(p, q). q \<in> pids ps \<and> (\<exists>line. (p, line, Some q) \<in> set ps)}"

lemma check_tree_Inr:
  "check_tree python nw ns = Inr rt \<Longrightarrow> roots (new_procs nw ns) = [rt] \<and> rt \<in> pids nw \<and> ns \<noteq> [] \<and>
     sublist python (fst (the (map_of (new_procs nw ns) rt)))"
  by (auto simp: check_tree_def Let_def split: list.split_asm if_splits)

lemma pids_new_procs: "pids (new_procs nw ns) = pids nw \<union> pids ns"
proof (induction ns arbitrary: nw)
  case (Cons p ns)
  show ?case using Cons [of "case p of (k, v) \<Rightarrow> dict_put k v nw"]
    by (cases p) (auto simp: new_procs_def pids_def)
qed (simp add: new_procs_def pids_def)

text \<open>Where no chain of parents runs in a circle, everything in the set comes from the root.\<close>

lemma single_root_reached:
  assumes "roots ps = [rt]" "acyclic (parent_rel ps)" "p \<in> pids ps"
  shows "(p, rt) \<in> (parent_rel ps)\<^sup>*"
proof -
  have "parent_rel ps \<subseteq> pids ps \<times> pids ps" by (force simp: parent_rel_def pids_def)
  then have "finite (parent_rel ps)" by (rule finite_subset) (simp add: pids_def)
  then have "wf ((parent_rel ps)\<inverse>)" using assms(2) by (rule finite_acyclic_wf_converse)
  then show ?thesis using assms(3)
  proof (induction p rule: wf_induct_rule)
    case (less p)
    from less.prems obtain line parent where entry: "(p, line, parent) \<in> set ps" by (auto simp: pids_def)
    show ?case
    proof (cases "\<exists>q. parent = Some q \<and> q \<in> pids ps")
      case True
      then obtain q where q: "parent = Some q" "q \<in> pids ps" by blast
      then have "(p, q) \<in> parent_rel ps" using entry by (auto simp: parent_rel_def)
      moreover from this have "(q, rt) \<in> (parent_rel ps)\<^sup>*" using q(2) by (intro less.IH) simp_all
      ultimately show ?thesis by (rule converse_rtrancl_into_rtrancl)
    next
      case False
      then have "p \<in> set (roots ps)" using entry by (force simp: roots_def split: option.splits)
      then show ?thesis using assms(1) by simp
    qed
  qed
qed

text \<open>The check asks for one root, not for a tree: parents in a circle beside it pass.\<close>

lemma circle_beside_root_passes:
  "check_tree ''py'' [(1, ''py w'', Some 0)] [(2, ''py s'', Some 3), (3, ''py s'', Some 2)] = Inr 1 \<and>
   (2, 1) \<notin> (parent_rel (new_procs [(1, ''py w'', Some 0)] [(2, ''py s'', Some 3), (3, ''py s'', Some 2)]))\<^sup>*"
proof
  show "check_tree ''py'' [(1, ''py w'', Some 0)] [(2, ''py s'', Some 3), (3, ''py s'', Some 2)] = Inr 1" by code_simp
  let ?ps = "[(1, ''py w'', Some 0), (2, ''py s'', Some 3), (3, ''py s'', Some 2)] :: procs"
  have ps: "new_procs [(1, ''py w'', Some 0)] [(2, ''py s'', Some 3), (3, ''py s'', Some 2)] = ?ps"
    by (simp add: new_procs_def)
  have "q \<in> {2, 3}" if "(p, q) \<in> (parent_rel ?ps)\<^sup>*" "p \<in> {2, 3}" for p q
    using that by (induction rule: rtrancl_induct) (auto simp: parent_rel_def)
  then show "(2, 1) \<notin> (parent_rel (new_procs [(1, ''py w'', Some 0)] [(2, ''py s'', Some 3), (3, ''py s'', Some 2)]))\<^sup>*"
    unfolding ps by fastforce
qed

section \<open>What is killed\<close>

text \<open>Between two states only processes of \<open>P\<close> were killed, and only such are noted for the safety net.\<close>

definition spares :: "int set \<Rightarrow> 'o hunt live \<Rightarrow> 'o hunt live \<Rightarrow> bool" where
  "spares P s t \<longleftrightarrow>
     (\<exists>new. hu_kills (l_server t) = new @ hu_kills (l_server s) \<and> kill_pid ` set new \<subseteq> P) \<and>
     (hu_tree (l_server t) = hu_tree (l_server s) \<or> (\<exists>tree. hu_tree (l_server t) = Some tree \<and> set tree \<subseteq> P))"

lemma spares_trans: "spares P s t \<Longrightarrow> spares Q t u \<Longrightarrow> spares (P \<union> Q) s u"
proof -
  assume st: "spares P s t" and tu: "spares Q t u"
  obtain a where a: "hu_kills (l_server t) = a @ hu_kills (l_server s)" "kill_pid ` set a \<subseteq> P" using st by (auto simp: spares_def)
  obtain b where b: "hu_kills (l_server u) = b @ hu_kills (l_server t)" "kill_pid ` set b \<subseteq> Q" using tu by (auto simp: spares_def)
  have "\<exists>new. hu_kills (l_server u) = new @ hu_kills (l_server s) \<and> kill_pid ` set new \<subseteq> P \<union> Q"
    using a b by (intro exI [of _ "b @ a"]) auto
  then show ?thesis using st tu unfolding spares_def by auto
qed

interpretation spared: effect "spares P" for P
proof unfold_locales
  show "spares P s s" for s :: "'o hunt live" by (simp add: spares_def)
  show "spares P s u" if "spares P s t" "spares P t u" for s t u :: "'o hunt live" using spares_trans [OF that] by simp
qed

lemma same_spares: "(\<And>s. hu_kills (l_server (snd (m s))) = hu_kills (l_server s) \<and> hu_tree (l_server (snd (m s))) = hu_tree (l_server s)) \<Longrightarrow>
    keeps (spares P) m"
  by (simp add: keeps_def spares_def)

lemma machine_session: "session_env (on_machine env) settings = on_machine (session_env env settings)"
  by (simp add: session_env_def on_machine_def)

lemma call_spares: "keeps (spares P) (call_tool (on_machine env) name args)"
  by (rule same_spares) (auto simp: call_tool_def on_machine_def split: sum.splits prod.splits)

lemma quiet_spares:
  "keeps (spares P) (sleep (on_machine env) d)" "keeps (spares P) (aenter (on_machine env))" "keeps (spares P) aexit"
  "keeps (spares P) (find_processes machine marker)"
  by (rule same_spares, auto simp: sleep_def on_machine_def aenter_def aexit_def find_processes_def io_simps split: prod.splits option.splits)+

lemma jot_spares:
  "keeps (spares P) (jot (hu_raced_update f))" "keeps (spares P) (jot (hu_orphans_update g))" "keeps (spares P) (jot (hu_post_update h))"
  by (rule same_spares, simp add: jot_def io_simps)+

lemma account_spares: "keeps (spares P) (mcp_get_account_state (on_machine env))"
  unfolding mcp_get_account_state_def loads_io_def by (intro spared.keeps_rules call_spares)

lemma kill_spares: "kill_pid k \<in> P \<Longrightarrow> keeps (spares P) (do_kill machine k)"
  by (simp add: keeps_def do_kill_def spares_def io_simps)

lemma kill_phase_spares:
  assumes "rt \<in> P" "set tree \<subseteq> P"
  shows "keeps (spares P) (kill_phase machine rt tree (on_machine env))"
proof -
  have "keeps (spares P) (jot (hu_tree_update (\<lambda>_. Some tree)))"
    using assms(2) by (simp add: keeps_def jot_def spares_def io_simps)
  moreover have "keeps (spares P) (race machine rt (on_machine env))"
    unfolding race_def by (intro spared.keeps_rules quiet_spares account_spares jot_spares kill_spares) (simp_all add: assms(1))
  moreover have "keeps (spares P) (kill_survivors machine tree (on_machine env))"
    unfolding kill_survivors_def Let_def
    by (intro spared.keeps_rules quiet_spares jot_spares kill_spares) (use assms(2) in auto)
  ultimately show ?thesis
    unfolding kill_phase_def by (intro spared.keeps_bind spared.keeps_try account_spares jot_spares)
qed

text \<open>A program kills within one of the sets of \<open>C\<close>, depending on how it goes.\<close>

definition kills_within :: "int set set \<Rightarrow> ('o hunt, 'a) live_io \<Rightarrow> bool" where
  "kills_within C m \<longleftrightarrow> (\<forall>s. \<exists>P \<in> C. spares P s (snd (m s)))"

lemma kills_withinD: "kills_within C m \<Longrightarrow> m s = (r, t) \<Longrightarrow> \<exists>P \<in> C. spares P s t"
  unfolding kills_within_def by (metis snd_conv)

lemma kills_spares: "keeps (spares P) m \<Longrightarrow> P \<in> C \<Longrightarrow> kills_within C m"
  by (auto simp: kills_within_def keeps_def)

lemma kills_before:
  assumes "keeps (spares {}) m" "\<And>x s s'. m s = (Inr x, s') \<Longrightarrow> kills_within C (f x)" "{} \<in> C"
  shows "kills_within C (bind_io m f)"
  unfolding kills_within_def
proof
  fix s
  obtain r t where run: "bind_io m f s = (r, t)" by fastforce
  from run have "\<exists>P \<in> C. spares P s t"
  proof (cases rule: bind_ioE)
    case (stop e)
    then show ?thesis using keepsD [OF assms(1)] assms(3) by blast
  next
    case (go x s')
    obtain P where "P \<in> C" "spares P s' t" using kills_withinD [OF assms(2) [OF go(1)] go(2)] by blast
    then show ?thesis using spares_trans [OF keepsD [OF assms(1) go(1)]] by auto
  qed
  then show "\<exists>P \<in> C. spares P s (snd (bind_io m f s))" using run by simp
qed

lemma kills_after:
  assumes "kills_within C m" "\<And>x. keeps (spares {}) (f x)"
  shows "kills_within C (bind_io m f)"
  unfolding kills_within_def
proof
  fix s
  obtain r t where run: "bind_io m f s = (r, t)" by fastforce
  from run have "\<exists>P \<in> C. spares P s t"
  proof (cases rule: bind_ioE)
    case (stop e)
    then show ?thesis using kills_withinD [OF assms(1)] by blast
  next
    case (go x s')
    obtain P where "P \<in> C" "spares P s s'" using kills_withinD [OF assms(1) go(1)] by blast
    then show ?thesis using spares_trans [OF _ keepsD [OF assms(2) go(2)]] by fastforce
  qed
  then show "\<exists>P \<in> C. spares P s (snd (bind_io m f s))" using run by simp
qed

lemma kills_try: "kills_within C m \<Longrightarrow> kills_within C (try_io m)"
  by (simp add: kills_within_def io_simps split_beta)

lemma kills_session:
  assumes "\<And>e. kills_within C (body (on_machine e))" "{} \<in> C"
  shows "kills_within C (script_session (on_machine env) source body)"
proof -
  have pure: "kills_within C (raise_io e)" for e
    by (rule kills_spares [OF spared.keeps_pure(2) assms(2)])
  have client: "kills_within C (with_client (on_machine e) (bind_io (catch_io (require_demo_account (McpAccountReader (on_machine e)))
        (\<lambda>x. if x = NotDemoAccountError then return_io () else raise_io x)) (\<lambda>_. body (on_machine e))))" for e
    unfolding with_client_def require_demo_account_def
    by (intro kills_before kills_after kills_try spared.keeps_rules quiet_spares assms)
      (simp_all add: McpAccountReader_def account_spares)
  show ?thesis
    unfolding script_session_def demo_execution_session_def Let_def machine_session
    by (intro kills_before spared.keeps_pure assms(2)) (auto intro!: pure client kills_before spared.keeps_pure assms(2))
qed

text \<open>A listing the machine can print, and the sets of processes the check lets through.\<close>

definition listed :: "'o machine \<Rightarrow> string \<Rightarrow> procs \<Rightarrow> bool" where
  "listed machine marker ps \<longleftrightarrow> (\<exists>os. parse_processes (fst (ma_listing machine marker os)) = Inr ps)"

definition checked_sets :: "'o machine \<Rightarrow> string \<Rightarrow> procs \<Rightarrow> procs \<Rightarrow> int set set" where
  "checked_sets machine python ws ss = insert {} {pids (diff_new_pids ws ws') \<union> pids (diff_new_pids ss ss') |ws' ss' rt.
     listed machine wrapper_marker ws' \<and> listed machine server_marker ss' \<and>
     check_tree python (diff_new_pids ws ws') (diff_new_pids ss ss') = Inr rt}"

lemma find_listed: "find_processes machine marker s = (Inr ps, s') \<Longrightarrow> listed machine marker ps"
  by (auto simp: find_processes_def listed_def split: prod.splits) (metis fst_conv)

lemma connected_kills: "kills_within (checked_sets machine python ws ss) (connected machine python ws ss (on_machine env))"
proof -
  have none: "{} \<in> checked_sets machine python ws ss" by (simp add: checked_sets_def)
  have phase: "kills_within (checked_sets machine python ws ss)
      (bind_io (lift_io (check_tree python (diff_new_pids ws ws') (diff_new_pids ss ss')))
        (\<lambda>rt. kill_phase machine rt (map fst (new_procs (diff_new_pids ws ws') (diff_new_pids ss ss'))) (on_machine env)))"
    if listed: "listed machine wrapper_marker ws'" "listed machine server_marker ss'" for ws' ss'
  proof (rule kills_before [OF spared.keeps_pure(3) _ none])
    fix rt s s' assume "lift_io (check_tree python (diff_new_pids ws ws') (diff_new_pids ss ss')) s = (Inr rt, s')"
    then have check: "check_tree python (diff_new_pids ws ws') (diff_new_pids ss ss') = Inr rt" by (simp add: lift_io_def)
    let ?P = "pids (diff_new_pids ws ws') \<union> pids (diff_new_pids ss ss')"
    have "?P \<in> checked_sets machine python ws ss" using listed check unfolding checked_sets_def by blast
    moreover have "rt \<in> ?P" using check_tree_Inr [OF check] by simp
    moreover have "set (map fst (new_procs (diff_new_pids ws ws') (diff_new_pids ss ss'))) \<subseteq> ?P"
      using pids_new_procs [of "diff_new_pids ws ws'" "diff_new_pids ss ss'"] by (simp add: pids_def)
    ultimately show "kills_within (checked_sets machine python ws ss)
        (kill_phase machine rt (map fst (new_procs (diff_new_pids ws ws') (diff_new_pids ss ss'))) (on_machine env))"
      by (intro kills_spares [where P = ?P] kill_phase_spares)
  qed
  show ?thesis
    unfolding connected_def Let_def
    by (rule kills_before [OF account_spares _ none], rule kills_before [OF quiet_spares(4) _ none],
        rule kills_before [OF quiet_spares(4) _ none], rule phase; erule find_listed)
qed

lemma run_kills:
  assumes "baseline machine s = (Inr (ws, ss), s0)" "disconnect_run machine python env source s = (r, t)"
  shows "\<exists>P \<in> checked_sets machine python ws ss. spares P s t"
proof -
  have "keeps (spares {}) (baseline machine)" unfolding baseline_def by (intro spared.keeps_rules quiet_spares)
  then have "spares {} s s0" using assms(1) by (rule keepsD)
  moreover have "script_session (on_machine env) source (connected machine python ws ss) s0 = (r, t)"
    using assms by (simp add: disconnect_run_def bind_io_def)
  moreover have "kills_within (checked_sets machine python ws ss) (script_session (on_machine env) source (connected machine python ws ss))"
    by (rule kills_session) (simp_all add: connected_kills, simp add: checked_sets_def)
  ultimately obtain P where "P \<in> checked_sets machine python ws ss" "spares P s s0" "spares P s0 t"
    using kills_withinD by (fastforce simp: spares_def)
  then show ?thesis using spared.trans by blast
qed

lemma net_kills:
  assumes "safety_net machine s = (r, t)" "\<forall>tree. hu_tree (l_server s) = Some tree \<longrightarrow> set tree \<subseteq> P"
  shows "spares P s t"
proof -
  define tree where "tree = (case hu_tree (l_server s) of None \<Rightarrow> [] | Some tree \<Rightarrow> tree)"
  have "set tree \<subseteq> P" using assms(2) by (cases "hu_tree (l_server s)") (simp_all add: tree_def)
  then have "keeps (spares P) (for_io (\<lambda>p. bind_io (find_processes machine wrapper_marker) (\<lambda>ws.
      bind_io (find_processes machine server_marker) (\<lambda>ss.
        if p \<in> pids ws \<union> pids ss then do_kill machine (Hard_kill p) else return_io ()))) tree)"
    by (intro spared.keeps_rules quiet_spares kill_spares) auto
  moreover have "for_io (\<lambda>p. bind_io (find_processes machine wrapper_marker) (\<lambda>ws.
      bind_io (find_processes machine server_marker) (\<lambda>ss.
        if p \<in> pids ws \<union> pids ss then do_kill machine (Hard_kill p) else return_io ()))) tree s = (r, t)"
    using assms(1) by (simp add: safety_net_def tree_def bind_io_def get_io_def)
  ultimately show ?thesis by (rule keepsD)
qed

lemma smoke_test_kills:
  assumes "disconnect_smoke_test machine python env source s = (r, t)" "baseline machine s = (Inr (ws, ss), s0)"
    and "hu_tree (l_server s) = None"
  shows "\<exists>P \<in> checked_sets machine python ws ss. spares P s t"
proof (cases "load_settings source")
  case (Inl e)
  then have "t = s" using assms(1) by (simp add: disconnect_smoke_test_def raise_io_def)
  then show ?thesis using spared.refl by (auto simp: checked_sets_def)
next
  case (Inr settings)
  obtain q s1 where run: "disconnect_run machine python env source s = (q, s1)" by fastforce
  obtain P where P: "P \<in> checked_sets machine python ws ss" "spares P s s1" using run_kills [OF assms(2) run] by blast
  obtain n t1 where net: "safety_net machine s1 = (n, t1)" by fastforce
  have "t = t1"
    using assms(1) run net by (auto simp: disconnect_smoke_test_def Inr bind_io_def try_io_def lift_io_def split: sum.splits)
  moreover have "spares P s1 t1"
    using P(2) assms(3) by (intro net_kills [OF net]) (auto simp: spares_def)
  ultimately show ?thesis using P spared.trans by blast
qed

text \<open>
  What is documented of the listing: a process has one command line, and no command line names both
  scripts, so no process is ever listed under both markers.
\<close>

definition one_marker :: "'o machine \<Rightarrow> bool" where
  "one_marker machine \<longleftrightarrow>
     (\<forall>ws ss. listed machine wrapper_marker ws \<and> listed machine server_marker ss \<longrightarrow> pids ws \<inter> pids ss = {})"


text \<open>A machine with one launcher and one server, both there from the connection to the first kill.\<close>

definition two_processes :: "nat machine" where
  "two_processes = \<lparr>
     ma_listing = (\<lambda>marker os. ((if os = 1 then (0, if marker = wrapper_marker
         then ''[{\"ProcessId\":11,\"CommandLine\":\"py run_metatrader_mcp_stdio.py\",\"ParentProcessId\":9}]''
         else ''[{\"ProcessId\":12,\"CommandLine\":\"py metatrader_mcp_extended_server.py\",\"ParentProcessId\":11}]'')
       else (1, '''')), os)),
     ma_kill = (\<lambda>k os. 2), ma_done = (\<lambda>os. False) \<rparr>"

definition two_env :: "nat env" where
  "two_env = \<lparr> e_registry = build_metatrader_tool_registry True, e_timeout = 1, e_account_kind = Some ''DEMO'',
     e_server = (\<lambda>name args w. (if w = 1 then Reply False [Text_block
       ''{\"account_type\":\"demo\",\"balance\":1,\"equity\":1,\"free_margin\":1}''] else Raised ''gone'', w)),
     e_connect = (\<lambda>w. (None, 1)), e_sleep = (\<lambda>d w. w), e_clock = (\<lambda>n. 0) \<rparr>"

definition two_source :: "(string \<times> string) list" where
  "two_source = [(''MT5_MCP_MODE'', ''DEMO_EXECUTION''), (''MT5_ACCOUNT_KIND'', ''DEMO'')]"

definition two_live :: "nat hunt live" where
  "two_live = \<lparr> l_server = \<lparr> hu_os = 0, hu_kills = [], hu_tree = None, hu_raced = None, hu_orphans = [], hu_post = None \<rparr>,
     l_session = False, l_calls = [], l_files = [], l_clock_reads = 0 \<rparr>"

lemma two_runs: "hu_kills (l_server (snd (disconnect_smoke_test two_processes ''py'' two_env two_source two_live))) = [Tree_kill 11]"
  by code_simp

lemma two_listings:
  "listed two_processes wrapper_marker ps \<Longrightarrow> ps \<in> {[], [(11, ''py run_metatrader_mcp_stdio.py'', Some 9)]}"
  "listed two_processes server_marker ps \<Longrightarrow> ps \<in> {[], [(12, ''py metatrader_mcp_extended_server.py'', Some 11)]}"
proof -
  have none: "parse_processes (fst (ma_listing two_processes marker os)) = Inr []" if "os \<noteq> 1" for marker os
    using that by (simp add: two_processes_def parse_processes_def)
  have one: "parse_processes (fst (ma_listing two_processes wrapper_marker 1)) = Inr [(11, ''py run_metatrader_mcp_stdio.py'', Some 9)]"
    "parse_processes (fst (ma_listing two_processes server_marker 1)) = Inr [(12, ''py metatrader_mcp_extended_server.py'', Some 11)]"
    by code_simp+
  show "ps \<in> {[], [(11, ''py run_metatrader_mcp_stdio.py'', Some 9)]}" if "listed two_processes wrapper_marker ps"
    using that none one(1) by (auto simp: listed_def) (metis Inr_inject)
  show "ps \<in> {[], [(12, ''py metatrader_mcp_extended_server.py'', Some 11)]}" if "listed two_processes server_marker ps"
    using that none one(2) by (auto simp: listed_def) (metis Inr_inject)
qed


section \<open>It reads\<close>

lemma machine_calls:
  "keeps (calls_only A) (find_processes machine marker)" "keeps (calls_only A) (do_kill machine k)" "keeps (calls_only A) (jot f)"
  by (auto simp: keeps_def find_processes_def do_kill_def jot_def calls_only_def io_simps split: prod.splits)

lemma connected_calls: "keeps (calls_only reader_tools) (connected machine python ws ss env)"
  unfolding connected_def kill_phase_def race_def kill_survivors_def Let_def
  by (intro calls.keeps_rules readers_calls machine_calls sleep_calls)

text \<open>No call but those of the readers reaches the server.\<close>

lemma disconnect_test_reads: "keeps (calls_only reader_tools) (disconnect_smoke_test machine python env source)"
proof -
  have "keeps (calls_only reader_tools) (script_session e source (connected machine python ws ss))" for e ws ss
    unfolding keeps_def
  proof
    fix s
    obtain r t where run: "script_session e source (connected machine python ws ss) s = (r, t)" by fastforce
    from run have "calls_only reader_tools s t"
    proof (cases rule: session_cases)
      case (ran e' s1 t1)
      have "calls_only reader_tools s t1" using calls.trans [OF ran(2) keepsD [OF connected_calls ran(1)]] .
      then show ?thesis using ran(4) by (simp add: calls_only_def)
    qed
    then show "calls_only reader_tools s (snd (script_session e source (connected machine python ws ss) s))" using run by simp
  qed
  then show ?thesis
    unfolding disconnect_smoke_test_def disconnect_run_def baseline_def safety_net_def
    by (intro calls.keeps_rules machine_calls)
qed

end
