(* ===== verification/Inspection.thy ===== *)
theory Inspection
  imports Smoke_Tests Concurrency_Study
begin

text \<open>
  The scripts that look at the account before and after a run: the preflights
  \<^verbatim>\<open>check_*_preflight\<close>, the status checks of listed tickets, the investigations of single
  tickets and the probes of the broker's history. Each opens the session of the loop and prints; what
  it prints is its result here.
  Shown: none of them places, changes or closes anything or writes a file, and what a preflight says
  should happen to a stale record is what the reconciliation pass over the same data does.
\<close>

section \<open>Preflights\<close>

text \<open>\<^verbatim>\<open>sum(p.volume for p in positions) + sum(o.volume for o in orders)\<close>\<close>

definition live_lots :: "PositionState list \<Rightarrow> OrderState list \<Rightarrow> pyfloat" where
  "live_lots positions orders = py_sum (map pos_volume positions) + py_sum (map ord_volume orders)"

datatype verdict = Still_live | Should_close nat | Should_cancel

definition verdict_of :: "int set \<Rightarrow> Deal list \<Rightarrow> int \<Rightarrow> verdict" where
  "verdict_of live deals ticket =
     (let outs = closing_deals deals ticket
      in if ticket \<in> live then Still_live else if outs \<noteq> [] then Should_close (length outs) else Should_cancel)"

record preflight =
  pf_positions :: "PositionState list"
  pf_orders :: "OrderState list"
  pf_lots :: pyfloat
  pf_stale :: "(LocalOrderRecord \<times> verdict) list"

definition preflight_of :: "PositionState list \<Rightarrow> OrderState list \<Rightarrow> Deal list \<Rightarrow> LocalOrderRecord list \<Rightarrow> preflight" where
  "preflight_of positions orders deals known_records =
     \<lparr> pf_positions = positions, pf_orders = orders, pf_lots = live_lots positions orders,
       pf_stale = map (\<lambda>r. (r, verdict_of (real_tickets positions orders) deals (lr_ticket r))) (filter is_open known_records) \<rparr>"

definition preflight_body :: "string \<Rightarrow> string \<Rightarrow> 'w env \<Rightarrow> ('w, preflight) live_io" where
  "preflight_body from_date to_date env =
     bind_io (get_positions (McpAccountReader env) btcusd None) (\<lambda>positions.
     bind_io (get_orders (McpAccountReader env) btcusd None) (\<lambda>orders.
     bind_io (get_deals env (Some from_date) (Some to_date) None) (\<lambda>deals.
     bind_io (read_files State_Store.all_records) (\<lambda>known_records.
       return_io (preflight_of positions orders deals known_records)))))"

definition afternoon_preflight :: "'w env \<Rightarrow> (string \<times> string) list \<Rightarrow> ('w, preflight) live_io" where
  "afternoon_preflight env source = script_session env source (preflight_body ''2026-08-09'' ''2026-08-11'')"

definition step7_preflight :: "'w env \<Rightarrow> (string \<times> string) list \<Rightarrow> ('w, preflight) live_io" where
  "step7_preflight env source = script_session env source (preflight_body ''2026-08-09'' ''2026-08-12'')"

definition home_machine_preflight :: "'w env \<Rightarrow> (string \<times> string) list \<Rightarrow> ('w, preflight) live_io" where
  "home_machine_preflight env source = script_session env source (preflight_body ''2026-08-01'' ''2026-08-12'')"

text \<open>How many of the stale records are live.\<close>

definition still_live_count :: "preflight \<Rightarrow> nat" where
  "still_live_count p = length (filter (\<lambda>(r, v). v = Still_live) (pf_stale p))"

definition lunch_preflight :: "'w env \<Rightarrow> (string \<times> string) list \<Rightarrow> ('w, preflight \<times> nat) live_io" where
  "lunch_preflight env source = script_session env source (\<lambda>env.
     bind_io (preflight_body ''2026-08-09'' ''2026-08-12'' env) (\<lambda>p. return_io (p, still_live_count p)))"

text \<open>The records of the run itself: of the day, from six o'clock.\<close>

definition of_run10 :: "LocalOrderRecord \<Rightarrow> bool" where
  "of_run10 r \<longleftrightarrow> strftime_date (lr_submitted_at r) = ''2026-08-11'' \<and> ticks (lr_submitted_at r) mod day_us div hours 1 \<ge> 6"

definition run10_post_completion :: "'w env \<Rightarrow> (string \<times> string) list \<Rightarrow> ('w, preflight \<times> nat \<times> nat) live_io" where
  "run10_post_completion env source = script_session env source (\<lambda>env.
     bind_io (preflight_body ''2026-08-11'' ''2026-08-12'' env) (\<lambda>p.
       return_io (p, still_live_count p, length (filter (\<lambda>(r, v). of_run10 r) (pf_stale p)))))"

definition pre_step7_resume_state ::
  "'w env \<Rightarrow> (string \<times> string) list \<Rightarrow> ('w, PositionState list \<times> OrderState list \<times> pyfloat) live_io" where
  "pre_step7_resume_state env source = script_session env source (\<lambda>env.
     bind_io (get_positions (McpAccountReader env) btcusd None) (\<lambda>positions.
     bind_io (get_orders (McpAccountReader env) btcusd None) (\<lambda>orders.
       return_io (positions, orders, live_lots positions orders))))"

section \<open>Listed tickets\<close>

datatype live_status = Open_position | Pending_order | Absent

definition live_status_of :: "PositionState list \<Rightarrow> OrderState list \<Rightarrow> int \<Rightarrow> live_status" where
  "live_status_of positions orders ticket =
     (if ticket \<in> pos_ticket ` set positions then Open_position
      else if ticket \<in> ord_ticket ` set orders then Pending_order else Absent)"

type_synonym ticket_row = "int \<times> live_status \<times> LocalOrderRecord option"

fun status_rows :: "(int \<Rightarrow> live_status) \<Rightarrow> int list \<Rightarrow> ('w, ticket_row list) live_io" where
  "status_rows f [] = return_io []"
| "status_rows f (t # ts) =
     bind_io (read_files (lookup t)) (\<lambda>local.
     bind_io (status_rows f ts) (\<lambda>rows. return_io ((t, f t, local) # rows)))"

text \<open>Groups of tickets against the account, and the tickets of all but the last \<open>k\<close> groups that are live.\<close>

fun status_groups :: "(int \<Rightarrow> live_status) \<Rightarrow> int list list \<Rightarrow> ('w, ticket_row list list) live_io" where
  "status_groups f [] = return_io []"
| "status_groups f (ts # tss) =
     bind_io (status_rows f ts) (\<lambda>rows. bind_io (status_groups f tss) (\<lambda>rest. return_io (rows # rest)))"

record status_report =
  ss_positions :: "PositionState list"
  ss_orders :: "OrderState list"
  ss_groups :: "ticket_row list list"
  ss_still_live :: "int list"

definition status_check :: "int list list \<Rightarrow> int list \<Rightarrow> 'w env \<Rightarrow> ('w, status_report) live_io" where
  "status_check groups counted env =
     bind_io (get_positions (McpAccountReader env) btcusd None) (\<lambda>positions.
     bind_io (get_orders (McpAccountReader env) btcusd None) (\<lambda>orders.
     bind_io (status_groups (live_status_of positions orders) groups) (\<lambda>rows.
       return_io \<lparr> ss_positions = positions, ss_orders = orders, ss_groups = rows,
         ss_still_live = filter (\<lambda>t. live_status_of positions orders t \<noteq> Absent) counted \<rparr>)))"

definition loop_run_grid_tickets :: "int list" where
  "loop_run_grid_tickets =
     [171644242, 171644243, 171644332, 171644333, 171644504, 171644505, 171644689, 171644691, 171644795, 171644796,
      171644862, 171644863, 171644907, 171644908, 171644954, 171644955, 171645010, 171645011, 171645070, 171645071,
      171645204, 171645207, 171645569, 171645570]"

definition loop_run_runner_tickets :: "int list" where
  "loop_run_runner_tickets =
     [171644244, 171644334, 171644506, 171644692, 171644797, 171644865, 171644909, 171644956, 171645012, 171645073,
      171645208, 171645571]"

definition loop_run_status_check :: "'w env \<Rightarrow> (string \<times> string) list \<Rightarrow> ('w, status_report) live_io" where
  "loop_run_status_check env source = script_session env source
     (status_check [loop_run_grid_tickets, loop_run_runner_tickets, [171622543, 171622789, 171622791]]
        (loop_run_grid_tickets @ loop_run_runner_tickets))"

definition step25_ticket_status_check :: "'w env \<Rightarrow> (string \<times> string) list \<Rightarrow> ('w, status_report) live_io" where
  "step25_ticket_status_check env source = script_session env source
     (status_check [[171649460], [171649631], [171648990, 171649324, 171649422, 171649461]]
        [171649460, 171649631, 171648990, 171649324, 171649422, 171649461])"

text \<open>These two print the rows and count nothing.\<close>

definition readonly_check_5_grid_orders :: "'w env \<Rightarrow> (string \<times> string) list \<Rightarrow> ('w, status_report) live_io" where
  "readonly_check_5_grid_orders env source = script_session env source
     (status_check [[171654092, 171654190, 171654191, 171654322, 171654323]] [])"

definition reconcile_step29_remaining_tickets :: "'w env \<Rightarrow> (string \<times> string) list \<Rightarrow> ('w, status_report) live_io" where
  "reconcile_step29_remaining_tickets env source = script_session env source
     (status_check [[171652732, 171652730, 171652797, 171652844, 171653004]] [])"

section \<open>Checks of single runs\<close>

record step5_state =
  s5_positions :: "PositionState list"
  s5_orders :: "OrderState list"
  s5_local_open :: "LocalOrderRecord list"
  s5_runner_deals :: "Deal list"

definition check_step5_state :: "'w env \<Rightarrow> (string \<times> string) list \<Rightarrow> ('w, step5_state) live_io" where
  "check_step5_state env source = script_session env source (\<lambda>env.
     bind_io (get_positions (McpAccountReader env) btcusd None) (\<lambda>positions.
     bind_io (get_orders (McpAccountReader env) btcusd None) (\<lambda>orders.
     bind_io (get_deals env (Some ''2026-08-07'') None None) (\<lambda>deals.
     bind_io (read_files State_Store.all_open) (\<lambda>open_records.
     bind_io (lift_io (sort_by_time deal_time (filter (\<lambda>d. deal_position_id d \<in> {171809336, 171809814, 171809876, 171809948}) deals))) (\<lambda>runner_deals.
       return_io \<lparr> s5_positions = positions, s5_orders = orders,
         s5_local_open = filter (\<lambda>r. lr_magic r \<in> {grid_magic, runner_magic}) open_records, s5_runner_deals = runner_deals \<rparr>))))))"

datatype smoke_verdict = Smoke_live | Smoke_closed pyfloat datetime | Smoke_none

definition smoke_verdict_of :: "int set \<Rightarrow> Deal list \<Rightarrow> timedelta \<Rightarrow> int \<Rightarrow> smoke_verdict result" where
  "smoke_verdict_of live deals offset ticket =
     (let outs = closing_deals deals ticket
      in if ticket \<in> live then Inr Smoke_live
         else if outs \<noteq> [] then
           bind_res (dt_max (map deal_time outs)) (\<lambda>t. Inr (Smoke_closed (py_sum (map deal_profit outs)) (dt_add t (- offset))))
         else Inr Smoke_none)"

definition smoke_test_tickets :: "int list" where
  "smoke_test_tickets =
     [172109372, 172109373, 172109374, 172109669, 172109670, 172109797, 172109798, 172110787, 172110790]"

record post_stop =
  po_preflight :: "PositionState list \<times> OrderState list \<times> pyfloat"
  po_unprotected :: "PositionState list"
  po_verdicts :: "smoke_verdict list"
  po_deals :: "Deal list"

definition killswitch_post_stop :: "'w env \<Rightarrow> (string \<times> string) list \<Rightarrow> ('w, post_stop) live_io" where
  "killswitch_post_stop env source = script_session env source (\<lambda>env.
     bind_io (get_positions (McpAccountReader env) btcusd None) (\<lambda>positions.
     bind_io (get_orders (McpAccountReader env) btcusd None) (\<lambda>orders.
     bind_io (get_deals env (Some ''2026-08-13'') (Some ''2026-08-14'') None) (\<lambda>deals.
     bind_io (read_files State_Store.all_records) (\<lambda>known_records.
     bind_io (lift_io (infer_deal_time_offset known_records deals)) (\<lambda>offset.
     bind_io (lift_io (traverse (smoke_verdict_of (real_tickets positions orders) deals (case offset of None \<Rightarrow> 0 | Some d \<Rightarrow> d)) smoke_test_tickets)) (\<lambda>verdicts.
     bind_io (lift_io (sort_by_time deal_time deals)) (\<lambda>sorted_deals.
       return_io \<lparr> po_preflight = (positions, orders, live_lots positions orders),
         po_unprotected = filter (\<lambda>p. pos_sl p = 0 \<or> pos_tp p = 0) positions, po_verdicts = verdicts, po_deals = sorted_deals \<rparr>))))))))"

text \<open>The filter by the broker's magic number against the filter by the local tickets.\<close>

record magic_report =
  mg_old :: "PositionState list \<times> OrderState list"
  mg_local :: "int set"
  mg_new :: "PositionState list \<times> OrderState list"
  mg_lots :: "pyfloat \<times> pyfloat"

definition check_one_magic :: "'w env \<Rightarrow> int \<Rightarrow> ('w, magic_report) live_io" where
  "check_one_magic env magic =
     bind_io (get_positions (McpAccountReader env) btcusd (Some magic)) (\<lambda>old_positions.
     bind_io (get_orders (McpAccountReader env) btcusd (Some magic)) (\<lambda>old_orders.
     bind_io (read_files State_Store.all_open) (\<lambda>open_records.
     let local_tickets = set (map lr_ticket (filter (\<lambda>r. lr_magic r = magic) open_records))
     in bind_io (get_positions (McpAccountReader env) btcusd None) (\<lambda>all_positions.
        bind_io (get_orders (McpAccountReader env) btcusd None) (\<lambda>all_orders.
          let new_positions = filter (\<lambda>p. pos_ticket p \<in> local_tickets) all_positions;
              new_orders = filter (\<lambda>x. ord_ticket x \<in> local_tickets) all_orders
          in return_io \<lparr> mg_old = (old_positions, old_orders), mg_local = local_tickets, mg_new = (new_positions, new_orders),
               mg_lots = (py_sum (map pos_volume new_positions), py_sum (map ord_volume new_orders)) \<rparr>)))))"

definition magic_filter_fix_verification :: "'w env \<Rightarrow> (string \<times> string) list \<Rightarrow> ('w, magic_report \<times> magic_report) live_io" where
  "magic_filter_fix_verification env source = script_session env source (\<lambda>env.
     bind_io (get_positions (McpAccountReader env) btcusd None) (\<lambda>all_positions.
     bind_io (get_orders (McpAccountReader env) btcusd None) (\<lambda>all_orders.
     bind_io (check_one_magic env grid_magic) (\<lambda>grid. bind_io (check_one_magic env runner_magic) (\<lambda>runner.
       return_io (grid, runner))))))"

section \<open>History\<close>

text \<open>\<^verbatim>\<open>int(float(r.get(k, -1) or -1))\<close>\<close>

definition int_or_minus_one :: "csv_row \<Rightarrow> string \<Rightarrow> int result" where
  "int_or_minus_one row k =
     (case map_of row k of
        Some (Some s) \<Rightarrow> if s = '''' then Inr (- 1) else bind_res (of_option ValueError (float_of_string s)) (\<lambda>x. Inr (py_trunc x))
      | _ \<Rightarrow> Inr (- 1))"

definition order_matches :: "int set \<Rightarrow> csv_row \<Rightarrow> bool result" where
  "order_matches tickets row = bind_res (int_cell row ''ticket'') (\<lambda>t. Inr (t \<in> tickets))"

definition deal_matches :: "int set \<Rightarrow> csv_row \<Rightarrow> bool result" where
  "deal_matches tickets row =
     bind_res (int_or_minus_one row ''ticket'') (\<lambda>t. if t \<in> tickets then Inr True
     else bind_res (int_or_minus_one row ''order'') (\<lambda>t. if t \<in> tickets then Inr True
     else bind_res (int_or_minus_one row ''position_id'') (\<lambda>t. Inr (t \<in> tickets))))"

definition raw_rows :: "'w env \<Rightarrow> string \<Rightarrow> (string \<times> json) list \<Rightarrow> ('w, csv_row list) live_io" where
  "raw_rows env name args = bind_io (call_tool env name args) (\<lambda>raw. lift_io (parse_dataframe_csv raw))"

record investigation =
  iv_positions :: "PositionState list"
  iv_orders :: "OrderState list"
  iv_order_rows :: "csv_row list"
  iv_deal_rows :: "csv_row list"
  iv_local :: "LocalOrderRecord option list"
  iv_local_open :: "LocalOrderRecord list"

definition investigate :: "int list \<Rightarrow> string \<Rightarrow> 'w env \<Rightarrow> ('w, investigation) live_io" where
  "investigate tickets to_date env =
     bind_io (get_positions (McpAccountReader env) None None) (\<lambda>positions.
     bind_io (get_orders (McpAccountReader env) None None) (\<lambda>orders.
     bind_io (raw_rows env ''get_orders'' [(''from_date'', JStr ''2026-08-09''), (''to_date'', JStr to_date)]) (\<lambda>order_rows.
     bind_io (raw_rows env ''get_deals'' [(''from_date'', JStr ''2026-08-09''), (''to_date'', JStr to_date)]) (\<lambda>deal_rows.
     bind_io (read_files State_Store.all_open) (\<lambda>local_open.
     bind_io (read_files State_Store.all_records) (\<lambda>local_all.
     bind_io (lift_io (filter_res (order_matches (set tickets)) order_rows)) (\<lambda>matched_orders.
     bind_io (lift_io (filter_res (deal_matches (set tickets)) deal_rows)) (\<lambda>matched_deals.
       return_io \<lparr> iv_positions = positions, iv_orders = orders, iv_order_rows = matched_orders, iv_deal_rows = matched_deals,
         iv_local = map (\<lambda>t. find (\<lambda>r. lr_ticket r = t) local_all) tickets, iv_local_open = local_open \<rparr>))))))))"

text \<open>The last day of the window is the day after the script was loaded.\<close>

definition investigate_script :: "int list \<Rightarrow> 'w env \<Rightarrow> (string \<times> string) list \<Rightarrow> ('w, investigation) live_io" where
  "investigate_script tickets env source =
     bind_io (now_utc env) (\<lambda>now. script_session env source (investigate tickets (strftime_date (dt_add now (days 1)))))"

definition investigate_171909600 :: "'w env \<Rightarrow> (string \<times> string) list \<Rightarrow> ('w, investigation) live_io" where
  "investigate_171909600 = investigate_script [171909599, 171909600]"

definition investigate_171922069 :: "'w env \<Rightarrow> (string \<times> string) list \<Rightarrow> ('w, investigation) live_io" where
  "investigate_171922069 = investigate_script [171920077, 171922069]"

definition check_two_skipped_grid_tickets :: "'w env \<Rightarrow> (string \<times> string) list \<Rightarrow> ('w, csv_row list) live_io" where
  "check_two_skipped_grid_tickets env source = script_session env source (\<lambda>env.
     bind_io (raw_rows env ''get_orders'' [(''from_date'', JStr ''2026-08-03'')]) (\<lambda>rows.
       lift_io (filter_res (order_matches {171648990, 171649461}) rows)))"

text \<open>The same deals asked for through different windows.\<close>

definition gap_windows :: "(string \<times> string option) list" where
  "gap_windows = [(''2026-08-07'', None), (''2026-08-07'', Some ''2026-08-08''), (''2026-08-06'', None), (''2026-08-01'', None)]"

fun probe_windows :: "'w env \<Rightarrow> (string \<times> string option) list \<Rightarrow> ('w, (nat \<times> Deal list) list) live_io" where
  "probe_windows env [] = return_io []"
| "probe_windows env ((from_date, to_date) # ws) =
     bind_io (get_deals env (Some from_date) to_date None) (\<lambda>deals.
     bind_io (lift_io (sort_by_time deal_time (filter (\<lambda>d. deal_position_id d \<in> {171809336, 171809814, 171809876}) deals))) (\<lambda>matched.
     bind_io (probe_windows env ws) (\<lambda>rest. return_io ((length deals, matched) # rest))))"

definition probe_get_deals_gap :: "'w env \<Rightarrow> (string \<times> string) list \<Rightarrow> ('w, (nat \<times> Deal list) list) live_io" where
  "probe_get_deals_gap env source = script_session env source (\<lambda>env. probe_windows env gap_windows)"

datatype depth = Depth_failed exn | No_bars | Depth nat datetime datetime pyfloat

definition depth_of :: "MarketBar list \<Rightarrow> depth result" where
  "depth_of bars =
     (if bars = [] then Inr No_bars
      else bind_res (of_option TypeError (dt_diff (bar_time (last bars)) (bar_time (hd bars)))) (\<lambda>span.
        Inr (Depth (length bars) (bar_time (hd bars)) (bar_time (last bars))
          (py_round_digits (flt (of_int span / 10 ^ 6) / fint 86400) 1))))"

fun probe_depths :: "'w env \<Rightarrow> string list \<Rightarrow> ('w, depth list) live_io" where
  "probe_depths env [] = return_io []"
| "probe_depths env (tf # tfs) =
     bind_io (attempt (mcp_get_bars env ''BTCUSD'' tf 50000)) (\<lambda>r.
     bind_io (case r of Inl e \<Rightarrow> return_io (Depth_failed e) | Inr bars \<Rightarrow> lift_io (depth_of bars)) (\<lambda>d.
     bind_io (probe_depths env tfs) (\<lambda>ds. return_io (d # ds))))"

definition historical_data_probe :: "'w env \<Rightarrow> (string \<times> string) list \<Rightarrow> ('w, depth list) live_io" where
  "historical_data_probe env source = script_session env source
     (\<lambda>env. probe_depths env [''M1'', ''M5'', ''M15'', ''H1'', ''H4'', ''D1''])"

section \<open>They only look\<close>

text \<open>Between the two states only read-only tools were called and the files are the same.\<close>

definition looks_only :: "'w live \<Rightarrow> 'w live \<Rightarrow> bool" where
  "looks_only s t \<longleftrightarrow> calls_only (set read_only_tools) s t \<and> same_files s t"

interpretation looks: effect looks_only
  by unfold_locales (auto simp: looks_only_def intro: calls.refl calls.trans files.refl files.trans)

lemma looks_keeps: "keeps looks_only m \<longleftrightarrow> keeps (calls_only (set read_only_tools)) m \<and> keeps same_files m"
  by (auto simp: keeps_def looks_only_def)

lemma reader_looks: "keeps (calls_only reader_tools) m \<Longrightarrow> keeps same_files m \<Longrightarrow> keeps looks_only m"
  using reader_tools_read_only unfolding keeps_def looks_only_def calls_only_def by (meson subset_trans)

lemma call_looks: "name \<in> set read_only_tools \<Longrightarrow> keeps looks_only (call_tool env name args)"
  by (simp add: looks_keeps call_tool_calls call_tool_files)

lemma reads_look:
  "keeps looks_only (get_positions (McpAccountReader env) name_opt magic)" "keeps looks_only (get_orders (McpAccountReader env) name_opt magic)"
  "keeps looks_only (get_deals env a b c)" "keeps looks_only (mcp_get_bars env name tf n)" "keeps looks_only (mcp_get_symbol_info env name)"
  "keeps looks_only (read_files f)" "keeps looks_only (now_utc env)"
  by (simp_all add: reader_looks account_frames readers_calls readers_files read_files_frames now_utc_calls now_utc_files)

lemma session_looks:
  assumes "\<And>e. keeps looks_only (body e)"
  shows "keeps looks_only (script_session env source body)"
  unfolding keeps_def
proof
  fix s
  obtain r t where run: "script_session env source body s = (r, t)" by fastforce
  have wide: "calls_only reader_tools a b \<Longrightarrow> calls_only (set read_only_tools) a b" for a b :: "'a live"
    using reader_tools_read_only unfolding calls_only_def by (meson subset_trans)
  from run have "looks_only s t"
  proof (cases rule: session_cases)
    case refused
    then show ?thesis by (simp add: looks_only_def wide)
  next
    case (ran e s1 t1)
    have "looks_only s s1" using ran(2,3) by (simp add: looks_only_def wide)
    then have "looks_only s t1" using keepsD [OF assms ran(1)] by (rule looks.trans)
    then show ?thesis using ran(4,5) by (simp add: looks_only_def calls_only_def same_files_def)
  qed
  then show "looks_only s (snd (script_session env source body s))" using run by simp
qed

lemma raw_looks: "name \<in> set read_only_tools \<Longrightarrow> keeps looks_only (raw_rows env name args)"
  unfolding raw_rows_def by (intro looks.keeps_rules call_looks)

lemma rows_look: "keeps looks_only (status_rows f ts)" "keeps looks_only (status_groups f tss)"
proof -
  show rows: "keeps looks_only (status_rows f ts)" for ts by (induction ts) (auto intro!: looks.keeps_rules reads_look)
  show "keeps looks_only (status_groups f tss)" by (induction tss) (auto intro!: looks.keeps_rules rows)
qed

lemma probes_look: "keeps looks_only (probe_windows env ws)" "keeps looks_only (probe_depths env tfs)"
proof -
  show "keeps looks_only (probe_windows env ws)" by (induction ws) (auto intro!: looks.keeps_rules reads_look)
  show "keeps looks_only (probe_depths env tfs)"
    by (induction tfs) (auto intro!: looks.keeps_rules reads_look attempt_keeps [OF looks.effect_axioms])
qed

lemma bodies_look:
  "keeps looks_only (preflight_body from_date to_date env)" "keeps looks_only (status_check groups counted env)"
  "keeps looks_only (investigate tickets to_date env)" "keeps looks_only (check_one_magic env magic)"
proof -
  have raw: "''get_orders'' \<in> set read_only_tools" "''get_deals'' \<in> set read_only_tools" by (simp_all add: read_only_tools_def)
  show "keeps looks_only (preflight_body from_date to_date env)" "keeps looks_only (status_check groups counted env)"
    "keeps looks_only (check_one_magic env magic)"
    unfolding preflight_body_def status_check_def check_one_magic_def Let_def by (intro looks.keeps_rules reads_look rows_look)+
  show "keeps looks_only (investigate tickets to_date env)"
    unfolding investigate_def by (intro looks.keeps_rules reads_look raw_looks raw)
qed

lemma inspections_look:
  "keeps looks_only (afternoon_preflight env source)" "keeps looks_only (step7_preflight env source)"
  "keeps looks_only (home_machine_preflight env source)" "keeps looks_only (lunch_preflight env source)"
  "keeps looks_only (run10_post_completion env source)" "keeps looks_only (pre_step7_resume_state env source)"
  "keeps looks_only (loop_run_status_check env source)" "keeps looks_only (step25_ticket_status_check env source)"
  "keeps looks_only (readonly_check_5_grid_orders env source)" "keeps looks_only (reconcile_step29_remaining_tickets env source)"
  "keeps looks_only (check_step5_state env source)" "keeps looks_only (killswitch_post_stop env source)"
  "keeps looks_only (magic_filter_fix_verification env source)" "keeps looks_only (investigate_171909600 env source)"
  "keeps looks_only (investigate_171922069 env source)" "keeps looks_only (check_two_skipped_grid_tickets env source)"
  "keeps looks_only (probe_get_deals_gap env source)" "keeps looks_only (historical_data_probe env source)"
  unfolding afternoon_preflight_def step7_preflight_def home_machine_preflight_def lunch_preflight_def run10_post_completion_def
    pre_step7_resume_state_def loop_run_status_check_def step25_ticket_status_check_def readonly_check_5_grid_orders_def
    reconcile_step29_remaining_tickets_def check_step5_state_def killswitch_post_stop_def magic_filter_fix_verification_def
    investigate_171909600_def investigate_171922069_def investigate_script_def check_two_skipped_grid_tickets_def
    probe_get_deals_gap_def historical_data_probe_def
  by (intro session_looks looks.keeps_rules bodies_look probes_look reads_look raw_looks; simp add: read_only_tools_def)+

section \<open>A preflight predicts the reconciliation\<close>

definition stale_with :: "(verdict \<Rightarrow> bool) \<Rightarrow> preflight \<Rightarrow> int list" where
  "stale_with P p = map (\<lambda>(r, v). lr_ticket r) (filter (\<lambda>(r, v). P v) (pf_stale p))"

lemma stale_with_of:
  "stale_with P (preflight_of positions orders deals records) =
     map lr_ticket (filter (\<lambda>r. P (verdict_of (real_tickets positions orders) deals (lr_ticket r))) (filter is_open records))"
  by (simp add: stale_with_def preflight_of_def filter_map comp_def)

text \<open>
  C25: What a preflight says of each record that is still open locally is what the reconciliation
  pass does to it when it sees the same account, deals and records: it leaves those called live,
  closes those with closing deals and cancels the others, in the same order.
\<close>

theorem preflight_predicts_reconciliation:
  assumes "split_leftovers (real_tickets positions orders) deals offset (filter is_open records) no_leftovers = Inr l"
  shows "lo_still_live l = stale_with (\<lambda>v. v = Still_live) (preflight_of positions orders deals records) \<and>
    map fst (lo_closed l) = stale_with (\<lambda>v. v \<noteq> Still_live \<and> v \<noteq> Should_cancel) (preflight_of positions orders deals records) \<and>
    lo_cancelled l = stale_with (\<lambda>v. v = Should_cancel) (preflight_of positions orders deals records)"
proof -
  have verdicts: "(verdict_of live deals t = Still_live) = (t \<in> live)"
    "(verdict_of live deals t \<noteq> Still_live \<and> verdict_of live deals t \<noteq> Should_cancel) = (t \<notin> live \<and> closing_deals deals t \<noteq> [])"
    "(verdict_of live deals t = Should_cancel) = (t \<notin> live \<and> closing_deals deals t = [])" for live t
    by (simp_all add: verdict_of_def Let_def)
  show ?thesis using split_spec [OF assms] unfolding stale_with_of verdicts by (simp add: no_leftovers_def cong: conj_cong)
qed

theorem preflight_predicts_reconciliation_witness:
  "stale_with (\<lambda>v. v = Should_cancel) (preflight_of [] [] [] [sample_record 7]) = [7]"
proof -
  have opened: "is_open (sample_record 7)" by (simp add: is_open_def sample_record_def submission_record_def)
  have "split_leftovers (real_tickets [] []) [] 0 (filter is_open [sample_record 7]) no_leftovers = Inr (no_leftovers\<lparr>lo_cancelled := [7]\<rparr>)"
    by (simp add: opened real_tickets_def closing_deals_def deals_of_position_def no_leftovers_def)
  from preflight_predicts_reconciliation [OF this] show ?thesis by simp
qed

end
