(* ===== verification/Live_Reports.thy ===== *)
theory Live_Reports
  imports Inspection
begin

text \<open>
  The reports on what really happened: the performance monitor
  \<^verbatim>\<open>live_performance_monitor.py\<close>, the split of the runner's trades by configuration
  \<^verbatim>\<open>check_20260813_runner_param_split.py\<close>, the two checks of the daily loss switch and the
  comparison of symbols \<^verbatim>\<open>xauusd_symbol_research.py\<close>.
  Shown: none of these scripts or those of the inspection trades or writes; every record is in exactly
  one group of the split; the number the monitor shows for the day is the one the switch decides on;
  the older of the two checks does not see what the switch sees.
\<close>

section \<open>The monitor\<close>

record strategy_line =
  sl_count :: nat
  sl_expectancy :: pyfloat
  sl_drawdown :: pyfloat
  sl_win_rate :: pyfloat
  sl_profit_factor :: ratio
  sl_min_sample :: bool

definition line_of :: "ClosedTrade list \<Rightarrow> strategy_line result" where
  "line_of trades =
     bind_res (expectancy_r trades) (\<lambda>expectancy. bind_res (max_drawdown_r trades) (\<lambda>worst.
     bind_res (win_rate trades) (\<lambda>wins. bind_res (profit_factor trades) (\<lambda>factor.
       Inr \<lparr> sl_count = length trades, sl_expectancy = expectancy, sl_drawdown = worst, sl_win_rate = wins,
             sl_profit_factor = factor, sl_min_sample = has_minimum_sample trades min_trades_for_a_claim \<rparr>))))"

text \<open>The mean over the market orders, or over all where there are none.\<close>

definition mean_slippage :: "SlippageResult list \<Rightarrow> pyfloat option" where
  "mean_slippage results =
     (if results = [] then None
      else let market_only = filter (\<lambda>s. slip_order_type s = ''MARKET'') results;
               of_which = (if market_only \<noteq> [] then market_only else results)
           in Some (py_sum (map slip_price_units of_which) / fint (int (length of_which))))"

record monitor_report =
  mr_join :: LiveTradeJoinResult
  mr_lines :: "strategy_line option list"
  mr_unrecognized :: nat
  mr_slippage :: "pyfloat option"
  mr_slippage_skipped :: nat
  mr_since_reset :: pyfloat

definition monitor_report_of ::
  "LocalOrderRecord list \<Rightarrow> LocalOrderRecord list \<Rightarrow> Deal list \<Rightarrow> datetime \<Rightarrow> timedelta \<Rightarrow> monitor_report result" where
  "monitor_report_of closed_records known_records deals present deal_time_offset =
     bind_res (build_closed_trades closed_records deals) (\<lambda>join.
     bind_res (traverse (\<lambda>magic. when_trades (filter (\<lambda>t. ct_magic t = magic) (jr_trades join)) line_of) [grid_magic, runner_magic]) (\<lambda>ls.
     let slippage = compute_slippage known_records
     in bind_res (daily_reset_boundary present 0) (\<lambda>boundary.
        bind_res (realized_pnl_since deals boundary (set (map lr_ticket known_records)) deal_time_offset) (\<lambda>since_reset.
          Inr \<lparr> mr_join = join, mr_lines = ls,
                mr_unrecognized = length (filter (\<lambda>t. ct_magic t \<notin> {grid_magic, runner_magic}) (jr_trades join)),
                mr_slippage = mean_slippage (fst slippage), mr_slippage_skipped = length (snd slippage),
                mr_since_reset = since_reset \<rparr>))))"

text \<open>What is read inside the session: nothing more when no record is closed.\<close>

definition monitor_reads ::
  "'w env \<Rightarrow> ('w, (LocalOrderRecord list \<times> LocalOrderRecord list \<times> Deal list \<times> datetime \<times> timedelta) option) live_io" where
  "monitor_reads env =
     bind_io (read_files State_Store.all_closed) (\<lambda>closed_records.
       if closed_records = [] then return_io None
       else bind_io (lift_io (dt_min (map lr_submitted_at closed_records))) (\<lambda>earliest.
         bind_io (now_utc env) (\<lambda>present.
         bind_io (get_deals env (Some (strftime_date earliest)) (Some (strftime_date (dt_add present (days 1)))) None) (\<lambda>deals.
         bind_io (read_files State_Store.all_records) (\<lambda>known_records.
         bind_io (lift_io (infer_deal_time_offset known_records deals)) (\<lambda>offset.
           return_io (Some (closed_records, known_records, deals, present, case offset of None \<Rightarrow> 0 | Some d \<Rightarrow> d))))))))"

definition live_performance_monitor :: "'w env \<Rightarrow> (string \<times> string) list \<Rightarrow> ('w, monitor_report option) live_io" where
  "live_performance_monitor env source =
     bind_io (script_session env source monitor_reads) (\<lambda>found. case found of
       None \<Rightarrow> return_io None
     | Some (closed_records, known_records, deals, present, offset) \<Rightarrow>
         lift_io (bind_res (monitor_report_of closed_records known_records deals present offset) (\<lambda>r. Inr (Some r))))"

section \<open>The split by configuration\<close>

definition param_change_date :: datetime where
  "param_change_date = utc 2026 8 5 0 0 0"

definition floor_fix_datetime :: datetime where
  "floor_fix_datetime = utc 2026 8 11 4 42 4"

definition not_less :: "datetime \<Rightarrow> datetime \<Rightarrow> bool result" where
  "not_less a b = bind_res (of_option TypeError (dt_less a b)) (\<lambda>c. Inr (\<not> c))"

text \<open>The three groups, each by its own comparisons.\<close>

definition in_group_a :: "LocalOrderRecord \<Rightarrow> bool result" where
  "in_group_a r = of_option TypeError (dt_less (lr_submitted_at r) param_change_date)"

definition in_group_b :: "LocalOrderRecord \<Rightarrow> bool result" where
  "in_group_b r =
     bind_res (not_less (lr_submitted_at r) param_change_date) (\<lambda>later.
       if \<not> later then Inr False else of_option TypeError (dt_less (lr_submitted_at r) floor_fix_datetime))"

definition in_group_c :: "LocalOrderRecord \<Rightarrow> bool result" where
  "in_group_c r = not_less (lr_submitted_at r) floor_fix_datetime"

record group_line =
  gl_line :: strategy_line
  gl_risk :: pyfloat
  gl_risk_share :: pyfloat
  gl_holding :: "pyfloat \<times> pyfloat \<times> pyfloat"

definition group_line_of :: "ClosedTrade list \<Rightarrow> group_line result" where
  "group_line_of trades =
     bind_res (line_of trades) (\<lambda>l.
     let n = fint (int (length trades));
         avg_risk = py_sum (map (\<lambda>t. \<bar>ct_price_open t - ct_sl t\<bar>) trades) / n;
         avg_price = py_sum (map ct_price_open trades) / n
     in bind_res (py_div avg_risk avg_price) (\<lambda>share.
        bind_res (traverse holding_time trades) (\<lambda>holding.
          Inr \<lparr> gl_line = l, gl_risk = avg_risk, gl_risk_share = share,
                gl_holding = (py_sum holding / n, Min (set holding), Max (set holding)) \<rparr>)))"

record split_report =
  sp_sizes :: "nat list"
  sp_join :: LiveTradeJoinResult
  sp_groups :: "group_line option list"

definition group_trades :: "ClosedTrade list \<Rightarrow> LocalOrderRecord list \<Rightarrow> ClosedTrade list" where
  "group_trades trades records = filter (\<lambda>t. ct_ticket t \<in> set (map lr_ticket records)) trades"

definition split_report_of :: "LocalOrderRecord list \<Rightarrow> Deal list \<Rightarrow> split_report result" where
  "split_report_of runner_records deals =
     bind_res (filter_res in_group_a runner_records) (\<lambda>as.
     bind_res (filter_res in_group_b runner_records) (\<lambda>bs.
     bind_res (filter_res in_group_c runner_records) (\<lambda>cs.
     bind_res (build_closed_trades runner_records deals) (\<lambda>join.
     bind_res (traverse (\<lambda>ts. when_trades ts group_line_of)
         (map (group_trades (jr_trades join)) [as, bs, cs] @ [jr_trades join])) (\<lambda>ls.
       Inr \<lparr> sp_sizes = map length [as, bs, cs], sp_join = join, sp_groups = ls \<rparr>)))))"

text \<open>The offset of the broker's clock is inferred, which may raise, and printed.\<close>

definition runner_param_split :: "'w env \<Rightarrow> (string \<times> string) list \<Rightarrow> ('w, split_report) live_io" where
  "runner_param_split env source =
     bind_io (script_session env source (\<lambda>env.
         bind_io (read_files State_Store.all_closed) (\<lambda>closed_records.
         bind_io (lift_io (dt_min (map lr_submitted_at closed_records))) (\<lambda>earliest.
         bind_io (now_utc env) (\<lambda>present.
         bind_io (get_deals env (Some (strftime_date earliest)) (Some (strftime_date (dt_add present (days 1)))) None) (\<lambda>deals.
         bind_io (read_files State_Store.all_records) (\<lambda>known_records.
         bind_io (lift_io (infer_deal_time_offset known_records deals)) (\<lambda>_.
           return_io (filter (\<lambda>r. lr_magic r = runner_magic) closed_records, deals)))))))))
       (\<lambda>(runner_records, deals). lift_io (split_report_of runner_records deals))"

section \<open>Checks of the daily loss switch\<close>

definition one_cent :: DailyLossLimitConfig where
  "one_cent = \<lparr> dl_max_daily_loss = Some (flt (1 / 100)), dl_reset_hour_utc = 0 \<rparr>"

text \<open>The older check computes its own number, over the records that are closed locally.\<close>

definition rerun_decision :: "Deal list \<Rightarrow> LocalOrderRecord list \<Rightarrow> datetime \<Rightarrow> RiskDecision result" where
  "rerun_decision deals closed_records boundary =
     bind_res (infer_deal_time_offset closed_records deals) (\<lambda>offset.
     bind_res (realized_pnl_since deals boundary (set (map lr_ticket closed_records)) (case offset of None \<Rightarrow> 0 | Some d \<Rightarrow> d)) (\<lambda>pnl.
       check_daily_loss_limit pnl one_cent))"

definition check_rerun_kill_switch :: "'w env \<Rightarrow> (string \<times> string) list \<Rightarrow> ('w, RiskDecision) live_io" where
  "check_rerun_kill_switch env source =
     bind_io (script_session env source (\<lambda>env.
         bind_io (now_utc env) (\<lambda>present.
         bind_io (lift_io (daily_reset_boundary present (dl_reset_hour_utc one_cent))) (\<lambda>boundary.
         bind_io (get_deals env (Some (strftime_date (dt_add boundary (- days 1)))) (Some (strftime_date (dt_add present (days 1)))) None) (\<lambda>deals.
         bind_io (read_files State_Store.all_closed) (\<lambda>closed_records.
           return_io (deals, closed_records, boundary)))))))
       (\<lambda>(deals, closed_records, boundary). lift_io (rerun_decision deals closed_records boundary))"

text \<open>The newer one runs the function of the loop.\<close>

definition verify_kill_switch_fix :: "'w env \<Rightarrow> (string \<times> string) list \<Rightarrow> ('w, RiskDecision) live_io" where
  "verify_kill_switch_fix env source = script_session env source (\<lambda>env. live_daily_loss_decision env one_cent)"

section \<open>The symbols\<close>

text \<open>\<^verbatim>\<open>[line.strip() for line in raw.splitlines() if line.strip()]\<close>\<close>

definition line_break :: "char \<Rightarrow> bool" where
  "line_break c \<longleftrightarrow> c \<in> {CHR 0x0A, CHR 0x0B, CHR 0x0C, CHR 0x0D, CHR 0x1C, CHR 0x1D, CHR 0x1E}"

fun split_lines :: "string \<Rightarrow> string \<Rightarrow> string list" where
  "split_lines line [] = [rev line]"
| "split_lines line (c # cs) = (if line_break c then rev line # split_lines [] cs else split_lines (c # line) cs)"

definition symbol_names :: "string \<Rightarrow> string list" where
  "symbol_names raw = filter (\<lambda>l. l \<noteq> '''') (map strip (split_lines [] raw))"

definition resolve_symbol :: "string option \<Rightarrow> string list \<Rightarrow> string option" where
  "resolve_symbol resolved names =
     (case resolved of Some s \<Rightarrow> Some s
      | None \<Rightarrow> if ''XAUUSD'' \<in> set names then Some ''XAUUSD'' else if names \<noteq> [] then Some (hd names) else None)"

fun search_groups :: "'w env \<Rightarrow> string list \<Rightarrow> string option \<Rightarrow> ('w, string option) live_io" where
  "search_groups env [] resolved = return_io resolved"
| "search_groups env (g # gs) resolved =
     bind_io (call_tool env ''get_symbols'' [(''group'', JStr g)]) (\<lambda>raw. search_groups env gs (resolve_symbol resolved (symbol_names raw)))"

record symbol_report =
  sr_info :: SymbolInfo
  sr_price :: pyfloat
  sr_m1_atr :: "pyfloat \<times> pyfloat option"
  sr_d1_atr :: "pyfloat \<times> pyfloat option"
  sr_broker_min :: "pyfloat \<times> pyfloat option"
  sr_design_floor :: pyfloat
  sr_floor_dominates :: bool

definition atr_period :: int where
  "atr_period = 14"

definition percent_of :: "pyfloat \<Rightarrow> pyfloat \<Rightarrow> pyfloat option" where
  "percent_of x price = (if price \<noteq> 0 then Some (x / price * fint 100) else None)"

definition atr_or_zero :: "MarketBar list \<Rightarrow> pyfloat result" where
  "atr_or_zero bars = (if int (length bars) \<ge> atr_period + 1 then atr bars atr_period else Inr 0)"

definition symbol_report_of :: "SymbolInfo \<Rightarrow> MarketBar list \<Rightarrow> MarketBar list \<Rightarrow> symbol_report result" where
  "symbol_report_of info m1_bars d1_bars =
     bind_res (atr_or_zero m1_bars) (\<lambda>m1_atr. bind_res (atr_or_zero d1_bars) (\<lambda>d1_atr.
       let price = (if m1_bars \<noteq> [] then bar_close (last m1_bars) else 0);
           broker_min = fint (si_stops_level info) * si_point info;
           design_floor = price * flt (1 / 100)
       in Inr \<lparr> sr_info = info, sr_price = price, sr_m1_atr = (m1_atr, percent_of m1_atr price),
            sr_d1_atr = (d1_atr, percent_of d1_atr price), sr_broker_min = (broker_min, percent_of broker_min price),
            sr_design_floor = design_floor, sr_floor_dominates = (design_floor > broker_min) \<rparr>))"

definition read_symbol_report :: "'w env \<Rightarrow> string \<Rightarrow> ('w, symbol_report) live_io" where
  "read_symbol_report env symbol =
     bind_io (mcp_get_symbol_info env symbol) (\<lambda>info.
     bind_io (mcp_get_bars env symbol ''M1'' (atr_period + 50)) (\<lambda>m1_bars.
     bind_io (mcp_get_bars env symbol ''D1'' (atr_period + 50)) (\<lambda>d1_bars.
       lift_io (symbol_report_of info m1_bars d1_bars))))"

definition xauusd_symbol_research :: "'w env \<Rightarrow> (string \<times> string) list \<Rightarrow> ('w, (symbol_report \<times> symbol_report) option) live_io" where
  "xauusd_symbol_research env source = script_session env source (\<lambda>env.
     bind_io (search_groups env [''*XAU*'', ''*GOLD*''] None) (\<lambda>resolved. case resolved of
       None \<Rightarrow> return_io None
     | Some symbol \<Rightarrow>
         bind_io (read_symbol_report env symbol) (\<lambda>candidate.
         bind_io (read_symbol_report env ''BTCUSD'') (\<lambda>comparison. return_io (Some (candidate, comparison))))))"

section \<open>They only look\<close>

lemma daily_looks: "keeps looks_only (live_daily_loss_decision env config)"
  unfolding live_daily_loss_decision_def Let_def by (intro looks.keeps_rules reads_look)

lemma monitor_reads_look: "keeps looks_only (monitor_reads env)"
  unfolding monitor_reads_def by (intro looks.keeps_rules reads_look)

lemma search_looks: "keeps looks_only (search_groups env gs resolved)"
  by (induction gs arbitrary: resolved) (auto intro!: looks.keeps_rules call_looks simp: read_only_tools_def)

lemma symbol_report_looks: "keeps looks_only (read_symbol_report env name)"
  unfolding read_symbol_report_def by (intro looks.keeps_rules reads_look)

lemma reports_look:
  "keeps looks_only (live_performance_monitor env source)" "keeps looks_only (runner_param_split env source)"
  "keeps looks_only (check_rerun_kill_switch env source)" "keeps looks_only (verify_kill_switch_fix env source)"
  "keeps looks_only (xauusd_symbol_research env source)"
  unfolding live_performance_monitor_def runner_param_split_def check_rerun_kill_switch_def verify_kill_switch_fix_def
    xauusd_symbol_research_def
  by (intro session_looks looks.keeps_rules reads_look monitor_reads_look daily_looks search_looks symbol_report_looks)+

text \<open>
  C31: None of the scripts that inspect the account or report on it trades or writes: whatever the
  server answers, however they end, they call read-only tools and leave every file as it was.
\<close>

theorem inspections_only_look:
  "keeps looks_only (afternoon_preflight env source) \<and>
   keeps looks_only (step7_preflight env source) \<and>
   keeps looks_only (home_machine_preflight env source) \<and>
   keeps looks_only (lunch_preflight env source) \<and>
   keeps looks_only (run10_post_completion env source) \<and>
   keeps looks_only (pre_step7_resume_state env source) \<and>
   keeps looks_only (loop_run_status_check env source) \<and>
   keeps looks_only (step25_ticket_status_check env source) \<and>
   keeps looks_only (readonly_check_5_grid_orders env source) \<and>
   keeps looks_only (reconcile_step29_remaining_tickets env source) \<and>
   keeps looks_only (check_step5_state env source) \<and>
   keeps looks_only (killswitch_post_stop env source) \<and>
   keeps looks_only (magic_filter_fix_verification env source) \<and>
   keeps looks_only (investigate_171909600 env source) \<and>
   keeps looks_only (investigate_171922069 env source) \<and>
   keeps looks_only (check_two_skipped_grid_tickets env source) \<and>
   keeps looks_only (probe_get_deals_gap env source) \<and>
   keeps looks_only (historical_data_probe env source) \<and>
   keeps looks_only (live_performance_monitor env source) \<and>
   keeps looks_only (runner_param_split env source) \<and>
   keeps looks_only (check_rerun_kill_switch env source) \<and>
   keeps looks_only (verify_kill_switch_fix env source) \<and>
   keeps looks_only (xauusd_symbol_research env source)"
  by (simp add: inspections_look reports_look)

section \<open>The groups of the split\<close>

lemma group_exclusive:
  assumes "in_group_a r = Inr a" "in_group_b r = Inr b" "in_group_c r = Inr c"
  shows "a \<and> \<not> b \<and> \<not> c \<or> \<not> a \<and> b \<and> \<not> c \<or> \<not> a \<and> \<not> b \<and> c"
proof -
  have dates: "param_change_date = Aware 1785888000000000" "floor_fix_datetime = Aware 1786423324000000" by code_simp+
  show ?thesis
    using assms by (cases "lr_submitted_at r")
      (auto simp: in_group_a_def in_group_b_def in_group_c_def not_less_def dates bind_res_eq_Inr split: if_splits)
qed

lemma filter_res_length:
  "filter_res p xs = Inr ys \<Longrightarrow> length ys = length (filter (\<lambda>x. p x = Inr True) xs) \<and> (\<forall>x \<in> set xs. \<exists>b. p x = Inr b)"
  by (induction xs arbitrary: ys) (auto simp: bind_res_eq_Inr split: if_splits)

text \<open>Every record of the runner is in one group of the report and no more.\<close>

lemma split_report_partitions:
  assumes "split_report_of records deals = Inr report"
  shows "sum_list (sp_sizes report) = length records"
proof -
  obtain as bs cs where groups: "filter_res in_group_a records = Inr as" "filter_res in_group_b records = Inr bs"
      "filter_res in_group_c records = Inr cs" "sp_sizes report = [length as, length bs, length cs]"
    using assms unfolding split_report_of_def bind_res_eq_Inr by auto
  have "length (filter (\<lambda>r. in_group_a r = Inr True) rs) + length (filter (\<lambda>r. in_group_b r = Inr True) rs) +
      length (filter (\<lambda>r. in_group_c r = Inr True) rs) = length rs" if "set rs \<subseteq> set records" for rs
    using that
  proof (induction rs)
    case (Cons r rs)
    obtain a b c where "in_group_a r = Inr a" "in_group_b r = Inr b" "in_group_c r = Inr c"
      using Cons.prems filter_res_length [OF groups(1)] filter_res_length [OF groups(2)] filter_res_length [OF groups(3)] by force
    then show ?case using Cons group_exclusive [of r a b c] by auto
  qed simp
  from this [of records] show ?thesis
    using filter_res_length [OF groups(1)] filter_res_length [OF groups(2)] filter_res_length [OF groups(3)] groups(4) by simp
qed

section \<open>The number of the day\<close>

text \<open>The number the monitor shows is the one the switch with a reset at midnight decides on.\<close>

lemma monitor_shows_gate_number:
  assumes "monitor_report_of closed_records known_records deals present offset = Inr report" "dl_reset_hour_utc config = 0"
  shows "compute_daily_loss_decision deals (set (map lr_ticket known_records)) present config offset =
    check_daily_loss_limit (mr_since_reset report) config"
proof -
  obtain boundary where "daily_reset_boundary present 0 = Inr boundary"
      "realized_pnl_since deals boundary (set (map lr_ticket known_records)) offset = Inr (mr_since_reset report)"
    using assms(1) unfolding monitor_report_of_def Let_def bind_res_eq_Inr by auto
  then show ?thesis using assms(2) by (simp add: compute_daily_loss_decision_def)
qed

text \<open>
  The older check counts only what is closed locally. With a loss today on a position whose record
  is not reconciled yet it approves, where the switch of the loop rejects.
\<close>

definition unreconciled_loss :: Deal where
  "unreconciled_loss =
     \<lparr> deal_ticket = 1, deal_order = 1, deal_position_id = 7, deal_time = Aware (hours 1), deal_type = 1, deal_entry = 1,
       deal_symbol = ''BTCUSD'', deal_volume = 1, deal_price = 1, deal_profit = - fint 5, deal_commission = 0, deal_swap = 0,
       deal_fee = 0, deal_magic = 0, deal_comment = None \<rparr>"

lemma rerun_check_misses_open_records:
  "map_sum id rd_approved (rerun_decision [unreconciled_loss] (filter (\<lambda>r. lr_status r = ''CLOSED'') [sample_record 7]) (Aware 0)) = Inr True \<and>
   map_sum id rd_approved (compute_daily_loss_decision [unreconciled_loss] {7} (Aware (hours 2)) one_cent 0) = Inr False"
  by code_simp

end
