(* ===== verification/Spec2Isabelle.thy ===== *)
theory Spec2Isabelle
  imports Maintenance Loop_Liveness Logging_Setup Dry_Run Cost_Edge Seasonality Launcher Migration Disconnect_Test Live_Reports
begin

text \<open>
  This library models and verifies the core of the MT5 trading framework
  (\<^verbatim>\<open>src/src/mt5_mcp_trading\<close>): a Python package that proposes, guards, submits and tracks
  orders on a MetaTrader 5 demo account through an MCP server, and that replays the same strategies
  over stored bars; and the scripts (\<^verbatim>\<open>src/scripts\<close>) that run it, look after its account
  and study its strategies.

  \<^bold>\<open>How the program works.\<close> One cycle reads market data and the account, derives a proposal
  (\<^verbatim>\<open>strategy/\<close>, \<^verbatim>\<open>trade_intent/\<close>), sizes it (\<^verbatim>\<open>sizing/\<close>), lets the guards of
  \<^verbatim>\<open>risk/\<close> approve it, makes a plan the broker accepts (\<^verbatim>\<open>order_planning/\<close>) and hands it
  to an executor. The live executor (\<^verbatim>\<open>mt5_adapter/mcp_order_executor.py\<close>) checks the demo
  gate and its posture, which comes from reconciling the local order records
  (\<^verbatim>\<open>state/\<close>) with the account; it then calls a trading tool through the client of
  \<^verbatim>\<open>mcp_adapter/\<close>, writes the record and verifies by reading again. The autonomous loop
  (\<^verbatim>\<open>scripts/run_demo_execution_pipeline_loop.py\<close>) repeats the cycles under a daily loss limit
  computed from the deal history (\<^verbatim>\<open>monitoring/live_performance.py\<close>). The backtest
  (\<^verbatim>\<open>backtest/\<close>) runs the same cycles over its own adapters.

  \<^bold>\<open>Theories and sources,\<close> in the order they build on each other:
  \<^item> \<^verbatim>\<open>Prelude\<close>: results that may be errors (\<open>exn + 'a\<close>), programs over a state with exceptions
    (\<open>io\<close>), dicts as association lists, relations kept by every step of a program (locale \<open>effect\<close>).
  \<^item> \<^verbatim>\<open>Py_Float\<close>, \<^verbatim>\<open>Py_Builtins\<close>, \<^verbatim>\<open>Py_Time\<close>, \<^verbatim>\<open>Py_Text\<close>, \<^verbatim>\<open>Py_Json\<close>: the
    part of Python's standard library the package uses: floats rounded to 53 bits, \<^verbatim>\<open>round\<close> and
    \<^verbatim>\<open>sum\<close>, dates and their ISO form, numbers in text, CSV and JSON parsing.
  \<^item> \<^verbatim>\<open>Domain\<close>: the dataclasses of \<^verbatim>\<open>domain/models.py\<close> as records, its exceptions as one
    datatype, the three protocols (market data, account, executor) as records of operations.
  \<^item> \<^verbatim>\<open>Features\<close>, \<^verbatim>\<open>Strategy\<close>, \<^verbatim>\<open>Sizing\<close>, \<^verbatim>\<open>Risk\<close>, \<^verbatim>\<open>Order_Planning\<close>: the pure
    part, one theory per stage of a cycle, including the guard's state machine.
  \<^item> \<^verbatim>\<open>State_Store\<close>: \<^verbatim>\<open>state/models.py\<close> and \<^verbatim>\<open>state/store.py\<close>, one file per ticket;
    \<^verbatim>\<open>Reconcile\<close>: the report, the posture, and the evidence-based second look at unknown tickets.
  \<^item> \<^verbatim>\<open>Mcp\<close> and \<^verbatim>\<open>Readers\<close>: the tool registry, the client, the parsers and the reading
    adapters; \<^verbatim>\<open>Monitoring\<close>: joining records with deals, slippage, the daily loss decision.
  \<^item> \<^verbatim>\<open>Order_Executor\<close>: the live executor, every operation with all its calls.
  \<^item> \<^verbatim>\<open>Pipeline\<close>: \<^verbatim>\<open>run_grid_cycle\<close>, \<^verbatim>\<open>run_runner_cycle\<close>, \<^verbatim>\<open>should_stop\<close>, over any
    adapters.
  \<^item> \<^verbatim>\<open>Live_Loop\<close>: settings, \<^verbatim>\<open>demo_execution_session\<close>, one iteration, the waiting and the loop
    of the script; \<^verbatim>\<open>Record_Types\<close>: what all of it keeps of the records; \<^verbatim>\<open>Dry_Run\<close>: mocks and
    the dry-run executor.
  \<^item> \<^verbatim>\<open>Backtest_Ledger\<close>, \<^verbatim>\<open>Backtest_Data\<close>, \<^verbatim>\<open>Backtest_Engine\<close>: the bookkeeping, the
    statistics and the file of bars, the replay.
  \<^item> \<^verbatim>\<open>Loop_Liveness\<close>: the progress of the loop; \<^verbatim>\<open>Logging_Setup\<close>: the logging of a run and the
    version gate.

  The scripts, over the same operations (file names without \<^verbatim>\<open>run_demo_execution_\<close>):
  \<^item> \<^verbatim>\<open>Maintenance\<close>: \<^verbatim>\<open>reconcile_*\<close>, \<^verbatim>\<open>cancel_*\<close>, \<^verbatim>\<open>close_*\<close>, \<^verbatim>\<open>cleanup_*\<close>,
    \<^verbatim>\<open>retry_*\<close>; \<^verbatim>\<open>Smoke_Tests\<close>: the smoke tests, one cycle by hand, the dry run over live data, the
    verification of the adapters.
  \<^item> \<^verbatim>\<open>Inspection\<close>: the preflights, the status of listed tickets, investigations and probes of the
    history; \<^verbatim>\<open>Live_Reports\<close>: the performance monitor, the split by configuration, the checks of the
    loss switch, the comparison of symbols.
  \<^item> \<^verbatim>\<open>Launcher\<close>: \<^verbatim>\<open>run_metatrader_mcp_stdio.py\<close>, \<^verbatim>\<open>metatrader_mcp_extended_server.py\<close>,
    \<^verbatim>\<open>phase3_readonly_verification.py\<close>; \<^verbatim>\<open>Migration\<close>: the migration of the old store;
    \<^verbatim>\<open>Disconnect_Test\<close>: the test that kills the server.
  \<^item> \<^verbatim>\<open>Backtest_Studies\<close> and \<^verbatim>\<open>Cache_Seed\<close>: sweeps, validations and stress tests over cached bars,
    and the scripts that fill the cache.
  \<^item> \<^verbatim>\<open>Watched_Replay\<close>, \<^verbatim>\<open>Concurrency_Study\<close>, \<^verbatim>\<open>Edge_Experiments\<close>, \<^verbatim>\<open>Cost_Edge\<close>,
    \<^verbatim>\<open>Random_Walk\<close>, \<^verbatim>\<open>Seasonality\<close>: the experiments on concurrency, random signals, costs, random
    walks and sessions, with \<^verbatim>\<open>Py_Random\<close> and \<^verbatim>\<open>Py_Stats\<close> for the generator and the statistics
    they take from Python.

  \<^bold>\<open>Correspondence.\<close> A definition has the name of the function it models (a suffix or prefix where
  HOL has that name). A dataclass is a record, its fields with a prefix of their own; a class with
  mutable state is a record passed along; \<^verbatim>\<open>raise\<close> and \<^verbatim>\<open>except\<close> are the left part of a sum
  and the handlers of \<open>Prelude\<close>; \<^verbatim>\<open>async\<close> code is sequential, because the program awaits every
  call where it makes it. The state of the live program is \<open>live\<close>: the server's own state, the files
  of the store, the log of the calls made, the session flag and the number of looks at the clock.
  The result of a script is what it prints, without the wording.
  What is not under \<^verbatim>\<open>src/\<close> is a parameter: the answers of the server (any function of the call
  and of a state of any type), the clocks, the stop file, the processes of the machine, the functions
  of the C library. Texts of exceptions are not modelled, and log lines are left out, except where an
  experiment reads them.

  \<^bold>\<open>What is shown.\<close> Beside the lemmas of each theory:
  \<^item> safety of execution: a submission, a cancellation or a close makes only its own trading calls,
    only for a DEMO account and only in the posture that allows it; a confirmed MARKET order is on
    record before anything else can fail; no call passes the registry unclassified; a dry run calls
    no trading tool; a session opens in one mode only and never outlives its body;
  \<^item> bounds and termination of a run: the loop ends within the fuel given, reports at most 30 cycles
    and makes at most 120 trading calls, whatever server, clock and files do; it fails closed; and it
    runs all its cycles when nothing stops it and they succeed;
  \<^item> the cycles: exactly when a plan is made and what is in it, that no result and no exception of a
    side is lost, that the two strategies are isolated from each other;
  \<^item> the store: it refines a finite map, survives a crash between the two steps of a write, reads
    back what it wrote, fails loudly, and its records stay well typed through a whole run;
  \<^item> reconciliation: the report is a partition, and every explained ticket carries its evidence;
  \<^item> the backtest: a bar in closed form, no look-ahead, every ticket accounted for, no exit on the
    bar of the entry; statistics equal to their definitions; files of bars round trip;
  \<^item> strategies, sizing, guards, planning: bounds, orders, mirror images, exact conditions;
  \<^item> the scripts on the account: each maintenance script sends at most one call per ticket, what a
    reconciliation pass does with every stale record and that a preflight predicts it, the calls a
    smoke test can make, that inspections and reports only look, that a leftover stops the next test;
  \<^item> the processes: the credentials never reach a command line and the server runs for a demo account
    only, the verification client cannot trade, the disconnect test kills only what it started, the
    migration loses no record;
  \<^item> the studies: what is swept does not depend on the held-out window, a seed of the cache loses no
    bar, observing a replay does not change it, the counts read from the log are those of the ledger,
    and the statistics (runs, ranks, bands, p-values) are what they are defined to be.

  \<^bold>\<open>Where the code differs from its intent.\<close> Lemmas show it: \<open>plan_may_exceed_cap\<close> (the broker's
  minimum is applied after the cap), \<open>unparsable_attachment_unlabelled\<close>, \<open>zero_bars_start_at_the_end\<close>,
  \<open>circle_beside_root_passes\<close>, \<open>rerun_check_misses_open_records\<close> (a check of the loss switch trusts
  closed records only, the switch trusts all), \<open>format_is_no_level\<close>.

  \<^bold>\<open>Interfaces.\<close> \<open>record_map\<close> is the contract of the store, \<open>quiet_account\<close> what the executor needs of
  an account reader, \<open>quiet_reads\<close> what a cycle needs of its adapters to keep a relation, \<open>twin_adapters\<close>
  what two runs need to agree, \<open>effect\<close> a relation kept by composition, \<open>rounding\<close> what the float
  lemmas need of the rounding. Each is interpreted on the model: the file store, the adapters of the
  MCP client, those of the dry run and of the backtest.

  \<^bold>\<open>Bounds and fuel.\<close> The verification loops make 3 attempts, as in the source. The polled wait runs
  on fuel; with an interval of 300 seconds and steps of 5, the script's numbers, 61 is enough, and
  that is part of the theorem that the loop ends. The loop itself has a measure, the cycles left.
  The JSON parser and the search of a calendar day recurse on their input.

  \<^bold>\<open>Limits of the model.\<close> Floats have an unbounded exponent: no overflow, NaN or signed zero. A value
  of another JSON type than its annotation is refused, where Python would carry it along. Strings are
  bytes. The offset of an aware time is not kept, only its instant. A MARKET or LIMIT plan is a
  datatype, so the executor's refusal of any other order type has no case.

  \<^bold>\<open>Not modelled.\<close> The wording of what is printed and logged, the \<^verbatim>\<open>__init__.py\<close> files that
  only re-export, the time limits of the disconnect test, and what third-party packages, the operating
  system and the terminal do: they are parameters.
\<close>

end
